(* ===== verification/Prelude.thy ===== *)
theory Prelude
  imports Main "HOL-Library.AList" "HOL-Library.Sublist"
begin

text \<open>
  Shared material of the development: the values a Go function can end with, Go's 64-bit
  \<open>int\<close>, Go maps as association lists, and the generic list lemmas the components use.

  \<^item> \<open>'a go\<close> is the outcome of a Go call: it returns a value, or it panics.
  \<^item> A Go \<open>int\<close> is a HOL \<open>int\<close> with the wrap-around of two's complement written out by
    \<open>wrap64\<close> (the program is built for 64-bit platforms).
  \<^item> A Go map is an association list with distinct keys. Go leaves the iteration order of
    a map open; the order of the list stands for one such order, and \<open>map_of\<close> is the map.
\<close>

named_theorems go_simps \<open>rewrite rules that evaluate Go outcomes\<close>
named_theorems store_simps \<open>how the operations of the stores read back\<close>

subsection \<open>Outcomes of Go calls\<close>

datatype 'a go = Ret 'a | Panic string

primrec go_bind :: "'a go \<Rightarrow> ('a \<Rightarrow> 'b go) \<Rightarrow> 'b go" where
  "go_bind (Ret a) f = f a"
| "go_bind (Panic m) f = Panic m"

lemmas [go_simps] = go_bind.simps

lemma go_bind_Ret_iff [go_simps]:
  "go_bind m f = Ret b \<longleftrightarrow> (\<exists>a. m = Ret a \<and> f a = Ret b)"
  by (cases m) auto

lemma go_bind_assoc: "go_bind (go_bind m f) g = go_bind m (\<lambda>a. go_bind (f a) g)"
  by (cases m) auto

definition returns :: "'a go \<Rightarrow> bool" where
  "returns m \<longleftrightarrow> (case m of Ret _ \<Rightarrow> True | Panic _ \<Rightarrow> False)"

lemma returns_simps [simp]: "returns (Ret a)" "\<not> returns (Panic s)"
  by (simp_all add: returns_def)

lemma returns_iff: "returns m \<longleftrightarrow> (\<exists>a. m = Ret a)"
  by (cases m) auto

subsection \<open>Go's int on a 64-bit platform\<close>

definition MaxInt :: int where "MaxInt = 2 ^ 63 - 1"
definition MinInt :: int where "MinInt = - (2 ^ 63)"

definition wrap64 :: "int \<Rightarrow> int" where
  "wrap64 x = (x + 2 ^ 63) mod 2 ^ 64 - 2 ^ 63"

definition is_int64 :: "int \<Rightarrow> bool" where
  "is_int64 x \<longleftrightarrow> MinInt \<le> x \<and> x \<le> MaxInt"

definition go_div :: "int \<Rightarrow> int \<Rightarrow> int" where
  \<comment> \<open>integer division truncates towards zero\<close>
  "go_div a b = sgn a * sgn b * (\<bar>a\<bar> div \<bar>b\<bar>)"

lemma is_int64_wrap64: "is_int64 (wrap64 x)"
  by (simp add: is_int64_def wrap64_def MaxInt_def MinInt_def)

lemma wrap64_id [simp]: "is_int64 x \<Longrightarrow> wrap64 x = x"
  by (simp add: is_int64_def wrap64_def MaxInt_def MinInt_def)

lemma go_div_pos: "0 \<le> a \<Longrightarrow> 0 < b \<Longrightarrow> go_div a b = a div b"
  by (cases "a = 0") (simp_all add: go_div_def)

lemma go_div_le: "0 \<le> a \<Longrightarrow> 0 < b \<Longrightarrow> go_div a b \<le> a"
  by (simp add: go_div_pos) (metis div_by_1 int_one_le_iff_zero_less zdiv_mono2 zero_less_one)

lemma go_div_nonneg: "0 \<le> a \<Longrightarrow> 0 < b \<Longrightarrow> 0 \<le> go_div a b"
  by (simp add: go_div_pos pos_imp_zdiv_nonneg_iff)

text \<open>
  \<open>rand.Intn(n)\<close> and \<open>rand.Int31n(n)\<close> return the raw value they accept modulo \<open>n\<close> and
  panic for \<open>n \<le> 0\<close>; the raw value \<open>r\<close> is an argument.
\<close>

definition Intn :: "nat \<Rightarrow> int \<Rightarrow> int go" where
  "Intn r n = (if n \<le> 0 then Panic ''invalid argument to Intn'' else Ret (int r mod n))"

lemma Intn_bounds: "Intn r n = Ret i \<Longrightarrow> 0 \<le> i \<and> i < n"
  by (auto simp: Intn_def split: if_splits)

lemma Intn_pos: "0 < n \<Longrightarrow> Intn r n = Ret (int r mod n)"
  by (simp add: Intn_def)

subsection \<open>Go maps\<close>

type_synonym ('k, 'v) gomap = "('k \<times> 'v) list"

abbreviation keys :: "('k, 'v) gomap \<Rightarrow> 'k list" where
  "keys m \<equiv> map fst m"

definition is_map :: "('k, 'v) gomap \<Rightarrow> bool" where
  "is_map m \<longleftrightarrow> distinct (keys m)"

lemma is_map_Nil [simp]: "is_map []"
  by (simp add: is_map_def)

lemma is_map_update [simp]: "is_map m \<Longrightarrow> is_map (AList.update k v m)"
  by (simp add: is_map_def distinct_update)

lemma is_map_delete [simp]: "is_map m \<Longrightarrow> is_map (AList.delete k m)"
  by (simp add: is_map_def distinct_delete)

lemma gomap_update [store_simps]: "map_of (AList.update k v m) = (map_of m)(k \<mapsto> v)"
  by (rule update_conv')

lemma gomap_delete [store_simps]: "map_of (AList.delete k m) = (map_of m)(k := None)"
  by (rule delete_conv')

lemma is_map_map_of: "is_map m \<Longrightarrow> map_of m k = Some v \<longleftrightarrow> (k, v) \<in> set m"
  by (simp add: is_map_def)

lemma set_update_is_map:
  "is_map m \<Longrightarrow> set (AList.update k v m) = insert (k, v) {e \<in> set m. fst e \<noteq> k}"
proof (rule set_eqI)
  fix e assume "is_map m"
  then have "e \<in> set (AList.update k v m) \<longleftrightarrow> map_of (AList.update k v m) (fst e) = Some (snd e)"
    by (simp add: is_map_map_of)
  also have "\<dots> \<longleftrightarrow> e \<in> insert (k, v) {e \<in> set m. fst e \<noteq> k}"
    using \<open>is_map m\<close> by (cases e) (auto simp: store_simps is_map_map_of)
  finally show "e \<in> set (AList.update k v m) \<longleftrightarrow> e \<in> insert (k, v) {e \<in> set m. fst e \<noteq> k}" .
qed

lemma set_delete: "set (AList.delete k m) = {e \<in> set m. fst e \<noteq> k}"
  by (auto simp: AList.delete_eq)

lemma update_new: "k \<notin> fst ` set ls \<Longrightarrow> AList.update k v ls = ls @ [(k, v)]"
  by (induction ls) auto

lemma heap_update_neq:
  "(\<And>b. map_of m k = Some b \<Longrightarrow> b \<noteq> a) \<Longrightarrow>
   map_option (\<lambda>b. h[a := v] ! b) (map_of m k) = map_option (\<lambda>b. h ! b) (map_of m k)"
  by (cases "map_of m k") auto

subsection \<open>Lists\<close>

lemma filter_nonempty_iff: "filter P xs \<noteq> [] \<longleftrightarrow> (\<exists>x\<in>set xs. P x)"
  by (simp add: filter_empty_conv)

lemma nth_filter_set: "i < length (filter P xs) \<Longrightarrow> filter P xs ! i \<in> set xs \<and> P (filter P xs ! i)"
  using nth_mem [of i "filter P xs"] by simp

subsection \<open>Runs of a step relation\<close>

inductive run :: "('e \<Rightarrow> 's \<Rightarrow> 's \<Rightarrow> bool) \<Rightarrow> 's \<Rightarrow> 'e list \<Rightarrow> 's \<Rightarrow> bool" for step where
  run_nil: "run step s [] s"
| run_cons: "step e s s1 \<Longrightarrow> run step s1 es s' \<Longrightarrow> run step s (e # es) s'"

inductive_cases run_NilE [elim!]: "run step s [] s'"
inductive_cases run_ConsE: "run step s (e # es) s'"

lemma run_append: "run step s es s' \<Longrightarrow> run step s' fs s'' \<Longrightarrow> run step s (es @ fs) s''"
  by (induction rule: run.induct) (auto intro: run_cons)

locale step_invariant =
  fixes step :: "'e \<Rightarrow> 's \<Rightarrow> 's \<Rightarrow> bool" and inv :: "'s \<Rightarrow> bool" and allowed :: "'e \<Rightarrow> bool"
  assumes keeps: "inv s \<Longrightarrow> allowed e \<Longrightarrow> step e s s' \<Longrightarrow> inv s'"
begin

lemma run_keeps: "run step s es s' \<Longrightarrow> inv s \<Longrightarrow> \<forall>e\<in>set es. allowed e \<Longrightarrow> inv s'"
  by (induction rule: run.induct) (auto intro: keeps)

end

text \<open>
  A queue whose entries can be handled one by one, each leaving the queue and the rest of the
  world alone, can be emptied by handling each entry at most once.
\<close>

locale work_queue =
  fixes step :: "'e \<Rightarrow> 's \<Rightarrow> 's \<Rightarrow> bool" and inv :: "'s \<Rightarrow> bool" and queue :: "'s \<Rightarrow> 'k list" and handle :: "'k \<Rightarrow> 'e"
    and world :: "'s \<Rightarrow> 'c"
  assumes handled: "inv s \<Longrightarrow> k \<in> set (queue s) \<Longrightarrow>
    \<exists>s'. step (handle k) s s' \<and> inv s' \<and> queue s' = removeAll k (queue s) \<and> world s' = world s"
begin

lemma drained:
  "inv s \<Longrightarrow> \<exists>ks s'. run step s (map handle ks) s' \<and> length ks \<le> length (queue s) \<and> set ks \<subseteq> set (queue s) \<and>
     queue s' = [] \<and> world s' = world s \<and> inv s'"
proof (induction "length (queue s)" arbitrary: s rule: less_induct)
  case less
  show ?case
  proof (cases "queue s")
    case Nil
    with less(2) show ?thesis by (intro exI [of _ "[]"] exI [of _ s]) (simp add: run_nil)
  next
    case (Cons k ks)
    then have k: "k \<in> set (queue s)" by simp
    from handled [OF less(2) k] obtain s1 where s1:
      "step (handle k) s s1" "inv s1" "queue s1 = removeAll k (queue s)" "world s1 = world s" by blast
    with k have lt: "length (queue s1) < length (queue s)" by (simp add: length_removeAll_less)
    from less(1) [OF lt s1(2)] obtain ks' s' where "run step s1 (map handle ks') s'" "length ks' \<le> length (queue s1)"
      "set ks' \<subseteq> set (queue s1)" "queue s' = []" "world s' = world s1" "inv s'" by blast
    with s1 k lt show ?thesis by (intro exI [of _ "k # ks'"] exI [of _ s']) (auto intro: run_cons)
  qed
qed

end

end
