(* ===== verification/Go_Strings.thy ===== *)
theory Go_Strings
  imports Prelude
begin

text \<open>
  What the program uses of Go's packages \<open>strings\<close> and \<open>strconv\<close>. A Go string is a byte
  sequence, here \<open>string\<close>, a list of 8-bit characters. \<open>TrimSpace\<close> removes the UTF-8
  encodings of the Unicode white space characters, as Go does; \<open>Split\<close> is modelled for
  the one-byte separators the program uses; \<open>ToLower\<close> on the ASCII letters, which decides
  every comparison the program makes with its result (no other character is folded to a
  letter of \<^verbatim>\<open>text/event-stream\<close>).
\<close>

subsection \<open>Searching and splitting\<close>

definition HasPrefix :: "string \<Rightarrow> string \<Rightarrow> bool" where
  "HasPrefix s p = prefix p s"

definition TrimPrefix :: "string \<Rightarrow> string \<Rightarrow> string" where
  "TrimPrefix s p = (if HasPrefix s p then drop (length p) s else s)"

fun Contains :: "string \<Rightarrow> string \<Rightarrow> bool" where
  "Contains [] t = (t = [])"
| "Contains (c # s) t = (prefix t (c # s) \<or> Contains s t)"

fun IndexByte :: "string \<Rightarrow> char \<Rightarrow> int" where
  \<comment> \<open>the first position of a byte, \<open>-1\<close> when there is none\<close>
  "IndexByte [] c = -1"
| "IndexByte (x # s) c =
     (if x = c then 0 else let i = IndexByte s c in if i = -1 then -1 else i + 1)"

fun Split :: "string \<Rightarrow> char \<Rightarrow> string list" where
  "Split [] c = [[]]"
| "Split (x # s) c =
     (if x = c then [] # Split s c
      else case Split s c of [] \<Rightarrow> [[x]] | p # ps \<Rightarrow> (x # p) # ps)"

fun Join :: "string list \<Rightarrow> char \<Rightarrow> string" where
  "Join [] c = []"
| "Join [p] c = p"
| "Join (p # ps) c = p @ c # Join ps c"

subsection \<open>Trimming\<close>

definition white_space :: "string list" where
  \<comment> \<open>\<open>unicode.IsSpace\<close>: the UTF-8 encodings\<close>
  "white_space =
     [[CHR 0x09], [CHR 0x0A], [CHR 0x0B], [CHR 0x0C], [CHR 0x0D], [CHR 0x20],
      [CHR 0xC2, CHR 0x85], [CHR 0xC2, CHR 0xA0], [CHR 0xE1, CHR 0x9A, CHR 0x80],
      [CHR 0xE2, CHR 0x80, CHR 0x80], [CHR 0xE2, CHR 0x80, CHR 0x81],
      [CHR 0xE2, CHR 0x80, CHR 0x82], [CHR 0xE2, CHR 0x80, CHR 0x83],
      [CHR 0xE2, CHR 0x80, CHR 0x84], [CHR 0xE2, CHR 0x80, CHR 0x85],
      [CHR 0xE2, CHR 0x80, CHR 0x86], [CHR 0xE2, CHR 0x80, CHR 0x87],
      [CHR 0xE2, CHR 0x80, CHR 0x88], [CHR 0xE2, CHR 0x80, CHR 0x89],
      [CHR 0xE2, CHR 0x80, CHR 0x8A], [CHR 0xE2, CHR 0x80, CHR 0xA8],
      [CHR 0xE2, CHR 0x80, CHR 0xA9], [CHR 0xE2, CHR 0x80, CHR 0xAF],
      [CHR 0xE2, CHR 0x81, CHR 0x9F], [CHR 0xE3, CHR 0x80, CHR 0x80]]"

fun trim_left :: "string list \<Rightarrow> string \<Rightarrow> string" where
  "trim_left ws [] = []"
| "trim_left ws (c # s) =
     (case find (\<lambda>w. prefix w (c # s)) ws of
        None \<Rightarrow> c # s
      | Some w \<Rightarrow> trim_left ws (drop (length w - 1) s))"

definition trim_right :: "string list \<Rightarrow> string \<Rightarrow> string" where
  "trim_right ws s = rev (trim_left (map rev ws) (rev s))"

definition TrimSpace :: "string \<Rightarrow> string" where
  "TrimSpace s = trim_right white_space (trim_left white_space s)"

definition TrimRight :: "string \<Rightarrow> string \<Rightarrow> string" where
  "TrimRight s cutset = rev (dropWhile (\<lambda>c. c \<in> set cutset) (rev s))"

definition Trim :: "string \<Rightarrow> string \<Rightarrow> string" where
  "Trim s cutset = TrimRight (dropWhile (\<lambda>c. c \<in> set cutset) s) cutset"

definition lower_byte :: "char \<Rightarrow> char" where
  "lower_byte c = (let n = of_char c :: nat in if 65 \<le> n \<and> n \<le> 90 then char_of (n + 32) else c)"

definition ToLower :: "string \<Rightarrow> string" where
  "ToLower s = map lower_byte s"

subsection \<open>Numbers\<close>

definition digit_char :: "nat \<Rightarrow> char" where
  "digit_char d = char_of (48 + d)"

definition digit_val :: "char \<Rightarrow> nat option" where
  "digit_val c = (let n = of_char c :: nat in if 48 \<le> n \<and> n \<le> 57 then Some (n - 48) else None)"

fun decimal :: "nat \<Rightarrow> string" where
  "decimal n = (if n < 10 then [digit_char n] else decimal (n div 10) @ [digit_char (n mod 10)])"

declare decimal.simps [simp del]

definition Itoa :: "int \<Rightarrow> string" where
  "Itoa n = (if n < 0 then CHR ''-'' # decimal (nat (- n)) else decimal (nat n))"

fun parse_digits :: "nat \<Rightarrow> string \<Rightarrow> nat option" where
  "parse_digits acc [] = Some acc"
| "parse_digits acc (c # s) =
     (case digit_val c of None \<Rightarrow> None | Some d \<Rightarrow> parse_digits (10 * acc + d) s)"

datatype num_error = ErrSyntax | ErrRange

definition Atoi :: "string \<Rightarrow> int \<times> num_error option" where
  \<comment> \<open>on a syntax error the value is 0, out of range it is the nearest \<open>int\<close>\<close>
  "Atoi s =
     (let neg = (s \<noteq> [] \<and> hd s = CHR ''-'');
          ds = (if s \<noteq> [] \<and> (hd s = CHR ''-'' \<or> hd s = CHR ''+'') then tl s else s)
      in if ds = [] then (0, Some ErrSyntax)
         else case parse_digits 0 ds of
             None \<Rightarrow> (0, Some ErrSyntax)
           | Some n \<Rightarrow>
               let v = (if neg then - int n else int n)
               in if v < MinInt then (MinInt, Some ErrRange)
                  else if MaxInt < v then (MaxInt, Some ErrRange)
                  else (v, None))"

subsection \<open>Lemmas\<close>

lemma Contains_iff: "Contains s t \<longleftrightarrow> sublist t s"
  by (induction s) (auto simp: sublist_Cons_right)

lemma Split_not_Nil [simp]: "Split s c \<noteq> []"
  by (induction s) (auto split: list.splits)

lemma Split_plain: "c \<notin> set s \<Longrightarrow> Split s c = [s]"
  by (induction s) auto

lemma Split_append: "c \<notin> set p \<Longrightarrow> Split (p @ c # s) c = p # Split s c"
  by (induction p) auto

lemma Split_Join: "ps \<noteq> [] \<Longrightarrow> \<forall>p\<in>set ps. c \<notin> set p \<Longrightarrow> Split (Join ps c) c = ps"
proof (induction ps)
  case (Cons p ps)
  then show ?case by (cases ps) (auto simp: Split_plain Split_append)
qed simp

lemma Join_Split: "Join (Split s c) c = s"
proof (induction s)
  case (Cons x s)
  obtain p ps where s: "Split s c = p # ps" by (cases "Split s c") auto
  with Cons show ?case by (cases ps) auto
qed simp

lemma Split_pieces: "p \<in> set (Split s c) \<Longrightarrow> c \<notin> set p"
proof (induction s arbitrary: p)
  case (Cons x s)
  obtain q qs where s: "Split s c = q # qs" by (cases "Split s c") auto
  with Cons.prems Cons.IH [of q] Cons.IH [of p] show ?case by (auto split: if_splits)
qed simp

lemma IndexByte_ge: "-1 \<le> IndexByte s c"
  by (induction s) (auto simp: Let_def)

lemma IndexByte_none: "IndexByte s c = -1 \<longleftrightarrow> c \<notin> set s"
proof (induction s)
  case (Cons x s)
  then show ?case using IndexByte_ge [of s c] by (auto simp: Let_def)
qed simp

lemma IndexByte_append: "c \<notin> set p \<Longrightarrow> IndexByte (p @ c # s) c = int (length p)"
  by (induction p) (auto simp: Let_def)

lemma IndexByte_append2:
  "c \<notin> set p \<Longrightarrow> c \<in> set s \<Longrightarrow> IndexByte (p @ s) c = int (length p) + IndexByte s c"
  using IndexByte_ge [of s c] by (induction p) (auto simp: Let_def IndexByte_none)

lemma trim_left_id: "\<forall>w\<in>set ws. \<not> prefix w s \<Longrightarrow> trim_left ws s = s"
  by (cases s) (auto split: option.splits simp: find_Some_iff dest!: nth_mem)

lemma length_trim_left: "length (trim_left ws s) \<le> length s"
  by (induction ws s rule: trim_left.induct)
    (auto split: option.splits intro: le_trans)

definition plain_byte :: "char \<Rightarrow> bool" where
  \<comment> \<open>the printable ASCII characters but the space\<close>
  "plain_byte c \<longleftrightarrow> (let n = of_char c :: nat in 33 \<le> n \<and> n \<le> 126)"

lemma white_space_edges:
  "w \<in> set white_space \<Longrightarrow> w \<noteq> [] \<and> \<not> plain_byte (hd w) \<and> \<not> plain_byte (last w)"
  by (auto simp: white_space_def plain_byte_def Let_def)

lemma TrimSpace_id: "s = [] \<or> plain_byte (hd s) \<and> plain_byte (last s) \<Longrightarrow> TrimSpace s = s"
proof -
  assume a: "s = [] \<or> plain_byte (hd s) \<and> plain_byte (last s)"
  have "\<not> prefix w s" if "w \<in> set white_space" for w
    using white_space_edges [OF that] a by (cases w; cases s) auto
  then have l: "trim_left white_space s = s" by (intro trim_left_id) auto
  have "\<not> prefix (rev w) (rev s)" if "w \<in> set white_space" for w
    using white_space_edges [OF that] a
    by (cases w rule: rev_cases; cases s rule: rev_cases) auto
  then have "trim_left (map rev white_space) (rev s) = rev s" by (intro trim_left_id) auto
  with l show ?thesis by (simp add: TrimSpace_def trim_right_def)
qed

lemma TrimSpace_plain: "\<forall>c\<in>set s. plain_byte c \<Longrightarrow> TrimSpace s = s"
  by (rule TrimSpace_id) (cases s; auto)

lemma digit_val_char: "d < 10 \<Longrightarrow> digit_val (digit_char d) = Some d"
  by (simp add: digit_val_def digit_char_def Let_def)

lemma parse_digits_append:
  "parse_digits acc (s @ t) =
     (case parse_digits acc s of None \<Rightarrow> None | Some n \<Rightarrow> parse_digits n t)"
  by (induction acc s rule: parse_digits.induct) (auto split: option.splits)

lemma parse_digits_decimal: "parse_digits 0 (decimal n) = Some n"
proof (induction n rule: decimal.induct)
  case (1 n)
  show ?case
  proof (cases "n < 10")
    case True
    then show ?thesis by (simp add: decimal.simps [of n] digit_val_char)
  next
    case False
    with 1 show ?thesis
      by (simp add: decimal.simps [of n] parse_digits_append digit_val_char)
  qed
qed

lemma decimal_not_Nil [simp]: "decimal n \<noteq> []"
  by (subst decimal.simps) simp

lemma digit_char_plain: "d < 10 \<Longrightarrow> plain_byte (digit_char d) \<and> digit_char d \<notin> {CHR ''-'', CHR ''+'', CHR '':''}"
  by (auto simp: plain_byte_def digit_char_def Let_def of_char_eq_iff [symmetric, where 'a = nat] simp del: of_char_eq_iff)

lemma decimal_chars: "c \<in> set (decimal n) \<Longrightarrow> \<exists>d<10. c = digit_char d"
proof (induction n rule: decimal.induct)
  case (1 n)
  show ?case
  proof (cases "n < 10")
    case True
    with 1 show ?thesis by (auto simp: decimal.simps [of n])
  next
    case False
    with 1 show ?thesis
      by (auto simp: decimal.simps [of n] intro: exI [of _ "n mod 10"])
  qed
qed

lemma Itoa_plain: "c \<in> set (Itoa n) \<Longrightarrow> plain_byte c"
  using decimal_chars [of c] digit_char_plain
  by (auto simp: Itoa_def plain_byte_def split: if_splits)

lemma hd_decimal: "hd (decimal n) \<notin> {CHR ''-'', CHR ''+''}"
proof -
  have "hd (decimal n) \<in> set (decimal n)" by simp
  from decimal_chars [OF this] obtain d where "d < 10" "hd (decimal n) = digit_char d" by auto
  with digit_char_plain [of d] show ?thesis by simp
qed

lemma Atoi_Itoa: "is_int64 n \<Longrightarrow> Atoi (Itoa n) = (n, None)"
  using hd_decimal [of "nat n"]
  by (auto simp: Atoi_def Itoa_def Let_def parse_digits_decimal is_int64_def)

lemma Itoa_0: "Itoa 0 = ''0''"
  by code_simp

lemma TrimSpace_space: "s \<noteq> [] \<Longrightarrow> \<forall>c\<in>set s. plain_byte c \<Longrightarrow> TrimSpace (CHR '' '' # s) = s"
proof -
  assume s: "s \<noteq> []" "\<forall>c\<in>set s. plain_byte c"
  have "trim_left white_space (CHR '' '' # s) = trim_left white_space s"
    by (simp add: white_space_def)
  with TrimSpace_plain [OF s(2)] show ?thesis by (simp add: TrimSpace_def)
qed

lemma plain_not_break: "plain_byte c \<Longrightarrow> c \<noteq> CHR 0x0A \<and> c \<noteq> CHR 0x0D \<and> c \<noteq> CHR '' ''"
  by (auto simp: plain_byte_def)

end
