(* ===== verification/Api_Types.thy ===== *)
theory Api_Types
  imports Prelude Go_Strings "HOL-Library.Word"
begin

text \<open>
  The data of the program: the custom resources \<open>InferenceModel\<close> and \<open>InferencePool\<close>
  (api/v1alpha2), the parts of the Kubernetes objects the code reads, and the errors of
  pkg/epp/util/error. The validation markers of the resources are predicates
  (\<open>valid_InferenceModelSpec\<close>, \<open>valid_InferencePoolSpec\<close>): what the API server admits.

  A \<open>metav1.Time\<close> is the number of seconds since the zero time, which is 0.
\<close>

subsection \<open>Kubernetes objects\<close>

record NamespacedName =
  nn_Namespace :: string
  nn_Name :: string

record ObjectMeta =
  Name :: string
  Namespace :: string
  Labels :: "(string, string) gomap"
  CreationTimestamp :: int
  DeletionTimestamp :: "int option"

definition time_Before :: "int \<Rightarrow> int \<Rightarrow> bool" where
  "time_Before t u \<longleftrightarrow> t < u"

definition time_IsZero :: "int option \<Rightarrow> bool" where
  "time_IsZero t \<longleftrightarrow> (case t of None \<Rightarrow> True | Some s \<Rightarrow> s = 0)"

record PodCondition =
  cond_Type :: string
  cond_Status :: string

record corePod =
  pod_meta :: ObjectMeta
  PodIP :: string
  Conditions :: "PodCondition list"

abbreviation pod_nn :: "corePod \<Rightarrow> NamespacedName" where
  "pod_nn p \<equiv> \<lparr>nn_Namespace = Namespace (pod_meta p), nn_Name = Name (pod_meta p)\<rparr>"

subsection \<open>shared_types.go\<close>

text \<open>The string types of the API, with what their validation patterns admit.\<close>

definition alnum_lower :: "char \<Rightarrow> bool" where
  "alnum_lower c \<longleftrightarrow> c \<in> set ''abcdefghijklmnopqrstuvwxyz0123456789''"

definition letter :: "char \<Rightarrow> bool" where
  "letter c \<longleftrightarrow> c \<in> set ''abcdefghijklmnopqrstuvwxyzABCDEFGHIJKLMNOPQRSTUVWXYZ''"

definition alnum :: "char \<Rightarrow> bool" where
  "alnum c \<longleftrightarrow> letter c \<or> c \<in> set ''0123456789''"

definition dns_label :: "string \<Rightarrow> bool" where
  \<comment> \<open>\<open>[a-z0-9]([-a-z0-9]*[a-z0-9])?\<close>\<close>
  "dns_label s \<longleftrightarrow> s \<noteq> [] \<and> alnum_lower (hd s) \<and> alnum_lower (last s) \<and>
     list_all (\<lambda>c. alnum_lower c \<or> c = CHR ''-'') s"

definition valid_Group :: "string \<Rightarrow> bool" where
  "valid_Group s \<longleftrightarrow> length s \<le> 253 \<and> (s = [] \<or> list_all dns_label (Split s CHR ''.''))"

definition valid_Kind :: "string \<Rightarrow> bool" where
  "valid_Kind s \<longleftrightarrow> 1 \<le> length s \<and> length s \<le> 63 \<and> letter (hd s) \<and> alnum (last s) \<and>
     list_all (\<lambda>c. alnum c \<or> c = CHR ''-'') s"

definition valid_ObjectName :: "string \<Rightarrow> bool" where
  "valid_ObjectName s \<longleftrightarrow> 1 \<le> length s \<and> length s \<le> 253"

definition valid_PortNumber :: "32 word \<Rightarrow> bool" where
  "valid_PortNumber p \<longleftrightarrow> 1 \<le> sint p \<and> sint p \<le> 65535"

definition valid_LabelValue :: "string \<Rightarrow> bool" where
  "valid_LabelValue s \<longleftrightarrow> length s \<le> 63 \<and>
     (s = [] \<or> alnum (hd s) \<and> alnum (last s) \<and> list_all (\<lambda>c. alnum c \<or> c \<in> set ''-_.'') s)"

subsection \<open>inferencemodel_types.go\<close>

record metaCondition =
  mc_Type :: string
  mc_Status :: string
  mc_Reason :: string
  mc_Message :: string
  mc_LastTransitionTime :: int

record TargetModel =
  tm_Name :: string
  Weight :: "32 word option"

record PoolObjectReference =
  ref_Group :: string
  ref_Kind :: string
  ref_Name :: string

record InferenceModelSpec =
  ModelName :: string
  Criticality :: "string option"
  TargetModels :: "TargetModel list"
  PoolRef :: PoolObjectReference

record InferenceModelStatus =
  ms_Conditions :: "metaCondition list"

record InferenceModel =
  model_meta :: ObjectMeta
  model_Spec :: InferenceModelSpec
  model_Status :: InferenceModelStatus

definition Critical :: string where "Critical = ''Critical''"
definition Standard :: string where "Standard = ''Standard''"
definition Sheddable :: string where "Sheddable = ''Sheddable''"

definition ModelConditionAccepted :: string where "ModelConditionAccepted = ''Accepted''"
definition ModelReasonAccepted :: string where "ModelReasonAccepted = ''Accepted''"
definition ModelReasonNameInUse :: string where "ModelReasonNameInUse = ''ModelNameInUse''"
definition ModelReasonPending :: string where "ModelReasonPending = ''Pending''"

definition valid_TargetModel :: "TargetModel \<Rightarrow> bool" where
  "valid_TargetModel t \<longleftrightarrow> length (tm_Name t) \<le> 253 \<and>
     (case Weight t of None \<Rightarrow> True | Some w \<Rightarrow> 1 \<le> sint w \<and> sint w \<le> 1000000)"

definition valid_TargetModels :: "TargetModel list \<Rightarrow> bool" where
  \<comment> \<open>MaxItems=10; weights set for all or for none\<close>
  "valid_TargetModels ts \<longleftrightarrow>
     length ts \<le> 10 \<and> list_all valid_TargetModel ts \<and>
     (list_all (\<lambda>t. Weight t \<noteq> None) ts \<or> list_all (\<lambda>t. Weight t = None) ts)"

definition valid_PoolRef :: "PoolObjectReference \<Rightarrow> bool" where
  "valid_PoolRef r \<longleftrightarrow> valid_Group (ref_Group r) \<and> valid_Kind (ref_Kind r) \<and> valid_ObjectName (ref_Name r)"

definition valid_InferenceModelSpec :: "InferenceModelSpec \<Rightarrow> bool" where
  "valid_InferenceModelSpec s \<longleftrightarrow> length (ModelName s) \<le> 256 \<and>
     (case Criticality s of None \<Rightarrow> True | Some c \<Rightarrow> c \<in> {Critical, Standard, Sheddable}) \<and>
     valid_TargetModels (TargetModels s) \<and> valid_PoolRef (PoolRef s)"

abbreviation model_nn :: "InferenceModel \<Rightarrow> NamespacedName" where
  "model_nn m \<equiv> \<lparr>nn_Namespace = Namespace (model_meta m), nn_Name = Name (model_meta m)\<rparr>"

subsection \<open>inferencepool_types.go\<close>

record ExtensionReference =
  ext_Group :: "string option"
  ext_Kind :: "string option"
  ext_Name :: string
  ext_PortNumber :: "32 word option"

record ExtensionConnection =
  FailureMode :: "string option"

definition FailOpen :: string where "FailOpen = ''FailOpen''"
definition FailClose :: string where "FailClose = ''FailClose''"

record Extension =
  Extension_Reference :: ExtensionReference
  Extension_Connection :: ExtensionConnection

record EndpointPickerConfig =
  ExtensionRef :: "Extension option"

record InferencePoolSpec =
  Selector :: "(string, string) gomap"
  TargetPortNumber :: "32 word"
  PickerConfig :: EndpointPickerConfig

record ObjectReference =
  or_Kind :: string
  or_Namespace :: string
  or_Name :: string

record PoolStatus =
  GatewayRef :: ObjectReference
  ps_Conditions :: "metaCondition list"

record InferencePoolStatus =
  Parents :: "PoolStatus list"

record InferencePool =
  pool_meta :: ObjectMeta
  pool_Spec :: InferencePoolSpec
  pool_Status :: InferencePoolStatus

definition InferencePoolConditionAccepted :: string where
  "InferencePoolConditionAccepted = ''Accepted''"
definition InferencePoolReasonNotSupportedByGateway :: string where
  "InferencePoolReasonNotSupportedByGateway = ''NotSupportedByGateway''"
definition InferencePoolConditionResolvedRefs :: string where
  "InferencePoolConditionResolvedRefs = ''ResolvedRefs''"
definition InferencePoolReasonInvalidExtensionRef :: string where
  "InferencePoolReasonInvalidExtensionRef = ''InvalidExtensionRef''"

definition valid_InferencePoolSpec :: "InferencePoolSpec \<Rightarrow> bool" where
  "valid_InferencePoolSpec s \<longleftrightarrow>
     valid_PortNumber (TargetPortNumber s) \<and> list_all (\<lambda>(k, v). valid_LabelValue v) (Selector s)"

subsection \<open>Errors\<close>

text \<open>
  \<open>EppError\<close> is \<open>errutil.Error\<close>; \<open>StatusError\<close> a gRPC status; \<open>PlainError\<close> every other
  error value (\<open>errors.New\<close>, \<open>fmt.Errorf\<close>), with its message; \<open>ContextCanceled\<close> is
  the sentinel \<open>context.Canceled\<close>.
\<close>

datatype grpc_code = Canceled | UnknownCode | Unimplemented

datatype error =
    EppError string string
  | StatusError grpc_code string
  | PlainError string
  | ContextCanceled

definition UnknownErr :: string where "UnknownErr = ''Unknown''"
definition BadRequest :: string where "BadRequest = ''BadRequest''"
definition Internal :: string where "Internal = ''Internal''"
definition ModelServerError :: string where "ModelServerError = ''ModelServerError''"
definition BadConfiguration :: string where "BadConfiguration = ''BadConfiguration''"
definition InferencePoolResourceExhausted :: string where
  "InferencePoolResourceExhausted = ''InferencePoolResourceExhausted''"

lemmas error_codes = UnknownErr_def BadRequest_def Internal_def ModelServerError_def
  BadConfiguration_def InferencePoolResourceExhausted_def

fun error_Error :: "error \<Rightarrow> string" where
  "error_Error (EppError c m) = ''inference gateway: '' @ c @ '' - '' @ m"
| "error_Error (StatusError c m) = m"
| "error_Error (PlainError m) = m"
| "error_Error ContextCanceled = ''context canceled''"

fun CanonicalCode :: "error \<Rightarrow> string" where
  "CanonicalCode (EppError c m) = c"
| "CanonicalCode _ = UnknownErr"

fun status_Code :: "error \<Rightarrow> grpc_code" where
  "status_Code (StatusError c m) = c"
| "status_Code _ = UnknownCode"

end
