(* ===== verification/Float64.thy ===== *)
theory Float64
  imports Complex_Main Prelude
begin

text \<open>
  Go's \<open>float64\<close>: IEEE 754 binary64 with round to nearest, ties to even. A finite value is
  the rational number it stands for; the two zeros are one value, since no code of the
  program tells them apart (it compares and adds, and divides only by positive counts).
  \<open>round64\<close> rounds a rational to the nearest representable value, and the operations round
  the exact result. The lemmas that matter to the scheduler are that rounding is monotone
  and keeps representable values, so that a threshold computed in floating point never
  falls below the minimum it was computed from.
\<close>

datatype f64 = NaN | PInf | NInf | Fin rat

subsection \<open>Rounding\<close>

definition half_even :: "rat \<Rightarrow> int" where
  \<comment> \<open>the nearest integer, ties to the even one\<close>
  "half_even x =
     (let f = \<lfloor>x\<rfloor>; d = x - of_int f
      in if d < 1 / 2 then f else if 1 / 2 < d then f + 1 else if even f then f else f + 1)"

abbreviation pow2 :: "int \<Rightarrow> rat" where
  "pow2 e \<equiv> 2 powi e"

function int_log2 :: "int \<Rightarrow> int" where
  "int_log2 n = (if n \<le> 1 then 0 else 1 + int_log2 (n div 2))"
  by pat_completeness auto
termination
  by (relation "measure nat") auto

declare int_log2.simps [simp del]

definition ilog2 :: "rat \<Rightarrow> int" where
  \<comment> \<open>the exponent of a positive rational: \<open>pow2 (ilog2 x) \<le> x < pow2 (ilog2 x + 1)\<close>\<close>
  "ilog2 x = (if 1 \<le> x then int_log2 \<lfloor>x\<rfloor> else - (int_log2 (\<lceil>1 / x\<rceil> - 1) + 1))"

definition ulp_exp :: "rat \<Rightarrow> int" where
  \<comment> \<open>the exponent of the last place: 53 significant bits, none below \<open>2^-1074\<close>\<close>
  "ulp_exp x = max (ilog2 x - 52) (-1074)"

definition round_mag :: "rat \<Rightarrow> rat" where
  "round_mag x = of_int (half_even (x / pow2 (ulp_exp x))) * pow2 (ulp_exp x)"

definition MaxFloat :: rat where
  "MaxFloat = (2 ^ 53 - 1) * 2 ^ 971"

definition round_sgn :: "rat \<Rightarrow> rat" where
  "round_sgn x = (if x = 0 then 0 else if 0 < x then round_mag x else - round_mag (- x))"

definition round64 :: "rat \<Rightarrow> f64" where
  "round64 x = (if MaxFloat < round_sgn x then PInf
                else if round_sgn x < - MaxFloat then NInf else Fin (round_sgn x))"

subsection \<open>Operations\<close>

fun f64_le :: "f64 \<Rightarrow> f64 \<Rightarrow> bool" where
  "f64_le NaN _ = False"
| "f64_le _ NaN = False"
| "f64_le NInf _ = True"
| "f64_le _ PInf = True"
| "f64_le (Fin a) (Fin b) = (a \<le> b)"
| "f64_le _ _ = False"

fun f64_lt :: "f64 \<Rightarrow> f64 \<Rightarrow> bool" where
  "f64_lt NaN _ = False"
| "f64_lt _ NaN = False"
| "f64_lt NInf b = (b \<noteq> NInf)"
| "f64_lt (Fin a) (Fin b) = (a < b)"
| "f64_lt (Fin a) PInf = True"
| "f64_lt _ _ = False"

fun f64_add :: "f64 \<Rightarrow> f64 \<Rightarrow> f64" where
  "f64_add NaN _ = NaN"
| "f64_add _ NaN = NaN"
| "f64_add PInf NInf = NaN"
| "f64_add NInf PInf = NaN"
| "f64_add PInf _ = PInf"
| "f64_add _ PInf = PInf"
| "f64_add NInf _ = NInf"
| "f64_add _ NInf = NInf"
| "f64_add (Fin a) (Fin b) = round64 (a + b)"

fun f64_neg :: "f64 \<Rightarrow> f64" where
  "f64_neg NaN = NaN"
| "f64_neg PInf = NInf"
| "f64_neg NInf = PInf"
| "f64_neg (Fin a) = Fin (- a)"

definition f64_sub :: "f64 \<Rightarrow> f64 \<Rightarrow> f64" where
  "f64_sub a b = f64_add a (f64_neg b)"

fun f64_div_pos :: "f64 \<Rightarrow> rat \<Rightarrow> f64" where
  \<comment> \<open>division by a positive finite value, the only division of the program\<close>
  "f64_div_pos NaN d = NaN"
| "f64_div_pos PInf d = PInf"
| "f64_div_pos NInf d = NInf"
| "f64_div_pos (Fin a) d = round64 (a / d)"

definition float64_of_int :: "int \<Rightarrow> f64" where
  "float64_of_int n = round64 (of_int n)"

definition MaxFloat64 :: f64 where
  "MaxFloat64 = Fin MaxFloat"

definition f64_to_int :: "(f64 \<Rightarrow> int) \<Rightarrow> f64 \<Rightarrow> int" where
  \<comment> \<open>\<open>int(v)\<close> truncates towards zero. Where the result does not fit (and for NaN and the
     infinities) Go leaves the value to the platform, here the parameter \<open>conv\<close>.\<close>
  "f64_to_int conv v =
     (case v of Fin a \<Rightarrow> let t = (if 0 \<le> a then \<lfloor>a\<rfloor> else \<lceil>a\<rceil>)
                        in if is_int64 t then t else conv v
      | _ \<Rightarrow> conv v)"

definition is_f64 :: "f64 \<Rightarrow> bool" where
  \<comment> \<open>a value that occurs: rounding leaves it unchanged\<close>
  "is_f64 v \<longleftrightarrow> (case v of Fin a \<Rightarrow> round64 a = Fin a | _ \<Rightarrow> True)"

subsection \<open>Rounding is monotone and keeps representable values\<close>

lemma int_log2_bounds:
  "1 \<le> n \<Longrightarrow> 0 \<le> int_log2 n \<and> 2 ^ nat (int_log2 n) \<le> n \<and> n < 2 ^ nat (int_log2 n + 1)"
proof (induction n rule: int_log2.induct)
  case (1 n)
  show ?case
  proof (cases "n \<le> 1")
    case True
    with "1.prems" have "n = 1" by simp
    then show ?thesis by (simp add: int_log2.simps [of 1])
  next
    case False
    let ?k = "int_log2 (n div 2)"
    from False "1.IH" have IH: "0 \<le> ?k" "2 ^ nat ?k \<le> n div 2" "n div 2 < 2 ^ nat (?k + 1)"
      by auto
    have s: "nat (1 + ?k) = Suc (nat ?k)" "nat (1 + ?k + 1) = Suc (nat (?k + 1))"
      using IH(1) by auto
    have "2 * 2 ^ nat ?k \<le> n" "n < 2 * 2 ^ nat (?k + 1)"
      using IH(2,3) by linarith+
    with False IH(1) s show ?thesis by (simp add: int_log2.simps [of n])
  qed
qed

lemma powi_nat: "0 \<le> k \<Longrightarrow> pow2 k = of_int (2 ^ nat k)"
  by (simp add: power_int_def)

lemma ilog2_bounds:
  assumes "0 < x"
  shows "pow2 (ilog2 x) \<le> x \<and> x < pow2 (ilog2 x + 1)"
proof (cases "1 \<le> x")
  case True
  let ?n = "\<lfloor>x\<rfloor>"
  from True have b: "0 \<le> int_log2 ?n" "2 ^ nat (int_log2 ?n) \<le> ?n" "?n < 2 ^ nat (int_log2 ?n + 1)"
    using int_log2_bounds [of ?n] by auto
  have "of_int (2 ^ nat (int_log2 ?n)) \<le> x"
    using b(2) by (simp add: le_floor_iff)
  moreover have "x < of_int (2 ^ nat (int_log2 ?n + 1))"
    using b(3) by (simp only: floor_less_iff)
  ultimately show ?thesis using True b(1) by (simp only: ilog2_def if_True powi_nat)
next
  case False
  let ?n = "\<lceil>1 / x\<rceil>"
  from False assms have "1 < 1 / x" by simp
  then have "1 < ?n" by linarith
  then have b: "0 \<le> int_log2 (?n - 1)" "2 ^ nat (int_log2 (?n - 1)) \<le> ?n - 1"
      "?n - 1 < 2 ^ nat (int_log2 (?n - 1) + 1)"
    using int_log2_bounds [of "?n - 1"] by auto
  let ?k = "int_log2 (?n - 1)"
  have lo: "of_int (2 ^ nat ?k) < 1 / x"
    using b(2) by (simp only: less_ceiling_iff [symmetric])
  have hi: "1 / x \<le> of_int (2 ^ nat (?k + 1))"
    using b(3) by (simp only: ceiling_le_iff [symmetric])
  have "pow2 (- (?k + 1)) = 1 / pow2 (?k + 1)" "pow2 (- (?k + 1) + 1) = 1 / pow2 ?k"
    by (simp_all only: power_int_minus divide_inverse mult_1_left) (simp add: power_int_minus)
  moreover have "1 / pow2 (?k + 1) \<le> x" "x < 1 / pow2 ?k"
    using lo hi assms b(1) by (simp_all add: powi_nat field_simps)
  ultimately show ?thesis using False by (simp add: ilog2_def)
qed

lemma pow2_mono: "i \<le> j \<Longrightarrow> pow2 i \<le> pow2 j"
  by (rule power_int_increasing) auto

lemma pow2_less_cancel: "pow2 i < pow2 j \<Longrightarrow> i < j"
  using pow2_mono [of j i] by linarith

lemma ilog2_mono: "0 < x \<Longrightarrow> x \<le> y \<Longrightarrow> ilog2 x \<le> ilog2 y"
proof -
  assume "0 < x" "x \<le> y"
  then have "pow2 (ilog2 x) < pow2 (ilog2 y + 1)"
    using ilog2_bounds [of x] ilog2_bounds [of y] by simp
  then show ?thesis using pow2_less_cancel by fastforce
qed

lemma half_even_mono: "x \<le> y \<Longrightarrow> half_even x \<le> half_even y"
proof -
  assume xy: "x \<le> y"
  then have f: "\<lfloor>x\<rfloor> \<le> \<lfloor>y\<rfloor>" by (rule floor_mono)
  show ?thesis
  proof (cases "\<lfloor>x\<rfloor> = \<lfloor>y\<rfloor>")
    case True
    with xy show ?thesis by (auto simp: half_even_def Let_def)
  next
    case False
    with f have "\<lfloor>x\<rfloor> + 1 \<le> \<lfloor>y\<rfloor>" by simp
    then show ?thesis by (auto simp: half_even_def Let_def)
  qed
qed

lemma half_even_of_int [simp]: "half_even (of_int n) = n"
  by (simp add: half_even_def)

lemma half_even_le: "x \<le> of_int n \<Longrightarrow> half_even x \<le> n"
  using half_even_mono [of x "of_int n"] by simp

lemma half_even_ge: "of_int n \<le> x \<Longrightarrow> n \<le> half_even x"
  using half_even_mono [of "of_int n" x] by simp

lemma of_int_le_pow53: "n \<le> 2 ^ 53 \<Longrightarrow> (of_int n :: rat) \<le> 2 ^ 53"
  using of_int_le_iff [of n "2 ^ 53", where 'a = rat] by simp

lemma ulp_exp_mono: "0 < x \<Longrightarrow> x \<le> y \<Longrightarrow> ulp_exp x \<le> ulp_exp y"
  using ilog2_mono [of x y] by (simp add: ulp_exp_def)

lemma round_mag_mono:
  assumes "0 < x" "x \<le> y"
  shows "round_mag x \<le> round_mag y"
proof (cases "ulp_exp x = ulp_exp y")
  case True
  have "x / pow2 (ulp_exp y) \<le> y / pow2 (ulp_exp y)"
    using assms by (simp add: divide_right_mono)
  then show ?thesis
    using True by (simp add: round_mag_def half_even_mono)
next
  case False
  with ulp_exp_mono [OF assms] have lt: "ulp_exp x < ulp_exp y" by simp
  then have ey: "ulp_exp y = ilog2 y - 52" and ex: "ilog2 x - 52 \<le> ulp_exp x"
    by (auto simp: ulp_exp_def)
  \<comment> \<open>the magnitude of \<open>x\<close> rounds to at most the power of two at the bottom of \<open>y\<close>'s binade\<close>
  have "x < pow2 (ulp_exp x + 53)"
    using ilog2_bounds [of x] assms ex pow2_mono [of "ilog2 x + 1" "ulp_exp x + 53"] by simp
  then have "x / pow2 (ulp_exp x) \<le> of_int (2 ^ 53)"
    by (simp add: power_int_add field_simps)
  then have "half_even (x / pow2 (ulp_exp x)) \<le> 2 ^ 53"
    by (rule half_even_le)
  then have "round_mag x \<le> 2 ^ 53 * pow2 (ulp_exp x)"
    unfolding round_mag_def by (intro mult_right_mono of_int_le_pow53) simp_all
  also have "\<dots> = pow2 (ulp_exp x + 53)" by (simp add: power_int_add)
  also have "\<dots> \<le> pow2 (ulp_exp y + 52)" using lt by (intro pow2_mono) simp
  also have "\<dots> = of_int (2 ^ 52) * pow2 (ulp_exp y)" by (simp add: power_int_add)
  also have "\<dots> \<le> round_mag y"
  proof -
    have "pow2 (ulp_exp y + 52) \<le> y" using ilog2_bounds [of y] assms by (simp add: ey)
    then have "of_int (2 ^ 52) \<le> y / pow2 (ulp_exp y)"
      by (simp add: power_int_add field_simps)
    then have "2 ^ 52 \<le> half_even (y / pow2 (ulp_exp y))"
      by (rule half_even_ge)
    then show ?thesis
      unfolding round_mag_def
      by (intro mult_right_mono) (simp_all only: of_int_le_iff, simp)
  qed
  finally show ?thesis .
qed

lemma round_mag_nonneg: "0 < x \<Longrightarrow> 0 \<le> round_mag x"
  using half_even_ge [of 0 "x / pow2 (ulp_exp x)"] by (simp add: round_mag_def)

lemma round_sgn_mono: "x \<le> y \<Longrightarrow> round_sgn x \<le> round_sgn y"
  using round_mag_mono [of x y] round_mag_mono [of "- y" "- x"]
    round_mag_nonneg [of y] round_mag_nonneg [of "- x"]
  by (auto simp: round_sgn_def)

lemma round64_mono: "x \<le> y \<Longrightarrow> f64_le (round64 x) (round64 y)"
  using round_sgn_mono [of x y] by (auto simp: round64_def)

lemma round64_not_NaN [simp]: "round64 x \<noteq> NaN"
  by (simp add: round64_def)

lemma round64_ge_0: "0 \<le> x \<Longrightarrow> f64_le (Fin 0) (round64 x)"
  using round64_mono [of 0 x] by (simp add: round64_def round_sgn_def MaxFloat_def)

lemma f64_le_refl [simp]: "f64_le v v \<longleftrightarrow> v \<noteq> NaN"
  by (cases v) auto

lemma f64_le_trans: "f64_le a b \<Longrightarrow> f64_le b c \<Longrightarrow> f64_le a c"
  by (cases a; cases b; cases c) auto

lemma f64_le_linear: "a \<noteq> NaN \<Longrightarrow> b \<noteq> NaN \<Longrightarrow> f64_le a b \<or> f64_le b a"
  by (cases a; cases b) auto

lemma f64_le_not_NaN: "f64_le a b \<Longrightarrow> a \<noteq> NaN \<and> b \<noteq> NaN"
  by (cases a; cases b) auto

text \<open>Adding something nonnegative never goes below a representable value.\<close>

lemma f64_add_nonneg:
  assumes "is_f64 (Fin a)" and "f64_le (Fin 0) d"
  shows "f64_le (Fin a) (f64_add (Fin a) d)"
proof (cases d)
  case (Fin b)
  with assms have "f64_le (round64 a) (round64 (a + b))"
    by (intro round64_mono) simp
  with assms Fin show ?thesis by (simp add: is_f64_def)
qed (use assms in auto)

lemma f64_sub_nonneg: "f64_le a b \<Longrightarrow> b \<noteq> PInf \<or> a \<noteq> PInf \<Longrightarrow> a \<noteq> NInf \<Longrightarrow> f64_le (Fin 0) (f64_sub b a)"
  by (cases a; cases b) (auto simp: f64_sub_def round64_ge_0)

lemma f64_div_pos_nonneg: "f64_le (Fin 0) v \<Longrightarrow> 0 < d \<Longrightarrow> f64_le (Fin 0) (f64_div_pos v d)"
  by (cases v) (auto simp: round64_ge_0)

lemma round_mag_exact:
  assumes "x = of_int m * pow2 e" "0 < m" "m < 2 ^ 53" "-1074 \<le> e"
  shows "round_mag x = x"
proof -
  have x: "0 < x" using assms by simp
  have "(of_int m :: rat) < of_int (2 ^ 53)" using assms by (simp only: of_int_less_iff)
  then have "x < pow2 (e + 53)"
    using assms by (simp add: power_int_add)
  then have "pow2 (ilog2 x) < pow2 (e + 53)" using ilog2_bounds [OF x] by simp
  then have le: "ulp_exp x \<le> e" using pow2_less_cancel assms(4) by (fastforce simp: ulp_exp_def)
  then have "x / pow2 (ulp_exp x) = of_int m * pow2 (e - ulp_exp x)"
    using assms by (simp add: power_int_diff)
  also have "\<dots> = of_int (m * 2 ^ nat (e - ulp_exp x))" using le by (simp add: powi_nat)
  finally have eq: "x / pow2 (ulp_exp x) = of_int (m * 2 ^ nat (e - ulp_exp x))" .
  then have "round_mag x = x / pow2 (ulp_exp x) * pow2 (ulp_exp x)"
    unfolding round_mag_def by (simp only: half_even_of_int eq)
  then show ?thesis by simp
qed

lemma round64_exact:
  assumes "x = of_int m * pow2 e" "\<bar>m\<bar> < 2 ^ 53" "-1074 \<le> e" "\<bar>x\<bar> \<le> MaxFloat"
  shows "round64 x = Fin x"
proof -
  consider "m = 0" | "0 < m" | "m < 0" by linarith
  then have "round_sgn x = x"
  proof cases
    case 1
    with assms show ?thesis by (simp add: round_sgn_def)
  next
    case 2
    with assms have "0 < x" by simp
    with 2 assms round_mag_exact [of x m e] show ?thesis by (simp add: round_sgn_def)
  next
    case 3
    with assms have "x < 0" by (simp add: mult_neg_pos)
    moreover have "round_mag (- x) = - x"
      using 3 assms by (intro round_mag_exact [of "- x" "- m" e]) auto
    ultimately show ?thesis by (simp add: round_sgn_def)
  qed
  with assms(4) show ?thesis by (auto simp: round64_def)
qed

lemma float64_of_int_exact: "\<bar>n\<bar> < 2 ^ 53 \<Longrightarrow> float64_of_int n = Fin (of_int n)"
proof -
  assume n: "\<bar>n\<bar> < 2 ^ 53"
  then have "\<bar>of_int n :: rat\<bar> \<le> of_int (2 ^ 53)"
    by (simp only: of_int_abs [symmetric] of_int_le_iff)
  also have "\<dots> \<le> MaxFloat" by (simp add: MaxFloat_def)
  finally show ?thesis
    using n round64_exact [of "of_int n" n 0] by (simp add: float64_of_int_def)
qed

lemma floor_rat_numeral [simp]: "\<lfloor>numeral a / numeral b :: rat\<rfloor> = numeral a div numeral b"
  using floor_divide_of_int_eq [of "numeral a" "numeral b", where 'a = rat] by simp

text \<open>What evaluates the rounding of a numeral.\<close>

lemmas f64_eval = round64_def round_sgn_def round_mag_def ulp_exp_def ilog2_def
  int_log2.simps half_even_def MaxFloat_def power_int_def power_divide Let_def

lemma is_f64_MaxFloat64: "is_f64 MaxFloat64"
  unfolding is_f64_def MaxFloat64_def f64.case
  by (rule round64_exact [of _ "2 ^ 53 - 1" 971]) (simp_all add: MaxFloat_def power_int_def)

lemma is_f64_exact:
  "x = of_int m * pow2 e \<Longrightarrow> \<bar>m\<bar> < 2 ^ 53 \<Longrightarrow> -1074 \<le> e \<Longrightarrow> \<bar>x\<bar> \<le> MaxFloat \<Longrightarrow> is_f64 (Fin x)"
  using round64_exact [of x m e] by (simp add: is_f64_def)

lemma is_f64_0 [simp]: "is_f64 (Fin 0)"
  by (rule is_f64_exact [of _ 0 0]) (simp_all add: MaxFloat_def)

lemma is_f64_half [simp]: "is_f64 (Fin (1 / 2))"
  by (rule is_f64_exact [of _ 1 "-1"]) (simp_all add: MaxFloat_def power_int_def)


lemma half_even_bounds: "0 \<le> x \<Longrightarrow> x < of_int n \<Longrightarrow> 0 \<le> half_even x \<and> half_even x \<le> n"
  using half_even_ge [of 0 x] half_even_le [of x n] by simp

lemma round_mag_float:
  assumes "0 < y"
  shows "\<exists>m e. round_mag y = of_int m * pow2 e \<and> 0 \<le> m \<and> m < 2 ^ 53 \<and> -1074 \<le> e"
proof -
  let ?u = "ulp_exp y" and ?k = "half_even (y / pow2 (ulp_exp y))"
  have "y < pow2 (ilog2 y + 1)" using ilog2_bounds [OF assms] by simp
  also have "\<dots> \<le> pow2 (?u + 53)" by (rule pow2_mono) (simp add: ulp_exp_def)
  also have "\<dots> = pow2 ?u * 2 ^ 53" by (simp add: power_int_add)
  finally have "y / pow2 ?u < of_int (2 ^ 53)" by (simp add: field_simps)
  moreover have "0 \<le> y / pow2 ?u" using assms by simp
  ultimately have k: "0 \<le> ?k" "?k \<le> 2 ^ 53" using half_even_bounds by blast+
  have u: "-1074 \<le> ?u" by (simp add: ulp_exp_def)
  show ?thesis
  proof (cases "?k = 2 ^ 53")
    case True
    then have "round_mag y = of_int 1 * pow2 (?u + 53)" by (simp add: round_mag_def power_int_add)
    with u show ?thesis by (intro exI [of _ 1] exI [of _ "?u + 53"]) simp
  next
    case False
    with k u show ?thesis by (intro exI [of _ ?k] exI [of _ ?u]) (simp add: round_mag_def)
  qed
qed

lemma is_f64_minus: "is_f64 (Fin x) \<Longrightarrow> is_f64 (Fin (- x))"
  by (auto simp: is_f64_def round64_def round_sgn_def split: if_splits)

lemma is_f64_round64: "round64 y = Fin x \<Longrightarrow> is_f64 (Fin x)"
proof -
  assume a: "round64 y = Fin x"
  then have x: "x = round_sgn y" "\<bar>x\<bar> \<le> MaxFloat" by (auto simp: round64_def split: if_splits)
  consider "y = 0" | "0 < y" | "y < 0" by linarith
  then obtain m e where "x = of_int m * pow2 e" "\<bar>m\<bar> < 2 ^ 53" "-1074 \<le> e"
  proof cases
    case 1
    with x that [of 0 0] show ?thesis by (simp add: round_sgn_def)
  next
    case 2
    with x round_mag_float [of y] that show ?thesis by (auto simp: round_sgn_def)
  next
    case 3
    then obtain m e where "round_mag (- y) = of_int m * pow2 e" "0 \<le> m" "m < 2 ^ 53" "-1074 \<le> e"
      using round_mag_float [of "- y"] by auto
    with 3 x that [of "- m" e] show ?thesis by (simp add: round_sgn_def)
  qed
  with x(2) is_f64_exact show ?thesis by blast
qed

end
