(* ===== verification/Metric_Spec.thy ===== *)
theory Metric_Spec
  imports Go_Strings
begin

text \<open>
  pkg/epp/backend/metrics/metrics_spec.go: the metric names and labels a user gives as
  flags, parsed from \<^verbatim>\<open>name{label1=value1,label2=value2}\<close>. Each error site of the source is
  a constructor of \<open>spec_error\<close>. The main lemma is the round trip with a printer.
\<close>

record MetricSpec =
  MetricName :: string
  spec_Labels :: "(string, string) gomap"

record MetricMapping =
  TotalQueuedRequests :: "MetricSpec option"
  KVCacheUtilization :: "MetricSpec option"
  LoraRequestInfo :: "MetricSpec option"

datatype spec_error =
    MalformedLabelBlock string
  | InvalidLabelPair string string
  | EmptyLabelNameOrValue string string
  | CharactersAfterLabels string
  | EmptyMetricName string

fun parseLabelPairs ::
  "string \<Rightarrow> string list \<Rightarrow> (string, string) gomap \<Rightarrow> spec_error + (string, string) gomap" where
  "parseLabelPairs specStr [] labels = Inr labels"
| "parseLabelPairs specStr (pair0 # labelPairs) labels =
     (let pair = TrimSpace pair0; parts = Split pair (CHR ''='')
      in if length parts \<noteq> 2 then Inl (InvalidLabelPair pair specStr)
         else let labelName = TrimSpace (parts ! 0); labelValue = TrimSpace (parts ! 1)
              in if labelName = [] \<or> labelValue = [] then Inl (EmptyLabelNameOrValue pair specStr)
                 else parseLabelPairs specStr labelPairs (AList.update labelName labelValue labels))"

definition stringToMetricSpec :: "string \<Rightarrow> spec_error + MetricSpec option" where
  "stringToMetricSpec specStr0 =
     (if specStr0 = [] then Inr None
      else
        let specStr = TrimSpace specStr0;
            start = IndexByte specStr (CHR ''{'');
            end = IndexByte specStr (CHR ''}'')
        in if start \<noteq> -1 \<or> end \<noteq> -1 then
             if start = -1 \<or> end = -1 \<or> end \<le> start + 1 then Inl (MalformedLabelBlock specStr)
             else
               let metricName = TrimSpace (take (nat start) specStr);
                   labelStr = take (nat (end - (start + 1))) (drop (nat (start + 1)) specStr)
               in case parseLabelPairs specStr (Split labelStr (CHR '','')) [] of
                    Inl e \<Rightarrow> Inl e
                  | Inr labels \<Rightarrow>
                      if end \<noteq> int (length specStr) - 1 then Inl (CharactersAfterLabels specStr)
                      else if metricName = [] then Inl (EmptyMetricName specStr)
                      else Inr (Some \<lparr>MetricName = metricName, spec_Labels = labels\<rparr>)
           else if specStr = [] then Inl (EmptyMetricName specStr)
           else Inr (Some \<lparr>MetricName = specStr, spec_Labels = []\<rparr>))"

datatype mapping_error =
    WaitingRequestsError spec_error
  | KVCacheUsageError spec_error
  | LoraReqInfoError spec_error

definition NewMetricMapping :: "string \<Rightarrow> string \<Rightarrow> string \<Rightarrow> mapping_error + MetricMapping" where
  "NewMetricMapping queuedStr kvUsageStr loraReqInfoStr =
     (case stringToMetricSpec queuedStr of
        Inl e \<Rightarrow> Inl (WaitingRequestsError e)
      | Inr queuedSpec \<Rightarrow>
     (case stringToMetricSpec kvUsageStr of
        Inl e \<Rightarrow> Inl (KVCacheUsageError e)
      | Inr kvUsageSpec \<Rightarrow>
     (case stringToMetricSpec loraReqInfoStr of
        Inl e \<Rightarrow> Inl (LoraReqInfoError e)
      | Inr loraReqInfoSpec \<Rightarrow>
          Inr \<lparr>TotalQueuedRequests = queuedSpec, KVCacheUtilization = kvUsageSpec,
               LoraRequestInfo = loraReqInfoSpec\<rparr>)))"

subsection \<open>The printer and the round trip\<close>

definition print_label :: "string \<times> string \<Rightarrow> string" where
  "print_label kv = fst kv @ CHR ''='' # snd kv"

definition print_spec :: "MetricSpec \<Rightarrow> string" where
  "print_spec s =
     (if spec_Labels s = [] then MetricName s
      else MetricName s @ CHR ''{'' # Join (map print_label (spec_Labels s)) (CHR '','') @ ''}'')"

definition spec_word :: "string \<Rightarrow> bool" where
  \<comment> \<open>a nonempty word of printable characters other than the four delimiters\<close>
  "spec_word w \<longleftrightarrow> w \<noteq> [] \<and> (\<forall>c\<in>set w. plain_byte c \<and> c \<notin> set ''{},='')"

definition wf_spec :: "MetricSpec \<Rightarrow> bool" where
  "wf_spec s \<longleftrightarrow> spec_word (MetricName s) \<and> is_map (spec_Labels s) \<and>
     (\<forall>(k, v)\<in>set (spec_Labels s). spec_word k \<and> spec_word v)"

lemma spec_wordD:
  "spec_word w \<Longrightarrow> TrimSpace w = w"
  "spec_word w \<Longrightarrow> w \<noteq> []"
  "spec_word w \<Longrightarrow> c \<in> set ''{},='' \<Longrightarrow> c \<notin> set w"
  by (auto simp: spec_word_def intro!: TrimSpace_plain)

lemma plain_delimiters:
  "plain_byte (CHR ''='')" "plain_byte (CHR ''{'')" "plain_byte (CHR ''}'')" "plain_byte (CHR '','')"
  by (simp_all add: plain_byte_def)

lemma print_label_plain:
  assumes "spec_word k" "spec_word v" "c \<in> set (print_label (k, v))"
  shows "plain_byte c \<and> c \<notin> set ''{},''"
proof -
  from assms(3) consider "c \<in> set k" | "c = CHR ''=''" | "c \<in> set v"
    by (auto simp: print_label_def)
  then show ?thesis
    using assms(1,2) plain_delimiters by cases (auto simp: spec_word_def)
qed

lemma parse_label_step:
  assumes "spec_word k" "spec_word v"
  shows "parseLabelPairs s (print_label (k, v) # ps) ls = parseLabelPairs s ps (AList.update k v ls)"
proof -
  have "TrimSpace (print_label (k, v)) = print_label (k, v)"
    using print_label_plain [OF assms] by (intro TrimSpace_plain) blast
  moreover have "Split (print_label (k, v)) (CHR ''='') = [k, v]"
    using assms by (simp add: print_label_def Split_append Split_plain spec_wordD)
  ultimately show ?thesis
    using assms by (simp add: Let_def spec_wordD)
qed

lemma parse_labels_print:
  assumes "\<forall>(k, v)\<in>set kvs. spec_word k \<and> spec_word v" "is_map (ls @ kvs)"
  shows "parseLabelPairs s (map print_label kvs) ls = Inr (ls @ kvs)"
  using assms
proof (induction kvs arbitrary: ls)
  case (Cons kv kvs)
  obtain k v where kv: "kv = (k, v)" by (cases kv)
  with Cons.prems have w: "spec_word k" "spec_word v" and k: "k \<notin> fst ` set ls"
    by (auto simp: is_map_def)
  have "parseLabelPairs s (map print_label kvs) (ls @ [(k, v)]) = Inr ((ls @ [(k, v)]) @ kvs)"
    using Cons.prems kv by (intro Cons.IH) auto
  with kv w k show ?case
    by (simp add: parse_label_step update_new del: parseLabelPairs.simps)
qed simp

lemma Join_chars:
  "c \<in> set (Join ps d) \<Longrightarrow> c = d \<or> (\<exists>p\<in>set ps. c \<in> set p)"
  by (induction ps d rule: Join.induct) auto

lemma print_labels_chars:
  assumes "\<forall>(k, v)\<in>set kvs. spec_word k \<and> spec_word v"
    and "c \<in> set (Join (map print_label kvs) (CHR '',''))"
  shows "plain_byte c \<and> c \<noteq> CHR ''{'' \<and> c \<noteq> CHR ''}''"
proof -
  from assms(2) consider "c = CHR '',''" | k v where "(k, v) \<in> set kvs" "c \<in> set (print_label (k, v))"
    by (force dest!: Join_chars)
  then show ?thesis
  proof cases
    case 1
    then show ?thesis using plain_delimiters by simp
  next
    case 2
    with assms(1) have "spec_word k" "spec_word v" by auto
    from print_label_plain [OF this 2(2)] show ?thesis by simp
  qed
qed

lemma print_spec_plain:
  assumes "wf_spec s" "c \<in> set (print_spec s)"
  shows "plain_byte c"
proof -
  from assms(2) consider "c \<in> set (MetricName s)" | "c = CHR ''{''" | "c = CHR ''}''"
    | "c \<in> set (Join (map print_label (spec_Labels s)) (CHR '',''))"
    by (auto simp: print_spec_def split: if_splits)
  then show ?thesis
    using assms(1) plain_delimiters print_labels_chars [of "spec_Labels s" c]
    by cases (auto simp: wf_spec_def spec_word_def)
qed

lemma Split_labels:
  assumes "\<forall>(k, v)\<in>set kvs. spec_word k \<and> spec_word v" "kvs \<noteq> []"
  shows "Split (Join (map print_label kvs) (CHR '','')) (CHR '','') = map print_label kvs"
proof (rule Split_Join)
  show "\<forall>p\<in>set (map print_label kvs). CHR '','' \<notin> set p"
    using assms(1) print_label_plain by fastforce
qed (use assms(2) in simp)

lemma Join_labels_not_Nil: "kvs \<noteq> [] \<Longrightarrow> Join (map print_label kvs) c \<noteq> []"
  by (cases kvs; cases "tl kvs") (auto simp: print_label_def)

text \<open>
  C32. The parser of metric specifications inverts the printer: the textual form
  \<open>name{label=value,...}\<close> of a specification, whose names and values are nonempty words
  without the delimiters, is parsed to exactly that specification.
\<close>

theorem stringToMetricSpec_print:
  assumes wf: "wf_spec s"
  shows "stringToMetricSpec (print_spec s) = Inr (Some s)"
proof -
  let ?n = "MetricName s" and ?kvs = "spec_Labels s"
  have n: "spec_word ?n" and m: "is_map ?kvs" and ls: "\<forall>(k, v)\<in>set ?kvs. spec_word k \<and> spec_word v"
    using wf by (auto simp: wf_spec_def)
  have trim: "TrimSpace (print_spec s) = print_spec s"
    using print_spec_plain [OF wf] by (intro TrimSpace_plain) blast
  have no: "CHR ''{'' \<notin> set ?n" "CHR ''}'' \<notin> set ?n" "?n \<noteq> []" "TrimSpace ?n = ?n"
    using n by (auto simp: spec_wordD)
  show ?thesis
  proof (cases "?kvs = []")
    case True
    then have "print_spec s = ?n" by (simp add: print_spec_def)
    with True trim no show ?thesis
      by (simp add: stringToMetricSpec_def Let_def IndexByte_none [THEN iffD2])
  next
    case False
    let ?j = "Join (map print_label ?kvs) (CHR '','')"
    have p: "print_spec s = ?n @ CHR ''{'' # ?j @ ''}''" using False by (simp add: print_spec_def)
    have j: "CHR ''}'' \<notin> set ?j" "?j \<noteq> []"
      using print_labels_chars [OF ls] Join_labels_not_Nil [OF False] by auto
    have start: "IndexByte (print_spec s) (CHR ''{'') = int (length ?n)"
      unfolding p by (rule IndexByte_append) (rule no)
    have "print_spec s = (?n @ CHR ''{'' # ?j) @ CHR ''}'' # []" by (simp add: p)
    then have "end": "IndexByte (print_spec s) (CHR ''}'') = int (length (?n @ CHR ''{'' # ?j))"
      using IndexByte_append [of "CHR ''}''" "?n @ CHR ''{'' # ?j" "[]"] no j by simp
    have "take (length ?j) (drop (Suc (length ?n)) (print_spec s)) = ?j" by (simp add: p)
    moreover have "take (length ?n) (print_spec s) = ?n" by (simp add: p)
    moreover have "parseLabelPairs (print_spec s) (Split ?j (CHR '','')) [] = Inr ?kvs"
      using parse_labels_print [of ?kvs "[]"] ls m by (simp add: Split_labels [OF ls False])
    moreover have "int (length (print_spec s)) - 1 = int (length (?n @ CHR ''{'' # ?j))"
      by (simp add: p)
    moreover have "print_spec s \<noteq> []" by (simp add: p)
    ultimately show ?thesis
      using j no by (simp add: stringToMetricSpec_def Let_def trim start "end" nat_add_distrib)
  qed
qed

theorem stringToMetricSpec_print_witness:
  "stringToMetricSpec ''q{a=b,c=d}'' = Inr (Some \<lparr>MetricName = ''q'', spec_Labels = [(''a'', ''b''), (''c'', ''d'')]\<rparr>)"
proof -
  let ?s = "\<lparr>MetricName = ''q'', spec_Labels = [(''a'', ''b''), (''c'', ''d'')]\<rparr>"
  have "wf_spec ?s" by (simp add: wf_spec_def spec_word_def plain_byte_def is_map_def)
  moreover have "print_spec ?s = ''q{a=b,c=d}''" by (simp add: print_spec_def print_label_def)
  ultimately show ?thesis using stringToMetricSpec_print [of ?s] by simp
qed

end
