(* ===== verification/Backend_Metrics.thy ===== *)
theory Backend_Metrics
  imports Api_Types Float64 Metric_Spec
begin

text \<open>
  pkg/epp/backend/metrics: what the endpoint picker knows of a model server
  (types.go), and how it is read from the Prometheus metrics the server exposes
  (metrics.go). The HTTP client and the Prometheus text parser are parameters; the data of
  the parser (\<open>dto\<close>) is a family of metrics per name, each metric with labels, a gauge and
  a timestamp, any of which may be missing (a missing one reads as 0, as the generated
  getters do). Each error site is a constructor of \<open>metric_error\<close>; combined errors
  (\<open>multierr\<close>) are lists.
\<close>

subsection \<open>types.go\<close>

record Pod =
  NamespacedName :: NamespacedName
  Address :: string

record Metrics =
  ActiveModels :: "(string, int) gomap"
  MaxActiveModels :: int
  RunningQueueSize :: int
  WaitingQueueSize :: int
  KVCacheUsagePercent :: f64
  KvCacheMaxTokenCapacity :: int
  UpdateTime :: int

definition newMetrics :: Metrics where
  "newMetrics = \<lparr>ActiveModels = [], MaxActiveModels = 0, RunningQueueSize = 0,
     WaitingQueueSize = 0, KVCacheUsagePercent = Fin 0, KvCacheMaxTokenCapacity = 0,
     UpdateTime = 0\<rparr>"

fun copy_models :: "(string, int) gomap \<Rightarrow> (string, int) gomap \<Rightarrow> (string, int) gomap" where
  "copy_models cm [] = cm"
| "copy_models cm ((k, v) # ms) = copy_models (AList.update k v cm) ms"

definition Clone :: "Metrics \<Rightarrow> Metrics" where
  "Clone m =
     \<lparr>ActiveModels = copy_models [] (ActiveModels m), MaxActiveModels = MaxActiveModels m,
      RunningQueueSize = RunningQueueSize m, WaitingQueueSize = WaitingQueueSize m,
      KVCacheUsagePercent = KVCacheUsagePercent m,
      KvCacheMaxTokenCapacity = KvCacheMaxTokenCapacity m, UpdateTime = UpdateTime m\<rparr>"

definition toInternalPod :: "corePod \<Rightarrow> Pod" where
  "toInternalPod p = \<lparr>NamespacedName = pod_nn p, Address = PodIP p\<rparr>"

subsection \<open>Prometheus data\<close>

record dtoMetric =
  m_Label :: "(string \<times> string) list"
  m_Gauge :: "f64 option"
  m_TimestampMs :: "int option"

type_synonym families = "(string, dtoMetric list) gomap"

definition GetGaugeValue :: "dtoMetric \<Rightarrow> f64" where
  "GetGaugeValue m = (case m_Gauge m of None \<Rightarrow> Fin 0 | Some v \<Rightarrow> v)"

definition GetTimestampMs :: "dtoMetric \<Rightarrow> int" where
  "GetTimestampMs m = (case m_TimestampMs m of None \<Rightarrow> 0 | Some t \<Rightarrow> t)"

datatype metric_error =
    FamilyNotFound string
  | NoMetricsAvailable string
  | NoMatchingMetric MetricSpec
  | BadMaxLora num_error
  | CreateRequestFailed string
  | FetchFailed NamespacedName string
  | UnexpectedStatus NamespacedName int
  | ParseFailed string
  | FakeError string
  | FakeNoPod NamespacedName

subsection \<open>metrics.go\<close>

definition LoraInfoRunningAdaptersMetricName :: string where
  "LoraInfoRunningAdaptersMetricName = ''running_lora_adapters''"
definition LoraInfoWaitingAdaptersMetricName :: string where
  "LoraInfoWaitingAdaptersMetricName = ''waiting_lora_adapters''"
definition LoraInfoMaxAdaptersMetricName :: string where
  "LoraInfoMaxAdaptersMetricName = ''max_lora''"

lemmas lora_names = LoraInfoRunningAdaptersMetricName_def LoraInfoWaitingAdaptersMetricName_def
  LoraInfoMaxAdaptersMetricName_def

fun find_label :: "(string \<times> string) list \<Rightarrow> string \<Rightarrow> string \<Rightarrow> bool" where
  "find_label [] n v = False"
| "find_label ((lname, lvalue) # ls) n v = (if lname = n \<and> lvalue = v then True else find_label ls n v)"

fun labelsMatch_loop :: "(string \<times> string) list \<Rightarrow> (string, string) gomap \<Rightarrow> bool" where
  "labelsMatch_loop metricLabels [] = True"
| "labelsMatch_loop metricLabels ((specName, specValue) # specLabels) =
     (if \<not> find_label metricLabels specName specValue then False
      else labelsMatch_loop metricLabels specLabels)"

definition labelsMatch :: "(string \<times> string) list \<Rightarrow> (string, string) gomap \<Rightarrow> bool" where
  "labelsMatch metricLabels specLabels =
     (if length specLabels = 0 then True else labelsMatch_loop metricLabels specLabels)"

fun latest_loop ::
  "MetricSpec \<Rightarrow> dtoMetric list \<Rightarrow> dtoMetric option \<times> int \<Rightarrow> dtoMetric option \<times> int" where
  "latest_loop spec [] (latestMetric, latestTimestamp) = (latestMetric, latestTimestamp)"
| "latest_loop spec (m # ms) (latestMetric, latestTimestamp) =
     (if labelsMatch (m_Label m) (spec_Labels spec) \<and> GetTimestampMs m > latestTimestamp
      then latest_loop spec ms (Some m, GetTimestampMs m)
      else latest_loop spec ms (latestMetric, latestTimestamp))"

definition getLatestMetric :: "dtoMetric list \<Rightarrow> MetricSpec \<Rightarrow> metric_error + dtoMetric" where
  "getLatestMetric mf spec =
     (case fst (latest_loop spec mf (None, -1)) of
        Some m \<Rightarrow> Inr m | None \<Rightarrow> Inl (NoMatchingMetric spec))"

definition getMetric :: "families \<Rightarrow> MetricSpec \<Rightarrow> metric_error + dtoMetric" where
  "getMetric metricFamilies spec =
     (case map_of metricFamilies (MetricName spec) of
        None \<Rightarrow> Inl (FamilyNotFound (MetricName spec))
      | Some mf \<Rightarrow>
          if length mf = 0 then Inl (NoMetricsAvailable (MetricName spec))
          else getLatestMetric mf spec)"

fun lora_label_values :: "(string \<times> string) list \<Rightarrow> string \<times> string \<Rightarrow> string \<times> string" where
  "lora_label_values [] (running, waiting) = (running, waiting)"
| "lora_label_values ((n, v) # ls) (running, waiting) =
     (if n = LoraInfoRunningAdaptersMetricName then lora_label_values ls (v, waiting)
      else if n = LoraInfoWaitingAdaptersMetricName then lora_label_values ls (running, v)
      else lora_label_values ls (running, waiting))"

fun latest_lora_loop :: "dtoMetric list \<Rightarrow> dtoMetric option \<times> f64 \<Rightarrow> dtoMetric option \<times> f64" where
  "latest_lora_loop [] (latest, latestTs) = (latest, latestTs)"
| "latest_lora_loop (m # ms) (latest, latestTs) =
     (if lora_label_values (m_Label m) ([], []) = ([], []) then latest_lora_loop ms (latest, latestTs)
      else if f64_lt latestTs (GetGaugeValue m) then latest_lora_loop ms (Some m, GetGaugeValue m)
      else latest_lora_loop ms (latest, latestTs))"

definition getLatestLoraMetric ::
  "MetricMapping \<Rightarrow> families \<Rightarrow> dtoMetric option \<times> metric_error list" where
  "getLatestLoraMetric mapping metricFamilies =
     (case LoraRequestInfo mapping of
        None \<Rightarrow> (None, [])
      | Some spec \<Rightarrow>
          (case map_of metricFamilies (MetricName spec) of
             None \<Rightarrow> (None, [FamilyNotFound (MetricName spec)])
           | Some loraRequests \<Rightarrow> (fst (latest_lora_loop loraRequests (None, Fin 0)), [])))"

fun add_adapters :: "string list \<Rightarrow> Metrics \<Rightarrow> Metrics" where
  "add_adapters [] updated = updated"
| "add_adapters (adapter # adapterList) updated =
     add_adapters adapterList
       (updated\<lparr>ActiveModels := AList.update adapter 0 (ActiveModels updated)\<rparr>)"

definition apply_lora_label ::
  "string \<times> string \<Rightarrow> Metrics \<times> metric_error list \<Rightarrow> Metrics \<times> metric_error list" where
  "apply_lora_label label ue =
     (let (name, value) = label; (u0, errs) = ue;
          u1 = (if name = LoraInfoRunningAdaptersMetricName \<and> value \<noteq> []
                then add_adapters (Split value (CHR '','')) u0 else u0);
          u2 = (if name = LoraInfoWaitingAdaptersMetricName \<and> value \<noteq> []
                then add_adapters (Split value (CHR '','')) u1 else u1)
      in if name = LoraInfoMaxAdaptersMetricName \<and> value \<noteq> []
         then case Atoi value of
                (n, None) \<Rightarrow> (u2\<lparr>MaxActiveModels := n\<rparr>, errs)
              | (n, Some e) \<Rightarrow> (u2\<lparr>MaxActiveModels := n\<rparr>, errs @ [BadMaxLora e])
         else (u2, errs))"

definition update_queue ::
  "(f64 \<Rightarrow> int) \<Rightarrow> MetricMapping \<Rightarrow> families \<Rightarrow> Metrics \<times> metric_error list \<Rightarrow> Metrics \<times> metric_error list"
where
  "update_queue conv mapping metricFamilies ue =
     (let (updated, errs) = ue in
      case TotalQueuedRequests mapping of
        None \<Rightarrow> (updated, errs)
      | Some spec \<Rightarrow>
          (case getMetric metricFamilies spec of
             Inr queued \<Rightarrow> (updated\<lparr>WaitingQueueSize := f64_to_int conv (GetGaugeValue queued)\<rparr>, errs)
           | Inl err \<Rightarrow> (updated, errs @ [err])))"

definition update_kv_cache ::
  "MetricMapping \<Rightarrow> families \<Rightarrow> Metrics \<times> metric_error list \<Rightarrow> Metrics \<times> metric_error list" where
  "update_kv_cache mapping metricFamilies ue =
     (let (updated, errs) = ue in
      case KVCacheUtilization mapping of
        None \<Rightarrow> (updated, errs)
      | Some spec \<Rightarrow>
          (case getMetric metricFamilies spec of
             Inr usage \<Rightarrow> (updated\<lparr>KVCacheUsagePercent := GetGaugeValue usage\<rparr>, errs)
           | Inl err \<Rightarrow> (updated, errs @ [err])))"

definition update_lora ::
  "MetricMapping \<Rightarrow> families \<Rightarrow> Metrics \<times> metric_error list \<Rightarrow> Metrics \<times> metric_error list" where
  "update_lora mapping metricFamilies ue =
     (let (updated, errs) = ue in
      case LoraRequestInfo mapping of
        None \<Rightarrow> (updated, errs)
      | Some spec \<Rightarrow>
          (let (loraMetrics, err) = getLatestLoraMetric mapping metricFamilies;
               errs = errs @ err
           in case loraMetrics of
                None \<Rightarrow> (updated, errs)
              | Some m \<Rightarrow> fold apply_lora_label (m_Label m) (updated\<lparr>ActiveModels := []\<rparr>, errs)))"

definition promToPodMetrics ::
  "(f64 \<Rightarrow> int) \<Rightarrow> MetricMapping \<Rightarrow> families \<Rightarrow> Metrics \<Rightarrow> Metrics \<times> metric_error list" where
  "promToPodMetrics conv mapping metricFamilies existing =
     update_lora mapping metricFamilies
       (update_kv_cache mapping metricFamilies
         (update_queue conv mapping metricFamilies (Clone existing, [])))"

datatype http_result = NewRequestError string | DoError string | Response int string

definition FetchMetrics ::
  "(f64 \<Rightarrow> int) \<Rightarrow> (string \<Rightarrow> http_result) \<Rightarrow> (string \<Rightarrow> string + families) \<Rightarrow> MetricMapping \<Rightarrow>
   Pod \<Rightarrow> Metrics \<Rightarrow> 32 word \<Rightarrow> Metrics option \<times> metric_error list" where
  "FetchMetrics conv http_get parse mapping pod existing port =
     (let url = ''http://'' @ Address pod @ '':'' @ Itoa (sint port) @ ''/metrics'' in
      case http_get url of
        NewRequestError e \<Rightarrow> (None, [CreateRequestFailed e])
      | DoError e \<Rightarrow> (None, [FetchFailed (NamespacedName pod) e])
      | Response code body \<Rightarrow>
          if code \<noteq> 200 then (None, [UnexpectedStatus (NamespacedName pod) code])
          else case parse body of
                 Inl e \<Rightarrow> (None, [ParseFailed e])
               | Inr metricFamilies \<Rightarrow>
                   (case promToPodMetrics conv mapping metricFamilies existing of
                      (updated, errs) \<Rightarrow> (Some updated, errs)))"

subsection \<open>Lemmas\<close>

lemma is_map_copy_models: "is_map cm \<Longrightarrow> is_map (copy_models cm ms)"
  by (induction cm ms rule: copy_models.induct) auto

lemma copy_models_append: "is_map (cm @ ms) \<Longrightarrow> copy_models cm ms = cm @ ms"
  by (induction cm ms rule: copy_models.induct) (auto simp: is_map_def update_new)

text \<open>A clone has the fields of the original, and a map with the same content.\<close>

lemma Clone_eq: "is_map (ActiveModels m) \<Longrightarrow> Clone m = m"
  by (simp add: Clone_def copy_models_append)

lemma Clone_is_map [simp]: "is_map (ActiveModels (Clone m))"
  by (simp add: Clone_def is_map_copy_models)

lemma Clone_fields [simp]:
  "MaxActiveModels (Clone m) = MaxActiveModels m" "WaitingQueueSize (Clone m) = WaitingQueueSize m"
  "KVCacheUsagePercent (Clone m) = KVCacheUsagePercent m" "UpdateTime (Clone m) = UpdateTime m"
  "RunningQueueSize (Clone m) = RunningQueueSize m"
  by (simp_all add: Clone_def)

lemma find_label_iff: "find_label ls n v \<longleftrightarrow> (n, v) \<in> set ls"
  by (induction ls n v rule: find_label.induct) auto

lemma labelsMatch_iff: "labelsMatch ls spec \<longleftrightarrow> set spec \<subseteq> set ls"
proof -
  have "labelsMatch_loop ls spec \<longleftrightarrow> set spec \<subseteq> set ls"
    by (induction ls spec rule: labelsMatch_loop.induct) (auto simp: find_label_iff)
  then show ?thesis by (auto simp: labelsMatch_def)
qed

text \<open>
  The loop keeps the best candidate of what it has seen: its result is one of the matching
  metrics (or the candidate it started with), none of which is newer.
\<close>

lemma latest_loop_spec:
  assumes "latest_loop spec ms (c, t) = (c', t')"
  shows "t \<le> t' \<and> (\<forall>m\<in>set ms. labelsMatch (m_Label m) (spec_Labels spec) \<longrightarrow> GetTimestampMs m \<le> t') \<and>
    (c' = c \<and> t' = t \<or> t < t' \<and> (\<exists>m\<in>set ms. c' = Some m \<and> labelsMatch (m_Label m) (spec_Labels spec) \<and> GetTimestampMs m = t'))"
  using assms
proof (induction ms arbitrary: c t)
  case (Cons m ms)
  show ?case
  proof (cases "labelsMatch (m_Label m) (spec_Labels spec) \<and> t < GetTimestampMs m")
    case True
    with Cons.prems have "latest_loop spec ms (Some m, GetTimestampMs m) = (c', t')" by simp
    from Cons.IH [OF this] True show ?thesis by auto
  next
    case False
    with Cons.prems have "latest_loop spec ms (c, t) = (c', t')" by (simp only: latest_loop.simps if_False)
    from Cons.IH [OF this] False show ?thesis by auto
  qed
qed simp

lemma getLatestMetric_latest:
  assumes "getLatestMetric mf spec = Inr m"
  shows "m \<in> set mf \<and> set (spec_Labels spec) \<subseteq> set (m_Label m) \<and>
    (\<forall>m'\<in>set mf. set (spec_Labels spec) \<subseteq> set (m_Label m') \<longrightarrow> GetTimestampMs m' \<le> GetTimestampMs m)"
proof -
  obtain c t where l: "latest_loop spec mf (None, -1) = (c, t)" by fastforce
  with assms have "c = Some m" by (auto simp: getLatestMetric_def split: option.splits)
  with latest_loop_spec [OF l] show ?thesis by (auto simp: labelsMatch_iff)
qed

lemma getLatestMetric_none:
  assumes "getLatestMetric mf spec = Inl e"
  shows "e = NoMatchingMetric spec \<and>
    (\<forall>m\<in>set mf. set (spec_Labels spec) \<subseteq> set (m_Label m) \<longrightarrow> GetTimestampMs m < 0)"
proof -
  obtain c t where l: "latest_loop spec mf (None, -1) = (c, t)" by fastforce
  with assms have c: "c = None" "e = NoMatchingMetric spec"
    by (auto simp: getLatestMetric_def split: option.splits)
  with latest_loop_spec [OF l] have "t = -1"
    and "\<forall>m\<in>set mf. labelsMatch (m_Label m) (spec_Labels spec) \<longrightarrow> GetTimestampMs m \<le> t" by auto
  with c show ?thesis by (auto simp: labelsMatch_iff)
qed

lemma is_map_add_adapters: "is_map (ActiveModels u) \<Longrightarrow> is_map (ActiveModels (add_adapters as u))"
  by (induction as arbitrary: u) auto

lemma dom_add_adapters: "fst ` set (ActiveModels (add_adapters as u)) = fst ` set (ActiveModels u) \<union> set as"
  by (induction as arbitrary: u) (auto simp: dom_update)

lemma add_adapters_frame [simp]:
  "WaitingQueueSize (add_adapters as u) = WaitingQueueSize u"
  "KVCacheUsagePercent (add_adapters as u) = KVCacheUsagePercent u"
  "MaxActiveModels (add_adapters as u) = MaxActiveModels u"
  "UpdateTime (add_adapters as u) = UpdateTime u"
  by (induction as arbitrary: u) auto

lemma apply_lora_label_frame:
  "WaitingQueueSize (fst (apply_lora_label l ue)) = WaitingQueueSize (fst ue)"
  "KVCacheUsagePercent (fst (apply_lora_label l ue)) = KVCacheUsagePercent (fst ue)"
  "UpdateTime (fst (apply_lora_label l ue)) = UpdateTime (fst ue)"
  "is_map (ActiveModels (fst ue)) \<Longrightarrow> is_map (ActiveModels (fst (apply_lora_label l ue)))"
  by (auto simp: apply_lora_label_def Let_def is_map_add_adapters split: prod.splits option.splits)

lemma fold_lora_frame:
  "WaitingQueueSize (fst (fold apply_lora_label ls ue)) = WaitingQueueSize (fst ue)"
  "KVCacheUsagePercent (fst (fold apply_lora_label ls ue)) = KVCacheUsagePercent (fst ue)"
  "UpdateTime (fst (fold apply_lora_label ls ue)) = UpdateTime (fst ue)"
  "is_map (ActiveModels (fst ue)) \<Longrightarrow> is_map (ActiveModels (fst (fold apply_lora_label ls ue)))"
  by (induction ls arbitrary: ue) (auto simp: apply_lora_label_frame)

lemma update_steps_frame:
  "KVCacheUsagePercent (fst (update_queue conv mp fs ue)) = KVCacheUsagePercent (fst ue)"
  "UpdateTime (fst (update_queue conv mp fs ue)) = UpdateTime (fst ue)"
  "ActiveModels (fst (update_queue conv mp fs ue)) = ActiveModels (fst ue)"
  "MaxActiveModels (fst (update_queue conv mp fs ue)) = MaxActiveModels (fst ue)"
  "WaitingQueueSize (fst (update_kv_cache mp fs ue)) = WaitingQueueSize (fst ue)"
  "UpdateTime (fst (update_kv_cache mp fs ue)) = UpdateTime (fst ue)"
  "ActiveModels (fst (update_kv_cache mp fs ue)) = ActiveModels (fst ue)"
  "MaxActiveModels (fst (update_kv_cache mp fs ue)) = MaxActiveModels (fst ue)"
  by (auto simp: update_queue_def update_kv_cache_def split: prod.splits option.splits sum.splits)

lemma update_lora_frame:
  "WaitingQueueSize (fst (update_lora mp fs ue)) = WaitingQueueSize (fst ue)"
  "KVCacheUsagePercent (fst (update_lora mp fs ue)) = KVCacheUsagePercent (fst ue)"
  "UpdateTime (fst (update_lora mp fs ue)) = UpdateTime (fst ue)"
  "is_map (ActiveModels (fst ue)) \<Longrightarrow> is_map (ActiveModels (fst (update_lora mp fs ue)))"
  by (auto simp: update_lora_def fold_lora_frame Let_def split: prod.splits option.splits)

lemmas metrics_frame = update_steps_frame update_lora_frame

definition read_metric :: "families \<Rightarrow> MetricSpec option \<Rightarrow> dtoMetric option" where
  \<comment> \<open>the metric a specification selects, if it is configured and available\<close>
  "read_metric fs spec =
     (case spec of None \<Rightarrow> None
      | Some s \<Rightarrow> (case getMetric fs s of Inl _ \<Rightarrow> None | Inr m \<Rightarrow> Some m))"

lemma update_queue_reads:
  "WaitingQueueSize (fst (update_queue conv mp fs ue)) =
     (case read_metric fs (TotalQueuedRequests mp) of
        None \<Rightarrow> WaitingQueueSize (fst ue) | Some m \<Rightarrow> f64_to_int conv (GetGaugeValue m))"
  by (auto simp: update_queue_def read_metric_def split: prod.splits option.splits sum.splits)

lemma update_kv_cache_reads:
  "KVCacheUsagePercent (fst (update_kv_cache mp fs ue)) =
     (case read_metric fs (KVCacheUtilization mp) of
        None \<Rightarrow> KVCacheUsagePercent (fst ue) | Some m \<Rightarrow> GetGaugeValue m)"
  by (auto simp: update_kv_cache_def read_metric_def split: prod.splits option.splits sum.splits)

lemma promToPodMetrics_reads:
  fixes conv mp fs old
  defines "new \<equiv> fst (promToPodMetrics conv mp fs old)"
  shows "WaitingQueueSize new = (case read_metric fs (TotalQueuedRequests mp) of
           None \<Rightarrow> WaitingQueueSize old | Some m \<Rightarrow> f64_to_int conv (GetGaugeValue m))"
    and "KVCacheUsagePercent new = (case read_metric fs (KVCacheUtilization mp) of
           None \<Rightarrow> KVCacheUsagePercent old | Some m \<Rightarrow> GetGaugeValue m)"
    and "UpdateTime new = UpdateTime old"
    and "is_map (ActiveModels new)"
  by (simp_all add: new_def promToPodMetrics_def metrics_frame update_queue_reads
      update_kv_cache_reads split: option.split)

text \<open>The adapters a label list names as running or waiting.\<close>

definition adapters_of :: "(string \<times> string) list \<Rightarrow> string set" where
  "adapters_of ls =
     (\<Union>(n, v)\<in>{(n, v) \<in> set ls. v \<noteq> [] \<and>
        n \<in> {LoraInfoRunningAdaptersMetricName, LoraInfoWaitingAdaptersMetricName}}.
        set (Split v (CHR '','')))"

lemma adapters_of_Nil [simp]: "adapters_of [] = {}"
  by (simp add: adapters_of_def)

lemma lora_neq:
  "LoraInfoRunningAdaptersMetricName \<noteq> LoraInfoWaitingAdaptersMetricName"
  "LoraInfoRunningAdaptersMetricName \<noteq> LoraInfoMaxAdaptersMetricName"
  "LoraInfoWaitingAdaptersMetricName \<noteq> LoraInfoMaxAdaptersMetricName"
  by (simp_all add: lora_names)

lemma adapters_of_Cons:
  "adapters_of ((n, v) # ls) =
     (if v \<noteq> [] \<and> n \<in> {LoraInfoRunningAdaptersMetricName, LoraInfoWaitingAdaptersMetricName}
      then set (Split v (CHR '','')) else {}) \<union> adapters_of ls"
  by (auto simp: adapters_of_def)

lemma apply_lora_label_models:
  "fst ` set (ActiveModels (fst (apply_lora_label (n, v) ue))) =
     fst ` set (ActiveModels (fst ue)) \<union> adapters_of [(n, v)]"
proof -
  obtain u errs where ue: "ue = (u, errs)" by (cases ue)
  consider "v = []" | "n = LoraInfoRunningAdaptersMetricName" "v \<noteq> []"
    | "n = LoraInfoWaitingAdaptersMetricName" "v \<noteq> []"
    | "v \<noteq> []" "n \<notin> {LoraInfoRunningAdaptersMetricName, LoraInfoWaitingAdaptersMetricName}"
    by auto
  then show ?thesis
    by cases (simp_all add: ue apply_lora_label_def adapters_of_Cons adapters_of_Nil lora_neq
        dom_add_adapters split: prod.split option.split)
qed

lemma fold_lora_models:
  "fst ` set (ActiveModels (fst (fold apply_lora_label ls ue))) =
     fst ` set (ActiveModels (fst ue)) \<union> adapters_of ls"
proof (induction ls arbitrary: ue)
  case (Cons l ls)
  then show ?case
    by (cases l) (simp add: apply_lora_label_models adapters_of_Cons Un_assoc)
qed simp

lemma promToPodMetrics_models:
  assumes "LoraRequestInfo mp = Some spec" "getLatestLoraMetric mp fs = (Some m, es)"
  shows "fst ` set (ActiveModels (fst (promToPodMetrics conv mp fs old))) = adapters_of (m_Label m)"
  using assms
  by (simp add: promToPodMetrics_def update_lora_def split_beta fold_lora_models)

subsection \<open>The client interface\<close>

text \<open>
  What the refresher of a pod relies on in a \<open>PodMetricsClient\<close>: a missing result comes with
  an error, and a result has a proper map of active models. A client that scrapes a model
  server, moreover, leaves the time stamp to the refresher.
\<close>

locale pod_metrics_client =
  fixes fetch :: "Pod \<Rightarrow> Metrics \<Rightarrow> 32 word \<Rightarrow> Metrics option \<times> metric_error list"
  assumes nil_has_error: "fetch pod old port = (None, errs) \<Longrightarrow> errs \<noteq> []"
    and models_is_map: "fetch pod old port = (Some m, errs) \<Longrightarrow> is_map (ActiveModels m)"

locale scraping_client = pod_metrics_client +
  assumes keeps_time: "fetch pod old port = (Some m, errs) \<Longrightarrow> UpdateTime m = UpdateTime old"

interpretation prom_client: scraping_client "FetchMetrics conv http_get parse mapping"
  for conv http_get parse mapping
proof
  fix pod old port errs
  assume "FetchMetrics conv http_get parse mapping pod old port = (None, errs)"
  then show "errs \<noteq> []"
    by (auto simp: FetchMetrics_def Let_def split: http_result.splits if_splits sum.splits prod.splits)
next
  fix pod old port m errs
  assume *: "FetchMetrics conv http_get parse mapping pod old port = (Some m, errs)"
  then obtain fs where "promToPodMetrics conv mapping fs old = (m, errs)"
    by (auto simp: FetchMetrics_def Let_def split: http_result.splits if_splits sum.splits prod.splits)
  then have "m = fst (promToPodMetrics conv mapping fs old)" by simp
  then show "is_map (ActiveModels m)" "UpdateTime m = UpdateTime old"
    by (simp_all add: promToPodMetrics_reads)
qed

subsection \<open>Which sample is read\<close>

text \<open>
  C31. The queue size the scheduler sees is that of the newest matching sample: when the
  scraped family has a sample with the labels of the specification and a time stamp that is
  not negative, the new queue size is the value of a sample with those labels than which no
  such sample is newer.
\<close>

theorem queue_size_latest:
  assumes spec: "TotalQueuedRequests mp = Some spec" and family: "map_of fs (MetricName spec) = Some mf"
    and sample: "m \<in> set mf" "set (spec_Labels spec) \<subseteq> set (m_Label m)" "0 \<le> GetTimestampMs m"
  shows "\<exists>s\<in>set mf. set (spec_Labels spec) \<subseteq> set (m_Label s) \<and>
    (\<forall>s'\<in>set mf. set (spec_Labels spec) \<subseteq> set (m_Label s') \<longrightarrow> GetTimestampMs s' \<le> GetTimestampMs s) \<and>
    WaitingQueueSize (fst (promToPodMetrics conv mp fs old)) = f64_to_int conv (GetGaugeValue s)"
proof (cases "getLatestMetric mf spec")
  case (Inl e)
  with getLatestMetric_none [OF Inl] sample show ?thesis by force
next
  case (Inr s)
  have "getMetric fs spec = Inr s" using family sample(1) Inr by (auto simp: getMetric_def)
  then have "WaitingQueueSize (fst (promToPodMetrics conv mp fs old)) = f64_to_int conv (GetGaugeValue s)"
    using promToPodMetrics_reads(1) [of conv mp fs old] spec by (simp add: read_metric_def)
  with getLatestMetric_latest [OF Inr] show ?thesis by blast
qed

theorem queue_size_latest_witness:
  "\<exists>s. WaitingQueueSize (fst (promToPodMetrics (\<lambda>_. 0)
      \<lparr>TotalQueuedRequests = Some \<lparr>MetricName = ''q'', spec_Labels = []\<rparr>, KVCacheUtilization = None, LoraRequestInfo = None\<rparr>
      [(''q'', [\<lparr>m_Label = [], m_Gauge = Some (Fin 7), m_TimestampMs = Some 3\<rparr>])] newMetrics)) = s \<and> s = f64_to_int (\<lambda>_. 0) (Fin 7)"
  using queue_size_latest [of "\<lparr>TotalQueuedRequests = Some \<lparr>MetricName = ''q'', spec_Labels = []\<rparr>, KVCacheUtilization = None, LoraRequestInfo = None\<rparr>"
      "\<lparr>MetricName = ''q'', spec_Labels = []\<rparr>" "[(''q'', [\<lparr>m_Label = [], m_Gauge = Some (Fin 7), m_TimestampMs = Some 3\<rparr>])]"
      "[\<lparr>m_Label = [], m_Gauge = Some (Fin 7), m_TimestampMs = Some 3\<rparr>]"
      "\<lparr>m_Label = [], m_Gauge = Some (Fin 7), m_TimestampMs = Some 3\<rparr>" "\<lambda>_. 0" newMetrics]
  by (simp add: GetTimestampMs_def GetGaugeValue_def)

end
