(* ===== verification/Pod_Metrics.thy ===== *)
theory Pod_Metrics
  imports Backend_Metrics
begin

text \<open>
  pkg/epp/backend/metrics/pod_metrics.go: one object per pod, with the pod, its last
  metrics and a background loop that refreshes them. The loop is started once, when the
  object is created, and ends when the channel \<open>done\<close> is closed or the parent context is
  cancelled. \<open>pm_started\<close> is the \<open>sync.Once\<close>, \<open>pm_done\<close> says that \<open>done\<close> is closed.
  The two pointers are atomic, so an operation on the object is one step.
\<close>

record podMetrics =
  pm_pod :: Pod
  pm_metrics :: Metrics
  pm_started :: bool
  pm_done :: bool

abbreviation pm_nn :: "podMetrics \<Rightarrow> NamespacedName" where
  "pm_nn pm \<equiv> NamespacedName (pm_pod pm)"

definition startRefreshLoop :: "podMetrics \<Rightarrow> podMetrics" where
  "startRefreshLoop pm = (if pm_started pm then pm else pm\<lparr>pm_started := True\<rparr>)"

definition NewPodMetrics :: "corePod \<Rightarrow> podMetrics" where
  "NewPodMetrics p =
     startRefreshLoop
       \<lparr>pm_pod = toInternalPod p, pm_metrics = newMetrics, pm_started = False, pm_done = False\<rparr>"

definition UpdatePod :: "podMetrics \<Rightarrow> corePod \<Rightarrow> podMetrics" where
  "UpdatePod pm p = pm\<lparr>pm_pod := toInternalPod p\<rparr>"

definition StopRefreshLoop :: "podMetrics \<Rightarrow> podMetrics go" where
  "StopRefreshLoop pm =
     (if pm_done pm then Panic ''close of closed channel'' else Ret (pm\<lparr>pm_done := True\<rparr>))"

definition refreshMetrics ::
  "(Pod \<Rightarrow> Metrics \<Rightarrow> 32 word \<Rightarrow> Metrics option \<times> metric_error list) \<Rightarrow> error + InferencePool \<Rightarrow> int \<Rightarrow>
   podMetrics \<Rightarrow> podMetrics \<times> error option" where
  "refreshMetrics fetch poolGet now pm =
     (case poolGet of
        Inl err \<Rightarrow> (pm, Some err)
      | Inr p \<Rightarrow>
          (case fetch (pm_pod pm) (pm_metrics pm) (TargetPortNumber (pool_Spec p)) of
             (None, errs) \<Rightarrow> (pm, None)
           | (Some updated, errs) \<Rightarrow> (pm\<lparr>pm_metrics := updated\<lparr>UpdateTime := now\<rparr>\<rparr>, None)))"

definition refresh_iteration ::
  "(Pod \<Rightarrow> Metrics \<Rightarrow> 32 word \<Rightarrow> Metrics option \<times> metric_error list) \<Rightarrow> bool \<Rightarrow> error + InferencePool \<Rightarrow>
   int \<Rightarrow> podMetrics \<Rightarrow> podMetrics option" where
  \<comment> \<open>one round of the loop; \<open>None\<close> when the goroutine returns\<close>
  "refresh_iteration fetch ctxDone poolGet now pm =
     (if pm_done pm then None
      else if ctxDone then None
      else Some (fst (refreshMetrics fetch poolGet now pm)))"

fun refresh_loop ::
  "(Pod \<Rightarrow> Metrics \<Rightarrow> 32 word \<Rightarrow> Metrics option \<times> metric_error list) \<Rightarrow>
   (bool \<times> (error + InferencePool) \<times> int) list \<Rightarrow> podMetrics \<Rightarrow> podMetrics" where
  \<comment> \<open>the loop under a sequence of rounds: context cancelled, the pool, the clock\<close>
  "refresh_loop fetch [] pm = pm"
| "refresh_loop fetch ((ctxDone, poolGet, now) # rounds) pm =
     (case refresh_iteration fetch ctxDone poolGet now pm of
        None \<Rightarrow> pm
      | Some pm' \<Rightarrow> refresh_loop fetch rounds pm')"

definition wf_metrics :: "Metrics \<Rightarrow> bool" where
  "wf_metrics m \<longleftrightarrow> is_map (ActiveModels m)"

lemma NewPodMetrics_simps [simp]:
  "pm_pod (NewPodMetrics p) = toInternalPod p" "pm_metrics (NewPodMetrics p) = newMetrics"
  "pm_started (NewPodMetrics p)" "\<not> pm_done (NewPodMetrics p)"
  by (simp_all add: NewPodMetrics_def startRefreshLoop_def)

lemma wf_metrics_new [simp]: "wf_metrics newMetrics"
  by (simp add: wf_metrics_def newMetrics_def)

lemma refreshMetrics_frame:
  "pm_pod (fst (refreshMetrics fetch pg now pm)) = pm_pod pm"
  "pm_started (fst (refreshMetrics fetch pg now pm)) = pm_started pm"
  "pm_done (fst (refreshMetrics fetch pg now pm)) = pm_done pm"
  by (auto simp: refreshMetrics_def split: sum.splits prod.splits option.splits)

lemma refresh_loop_done: "pm_done pm \<Longrightarrow> refresh_loop fetch rounds pm = pm"
  by (cases rounds) (auto simp: refresh_iteration_def)

context pod_metrics_client
begin

lemma refresh_wf: "wf_metrics (pm_metrics pm) \<Longrightarrow> wf_metrics (pm_metrics (fst (refreshMetrics fetch pg now pm)))"
  using models_is_map
  by (auto simp: refreshMetrics_def wf_metrics_def split: sum.splits prod.splits option.splits)

lemma refresh_loop_wf:
  "wf_metrics (pm_metrics pm) \<Longrightarrow> wf_metrics (pm_metrics (refresh_loop fetch rounds pm))"
proof (induction rounds arbitrary: pm)
  case (Cons r rounds)
  then show ?case
    by (cases r) (auto simp: refresh_iteration_def refresh_wf split: option.splits)
qed simp

text \<open>
  A round either stamps the metrics with the clock, or leaves the object as it is; the
  latter only when the pool is not synced or the client reported an error.
\<close>

lemma refresh_stamps:
  "UpdateTime (pm_metrics (fst (refreshMetrics fetch pg now pm))) = now \<or>
   fst (refreshMetrics fetch pg now pm) = pm \<and>
     ((\<exists>e. pg = Inl e) \<or>
      (\<exists>p. pg = Inr p \<and> snd (fetch (pm_pod pm) (pm_metrics pm) (TargetPortNumber (pool_Spec p))) \<noteq> []))"
proof (cases pg)
  case (Inr p)
  then show ?thesis
    using nil_has_error
    by (cases "fetch (pm_pod pm) (pm_metrics pm) (TargetPortNumber (pool_Spec p))")
      (force simp: refreshMetrics_def split: option.splits)
qed (simp add: refreshMetrics_def)

end

end
