(* ===== verification/Datastore.thy ===== *)
theory Datastore
  imports Pod_Metrics
begin

text \<open>
  pkg/epp/datastore/datastore.go: the local cache of one InferencePool, its
  InferenceModels and its pods.

  \<^item> \<open>ds_pool\<close>, \<open>ds_models\<close>: the fields guarded by \<open>poolAndModelsMu\<close>. Each operation is one
    step here; theory \<open>Datastore_Locks\<close> has them instruction by instruction, with the lock.
  \<^item> \<open>ds_pods\<close>: the \<open>sync.Map\<close> from names to pod objects. The objects are shared with the
    refresh goroutines, so they live in a store of their own, \<open>ds_heap\<close>, and the map holds
    addresses (positions in the store). Objects are never freed: a refresh loop that is not
    stopped keeps its object alive.
  \<^item> The Kubernetes client (\<open>List\<close>) and the label selectors of apimachinery
    (\<open>SelectorFromSet(..).Matches\<close>) are parameters.
\<close>

record datastore =
  ds_pool :: "InferencePool option"
  ds_models :: "(string, InferenceModel) gomap"
  ds_pods :: "(NamespacedName, nat) gomap"
  ds_heap :: "podMetrics list"

definition errPoolNotSynced :: error where
  "errPoolNotSynced = PlainError ''InferencePool is not initialized in data store''"

definition NewDatastore :: datastore where
  "NewDatastore = \<lparr>ds_pool = None, ds_models = [], ds_pods = [], ds_heap = []\<rparr>"

definition Clear :: "datastore \<Rightarrow> datastore" where
  "Clear ds = ds\<lparr>ds_pool := None, ds_models := [], ds_pods := []\<rparr>"

subsection \<open>InferencePool\<close>

definition PoolSet :: "datastore \<Rightarrow> InferencePool option \<Rightarrow> datastore" where
  "PoolSet ds p = ds\<lparr>ds_pool := p\<rparr>"

definition PoolHasSynced :: "datastore \<Rightarrow> bool" where
  "PoolHasSynced ds \<longleftrightarrow> ds_pool ds \<noteq> None"

definition PoolGet :: "datastore \<Rightarrow> error + InferencePool" where
  "PoolGet ds =
     (if \<not> PoolHasSynced ds then Inl errPoolNotSynced
      else case ds_pool ds of Some p \<Rightarrow> Inr p | None \<Rightarrow> Inl errPoolNotSynced)"

type_synonym labels = "(string, string) gomap"

fun stripLabelKeyAliasFromLabelMap :: "labels \<Rightarrow> labels \<Rightarrow> labels" where
  "stripLabelKeyAliasFromLabelMap outMap [] = outMap"
| "stripLabelKeyAliasFromLabelMap outMap ((k, v) # ls) =
     stripLabelKeyAliasFromLabelMap (AList.update k v outMap) ls"

definition selectorFromInferencePoolSelector :: "(labels \<Rightarrow> 'sel) \<Rightarrow> labels \<Rightarrow> 'sel" where
  "selectorFromInferencePoolSelector selectorFromSet selector =
     selectorFromSet (stripLabelKeyAliasFromLabelMap [] selector)"

definition PoolLabelsMatch :: "(labels \<Rightarrow> labels \<Rightarrow> bool) \<Rightarrow> datastore \<Rightarrow> labels \<Rightarrow> bool go" where
  \<comment> \<open>\<open>matches sel ls\<close>: the selector made from the set \<open>sel\<close> matches the labels \<open>ls\<close>\<close>
  "PoolLabelsMatch matches ds podLabels =
     (case ds_pool ds of
        None \<Rightarrow> Panic ''nil pointer dereference''
      | Some p \<Rightarrow>
          Ret (selectorFromInferencePoolSelector matches (Selector (pool_Spec p)) podLabels))"

subsection \<open>InferenceModel\<close>

definition ModelSetIfOlder :: "datastore \<Rightarrow> InferenceModel \<Rightarrow> datastore \<times> bool" where
  "ModelSetIfOlder ds infModel =
     (let name = ModelName (model_Spec infModel);
          reject = (case map_of (ds_models ds) name of
                      None \<Rightarrow> False
                    | Some existing \<Rightarrow>
                        (Name (model_meta infModel) \<noteq> Name (model_meta existing) \<or>
                         Namespace (model_meta infModel) \<noteq> Namespace (model_meta existing)) \<and>
                        time_Before (CreationTimestamp (model_meta existing))
                          (CreationTimestamp (model_meta infModel)))
      in if reject then (ds, False)
         else (ds\<lparr>ds_models := AList.update name infModel (ds_models ds)\<rparr>, True))"

fun oldest_loop ::
  "InferencePool \<Rightarrow> string \<Rightarrow> InferenceModel list \<Rightarrow> InferenceModel option \<Rightarrow> InferenceModel option" where
  "oldest_loop p modelName [] oldest = oldest"
| "oldest_loop p modelName (m # ms) oldest =
     (if ModelName (model_Spec m) \<noteq> modelName \<or>
         ref_Name (PoolRef (model_Spec m)) \<noteq> Name (pool_meta p) \<or>
         \<not> time_IsZero (DeletionTimestamp (model_meta m))
      then oldest_loop p modelName ms oldest
      else case oldest of
             None \<Rightarrow> oldest_loop p modelName ms (Some m)
           | Some o' \<Rightarrow>
               if time_Before (CreationTimestamp (model_meta m)) (CreationTimestamp (model_meta o'))
               then oldest_loop p modelName ms (Some m)
               else oldest_loop p modelName ms oldest)"

definition ModelResync ::
  "(string \<Rightarrow> string \<Rightarrow> string + InferenceModel list) \<Rightarrow> datastore \<Rightarrow> string \<Rightarrow> (datastore \<times> (error + bool)) go"
where
  \<comment> \<open>\<open>listModels modelName namespace\<close> is the client's \<open>List\<close> by the model name index\<close>
  "ModelResync listModels ds modelName =
     (case ds_pool ds of
        None \<Rightarrow> Panic ''nil pointer dereference''
      | Some p \<Rightarrow>
          (case listModels modelName (Namespace (pool_meta p)) of
             Inl e \<Rightarrow> Ret (ds, Inl (PlainError
                       (''listing models that match the modelName '' @ modelName @ '': '' @ e)))
           | Inr items \<Rightarrow>
               if length items = 0 then Ret (ds, Inr False)
               else case oldest_loop p modelName items None of
                      None \<Rightarrow> Ret (ds, Inr False)
                    | Some m \<Rightarrow>
                        Ret (ds\<lparr>ds_models := AList.update modelName m (ds_models ds)\<rparr>, Inr True)))"

definition ModelGet :: "datastore \<Rightarrow> string \<Rightarrow> InferenceModel option" where
  "ModelGet ds modelName = map_of (ds_models ds) modelName"

definition ModelDelete :: "datastore \<Rightarrow> NamespacedName \<Rightarrow> datastore \<times> InferenceModel option" where
  "ModelDelete ds nn =
     (case find (\<lambda>m. Name (model_meta m) = nn_Name nn \<and> Namespace (model_meta m) = nn_Namespace nn)
             (map snd (ds_models ds)) of
        None \<Rightarrow> (ds, None)
      | Some m \<Rightarrow>
          (ds\<lparr>ds_models := AList.delete (ModelName (model_Spec m)) (ds_models ds)\<rparr>, Some m))"

definition ModelGetAll :: "datastore \<Rightarrow> InferenceModel list" where
  "ModelGetAll ds = map snd (ds_models ds)"

definition IsCritical :: "InferenceModel \<Rightarrow> bool" where
  "IsCritical m =
     (case Criticality (model_Spec m) of None \<Rightarrow> False | Some c \<Rightarrow> c = Critical)"

subsection \<open>Pods\<close>

definition PodList :: "datastore \<Rightarrow> (podMetrics \<Rightarrow> bool) \<Rightarrow> podMetrics list" where
  "PodList ds predicate = filter predicate (map (\<lambda>(k, a). ds_heap ds ! a) (ds_pods ds))"

definition PodGetAll :: "datastore \<Rightarrow> podMetrics list" where
  "PodGetAll ds = PodList ds (\<lambda>_. True)"

definition PodUpdateOrAddIfNotExist :: "datastore \<Rightarrow> corePod \<Rightarrow> datastore \<times> bool" where
  "PodUpdateOrAddIfNotExist ds p =
     (case map_of (ds_pods ds) (pod_nn p) of
        None \<Rightarrow>
          let a = length (ds_heap ds);
              ds1 = ds\<lparr>ds_heap := ds_heap ds @ [NewPodMetrics p],
                       ds_pods := AList.update (pod_nn p) a (ds_pods ds)\<rparr>
          in (ds1\<lparr>ds_heap := (ds_heap ds1)[a := UpdatePod (ds_heap ds1 ! a) p]\<rparr>, False)
      | Some a \<Rightarrow> (ds\<lparr>ds_heap := (ds_heap ds)[a := UpdatePod (ds_heap ds ! a) p]\<rparr>, True))"

definition PodDelete :: "datastore \<Rightarrow> NamespacedName \<Rightarrow> datastore go" where
  "PodDelete ds nn =
     (case map_of (ds_pods ds) nn of
        None \<Rightarrow> Ret ds
      | Some a \<Rightarrow>
          let ds1 = ds\<lparr>ds_pods := AList.delete nn (ds_pods ds)\<rparr>
          in go_bind (StopRefreshLoop (ds_heap ds1 ! a))
               (\<lambda>pm. Ret (ds1\<lparr>ds_heap := (ds_heap ds1)[a := pm]\<rparr>)))"

fun podIsReady_loop :: "PodCondition list \<Rightarrow> bool" where
  "podIsReady_loop [] = False"
| "podIsReady_loop (c # cs) =
     (if cond_Type c = ''Ready'' then cond_Status c = ''True'' else podIsReady_loop cs)"

definition podIsReady :: "corePod \<Rightarrow> bool" where
  "podIsReady p = podIsReady_loop (Conditions p)"

fun resync_add :: "corePod list \<Rightarrow> datastore \<Rightarrow> string list \<Rightarrow> datastore \<times> string list" where
  "resync_add [] ds activePods = (ds, activePods)"
| "resync_add (p # ps) ds activePods =
     (if podIsReady p
      then resync_add ps (fst (PodUpdateOrAddIfNotExist ds p)) (Name (pod_meta p) # activePods)
      else resync_add ps ds activePods)"

fun resync_delete :: "nat list \<Rightarrow> datastore \<Rightarrow> string list \<Rightarrow> datastore go" where
  \<comment> \<open>the \<open>Range\<close> over the entries present when it starts\<close>
  "resync_delete [] ds activePods = Ret ds"
| "resync_delete (a # as) ds activePods =
     (if nn_Name (pm_nn (ds_heap ds ! a)) \<in> set activePods then resync_delete as ds activePods
      else go_bind (PodDelete ds (pm_nn (ds_heap ds ! a)))
             (\<lambda>ds'. resync_delete as ds' activePods))"

definition PodResyncAll ::
  "(labels \<Rightarrow> string \<Rightarrow> string + corePod list) \<Rightarrow> datastore \<Rightarrow> InferencePool \<Rightarrow> datastore go" where
  \<comment> \<open>\<open>listPods selector namespace\<close> is the client's \<open>List\<close> with a label selector; the list and
     the loops over it are one step\<close>
  "PodResyncAll listPods ds p =
     (case selectorFromInferencePoolSelector listPods (Selector (pool_Spec p)) (Namespace (pool_meta p)) of
        Inl err \<Rightarrow> Ret ds
      | Inr items \<Rightarrow>
          (case resync_add items ds [] of
             (ds1, activePods) \<Rightarrow> resync_delete (map snd (ds_pods ds1)) ds1 activePods))"

subsection \<open>The invariant of the store\<close>

definition wf_models :: "datastore \<Rightarrow> bool" where
  \<comment> \<open>each model is stored under its own model name\<close>
  "wf_models ds \<longleftrightarrow> is_map (ds_models ds) \<and> (\<forall>(k, m)\<in>set (ds_models ds). k = ModelName (model_Spec m))"

definition wf_pods :: "datastore \<Rightarrow> bool" where
  \<comment> \<open>each pod is stored under its own name, in an object of its own with a running loop\<close>
  "wf_pods ds \<longleftrightarrow> is_map (ds_pods ds) \<and> distinct (map snd (ds_pods ds)) \<and>
     (\<forall>(k, a)\<in>set (ds_pods ds). a < length (ds_heap ds) \<and> pm_nn (ds_heap ds ! a) = k \<and>
        pm_started (ds_heap ds ! a) \<and> \<not> pm_done (ds_heap ds ! a))"

definition loops_tracked :: "datastore \<Rightarrow> bool" where
  \<comment> \<open>every refresh loop that has not been stopped belongs to a stored pod\<close>
  "loops_tracked ds \<longleftrightarrow>
     (\<forall>a<length (ds_heap ds). pm_started (ds_heap ds ! a) \<and> \<not> pm_done (ds_heap ds ! a) \<longrightarrow>
        a \<in> snd ` set (ds_pods ds))"

definition wf_ds :: "datastore \<Rightarrow> bool" where
  "wf_ds ds \<longleftrightarrow> wf_models ds \<and> wf_pods ds"

lemmas wf_defs = wf_ds_def wf_models_def wf_pods_def

lemma wf_pods_entry:
  assumes "wf_pods ds" "(k, a) \<in> set (ds_pods ds)"
  shows "a < length (ds_heap ds)" "pm_nn (ds_heap ds ! a) = k" "pm_started (ds_heap ds ! a)"
    "\<not> pm_done (ds_heap ds ! a)"
  using assms by (auto simp: wf_pods_def)

lemma wf_podsD:
  assumes "wf_pods ds" "map_of (ds_pods ds) k = Some a"
  shows "a < length (ds_heap ds)" "pm_nn (ds_heap ds ! a) = k" "pm_started (ds_heap ds ! a)"
    "\<not> pm_done (ds_heap ds ! a)" "(k, a) \<in> set (ds_pods ds)"
  using assms by (auto simp: wf_pods_def dest!: map_of_SomeD)

lemma wf_pods_addr_inj:
  "wf_pods ds \<Longrightarrow> (k, a) \<in> set (ds_pods ds) \<Longrightarrow> (k', a) \<in> set (ds_pods ds) \<Longrightarrow> k = k'"
  by (auto dest: wf_pods_entry(2))

lemma wf_NewDatastore: "wf_ds NewDatastore" "loops_tracked NewDatastore"
  by (simp_all add: NewDatastore_def wf_defs loops_tracked_def)

lemma PoolGet_Some: "PoolGet ds = Inr p \<longleftrightarrow> ds_pool ds = Some p"
  by (auto simp: PoolGet_def PoolHasSynced_def split: option.splits)

lemma PoolGet_None: "PoolGet ds = Inl e \<longleftrightarrow> ds_pool ds = None \<and> e = errPoolNotSynced"
  by (auto simp: PoolGet_def PoolHasSynced_def split: option.splits)

lemma strip_append: "is_map (out @ ls) \<Longrightarrow> stripLabelKeyAliasFromLabelMap out ls = out @ ls"
  by (induction out ls rule: stripLabelKeyAliasFromLabelMap.induct) (auto simp: is_map_def update_new)

lemma strip_id [simp]: "is_map ls \<Longrightarrow> stripLabelKeyAliasFromLabelMap [] ls = ls"
  by (simp add: strip_append)

subsection \<open>Models\<close>

lemma ModelSetIfOlder_cases:
  assumes "ModelSetIfOlder ds m = (ds', ok)"
  obtains (rejected) old where "\<not> ok" "ds' = ds" "ModelGet ds (ModelName (model_Spec m)) = Some old"
      "model_nn old \<noteq> model_nn m" "CreationTimestamp (model_meta old) < CreationTimestamp (model_meta m)"
  | (stored) "ok" "ds' = ds\<lparr>ds_models := AList.update (ModelName (model_Spec m)) m (ds_models ds)\<rparr>"
      "\<forall>old. ModelGet ds (ModelName (model_Spec m)) = Some old \<longrightarrow> model_nn old = model_nn m \<or>
         CreationTimestamp (model_meta m) \<le> CreationTimestamp (model_meta old)"
  using assms
  by (fastforce simp: ModelSetIfOlder_def ModelGet_def Let_def time_Before_def split: option.splits if_splits)

lemma model_nn_iff:
  "model_nn m = nn \<longleftrightarrow> Name (model_meta m) = nn_Name nn \<and> Namespace (model_meta m) = nn_Namespace nn"
  by (cases nn) auto

lemma ModelDelete_cases:
  assumes "ModelDelete ds nn = (ds', r)"
  obtains (absent) "r = None" "ds' = ds" "\<forall>(k, m)\<in>set (ds_models ds). model_nn m \<noteq> nn"
  | (deleted) k m where "r = Some m" "model_nn m = nn" "(k, m) \<in> set (ds_models ds)"
      "ds' = ds\<lparr>ds_models := AList.delete (ModelName (model_Spec m)) (ds_models ds)\<rparr>"
proof (cases "find (\<lambda>m. Name (model_meta m) = nn_Name nn \<and> Namespace (model_meta m) = nn_Namespace nn)
             (map snd (ds_models ds))")
  case None
  then have "\<forall>(k, m)\<in>set (ds_models ds). model_nn m \<noteq> nn"
    by (auto simp: find_None_iff model_nn_iff)
  with None assms absent show ?thesis by (simp add: ModelDelete_def)
next
  case (Some m)
  then have "m \<in> set (map snd (ds_models ds))" "model_nn m = nn"
    unfolding model_nn_iff by (auto simp: find_Some_iff intro!: imageI nth_mem)
  moreover from this(1) obtain k where "(k, m) \<in> set (ds_models ds)" by auto
  moreover have "r = Some m" "ds' = ds\<lparr>ds_models := AList.delete (ModelName (model_Spec m)) (ds_models ds)\<rparr>"
    using Some assms by (simp_all add: ModelDelete_def)
  ultimately show ?thesis by (intro deleted)
qed

lemma wf_models_update:
  "wf_models ds \<Longrightarrow> k = ModelName (model_Spec m) \<Longrightarrow> wf_models (ds\<lparr>ds_models := AList.update k m (ds_models ds)\<rparr>)"
  by (auto simp: wf_models_def set_update_is_map)

lemma wf_models_delete:
  "wf_models ds \<Longrightarrow> wf_models (ds\<lparr>ds_models := AList.delete k (ds_models ds)\<rparr>)"
  by (auto simp: wf_models_def set_delete)

lemma wf_models_get: "wf_models ds \<Longrightarrow> ModelGet ds n = Some m \<Longrightarrow> ModelName (model_Spec m) = n"
  by (auto simp: wf_models_def ModelGet_def dest: map_of_SomeD)

text \<open>
  The loop of \<open>ModelResync\<close>: its result is an eligible model (or the one it started with),
  and no eligible one is older.
\<close>

definition eligible :: "InferencePool \<Rightarrow> string \<Rightarrow> InferenceModel \<Rightarrow> bool" where
  "eligible p modelName m \<longleftrightarrow> ModelName (model_Spec m) = modelName \<and>
     ref_Name (PoolRef (model_Spec m)) = Name (pool_meta p) \<and> time_IsZero (DeletionTimestamp (model_meta m))"

abbreviation created :: "InferenceModel \<Rightarrow> int" where
  "created m \<equiv> CreationTimestamp (model_meta m)"

lemma oldest_loop_spec:
  "case oldest_loop p n ms old of
     None \<Rightarrow> old = None \<and> (\<forall>m\<in>set ms. \<not> eligible p n m)
   | Some r \<Rightarrow> (old = Some r \<or> r \<in> set ms \<and> eligible p n r) \<and>
       (\<forall>m\<in>set ms. eligible p n m \<longrightarrow> created r \<le> created m) \<and> (\<forall>q. old = Some q \<longrightarrow> created r \<le> created q)"
proof (induction ms arbitrary: old)
  case Nil
  then show ?case by (auto split: option.splits)
next
  case (Cons m ms)
  show ?case
  proof (cases "eligible p n m")
    case False
    then have "oldest_loop p n (m # ms) old = oldest_loop p n ms old"
      by (auto simp: eligible_def)
    with Cons.IH [of old] False show ?thesis by (auto split: option.splits)
  next
    case True
    let ?old = "case old of None \<Rightarrow> Some m | Some q \<Rightarrow> if created m < created q then Some m else old"
    from True have "oldest_loop p n (m # ms) old = oldest_loop p n ms ?old"
      by (auto simp: eligible_def time_Before_def split: option.splits)
    with Cons.IH [of ?old] True show ?thesis
      by (auto split: option.splits if_splits)
  qed
qed

subsection \<open>Pods\<close>

definition PodLookup :: "datastore \<Rightarrow> NamespacedName \<Rightarrow> podMetrics option" where
  \<comment> \<open>the abstraction of the pod map and its heap: what is stored under a name\<close>
  "PodLookup ds nn = map_option (\<lambda>a. ds_heap ds ! a) (map_of (ds_pods ds) nn)"

lemma PodLookup_nn: "wf_pods ds \<Longrightarrow> PodLookup ds nn = Some pm \<Longrightarrow> pm_nn pm = nn \<and> \<not> pm_done pm"
  by (auto simp: PodLookup_def dest: wf_podsD)

lemma PodGetAll_iff: "wf_pods ds \<Longrightarrow> pm \<in> set (PodGetAll ds) \<longleftrightarrow> (\<exists>nn. PodLookup ds nn = Some pm)"
  by (force simp: PodGetAll_def PodList_def PodLookup_def wf_pods_def is_map_map_of)

lemma PodGetAll_empty: "PodGetAll ds = [] \<longleftrightarrow> ds_pods ds = []"
  by (auto simp: PodGetAll_def PodList_def)

lemma pod_nn_simps [simp]: "NamespacedName (toInternalPod p) = pod_nn p"
  by (simp add: toInternalPod_def)

lemma UpdatePod_simps [simp]:
  "pm_pod (UpdatePod pm p) = toInternalPod p" "pm_started (UpdatePod pm p) = pm_started pm"
  "pm_done (UpdatePod pm p) = pm_done pm" "pm_metrics (UpdatePod pm p) = pm_metrics pm"
  by (simp_all add: UpdatePod_def)

lemma UpdatePod_New [simp]: "UpdatePod (NewPodMetrics p) p = NewPodMetrics p"
  by (simp add: UpdatePod_def NewPodMetrics_def startRefreshLoop_def)

definition pod_upsert :: "podMetrics option \<Rightarrow> corePod \<Rightarrow> podMetrics" where
  "pod_upsert old p = (case old of None \<Rightarrow> NewPodMetrics p | Some pm \<Rightarrow> UpdatePod pm p)"

lemma pod_upsert_pod [simp]: "pm_pod (pod_upsert old p) = toInternalPod p"
  by (simp add: pod_upsert_def split: option.splits)

lemma PodUpdate_add:
  assumes wf: "wf_pods ds" and new: "map_of (ds_pods ds) (pod_nn p) = None"
  defines "ds' \<equiv> fst (PodUpdateOrAddIfNotExist ds p)"
  shows "wf_pods ds'" "PodLookup ds' = (PodLookup ds)(pod_nn p \<mapsto> NewPodMetrics p)"
    "loops_tracked ds \<Longrightarrow> loops_tracked ds'"
proof -
  let ?a = "length (ds_heap ds)"
  have k: "pod_nn p \<notin> fst ` set (ds_pods ds)" using new by (simp add: map_of_eq_None_iff)
  have ds': "ds_pods ds' = ds_pods ds @ [(pod_nn p, ?a)]" "ds_heap ds' = ds_heap ds @ [NewPodMetrics p]"
    using new k by (simp_all add: ds'_def PodUpdateOrAddIfNotExist_def Let_def update_new)
  have lt: "a < ?a" if "(k, a) \<in> set (ds_pods ds)" for k a
    using wf that by (auto simp: wf_pods_def)
  show "wf_pods ds'"
    using wf k lt unfolding wf_pods_def ds'
    by (auto simp: is_map_def nth_append)
  show "PodLookup ds' = (PodLookup ds)(pod_nn p \<mapsto> NewPodMetrics p)"
    using lt new by (auto simp: PodLookup_def ds' fun_eq_iff nth_append map_add_def
        dest!: map_of_SomeD split: option.splits)
  show "loops_tracked ds'" if "loops_tracked ds"
    using that by (auto simp: loops_tracked_def ds' nth_append less_Suc_eq)
qed

lemma PodUpdate_existing:
  assumes wf: "wf_pods ds" and old: "map_of (ds_pods ds) (pod_nn p) = Some a"
  defines "ds' \<equiv> fst (PodUpdateOrAddIfNotExist ds p)"
  shows "wf_pods ds'" "PodLookup ds' = (PodLookup ds)(pod_nn p \<mapsto> UpdatePod (ds_heap ds ! a) p)"
    "loops_tracked ds \<Longrightarrow> loops_tracked ds'"
proof -
  have ds': "ds_pods ds' = ds_pods ds" "ds_heap ds' = (ds_heap ds)[a := UpdatePod (ds_heap ds ! a) p]"
    using old by (simp_all add: ds'_def PodUpdateOrAddIfNotExist_def)
  note a = wf_podsD [OF wf old]
  have other: "b \<noteq> a" if "map_of (ds_pods ds) k = Some b" "k \<noteq> pod_nn p" for k b
    using wf_pods_addr_inj [OF wf] a(5) that by (auto dest!: map_of_SomeD)
  have entry: "b < length (ds_heap ds') \<and> pm_nn (ds_heap ds' ! b) = k \<and>
        pm_started (ds_heap ds' ! b) \<and> \<not> pm_done (ds_heap ds' ! b)"
    if kb: "(k, b) \<in> set (ds_pods ds)" for k b
  proof (cases "b = a")
    case True
    with wf_pods_addr_inj [OF wf _ a(5)] kb have "k = pod_nn p" by simp
    with a True show ?thesis by (simp add: ds')
  qed (use wf_pods_entry [OF wf kb] in \<open>simp add: ds'\<close>)
  show "wf_pods ds'"
    unfolding wf_pods_def using wf entry by (auto simp: wf_pods_def ds'(1))
  show "PodLookup ds' = (PodLookup ds)(pod_nn p \<mapsto> UpdatePod (ds_heap ds ! a) p)"
    using old a(1) by (auto simp: PodLookup_def ds' fun_eq_iff intro!: heap_update_neq dest: other)
  show "loops_tracked ds'" if "loops_tracked ds"
    using that a by (auto simp: loops_tracked_def ds' nth_list_update)
qed

lemma PodUpdate_frame:
  "ds_pool (fst (PodUpdateOrAddIfNotExist ds p)) = ds_pool ds"
  "ds_models (fst (PodUpdateOrAddIfNotExist ds p)) = ds_models ds"
  by (auto simp: PodUpdateOrAddIfNotExist_def Let_def split: option.splits)

lemma PodUpdateOrAdd_spec:
  assumes "wf_pods ds" "PodUpdateOrAddIfNotExist ds p = (ds', ok)"
  shows "wf_pods ds'" "PodLookup ds' = (PodLookup ds)(pod_nn p \<mapsto> pod_upsert (PodLookup ds (pod_nn p)) p)"
    "loops_tracked ds \<Longrightarrow> loops_tracked ds'" "ok \<longleftrightarrow> PodLookup ds (pod_nn p) \<noteq> None"
proof -
  have ds': "ds' = fst (PodUpdateOrAddIfNotExist ds p)" using assms(2) by simp
  have "wf_pods ds' \<and> PodLookup ds' = (PodLookup ds)(pod_nn p \<mapsto> pod_upsert (PodLookup ds (pod_nn p)) p)
    \<and> (loops_tracked ds \<longrightarrow> loops_tracked ds')"
  proof (cases "map_of (ds_pods ds) (pod_nn p)")
    case None
    with PodUpdate_add [OF assms(1) None] show ?thesis
      by (simp add: ds' PodLookup_def pod_upsert_def)
  next
    case (Some a)
    with PodUpdate_existing [OF assms(1) Some] show ?thesis
      by (simp add: ds' PodLookup_def pod_upsert_def)
  qed
  then show "wf_pods ds'" "loops_tracked ds \<Longrightarrow> loops_tracked ds'"
    "PodLookup ds' = (PodLookup ds)(pod_nn p \<mapsto> pod_upsert (PodLookup ds (pod_nn p)) p)" by auto
  show "ok \<longleftrightarrow> PodLookup ds (pod_nn p) \<noteq> None"
    using assms(2) by (auto simp: PodUpdateOrAddIfNotExist_def PodLookup_def split: option.splits)
qed

lemma PodDelete_spec:
  assumes wf: "wf_pods ds"
  shows "\<exists>ds'. PodDelete ds nn = Ret ds' \<and> wf_pods ds' \<and> PodLookup ds' = (PodLookup ds)(nn := None) \<and>
    (loops_tracked ds \<longrightarrow> loops_tracked ds') \<and> ds_pool ds' = ds_pool ds \<and> ds_models ds' = ds_models ds"
proof (cases "map_of (ds_pods ds) nn")
  case None
  with wf show ?thesis by (auto simp: PodDelete_def PodLookup_def fun_eq_iff)
next
  case (Some a)
  note a = wf_podsD [OF wf Some]
  let ?ds' = "ds\<lparr>ds_pods := AList.delete nn (ds_pods ds), ds_heap := (ds_heap ds)[a := (ds_heap ds ! a)\<lparr>pm_done := True\<rparr>]\<rparr>"
  have other: "b \<noteq> a" if "(k, b) \<in> set (ds_pods ds)" "k \<noteq> nn" for k b
    using wf_pods_addr_inj [OF wf] a(5) that by auto
  have keep: "ds_heap ?ds' ! b = ds_heap ds ! b" if "b \<noteq> a" for b
    using that by simp
  have "PodDelete ds nn = Ret ?ds'"
    using Some a by (simp add: PodDelete_def StopRefreshLoop_def Let_def)
  moreover have "wf_pods ?ds'"
  proof -
    have "distinct (map snd (AList.delete nn (ds_pods ds)))"
      using wf by (simp add: wf_pods_def AList.delete_eq distinct_map_filter)
    moreover have "is_map (AList.delete nn (ds_pods ds))" using wf by (simp add: wf_pods_def)
    moreover have "b < length (ds_heap ?ds') \<and> pm_nn (ds_heap ?ds' ! b) = k \<and>
        pm_started (ds_heap ?ds' ! b) \<and> \<not> pm_done (ds_heap ?ds' ! b)"
      if "(k, b) \<in> set (AList.delete nn (ds_pods ds))" for k b
    proof -
      from that have kb: "(k, b) \<in> set (ds_pods ds)" "k \<noteq> nn" by (auto simp: set_delete)
      show ?thesis using wf_pods_entry [OF wf kb(1)] other [OF kb] by simp
    qed
    ultimately show ?thesis unfolding wf_pods_def by auto
  qed
  moreover have "PodLookup ?ds' = (PodLookup ds)(nn := None)"
    by (auto simp: PodLookup_def fun_eq_iff store_simps
        intro!: heap_update_neq dest!: map_of_SomeD dest: other)
  moreover have "loops_tracked ds \<longrightarrow> loops_tracked ?ds'"
  proof
    assume tr: "loops_tracked ds"
    show "loops_tracked ?ds'"
      unfolding loops_tracked_def
    proof (intro allI impI)
      fix b assume b: "b < length (ds_heap ?ds')"
        "pm_started (ds_heap ?ds' ! b) \<and> \<not> pm_done (ds_heap ?ds' ! b)"
      have "b \<noteq> a" using b a(1) by auto
      with b tr keep obtain k where "(k, b) \<in> set (ds_pods ds)"
        by (force simp: loops_tracked_def)
      moreover from this a(2) \<open>b \<noteq> a\<close> have "k \<noteq> nn"
        using Some wf by (auto simp: wf_pods_def is_map_map_of [symmetric])
      ultimately show "b \<in> snd ` set (ds_pods ?ds')" by (force simp: set_delete)
    qed
  qed
  ultimately show ?thesis by auto
qed

lemma PodDelete_pods: "PodDelete ds nn = Ret ds' \<Longrightarrow> ds_pods ds' = AList.delete nn (ds_pods ds)"
  by (auto simp: PodDelete_def StopRefreshLoop_def Let_def delete_id map_of_eq_None_iff go_simps
      split: option.splits if_splits)

subsection \<open>Resynchronising the pods\<close>

lemma resync_add_active:
  "set (snd (resync_add ps ds act)) = set act \<union> {Name (pod_meta p) | p. p \<in> set ps \<and> podIsReady p}"
  by (induction ps ds act rule: resync_add.induct) auto

lemma resync_add_spec:
  assumes "wf_pods ds" "resync_add ps ds act = (ds', act')"
  shows "wf_pods ds' \<and> (loops_tracked ds \<longrightarrow> loops_tracked ds') \<and>
    ds_pool ds' = ds_pool ds \<and> ds_models ds' = ds_models ds \<and>
    (\<forall>k. PodLookup ds' k \<noteq> None \<longleftrightarrow> PodLookup ds k \<noteq> None \<or> (\<exists>p\<in>set ps. podIsReady p \<and> pod_nn p = k))"
  using assms
proof (induction ps ds act arbitrary: ds' rule: resync_add.induct)
  case (2 p ps ds act)
  obtain ds1 ok where u: "PodUpdateOrAddIfNotExist ds p = (ds1, ok)" by fastforce
  have frame: "ds_pool ds1 = ds_pool ds" "ds_models ds1 = ds_models ds"
    using PodUpdate_frame [of ds p] u by simp_all
  note spec = PodUpdateOrAdd_spec [OF 2(3) u]
  show ?case
  proof (cases "podIsReady p")
    case True
    with 2(1) [OF True, of ds'] 2(4) u spec(1)
    have "wf_pods ds' \<and> (loops_tracked ds1 \<longrightarrow> loops_tracked ds') \<and> ds_pool ds' = ds_pool ds1 \<and>
      ds_models ds' = ds_models ds1 \<and>
      (\<forall>k. PodLookup ds' k \<noteq> None \<longleftrightarrow> PodLookup ds1 k \<noteq> None \<or> (\<exists>p\<in>set ps. podIsReady p \<and> pod_nn p = k))"
      by simp
    with frame spec(2,3) True show ?thesis by auto
  next
    case False
    with 2(2) [OF False, of ds'] 2(3,4) show ?thesis by auto
  qed
qed simp

lemma resync_delete_spec:
  assumes "wf_pods ds" "distinct as" "set as \<subseteq> snd ` set (ds_pods ds)"
  shows "\<exists>ds'. resync_delete as ds act = Ret ds' \<and> wf_pods ds' \<and> (loops_tracked ds \<longrightarrow> loops_tracked ds') \<and>
    ds_pool ds' = ds_pool ds \<and> ds_models ds' = ds_models ds \<and>
    (\<forall>k. PodLookup ds' k = (if (\<exists>a\<in>set as. (k, a) \<in> set (ds_pods ds)) \<and> nn_Name k \<notin> set act
                           then None else PodLookup ds k))"
  using assms
proof (induction as ds act rule: resync_delete.induct)
  case (2 a as ds act)
  from 2(5) obtain k where k: "(k, a) \<in> set (ds_pods ds)" by auto
  note e = wf_pods_entry [OF 2(3) k]
  have inj: "k' = k" if "(k', a) \<in> set (ds_pods ds)" for k'
    using wf_pods_addr_inj [OF 2(3) that k] .
  show ?case
  proof (cases "nn_Name k \<in> set act")
    case True
    then have same: "(\<exists>b\<in>set (a # as). (k', b) \<in> set (ds_pods ds)) \<and> nn_Name k' \<notin> set act \<longleftrightarrow>
      (\<exists>b\<in>set as. (k', b) \<in> set (ds_pods ds)) \<and> nn_Name k' \<notin> set act" for k'
      using inj by auto
    from True 2 e(2) show ?thesis unfolding same by simp
  next
    case False
    from PodDelete_spec [OF 2(3), of k] obtain ds1 where ds1: "PodDelete ds k = Ret ds1" "wf_pods ds1"
      "PodLookup ds1 = (PodLookup ds)(k := None)" "loops_tracked ds \<longrightarrow> loops_tracked ds1"
      "ds_pool ds1 = ds_pool ds" "ds_models ds1 = ds_models ds" by auto
    have pods: "set (ds_pods ds1) = {e \<in> set (ds_pods ds). fst e \<noteq> k}"
      by (simp add: PodDelete_pods [OF ds1(1)] set_delete)
    have uniq: "b = a" if "(k, b) \<in> set (ds_pods ds)" for b
      using 2(3) that k by (auto simp: wf_pods_def is_map_map_of [symmetric])
    have sub: "set as \<subseteq> snd ` set (ds_pods ds1)"
    proof
      fix b assume "b \<in> set as"
      with 2(4) have "b \<noteq> a" by auto
      moreover from \<open>b \<in> set as\<close> 2(5) obtain k' where "(k', b) \<in> set (ds_pods ds)" by fastforce
      ultimately show "b \<in> snd ` set (ds_pods ds1)" using uniq by (force simp: pods)
    qed
    from 2(2) [OF _ ds1(2) _ sub] False e(2) 2(4) obtain ds' where ds':
      "resync_delete as ds1 act = Ret ds'" "wf_pods ds'" "loops_tracked ds1 \<longrightarrow> loops_tracked ds'"
      "ds_pool ds' = ds_pool ds1" "ds_models ds' = ds_models ds1"
      "\<forall>k'. PodLookup ds' k' = (if (\<exists>a\<in>set as. (k', a) \<in> set (ds_pods ds1)) \<and> nn_Name k' \<notin> set act
                              then None else PodLookup ds1 k')" by auto
    have "PodLookup ds' k' = (if (\<exists>b\<in>set (a # as). (k', b) \<in> set (ds_pods ds)) \<and> nn_Name k' \<notin> set act
                              then None else PodLookup ds k')" for k'
    proof (cases "k' = k")
      case True
      with k False ds'(6) ds1(3) show ?thesis by auto
    next
      case neq: False
      then have "(\<exists>b\<in>set (a # as). (k', b) \<in> set (ds_pods ds)) \<longleftrightarrow> (\<exists>b\<in>set as. (k', b) \<in> set (ds_pods ds1))"
        using inj [of k'] by (auto simp: pods)
      with neq ds'(6) ds1(3) show ?thesis by simp
    qed
    with ds'(1-5) ds1 False e(2) show ?thesis by (simp add: go_simps)
  qed
qed auto

theorem PodResyncAll_spec:
  assumes wf: "wf_pods ds"
    and ls: "selectorFromInferencePoolSelector listPods (Selector (pool_Spec p)) (Namespace (pool_meta p)) = Inr items"
  shows "\<exists>ds'. PodResyncAll listPods ds p = Ret ds' \<and> wf_pods ds' \<and> (loops_tracked ds \<longrightarrow> loops_tracked ds') \<and>
    ds_pool ds' = ds_pool ds \<and> ds_models ds' = ds_models ds \<and>
    (\<forall>k. PodLookup ds' k \<noteq> None \<longleftrightarrow>
       (\<exists>q\<in>set items. podIsReady q \<and> pod_nn q = k) \<or>
       PodLookup ds k \<noteq> None \<and> (\<exists>q\<in>set items. podIsReady q \<and> Name (pod_meta q) = nn_Name k))"
proof -
  obtain ds1 act where r: "resync_add items ds [] = (ds1, act)" by fastforce
  note add = resync_add_spec [OF wf r]
  have act: "set act = {Name (pod_meta q) | q. q \<in> set items \<and> podIsReady q}"
    using resync_add_active [of items ds "[]"] r by simp
  have "distinct (map snd (ds_pods ds1))" using add by (simp add: wf_pods_def)
  with resync_delete_spec [of ds1 "map snd (ds_pods ds1)" act] add obtain ds' where ds':
    "resync_delete (map snd (ds_pods ds1)) ds1 act = Ret ds'" "wf_pods ds'"
    "loops_tracked ds1 \<longrightarrow> loops_tracked ds'" "ds_pool ds' = ds_pool ds1" "ds_models ds' = ds_models ds1"
    "\<forall>k. PodLookup ds' k = (if (\<exists>a\<in>set (map snd (ds_pods ds1)). (k, a) \<in> set (ds_pods ds1)) \<and> nn_Name k \<notin> set act
                           then None else PodLookup ds1 k)" by auto
  have stored: "(\<exists>a\<in>set (map snd (ds_pods ds1)). (k, a) \<in> set (ds_pods ds1)) \<longleftrightarrow> PodLookup ds1 k \<noteq> None" for k
    by (force simp: PodLookup_def map_of_eq_None_iff)
  have "PodLookup ds' k \<noteq> None \<longleftrightarrow> PodLookup ds1 k \<noteq> None \<and> nn_Name k \<in> set act" for k
    using ds'(6) stored [of k] by auto
  moreover have "PodResyncAll listPods ds p = Ret ds'"
    using ls r ds'(1) by (simp add: PodResyncAll_def)
  moreover have "PodLookup ds1 k \<noteq> None \<and> nn_Name k \<in> set act \<longleftrightarrow>
       (\<exists>q\<in>set items. podIsReady q \<and> pod_nn q = k) \<or>
       PodLookup ds k \<noteq> None \<and> (\<exists>q\<in>set items. podIsReady q \<and> Name (pod_meta q) = nn_Name k)" for k
    using add by (cases k) (auto simp: act)
  ultimately show ?thesis using add ds' by auto
qed

lemma resync_add_lookup:
  assumes "wf_pods ds" "distinct (map pod_nn ps)" "resync_add ps ds act = (ds', act')"
  shows "PodLookup ds' k = (case find (\<lambda>q. podIsReady q \<and> pod_nn q = k) ps of
    Some q \<Rightarrow> Some (pod_upsert (PodLookup ds k) q) | None \<Rightarrow> PodLookup ds k)"
  using assms
proof (induction ps ds act arbitrary: ds' rule: resync_add.induct)
  case (2 p ps ds act)
  obtain ds1 ok where u: "PodUpdateOrAddIfNotExist ds p = (ds1, ok)" by fastforce
  note spec = PodUpdateOrAdd_spec [OF 2(3) u]
  show ?case
  proof (cases "podIsReady p")
    case True
    from 2(1) [OF True, of ds'] 2(4,5) u True spec(1) have
      ih: "PodLookup ds' k = (case find (\<lambda>q. podIsReady q \<and> pod_nn q = k) ps of
        Some q \<Rightarrow> Some (pod_upsert (PodLookup ds1 k) q) | None \<Rightarrow> PodLookup ds1 k)" by (simp cong: option.case_cong)
    show ?thesis
    proof (cases "pod_nn p = k")
      case eq: True
      with 2(4) have "k \<notin> pod_nn ` set ps" by (auto simp only: list.map distinct.simps set_map)
      then have "find (\<lambda>q. podIsReady q \<and> pod_nn q = k) ps = None" unfolding find_None_iff by blast
      with ih eq True spec(2) show ?thesis by auto
    next
      case neq: False
      with spec(2) have "PodLookup ds1 k = PodLookup ds k" by simp
      with ih neq show ?thesis by (simp cong: option.case_cong)
    qed
  next
    case False
    with 2(2) [OF False, of ds'] 2(3-5) show ?thesis by auto
  qed
qed simp

lemma PodResyncAll_lookup:
  assumes wf: "wf_pods ds"
    and ls: "selectorFromInferencePoolSelector listPods (Selector (pool_Spec p)) (Namespace (pool_meta p)) = Inr items"
    and d: "distinct (map pod_nn items)" and ns: "\<forall>q\<in>set items. Namespace (pod_meta q) = ns"
      "\<And>k. PodLookup ds k \<noteq> None \<Longrightarrow> nn_Namespace k = ns"
    and r: "PodResyncAll listPods ds p = Ret ds'"
  shows "PodLookup ds' k = map_option (pod_upsert (PodLookup ds k)) (find (\<lambda>q. podIsReady q \<and> pod_nn q = k) items)"
proof -
  obtain ds1 act where r1: "resync_add items ds [] = (ds1, act)" by fastforce
  note add = resync_add_spec [OF wf r1]
  have act: "set act = {Name (pod_meta q) | q. q \<in> set items \<and> podIsReady q}"
    using resync_add_active [of items ds "[]"] r1 by simp
  have "distinct (map snd (ds_pods ds1))" using add by (simp add: wf_pods_def)
  with resync_delete_spec [of ds1 "map snd (ds_pods ds1)" act] add r r1 ls have l:
    "PodLookup ds' k = (if (\<exists>a\<in>set (map snd (ds_pods ds1)). (k, a) \<in> set (ds_pods ds1)) \<and> nn_Name k \<notin> set act
                        then None else PodLookup ds1 k)" by (auto simp: PodResyncAll_def)
  have stored: "(\<exists>a\<in>set (map snd (ds_pods ds1)). (k, a) \<in> set (ds_pods ds1)) \<longleftrightarrow> PodLookup ds1 k \<noteq> None"
    by (force simp: PodLookup_def map_of_eq_None_iff)
  note l1 = resync_add_lookup [OF wf d r1, of k]
  show ?thesis
  proof (cases "find (\<lambda>q. podIsReady q \<and> pod_nn q = k) items")
    case None
    have "nn_Name k \<notin> set act" if "PodLookup ds k \<noteq> None"
    proof
      assume "nn_Name k \<in> set act"
      then obtain q where "q \<in> set items" "podIsReady q" "Name (pod_meta q) = nn_Name k" by (auto simp: act)
      with ns(1) ns(2) [OF that] have "pod_nn q = k" by (cases k) auto
      with None \<open>q \<in> set items\<close> \<open>podIsReady q\<close> show False by (auto simp: find_None_iff)
    qed
    with None l l1 stored show ?thesis by auto
  next
    case (Some q)
    then have "q \<in> set items" "podIsReady q" "pod_nn q = k" by (auto simp: find_Some_iff)
    then have "nn_Name k \<in> set act" by (auto simp: act)
    with Some l l1 show ?thesis by simp
  qed
qed

subsection \<open>The contract of the model store\<close>

text \<open>
  What the reconcilers rely on: setting a model keeps the older of two different objects
  that claim the same model name, deleting removes the object with the given name, and no
  other model name is touched.
\<close>

locale model_store =
  fixes get :: "'s \<Rightarrow> string \<Rightarrow> InferenceModel option"
    and set_if_older :: "'s \<Rightarrow> InferenceModel \<Rightarrow> 's \<times> bool"
    and delete :: "'s \<Rightarrow> NamespacedName \<Rightarrow> 's \<times> InferenceModel option"
    and inv :: "'s \<Rightarrow> bool"
  assumes get_name: "inv s \<Longrightarrow> get s n = Some m \<Longrightarrow> ModelName (model_Spec m) = n"
    and set_inv: "inv s \<Longrightarrow> inv (fst (set_if_older s m))"
    and set_get: "inv s \<Longrightarrow> get (fst (set_if_older s m)) =
      (if \<exists>q. get s (ModelName (model_Spec m)) = Some q \<and> model_nn q \<noteq> model_nn m \<and> created q < created m
       then get s else (get s)(ModelName (model_Spec m) \<mapsto> m))"
    and delete_inv: "inv s \<Longrightarrow> inv (fst (delete s nn))"
    and delete_get: "inv s \<Longrightarrow> snd (delete s nn) = Some m \<Longrightarrow>
      model_nn m = nn \<and> get s (ModelName (model_Spec m)) = Some m \<and>
      get (fst (delete s nn)) = (get s)(ModelName (model_Spec m) := None)"
    and delete_absent: "inv s \<Longrightarrow> snd (delete s nn) = None \<Longrightarrow>
      fst (delete s nn) = s \<and> (\<forall>n m. get s n = Some m \<longrightarrow> model_nn m \<noteq> nn)"
begin

fun set_all :: "'s \<Rightarrow> InferenceModel list \<Rightarrow> 's" where
  "set_all s [] = s"
| "set_all s (m # ms) = set_all (fst (set_if_older s m)) ms"

lemma set_all_inv: "inv s \<Longrightarrow> inv (set_all s ms)"
  by (induction ms arbitrary: s) (auto simp: set_inv)

lemma set_all_oldest:
  assumes "inv s" "distinct (map model_nn ms)"
    and "\<And>q. get s n = Some q \<Longrightarrow> model_nn q \<notin> model_nn ` set ms"
  shows "case get (set_all s ms) n of
      None \<Rightarrow> get s n = None \<and> (\<forall>m\<in>set ms. ModelName (model_Spec m) \<noteq> n)
    | Some r \<Rightarrow> (get s n = Some r \<or> r \<in> set ms \<and> ModelName (model_Spec r) = n) \<and>
        (\<forall>m\<in>set ms. ModelName (model_Spec m) = n \<longrightarrow> created r \<le> created m) \<and>
        (\<forall>q. get s n = Some q \<longrightarrow> created r \<le> created q)"
  using assms
proof (induction ms arbitrary: s)
  case Nil
  then show ?case by (simp split: option.split)
next
  case (Cons m ms)
  let ?s1 = "fst (set_if_older s m)"
  have g: "get ?s1 n = (if ModelName (model_Spec m) \<noteq> n then get s n else
      case get s n of None \<Rightarrow> Some m | Some q \<Rightarrow> if created q < created m then Some q else Some m)"
    using Cons.prems(1,3) by (auto simp: set_get split: option.splits)
  have new: "model_nn q \<notin> model_nn ` set ms" if "get ?s1 n = Some q" for q
    using that Cons.prems(2,3) by (auto simp: g split: if_splits option.splits)
  from Cons.prems(2) have ms: "distinct (map model_nn ms)" by simp
  note ih = Cons.IH [OF set_inv [OF Cons.prems(1), of m] ms new]
  show ?case
  proof (cases "get (set_all ?s1 ms) n")
    case None
    with ih have "get ?s1 n = None" "\<forall>m\<in>set ms. ModelName (model_Spec m) \<noteq> n" by auto
    with None g show ?thesis by (auto split: option.splits if_splits)
  next
    case (Some r)
    with ih have r: "get ?s1 n = Some r \<or> r \<in> set ms \<and> ModelName (model_Spec r) = n"
      "\<forall>m\<in>set ms. ModelName (model_Spec m) = n \<longrightarrow> created r \<le> created m"
      "\<forall>q. get ?s1 n = Some q \<longrightarrow> created r \<le> created q" by auto
    from r(1,3) g have "get s n = Some r \<or> r \<in> set (m # ms) \<and> ModelName (model_Spec r) = n"
      "ModelName (model_Spec m) = n \<longrightarrow> created r \<le> created m" "\<forall>q. get s n = Some q \<longrightarrow> created r \<le> created q"
      by (auto split: option.splits if_splits)
    with r(2) Some show ?thesis by simp
  qed
qed

end

interpretation ds_models: model_store ModelGet ModelSetIfOlder ModelDelete wf_models
proof
  fix s n m assume "wf_models s" "ModelGet s n = Some m"
  then show "ModelName (model_Spec m) = n" by (rule wf_models_get)
next
  fix s m assume wf: "wf_models s"
  obtain s' ok where s': "ModelSetIfOlder s m = (s', ok)" by fastforce
  then show "wf_models (fst (ModelSetIfOlder s m))"
    using wf by (cases rule: ModelSetIfOlder_cases) (simp_all add: s' wf_models_update)
  show "ModelGet (fst (ModelSetIfOlder s m)) =
      (if \<exists>q. ModelGet s (ModelName (model_Spec m)) = Some q \<and> model_nn q \<noteq> model_nn m \<and> created q < created m
       then ModelGet s else (ModelGet s)(ModelName (model_Spec m) \<mapsto> m))"
    using s'
  proof (cases rule: ModelSetIfOlder_cases)
    case (rejected old)
    then have "\<exists>q. ModelGet s (ModelName (model_Spec m)) = Some q \<and> model_nn q \<noteq> model_nn m \<and> created q < created m"
      by blast
    with rejected show ?thesis by (simp add: s' del: NamespacedName.ext_inject)
  next
    case stored
    then have "\<not> (\<exists>q. ModelGet s (ModelName (model_Spec m)) = Some q \<and> model_nn q \<noteq> model_nn m \<and> created q < created m)"
      by (meson linorder_not_less)
    moreover from stored have "ModelGet s' = (ModelGet s)(ModelName (model_Spec m) \<mapsto> m)"
      by (simp add: ModelGet_def fun_eq_iff store_simps)
    ultimately show ?thesis by (simp only: s' fst_conv if_False)
  qed
next
  fix s nn assume wf: "wf_models s"
  obtain s' r where s': "ModelDelete s nn = (s', r)" by fastforce
  then show "wf_models (fst (ModelDelete s nn))"
    using wf by (cases rule: ModelDelete_cases) (simp_all add: s' wf_models_delete)
  show "fst (ModelDelete s nn) = s \<and> (\<forall>n m. ModelGet s n = Some m \<longrightarrow> model_nn m \<noteq> nn)"
    if "snd (ModelDelete s nn) = None"
    using s' by (cases rule: ModelDelete_cases) (use that in \<open>auto simp: s' ModelGet_def dest!: map_of_SomeD\<close>)
  fix m assume m: "snd (ModelDelete s nn) = Some m"
  from s' show "model_nn m = nn \<and> ModelGet s (ModelName (model_Spec m)) = Some m \<and>
      ModelGet (fst (ModelDelete s nn)) = (ModelGet s)(ModelName (model_Spec m) := None)"
  proof (cases rule: ModelDelete_cases)
    case (deleted k m')
    with wf have "k = ModelName (model_Spec m')" by (auto simp: wf_models_def)
    with deleted m s' wf show ?thesis
      by (auto simp: ModelGet_def store_simps wf_models_def is_map_map_of)
  qed (use m s' in simp)
qed

subsection \<open>The contract of the pod store\<close>

text \<open>
  A finite map from names to pods: the store as the scheduler, the reconcilers and the
  metrics logger see it.
\<close>

locale pod_store =
  fixes lookup :: "'s \<Rightarrow> NamespacedName \<Rightarrow> podMetrics option"
    and getall :: "'s \<Rightarrow> podMetrics list"
    and upsert :: "'s \<Rightarrow> corePod \<Rightarrow> 's \<times> bool"
    and remove :: "'s \<Rightarrow> NamespacedName \<Rightarrow> 's go"
    and inv :: "'s \<Rightarrow> bool"
  assumes getall_iff: "inv s \<Longrightarrow> pm \<in> set (getall s) \<longleftrightarrow> (\<exists>nn. lookup s nn = Some pm)"
    and lookup_name: "inv s \<Longrightarrow> lookup s nn = Some pm \<Longrightarrow> pm_nn pm = nn"
    and upsert_spec: "inv s \<Longrightarrow> inv (fst (upsert s p)) \<and>
      lookup (fst (upsert s p)) = (lookup s)(pod_nn p \<mapsto> pod_upsert (lookup s (pod_nn p)) p) \<and>
      (snd (upsert s p) \<longleftrightarrow> lookup s (pod_nn p) \<noteq> None)"
    and remove_spec: "inv s \<Longrightarrow> \<exists>s'. remove s nn = Ret s' \<and> inv s' \<and> lookup s' = (lookup s)(nn := None)"
begin

lemma upsert_remove:
  "inv s \<Longrightarrow> \<exists>s'. remove (fst (upsert s p)) (pod_nn p) = Ret s' \<and> inv s' \<and> lookup s' = (lookup s)(pod_nn p := None)"
  using remove_spec [of "fst (upsert s p)" "pod_nn p"] upsert_spec [of s p] by auto

lemma upsert_address:
  "inv s \<Longrightarrow> \<exists>pm\<in>set (getall (fst (upsert s p))). pm_nn pm = pod_nn p \<and> Address (pm_pod pm) = PodIP p"
  using upsert_spec [of s p] getall_iff [of "fst (upsert s p)" "pod_upsert (lookup s (pod_nn p)) p"]
  by (intro bexI [of _ "pod_upsert (lookup s (pod_nn p)) p"])
    (auto simp: pod_upsert_def UpdatePod_def toInternalPod_def split: option.splits)

end

interpretation ds_store: pod_store PodLookup PodGetAll PodUpdateOrAddIfNotExist PodDelete wf_pods
proof
  fix s p assume wf: "wf_pods s"
  then show "wf_pods (fst (PodUpdateOrAddIfNotExist s p)) \<and>
      PodLookup (fst (PodUpdateOrAddIfNotExist s p)) = (PodLookup s)(pod_nn p \<mapsto> pod_upsert (PodLookup s (pod_nn p)) p) \<and>
      (snd (PodUpdateOrAddIfNotExist s p) \<longleftrightarrow> PodLookup s (pod_nn p) \<noteq> None)"
    using PodUpdateOrAdd_spec [OF wf prod.collapse [symmetric], of p] by (simp del: split_paired_Ex)
next
  fix s nn assume "wf_pods s"
  from PodDelete_spec [OF this, of nn]
  show "\<exists>s'. PodDelete s nn = Ret s' \<and> wf_pods s' \<and> PodLookup s' = (PodLookup s)(nn := None)" by blast
qed (auto simp: PodGetAll_iff dest: PodLookup_nn)

end
