(* ===== verification/Examples.thy ===== *)
theory Examples
  imports Datastore
begin

text \<open>
  Small concrete objects on which the properties are instantiated: two pods, a pool that
  selects them, and an InferenceModel of the pool.
\<close>

definition example_pod :: "string \<Rightarrow> string \<Rightarrow> corePod" where
  "example_pod name ip =
     \<lparr>pod_meta = \<lparr>Name = name, Namespace = ''ns'', Labels = [(''app'', ''vllm'')], CreationTimestamp = 0,
                  DeletionTimestamp = None\<rparr>,
      PodIP = ip, Conditions = [\<lparr>cond_Type = ''Ready'', cond_Status = ''True''\<rparr>]\<rparr>"

definition example_ds :: datastore where
  \<comment> \<open>two pods, the second with a full queue and cache\<close>
  "example_ds =
     (let ds = fst (PodUpdateOrAddIfNotExist
                      (fst (PodUpdateOrAddIfNotExist NewDatastore (example_pod ''a'' ''10.0.0.1'')))
                      (example_pod ''b'' ''10.0.0.2''))
      in ds\<lparr>ds_heap := (ds_heap ds)[1 := (ds_heap ds ! 1)\<lparr>pm_metrics :=
              (pm_metrics (ds_heap ds ! 1))\<lparr>WaitingQueueSize := 200, KVCacheUsagePercent := Fin 1,
                 ActiveModels := [(''lora'', 0)]\<rparr>\<rparr>]\<rparr>)"

definition example_pool :: InferencePool where
  "example_pool =
     \<lparr>pool_meta = \<lparr>Name = ''pool'', Namespace = ''ns'', Labels = [], CreationTimestamp = 0, DeletionTimestamp = None\<rparr>,
      pool_Spec = \<lparr>Selector = [(''app'', ''vllm'')], TargetPortNumber = 8000, PickerConfig = \<lparr>ExtensionRef = None\<rparr>\<rparr>,
      pool_Status = \<lparr>Parents = []\<rparr>\<rparr>"

definition example_model :: "string \<Rightarrow> int \<Rightarrow> TargetModel list \<Rightarrow> InferenceModel" where
  \<comment> \<open>the critical model \<open>m\<close> as an object of the given name and age\<close>
  "example_model name t targets =
     \<lparr>model_meta = \<lparr>Name = name, Namespace = ''ns'', Labels = [], CreationTimestamp = t, DeletionTimestamp = None\<rparr>,
      model_Spec = \<lparr>ModelName = ''m'', Criticality = Some Critical, TargetModels = targets,
        PoolRef = \<lparr>ref_Group = [], ref_Kind = ''InferencePool'', ref_Name = ''pool''\<rparr>\<rparr>,
      model_Status = \<lparr>ms_Conditions = []\<rparr>\<rparr>"

definition example_pool_ds :: datastore where
  \<comment> \<open>the same pods, with the pool and the model\<close>
  "example_pool_ds =
     fst (ModelSetIfOlder (PoolSet example_ds (Some example_pool)) (example_model ''m1'' 1 []))"

lemma example_pods:
  "PodGetAll example_ds =
     [NewPodMetrics (example_pod ''a'' ''10.0.0.1''),
      (NewPodMetrics (example_pod ''b'' ''10.0.0.2''))\<lparr>pm_metrics := newMetrics\<lparr>WaitingQueueSize := 200,
         KVCacheUsagePercent := Fin 1, ActiveModels := [(''lora'', 0)]\<rparr>\<rparr>]"
  by (simp add: example_ds_def PodGetAll_def PodList_def PodUpdateOrAddIfNotExist_def NewDatastore_def
      example_pod_def Let_def UpdatePod_def toInternalPod_def NewPodMetrics_def startRefreshLoop_def)

lemma example_pool_ds_simps:
  "ds_pool example_pool_ds = Some example_pool" "ds_models example_pool_ds = [(''m'', example_model ''m1'' 1 [])]"
  "ds_pods example_pool_ds = ds_pods example_ds" "ds_heap example_pool_ds = ds_heap example_ds"
  "ds_pods example_ds = [(pod_nn (example_pod ''a'' ''10.0.0.1''), 0), (pod_nn (example_pod ''b'' ''10.0.0.2''), 1)]"
  "length (ds_heap example_ds) = 2" "ds_models example_ds = []" "ds_pool example_ds = None"
  "pm_nn (ds_heap example_ds ! 0) = pod_nn (example_pod ''a'' ''10.0.0.1'')"
  "pm_nn (ds_heap example_ds ! Suc 0) = pod_nn (example_pod ''b'' ''10.0.0.2'')"
  "pm_started (ds_heap example_ds ! 0)" "pm_started (ds_heap example_ds ! Suc 0)"
  "\<not> pm_done (ds_heap example_ds ! 0)" "\<not> pm_done (ds_heap example_ds ! Suc 0)"
  by (simp_all add: example_pool_ds_def example_ds_def PoolSet_def ModelSetIfOlder_def NewDatastore_def
      PodUpdateOrAddIfNotExist_def example_pod_def example_model_def Let_def)

lemma example_pool_pods: "PodGetAll example_pool_ds = PodGetAll example_ds"
  by (simp add: PodGetAll_def PodList_def example_pool_ds_simps)

definition example_queuing :: "int \<Rightarrow> datastore" where
  \<comment> \<open>the same two pods when each has \<open>q\<close> requests waiting\<close>
  "example_queuing q =
     example_ds\<lparr>ds_heap := map (\<lambda>pm. pm\<lparr>pm_metrics := (pm_metrics pm)\<lparr>WaitingQueueSize := q\<rparr>\<rparr>) (ds_heap example_ds)\<rparr>"

lemma example_queuing_pods:
  "PodGetAll (example_queuing q) =
     [(NewPodMetrics (example_pod ''a'' ''10.0.0.1''))\<lparr>pm_metrics := newMetrics\<lparr>WaitingQueueSize := q\<rparr>\<rparr>,
      (NewPodMetrics (example_pod ''b'' ''10.0.0.2''))\<lparr>pm_metrics := newMetrics\<lparr>WaitingQueueSize := q,
         KVCacheUsagePercent := Fin 1, ActiveModels := [(''lora'', 0)]\<rparr>\<rparr>]"
  using example_pods by (simp add: example_queuing_def PodGetAll_def PodList_def example_pool_ds_simps NewPodMetrics_def startRefreshLoop_def)

lemma example_wf: "wf_ds example_ds" "wf_ds example_pool_ds" "loops_tracked example_ds" "loops_tracked example_pool_ds"
  by (auto simp: wf_defs loops_tracked_def example_pool_ds_simps is_map_def example_pod_def example_model_def
      less_Suc_eq numeral_2_eq_2)

end
