(* ===== verification/Json.thy ===== *)
theory Json
  imports Float64 Go_Strings
begin

text \<open>
  JSON documents as the Go values the handlers work with. A decoded document is a value of
  \<open>json\<close>: a number is a \<open>float64\<close>, with the negative zero as a value of its own since
  encoding tells it from the positive one, and an object is a Go map. \<open>JStrings\<close> is a value
  of type \<open>[]string\<close>, which the code stores in a document it encodes.

  \<open>json_codec\<close> is what the handlers call of encoding/json: decoding into an existing map,
  into the \<open>Response\<close> struct and into a string, and encoding a map. The codec itself is
  modelled in \<open>Json_Codec\<close>.
\<close>

datatype json =
    JNull
  | JBool bool
  | JNum f64
  | JNegZero
  | JString string
  | JArray "json list"
  | JObject "(string \<times> json) list"
  | JStrings "string list"

type_synonym json_map = "(string, json) gomap"

record Usage =
  PromptTokens :: int
  CompletionTokens :: int
  TotalTokens :: int

definition noUsage :: Usage where
  "noUsage = \<lparr>PromptTokens = 0, CompletionTokens = 0, TotalTokens = 0\<rparr>"

record json_codec =
  UnmarshalMap :: "json_map option \<Rightarrow> string \<Rightarrow> json_map option \<times> string option"
  UnmarshalResponse :: "Usage \<Rightarrow> string \<Rightarrow> Usage \<times> string option"
  UnmarshalString :: "string \<Rightarrow> string option"
  MarshalMap :: "json_map option \<Rightarrow> string + string"

definition json_get :: "json_map option \<Rightarrow> string \<Rightarrow> json option" where
  \<comment> \<open>indexing a map; a nil map has no entries\<close>
  "json_get m k = (case m of None \<Rightarrow> None | Some es \<Rightarrow> map_of es k)"

fun as_string :: "json option \<Rightarrow> string option" where
  \<comment> \<open>the assertion \<open>x.(string)\<close> with its second result\<close>
  "as_string (Some (JString s)) = Some s"
| "as_string _ = None"

fun as_object :: "json option \<Rightarrow> json_map option" where
  "as_object (Some (JObject es)) = Some es"
| "as_object _ = None"

end
