(* ===== verification/Ext_Proc.thy ===== *)
theory Ext_Proc
  imports Examples Json
begin

text \<open>
  The messages of Envoy's external processing protocol (package ext_proc/v3) as the
  handlers use them, the context of a request (handlers/server.go), and the
  helpers both servers share: the error responses, the weighted draw of a target model
  and the draw of a pod.

  Byte slices and strings are \<open>string\<close>; JSON documents and their codec are in \<open>Json\<close>.
\<close>

subsection \<open>Protocol messages\<close>

record HeaderValue =
  hdr_Key :: string
  hdr_RawValue :: string

record HttpHeaders =
  Headers :: "HeaderValue list"
  headers_EndOfStream :: bool

record HttpBody =
  body_Body :: string
  body_EndOfStream :: bool

datatype ProcessingRequest =
    RequestHeaders HttpHeaders
  | RequestBody HttpBody
  | RequestTrailers
  | ResponseHeaders HttpHeaders
  | ResponseBody HttpBody
  | ResponseTrailers
  | NoRequest

datatype pb_value = StringValue string | StructValue "(string \<times> pb_value) list"

datatype BodyMutation = MutationBody string | StreamedResponse string bool

record CommonResponse =
  ClearRouteCache :: bool
  SetHeaders :: "HeaderValue list"
  BodyMutation_field :: "BodyMutation option"

definition noCommon :: CommonResponse where
  "noCommon = \<lparr>ClearRouteCache = False, SetHeaders = [], BodyMutation_field = None\<rparr>"

datatype Response_oneof =
    RespRequestHeaders CommonResponse
  | RespRequestBody CommonResponse
  | RespRequestTrailers
  | RespResponseHeaders CommonResponse
  | RespResponseBody CommonResponse
  | RespResponseTrailers
  | ImmediateResponse int
  | NoResponse

record ProcessingResponse =
  resp_Response :: Response_oneof
  DynamicMetadata :: "(string \<times> pb_value) list option"

definition mk_response :: "Response_oneof \<Rightarrow> ProcessingResponse" where
  "mk_response r = \<lparr>resp_Response = r, DynamicMetadata = None\<rparr>"

definition nil_message :: ProcessingResponse where
  \<comment> \<open>what a nil message is on the wire: no field is set\<close>
  "nil_message = mk_response NoResponse"

subsection \<open>The request context\<close>

datatype StreamRequestState =
    RequestReceived
  | HeaderRequestResponseComplete
  | BodyRequestResponsesComplete
  | TrailerRequestResponsesComplete
  | ResponseRecieved
  | HeaderResponseResponseComplete
  | BodyResponseResponsesComplete
  | TrailerResponseResponsesComplete

record RequestContext =
  TargetPod :: string
  TargetEndpoint :: string
  ctx_Model :: string
  ctx_ResolvedTargetModel :: string
  RequestReceivedTimestamp :: int
  ResponseCompleteTimestamp :: int
  RequestSize :: int
  ctx_Usage :: Usage
  ResponseSize :: int
  ResponseComplete :: bool
  ResponseStatusCode :: string
  RequestRunning :: bool
  RequestState :: StreamRequestState
  modelServerStreaming :: bool
  reqHeaderResp :: "ProcessingResponse option"
  reqBodyResp :: "ProcessingResponse option"
  reqTrailerResp :: "ProcessingResponse option"
  respHeaderResp :: "ProcessingResponse option"
  respBodyResp :: "ProcessingResponse option"
  respTrailerResp :: "ProcessingResponse option"
  WorkerInstanceID :: string

definition newRequestContext :: RequestContext where
  "newRequestContext =
     \<lparr>TargetPod = [], TargetEndpoint = [], ctx_Model = [], ctx_ResolvedTargetModel = [],
      RequestReceivedTimestamp = 0, ResponseCompleteTimestamp = 0, RequestSize = 0, ctx_Usage = noUsage,
      ResponseSize = 0, ResponseComplete = False, ResponseStatusCode = [], RequestRunning = False,
      RequestState = RequestReceived, modelServerStreaming = False, reqHeaderResp = None, reqBodyResp = None,
      reqTrailerResp = None, respHeaderResp = None, respBodyResp = None, respTrailerResp = None,
      WorkerInstanceID = []\<rparr>"

subsection \<open>Error responses\<close>

definition StatusCode_BadRequest :: int where "StatusCode_BadRequest = 400"
definition StatusCode_NotFound :: int where "StatusCode_NotFound = 404"
definition StatusCode_TooManyRequests :: int where "StatusCode_TooManyRequests = 429"
definition StatusCode_InternalServerError :: int where "StatusCode_InternalServerError = 500"

definition BuildErrResponse :: "error \<Rightarrow> error + ProcessingResponse" where
  "BuildErrResponse err =
     (let code = CanonicalCode err in
      if code = InferencePoolResourceExhausted then
        Inr (mk_response (ImmediateResponse StatusCode_TooManyRequests))
      else if code = Internal then Inr (mk_response (ImmediateResponse StatusCode_InternalServerError))
      else if code = BadRequest then Inr (mk_response (ImmediateResponse StatusCode_BadRequest))
      else if code = BadConfiguration then Inr (mk_response (ImmediateResponse StatusCode_NotFound))
      else Inl (StatusError (status_Code err) (''failed to handle request: '' @ error_Error err)))"

subsection \<open>Random draws\<close>

definition Int31n :: "nat \<Rightarrow> 32 word \<Rightarrow> 32 word go" where
  "Int31n r n =
     (if sint n \<le> 0 then Panic ''invalid argument to Int31n'' else Ret (word_of_int (int r mod sint n)))"

fun sum_weights :: "TargetModel list \<Rightarrow> 32 word \<Rightarrow> 32 word go" where
  "sum_weights [] weights = Ret weights"
| "sum_weights (t # ts) weights =
     (case Weight t of
        None \<Rightarrow> Panic ''nil pointer dereference''
      | Some w \<Rightarrow> sum_weights ts (weights + w))"

fun draw_loop :: "TargetModel list \<Rightarrow> 32 word \<Rightarrow> string go" where
  "draw_loop [] randomVal = Ret []"
| "draw_loop (t # ts) randomVal =
     (case Weight t of
        None \<Rightarrow> Panic ''nil pointer dereference''
      | Some w \<Rightarrow> if sint randomVal < sint w then Ret (tm_Name t) else draw_loop ts (randomVal - w))"

definition RandomWeightedDraw :: "InferenceModel \<Rightarrow> nat \<Rightarrow> string go" where
  \<comment> \<open>\<open>r\<close> is the raw value of the generator\<close>
  "RandomWeightedDraw model r =
     (case TargetModels (model_Spec model) of
        [] \<Rightarrow> Panic ''index out of range''
      | t # ts \<Rightarrow>
          if Weight t = None then
            go_bind (Int31n r (word_of_nat (length (t # ts)))) (\<lambda>index. Ret (tm_Name ((t # ts) ! nat (sint index))))
          else
            go_bind (sum_weights (t # ts) 0) (\<lambda>weights.
              go_bind (Int31n r weights) (\<lambda>randomVal. draw_loop (t # ts) randomVal)))"

definition GetRandomPod :: "datastore \<Rightarrow> nat \<Rightarrow> Pod go" where
  "GetRandomPod ds r =
     (let pods = PodGetAll ds in
      go_bind (Intn r (int (length pods))) (\<lambda>number. Ret (pm_pod (pods ! nat number))))"

subsection \<open>Usage in a streamed response\<close>

definition streamingRespPrefix :: string where "streamingRespPrefix = ''data: ''"
definition streamingEndMsg :: string where "streamingEndMsg = ''data: [DONE]''"

fun usage_loop :: "json_codec \<Rightarrow> string list \<Rightarrow> Usage \<Rightarrow> Usage" where
  "usage_loop codec [] response = response"
| "usage_loop codec (line # lines) response =
     (if \<not> HasPrefix line streamingRespPrefix then usage_loop codec lines response
      else let content = TrimPrefix line streamingRespPrefix in
        if content = ''[DONE]'' then usage_loop codec lines response
        else usage_loop codec lines (fst (UnmarshalResponse codec response content)))"

definition ParseRespForUsage :: "json_codec \<Rightarrow> string \<Rightarrow> Usage" where
  "ParseRespForUsage codec responseText = usage_loop codec (Split responseText (CHR 0x0A)) noUsage"

subsection \<open>The weighted draw\<close>

lemma sint_range: "- (2 ^ 31) \<le> sint (w :: 32 word)" "sint (w :: 32 word) < 2 ^ 31"
  using sint_ge [of w] sint_lt [of w] by simp_all

lemma sint_add_id: "0 \<le> sint a \<Longrightarrow> 0 \<le> sint b \<Longrightarrow> sint a + sint b < 2 ^ 31 \<Longrightarrow> sint (a + b) = sint a + sint (b :: 32 word)"
  by (simp add: sint_word_ariths signed_take_bit_int_eq_self)

lemma sint_diff_id: "0 \<le> sint b \<Longrightarrow> sint b \<le> sint a \<Longrightarrow> sint (a - b) = sint a - sint (b :: 32 word)"
  using sint_range [of a] by (simp add: sint_word_ariths signed_take_bit_int_eq_self)

lemma sint_of_int_id: "0 \<le> n \<Longrightarrow> n < 2 ^ 31 \<Longrightarrow> sint (word_of_int n :: 32 word) = n"
  by (simp add: sint_sbintrunc' signed_take_bit_int_eq_self)

abbreviation weight_of :: "TargetModel \<Rightarrow> int" where
  "weight_of t \<equiv> (case Weight t of None \<Rightarrow> 0 | Some w \<Rightarrow> sint w)"

definition weighted :: "TargetModel list \<Rightarrow> bool" where
  "weighted ts \<longleftrightarrow> (\<forall>t\<in>set ts. Weight t \<noteq> None \<and> 0 < weight_of t)"

lemma weighted_Cons [simp]: "weighted (t # ts) \<longleftrightarrow> (\<exists>w. Weight t = Some w \<and> 0 < sint w) \<and> weighted ts"
  by (auto simp: weighted_def)

lemma weighted_sum_nonneg: "weighted ts \<Longrightarrow> 0 \<le> (\<Sum>t\<leftarrow>ts. weight_of t)"
  by (induction ts) (auto simp: weighted_def)

lemma sum_weights_total:
  assumes "weighted ts" "0 \<le> sint acc" "sint acc + (\<Sum>t\<leftarrow>ts. weight_of t) < 2 ^ 31"
  shows "\<exists>w. sum_weights ts acc = Ret w \<and> sint w = sint acc + (\<Sum>t\<leftarrow>ts. weight_of t)"
  using assms
proof (induction ts acc rule: sum_weights.induct)
  case (2 t ts acc)
  from 2(2) obtain w where w: "Weight t = Some w" "0 < sint w" "weighted ts" by auto
  with 2(3,4) weighted_sum_nonneg have "sint (acc + w) = sint acc + sint w"
    by (intro sint_add_id) fastforce+
  with 2(1) [OF w(1,3)] 2(3,4) w show ?case by (simp add: add.assoc)
qed simp

lemma draw_loop_interval:
  assumes "weighted ts" "i < length ts" "(\<Sum>t\<leftarrow>take i ts. weight_of t) \<le> sint v"
    "sint v < (\<Sum>t\<leftarrow>take (Suc i) ts. weight_of t)"
  shows "draw_loop ts v = Ret (tm_Name (ts ! i))"
  using assms
proof (induction ts v arbitrary: i rule: draw_loop.induct)
  case (2 t ts v)
  from 2(2) obtain w where w: "Weight t = Some w" "0 < sint w" "weighted ts" by auto
  show ?case
  proof (cases i)
    case 0
    with 2(5) w show ?thesis by simp
  next
    case (Suc j)
    have "0 \<le> (\<Sum>t\<leftarrow>take j ts. weight_of t)"
      using w(3) by (intro weighted_sum_nonneg) (auto simp: weighted_def dest: in_set_takeD)
    with 2(4) w Suc have ge: "sint w \<le> sint v" by simp
    then have "sint (v - w) = sint v - sint w" using w by (intro sint_diff_id) auto
    with 2(1) [OF w(1) _ w(3), of j] 2(3-5) Suc w ge show ?thesis by simp
  qed
qed simp

lemma draw_loop_total:
  assumes "weighted ts" "0 \<le> sint v" "sint v < (\<Sum>u\<leftarrow>ts. weight_of u)"
  shows "\<exists>u\<in>set ts. draw_loop ts v = Ret (tm_Name u)"
  using assms
proof (induction ts v rule: draw_loop.induct)
  case (2 t ts v)
  then obtain w where w: "Weight t = Some w" "0 < sint w" by auto
  show ?case
  proof (cases "sint v < sint w")
    case False
    then have "sint (v - w) = sint v - sint w" using w by (intro sint_diff_id) auto
    with 2 w False show ?thesis by auto
  qed (use w in simp)
qed simp

lemma valid_weighted:
  assumes "valid_TargetModels (t # ts)" "Weight t \<noteq> None"
  shows "weighted (t # ts)" "0 < (\<Sum>u\<leftarrow>t # ts. weight_of u)" "(\<Sum>u\<leftarrow>t # ts. weight_of u) < 2 ^ 31"
proof -
  have all: "\<forall>u\<in>set (t # ts). Weight u \<noteq> None"
    using assms by (auto simp: valid_TargetModels_def list_all_iff)
  have b: "\<forall>u\<in>set (t # ts). 1 \<le> weight_of u \<and> weight_of u \<le> 1000000"
  proof
    fix u assume u: "u \<in> set (t # ts)"
    with all obtain w where w: "Weight u = Some w" by auto
    from u assms(1) have "valid_TargetModel u" unfolding valid_TargetModels_def list_all_iff by blast
    with w show "1 \<le> weight_of u \<and> weight_of u \<le> 1000000" by (simp add: valid_TargetModel_def)
  qed
  with all show w: "weighted (t # ts)" unfolding weighted_def by fastforce
  show "0 < (\<Sum>u\<leftarrow>t # ts. weight_of u)"
    using w weighted_sum_nonneg [of ts] by auto
  have "(\<Sum>u\<leftarrow>us. weight_of u) \<le> 1000000 * int (length us)" if "set us \<subseteq> set (t # ts)" for us
    using that b by (induction us) auto
  from this [of "t # ts"] assms(1) show "(\<Sum>u\<leftarrow>t # ts. weight_of u) < 2 ^ 31"
    by (simp add: valid_TargetModels_def)
qed

lemma RandomWeightedDraw_weighted:
  assumes "TargetModels (model_Spec model) = t # ts" "valid_TargetModels (t # ts)" "Weight t \<noteq> None"
  shows "\<exists>v. RandomWeightedDraw model r = draw_loop (t # ts) v \<and> sint v = int r mod (\<Sum>u\<leftarrow>t # ts. weight_of u)"
proof -
  let ?s = "\<Sum>u\<leftarrow>t # ts. weight_of u"
  note v = valid_weighted [OF assms(2,3)]
  obtain w where w: "sum_weights (t # ts) 0 = Ret w" "sint w = ?s"
    using sum_weights_total [of "t # ts" 0] v by auto
  moreover have "sint (word_of_int (int r mod ?s) :: 32 word) = int r mod ?s"
    using v by (intro sint_of_int_id) (auto intro: order.strict_trans pos_mod_bound)
  ultimately show ?thesis
    using assms(1,3) v(2) by (auto simp: RandomWeightedDraw_def Int31n_def simp del: sum_weights.simps)
qed

text \<open>
  C22. The weighted draw: for target models the API server admits, with weights, the drawn
  name is that of the \<open>i\<close>-th target for exactly the draws in an interval as long as its
  weight, so each target gets its share of the draws; nothing overflows or panics.
\<close>

theorem RandomWeightedDraw_proportional:
  assumes targets: "TargetModels (model_Spec model) = ts" "valid_TargetModels ts" "i < length ts" "Weight (hd ts) \<noteq> None"
    and draw: "(\<Sum>t\<leftarrow>take i ts. weight_of t) \<le> int r mod (\<Sum>t\<leftarrow>ts. weight_of t)"
      "int r mod (\<Sum>t\<leftarrow>ts. weight_of t) < (\<Sum>t\<leftarrow>take i ts. weight_of t) + weight_of (ts ! i)"
  shows "RandomWeightedDraw model r = Ret (tm_Name (ts ! i))"
proof -
  from targets(3) obtain t us where ts: "ts = t # us" by (cases ts) auto
  with RandomWeightedDraw_weighted [of model t us r] targets obtain v where
    v: "RandomWeightedDraw model r = draw_loop ts v" "sint v = int r mod (\<Sum>t\<leftarrow>ts. weight_of t)" by auto
  have "weighted ts" using valid_weighted(1) [of t us] targets ts by simp
  moreover have "sint v < (\<Sum>t\<leftarrow>take (Suc i) ts. weight_of t)"
    using draw(2) v(2) targets(3) by (simp add: take_Suc_conv_app_nth)
  ultimately show ?thesis using draw_loop_interval [of ts i v] v draw(1) targets(3) by simp
qed

definition example_targets :: "TargetModel list" where
  "example_targets = [\<lparr>tm_Name = ''canary'', Weight = Some 1\<rparr>, \<lparr>tm_Name = ''stable'', Weight = Some 3\<rparr>]"

theorem RandomWeightedDraw_proportional_witness:
  "RandomWeightedDraw (example_model ''m1'' 1 example_targets) 4 = Ret ''canary'' \<and>
   RandomWeightedDraw (example_model ''m1'' 1 example_targets) 6 = Ret ''stable''"
proof
  have v: "valid_TargetModels example_targets"
    by (simp add: valid_TargetModels_def valid_TargetModel_def example_targets_def)
  have t: "TargetModels (model_Spec (example_model ''m1'' 1 example_targets)) = example_targets"
    by (simp add: example_model_def)
  show "RandomWeightedDraw (example_model ''m1'' 1 example_targets) 4 = Ret ''canary''"
    using RandomWeightedDraw_proportional [OF t v, of 0 4] by (simp add: example_targets_def)
  show "RandomWeightedDraw (example_model ''m1'' 1 example_targets) 6 = Ret ''stable''"
    using RandomWeightedDraw_proportional [OF t v, of 1 6] by (simp add: example_targets_def)
qed

lemma RandomWeightedDraw_returns:
  assumes ts: "TargetModels (model_Spec model) \<noteq> []" "valid_TargetModels (TargetModels (model_Spec model))"
  shows "\<exists>t\<in>set (TargetModels (model_Spec model)). RandomWeightedDraw model r = Ret (tm_Name t)"
proof -
  from ts(1) obtain t us where t: "TargetModels (model_Spec model) = t # us" by (cases "TargetModels (model_Spec model)") auto
  show ?thesis
  proof (cases "Weight t")
    case None
    let ?n = "length (t # us)"
    have "?n \<le> 10" using ts(2) t unfolding valid_TargetModels_def by simp
    then have n: "sint (word_of_nat ?n :: 32 word) = int ?n"
      using sint_of_int_id [of "int ?n"] by simp
    have m: "0 \<le> int r mod int ?n" "int r mod int ?n < int ?n" by (auto intro: pos_mod_bound)
    moreover from \<open>?n \<le> 10\<close> have "int ?n < 2 ^ 31" by simp
    with m have "sint (word_of_int (int r mod int ?n) :: 32 word) = int r mod int ?n"
      by (intro sint_of_int_id) (rule m, linarith)
    ultimately have "RandomWeightedDraw model r = Ret (tm_Name ((t # us) ! nat (int r mod int ?n)))"
      "nat (int r mod int ?n) < ?n"
      using None t n by (simp_all add: RandomWeightedDraw_def Int31n_def nat_less_iff)
    with t nth_mem show ?thesis by metis
  next
    case (Some w)
    then have w: "Weight t \<noteq> None" by simp
    have valid: "valid_TargetModels (t # us)" using ts(2) t by simp
    obtain v where v: "RandomWeightedDraw model r = draw_loop (t # us) v"
      "sint v = int r mod (\<Sum>u\<leftarrow>t # us. weight_of u)"
      using RandomWeightedDraw_weighted [OF t valid w, of r] by blast
    note val = valid_weighted [OF valid w]
    have "\<exists>u\<in>set (t # us). draw_loop (t # us) v = Ret (tm_Name u)"
    proof (rule draw_loop_total [OF val(1)])
      show "0 \<le> sint v" "sint v < (\<Sum>u\<leftarrow>t # us. weight_of u)"
        unfolding v(2) using val(2) by (rule pos_mod_sign pos_mod_bound)+
    qed
    then show ?thesis by (simp only: t v(1))
  qed
qed

text \<open>
  The draw always finds a target: for target models the API server admits (at least
  one), with or without weights, it returns the name of one of them and never panics.
\<close>

theorem RandomWeightedDraw_total:
  assumes "TargetModels (model_Spec model) \<noteq> []" "valid_TargetModels (TargetModels (model_Spec model))"
  shows "\<exists>t\<in>set (TargetModels (model_Spec model)). RandomWeightedDraw model r = Ret (tm_Name t)"
  using assms by (rule RandomWeightedDraw_returns)

theorem RandomWeightedDraw_total_witness:
  "\<exists>t\<in>set example_targets. RandomWeightedDraw (example_model ''m1'' 1 example_targets) 5 = Ret (tm_Name t)"
  using RandomWeightedDraw_total [of "example_model ''m1'' 1 example_targets" 5]
  by (simp add: example_model_def valid_TargetModels_def valid_TargetModel_def example_targets_def)

text \<open>
  A request without a body is sent to a random pod: with a pod in the datastore the draw
  returns one of them, with none it panics.
\<close>

theorem GetRandomPod_cases:
  "if PodGetAll ds = [] then GetRandomPod ds r = Panic ''invalid argument to Intn''
   else \<exists>pm\<in>set (PodGetAll ds). GetRandomPod ds r = Ret (pm_pod pm)"
proof (cases "PodGetAll ds = []")
  case False
  let ?i = "nat (int r mod int (length (PodGetAll ds)))"
  have "?i < length (PodGetAll ds)" using False by (simp add: nat_less_iff)
  moreover have "GetRandomPod ds r = Ret (pm_pod (PodGetAll ds ! ?i))"
    using False by (simp add: GetRandomPod_def Intn_def Let_def)
  ultimately show ?thesis using False nth_mem by auto
qed (simp add: GetRandomPod_def Intn_def)

lemma BuildErrResponse_status:
  "BuildErrResponse (EppError InferencePoolResourceExhausted msg) = Inr (mk_response (ImmediateResponse 429)) \<and>
   BuildErrResponse (EppError Internal msg) = Inr (mk_response (ImmediateResponse 500)) \<and>
   BuildErrResponse (EppError BadRequest msg) = Inr (mk_response (ImmediateResponse 400)) \<and>
   BuildErrResponse (EppError BadConfiguration msg) = Inr (mk_response (ImmediateResponse 404)) \<and>
   BuildErrResponse errPoolNotSynced =
     Inl (StatusError UnknownCode (''failed to handle request: InferencePool is not initialized in data store''))"
  by (simp add: BuildErrResponse_def Let_def error_codes errPoolNotSynced_def StatusCode_BadRequest_def
      StatusCode_NotFound_def StatusCode_TooManyRequests_def StatusCode_InternalServerError_def)

end
