(* ===== verification/Json_Number.thy ===== *)
theory Json_Number
  imports Float64 Go_Strings
begin

text \<open>
  Numbers in JSON texts, as encoding/json reads and writes them: a literal is converted to
  the nearest \<open>float64\<close> (\<open>strconv.ParseFloat\<close>), and a \<open>float64\<close> is written with the fewest
  digits that are read back to the same value (\<open>strconv.AppendFloat\<close> with precision -1),
  in the format \<open>f\<close> or, for very small and very large values, \<open>e\<close>.
\<close>

subsection \<open>Reading\<close>

fun read_digits :: "nat \<Rightarrow> nat \<Rightarrow> string \<Rightarrow> nat \<times> nat \<times> string" where
  \<comment> \<open>value and number of the leading digits, and the rest\<close>
  "read_digits acc k [] = (acc, k, [])"
| "read_digits acc k (c # s) =
     (case digit_val c of None \<Rightarrow> (acc, k, c # s) | Some d \<Rightarrow> read_digits (10 * acc + d) (Suc k) s)"

fun read_exp :: "nat \<Rightarrow> string \<Rightarrow> nat" where
  \<comment> \<open>the digits of an exponent; beyond 10000 more digits are ignored\<close>
  "read_exp acc [] = acc"
| "read_exp acc (c # s) =
     (case digit_val c of None \<Rightarrow> acc
      | Some d \<Rightarrow> read_exp (if acc < 10000 then 10 * acc + d else acc) s)"

definition exponent :: "string \<Rightarrow> int" where
  "exponent s =
     (case s of
        [] \<Rightarrow> 0
      | c # t \<Rightarrow>
          if c = CHR ''e'' \<or> c = CHR ''E'' then
            (case t of
               [] \<Rightarrow> 0
             | d # u \<Rightarrow> if d = CHR ''-'' then - int (read_exp 0 u)
                        else if d = CHR ''+'' then int (read_exp 0 u) else int (read_exp 0 t))
          else 0)"

definition magnitude :: "string \<Rightarrow> rat" where
  \<comment> \<open>the value of an unsigned literal\<close>
  "magnitude s =
     (case read_digits 0 0 s of (i, _, t) \<Rightarrow>
        (case (if t \<noteq> [] \<and> hd t = CHR ''.'' then read_digits i 0 (tl t) else (i, 0, t)) of (m, k, u) \<Rightarrow>
           of_nat m * 10 powi (exponent u - int k)))"

definition ParseFloat :: "string \<Rightarrow> bool \<times> f64" where
  \<comment> \<open>sign and absolute value of a literal; an infinity is Go's range error\<close>
  "ParseFloat s =
     (if s \<noteq> [] \<and> hd s = CHR ''-'' then (True, round64 (magnitude (tl s))) else (False, round64 (magnitude s)))"

subsection \<open>Writing\<close>

fun shortest_from :: "nat \<Rightarrow> int \<Rightarrow> rat \<Rightarrow> int \<times> int" where
  \<comment> \<open>the first scale at which a neighbour of \<open>x\<close> reads back as \<open>x\<close>; the nearer one, in the
     middle the even one\<close>
  "shortest_from 0 s x = (\<lfloor>x * 10 powi s\<rfloor>, s)"
| "shortest_from (Suc n) s x =
     (let y = x * 10 powi s; lo = \<lfloor>y\<rfloor>; hi = \<lceil>y\<rceil>;
          lo_ok = (round64 (of_int lo * 10 powi (- s)) = Fin x);
          hi_ok = (round64 (of_int hi * 10 powi (- s)) = Fin x);
          up = (1 / 2 < y - of_int lo \<or> y - of_int lo = 1 / 2 \<and> odd lo)
      in if lo_ok \<and> (\<not> hi_ok \<or> \<not> up) then (lo, s)
         else if hi_ok then (hi, s)
         else shortest_from n (s + 1) x)"

definition shortest :: "rat \<Rightarrow> int \<times> int" where
  \<comment> \<open>for a positive value: digits \<open>c\<close> and scale \<open>s\<close> of the shortest decimal \<open>c / 10^s\<close>. The
     first scale is below any that can do; at the last one the decimal is exact.\<close>
  "shortest x = (let s0 = - ((3 * ilog2 x) div 10) - 4 in shortest_from (nat (1075 - s0)) s0 x)"

definition format_e :: "string \<Rightarrow> int \<Rightarrow> string" where
  \<comment> \<open>\<open>d.ddde+xx\<close>, with the exponent cleaned up as encoding/json does\<close>
  "format_e ds dp =
     hd ds # (if tl ds = [] then [] else CHR ''.'' # tl ds) @
     CHR ''e'' # (if dp - 1 < 0 then CHR ''-'' else CHR ''+'') # decimal (nat \<bar>dp - 1\<bar>)"

definition format_f :: "string \<Rightarrow> int \<Rightarrow> string" where
  "format_f ds dp =
     (if int (length ds) \<le> dp then ds @ replicate (nat dp - length ds) (CHR ''0'')
      else if 0 < dp then take (nat dp) ds @ CHR ''.'' # drop (nat dp) ds
      else ''0.'' @ replicate (nat (- dp)) (CHR ''0'') @ ds)"

definition format_pos :: "rat \<Rightarrow> string" where
  "format_pos x =
     (case shortest x of (c, s) \<Rightarrow>
        let ds = decimal (nat c); dp = int (length ds) - s
        in if f64_lt (Fin x) (round64 (1 / 10 ^ 6)) \<or> 10 ^ 21 \<le> x then format_e ds dp else format_f ds dp)"

definition AppendFloat :: "rat \<Rightarrow> string" where
  "AppendFloat x = (if x = 0 then ''0'' else if 0 < x then format_pos x else CHR ''-'' # format_pos (- x))"

subsection \<open>The shortest decimal reads back\<close>

definition min_exp :: nat where "min_exp = 1074"

lemma round64_Fin_multiple:
  assumes "round64 a = Fin x" "0 < x"
  shows "\<exists>k::int. x = of_int k / 2 ^ min_exp"
proof -
  have x: "x = round_sgn a" using assms by (auto simp: round64_def split: if_splits)
  have a: "0 < a"
  proof (rule ccontr)
    assume "\<not> 0 < a"
    then have "round_sgn a \<le> 0" using round_mag_nonneg [of "- a"] by (auto simp: round_sgn_def)
    with x assms(2) show False by simp
  qed
  have "- int min_exp \<le> ulp_exp a" by (simp add: ulp_exp_def min_exp_def)
  then obtain e where e: "ulp_exp a = int e - int min_exp" by (metis add.commute diff_add_cancel minus_le_iff uminus_add_conv_diff zle_iff_zadd)
  have "pow2 (ulp_exp a) = 2 ^ e / 2 ^ min_exp" unfolding e by (simp add: power_int_diff)
  then have "x = of_int (half_even (a / pow2 (ulp_exp a)) * 2 ^ e) / 2 ^ min_exp"
    using x a by (simp add: round_sgn_def round_mag_def)
  then show ?thesis by blast
qed

lemma exact_scale:
  assumes "x = of_int k / (2::rat) ^ N" "int N \<le> s"
  shows "\<exists>c::int. x * 10 powi s = of_int c"
proof -
  obtain n where n: "s = int (N + n)" using assms(2) by (metis of_nat_add zle_iff_zadd)
  have "(10::rat) powi s = 10 ^ N * 10 ^ n" unfolding n power_int_of_nat by (rule power_add)
  moreover have "(10::rat) ^ N = 2 ^ N * 5 ^ N" by (simp flip: power_mult_distrib)
  ultimately have "x * 10 powi s = of_int (k * 5 ^ N * 10 ^ n)" using assms(1) by simp
  then show ?thesis by blast
qed

lemma shortest_from_reads_back:
  assumes x: "round64 x = Fin x" "0 < x" and s: "int min_exp \<le> s + int n"
  shows "case shortest_from n s x of (c, t) \<Rightarrow> round64 (of_int c * 10 powi (- t)) = Fin x"
  using s
proof (induction n arbitrary: s)
  case 0
  obtain k where "x = of_int k / 2 ^ min_exp" using round64_Fin_multiple [OF x] by blast
  with exact_scale [of x k min_exp s] 0 obtain c where c: "x * 10 powi s = of_int c" by auto
  then have "of_int c * 10 powi (- s) = x" by (simp add: power_int_minus field_simps flip: c)
  with c x(1) show ?case by simp
next
  case (Suc n)
  then have "int min_exp \<le> (s + 1) + int n" by simp
  with Suc.IH [of "s + 1"] show ?case
    by (simp add: Let_def)
qed

lemma shortest_reads_back:
  assumes "round64 x = Fin x" "0 < x" "shortest x = (c, s)"
  shows "round64 (of_int c * 10 powi (- s)) = Fin x" "0 < c"
proof -
  show r: "round64 (of_int c * 10 powi (- s)) = Fin x"
    using shortest_from_reads_back [OF assms(1,2), of "- ((3 * ilog2 x) div 10) - 4" "nat (1075 - (- ((3 * ilog2 x) div 10) - 4))"]
      assms(3) by (simp add: shortest_def Let_def min_exp_def)
  have "x \<le> 0" if "c \<le> 0"
  proof -
    have "of_int c * 10 powi (- s) \<le> (0::rat)" using that by (simp add: mult_nonpos_nonneg)
    from round64_mono [OF this] r show ?thesis by (simp add: round64_def round_sgn_def MaxFloat_def)
  qed
  with assms(2) show "0 < c" by linarith
qed


subsection \<open>The grammar of numbers\<close>

definition is_digit :: "char \<Rightarrow> bool" where
  "is_digit c \<longleftrightarrow> digit_val c \<noteq> None"

definition valid_exp :: "string \<Rightarrow> bool" where
  "valid_exp t \<longleftrightarrow>
     t = [] \<or>
     (hd t = CHR ''e'' \<or> hd t = CHR ''E'') \<and>
     (let u = tl t; v = (if u \<noteq> [] \<and> (hd u = CHR ''+'' \<or> hd u = CHR ''-'') then tl u else u)
      in v \<noteq> [] \<and> list_all is_digit v)"

definition valid_frac :: "string \<Rightarrow> bool" where
  "valid_frac t \<longleftrightarrow>
     (if t \<noteq> [] \<and> hd t = CHR ''.'' then tl t \<noteq> [] \<and> is_digit (hd (tl t)) \<and> valid_exp (dropWhile is_digit (tl t))
      else valid_exp t)"

definition valid_unsigned :: "string \<Rightarrow> bool" where
  "valid_unsigned s \<longleftrightarrow>
     s \<noteq> [] \<and> is_digit (hd s) \<and> valid_frac (if hd s = CHR ''0'' then tl s else dropWhile is_digit s)"

definition valid_number :: "string \<Rightarrow> bool" where
  "valid_number s \<longleftrightarrow> valid_unsigned (if s \<noteq> [] \<and> hd s = CHR ''-'' then tl s else s)"

subsection \<open>Numbers read back\<close>

lemma is_digit_char [simp]: "d < 10 \<Longrightarrow> is_digit (digit_char d)"
  by (simp add: is_digit_def digit_val_char)

lemma is_digit_0 [simp]: "is_digit (CHR ''0'')"
  by code_simp

lemma not_digit [simp]: "\<not> is_digit (CHR ''.'')" "\<not> is_digit (CHR ''e'')" "\<not> is_digit (CHR ''-'')" "\<not> is_digit (CHR ''+'')"
  by (code_simp, code_simp, code_simp, code_simp)

lemma decimal_digits: "c \<in> set (decimal n) \<Longrightarrow> is_digit c"
  using decimal_chars [of c n] by auto

lemma hd_decimal_digit [simp]: "is_digit (hd (decimal n))"
  by (rule decimal_digits [of _ n]) simp

lemma hd_decimal_nonzero: "0 < n \<Longrightarrow> hd (decimal n) \<noteq> CHR ''0''"
proof (induction n rule: decimal.induct)
  case (1 n)
  show ?case
  proof (cases "n < 10")
    case True
    have "digit_val (CHR ''0'') = Some 0" by code_simp
    then have "digit_char n \<noteq> CHR ''0''" using True 1(2) digit_val_char [of n] by auto
    then show ?thesis using True by (simp add: decimal.simps [of n])
  next
    case False
    with 1 show ?thesis by (simp add: decimal.simps [of n])
  qed
qed

lemma read_digits_skip:
  "parse_digits acc s = Some n \<Longrightarrow> read_digits acc k (s @ t) = read_digits n (k + length s) t"
  by (induction acc s arbitrary: k rule: parse_digits.induct) (auto split: option.splits)

lemma read_digits_stop: "t = [] \<or> \<not> is_digit (hd t) \<Longrightarrow> read_digits acc k t = (acc, k, t)"
  by (cases t) (auto simp: is_digit_def)

lemma parse_zeros: "parse_digits acc (replicate n (CHR ''0'')) = Some (acc * 10 ^ n)"
  by (induction n arbitrary: acc) (simp_all add: digit_val_def)

lemma read_exp_parse: "parse_digits acc s = Some n \<Longrightarrow> n < 100000 \<Longrightarrow> read_exp acc s = n"
proof (induction acc s rule: parse_digits.induct)
  case (2 acc c s)
  then obtain d where d: "digit_val c = Some d" "parse_digits (10 * acc + d) s = Some n" by (auto split: option.splits)
  have "m \<le> n'" if "parse_digits m s = Some n'" for m n'
    using that by (induction m s rule: parse_digits.induct) (auto split: option.splits)
  from this [OF d(2)] 2(3) have "acc < 10000" by simp
  with 2 d show ?case by simp
qed simp

lemma exponent_Nil [simp]: "exponent [] = 0"
  by (simp add: exponent_def)

lemma exponent_e:
  assumes "\<bar>e\<bar> < 100000"
  shows "exponent (CHR ''e'' # (if e < 0 then CHR ''-'' else CHR ''+'') # decimal (nat \<bar>e\<bar>)) = e"
proof -
  have "read_exp 0 (decimal (nat \<bar>e\<bar>)) = nat \<bar>e\<bar>" using assms by (intro read_exp_parse parse_digits_decimal) auto
  then show ?thesis by (simp add: exponent_def)
qed

lemma magnitude_plain:
  assumes "parse_digits 0 s = Some n"
  shows "magnitude s = of_nat n"
  using read_digits_skip [OF assms, of 0 "[]"] by (simp add: magnitude_def)

lemma magnitude_frac:
  assumes "parse_digits 0 (a @ b) = Some n" "u = [] \<or> \<not> is_digit (hd u)"
  shows "magnitude (a @ CHR ''.'' # b @ u) = of_nat n * 10 powi (exponent u - int (length b))"
proof -
  obtain i where i: "parse_digits 0 a = Some i" "parse_digits i b = Some n"
    using assms(1) by (auto simp: parse_digits_append split: option.splits)
  show ?thesis
    using read_digits_skip [OF i(1), of 0 "CHR ''.'' # b @ u"] read_digits_skip [OF i(2), of 0 u]
    by (simp add: magnitude_def read_digits_stop assms(2) del: read_digits.simps)
qed

lemma magnitude_exp:
  assumes "parse_digits 0 a = Some n" "u \<noteq> []" "\<not> is_digit (hd u)" "hd u \<noteq> CHR ''.''"
  shows "magnitude (a @ u) = of_nat n * 10 powi exponent u"
  using read_digits_skip [OF assms(1), of 0 u] assms by (simp add: magnitude_def read_digits_stop)


lemma format_e_value:
  assumes "\<bar>dp - 1\<bar> < 100000"
  shows "magnitude (format_e (decimal c) dp) = of_nat c * 10 powi (dp - int (length (decimal c)))"
proof -
  obtain d ds where ds: "decimal c = d # ds" by (cases "decimal c") auto
  let ?u = "CHR ''e'' # (if dp - 1 < 0 then CHR ''-'' else CHR ''+'') # decimal (nat \<bar>dp - 1\<bar>)"
  have u: "exponent ?u = dp - 1" by (rule exponent_e [OF assms])
  have p: "parse_digits 0 ([d] @ ds) = Some c" using parse_digits_decimal [of c] ds by simp
  show ?thesis
  proof (cases "ds = []")
    case True
    with p magnitude_exp [of "[d]" c ?u] u ds show ?thesis by (simp add: format_e_def)
  next
    case False
    have e: "exponent ?u - int (length ds) = dp - int (length (decimal c))" unfolding u ds by simp
    have "format_e (decimal c) dp = [d] @ CHR ''.'' # ds @ ?u" using False by (simp add: format_e_def ds)
    with magnitude_frac [OF p, of ?u] e show ?thesis by (simp only:) simp
  qed
qed

lemma format_f_value:
  "magnitude (format_f (decimal c) dp) = of_nat c * 10 powi (dp - int (length (decimal c)))"
proof -
  let ?ds = "decimal c"
  consider "int (length ?ds) \<le> dp" | "0 < dp" "dp < int (length ?ds)" | "dp \<le> 0" by linarith
  then show ?thesis
  proof cases
    case 1
    let ?n = "nat dp - length ?ds"
    have "parse_digits 0 (?ds @ replicate ?n (CHR ''0'')) = Some (c * 10 ^ ?n)"
      by (simp add: parse_digits_append parse_digits_decimal parse_zeros)
    moreover have "(10::rat) powi (dp - int (length ?ds)) = 10 ^ ?n"
      using 1 by (simp flip: power_int_of_nat add: nat_diff_distrib)
    ultimately show ?thesis using 1 magnitude_plain by (simp add: format_f_def)
  next
    case 2
    have p: "parse_digits 0 (take (nat dp) ?ds @ drop (nat dp) ?ds) = Some c" by (simp add: parse_digits_decimal)
    have "- int (length ?ds - nat dp) = dp - int (length ?ds)" using 2 by simp
    with magnitude_frac [OF p, of "[]"] 2 show ?thesis by (simp add: format_f_def)
  next
    case 3
    have p: "parse_digits 0 (''0'' @ replicate (nat (- dp)) (CHR ''0'') @ ?ds) = Some c"
      by (simp add: parse_digits_append parse_digits_decimal parse_zeros digit_val_def)
    have "- (int (nat (- dp)) + int (length ?ds)) = dp - int (length ?ds)" using 3 by simp
    with magnitude_frac [OF p, of "[]"] have "magnitude (''0.'' @ replicate (nat (- dp)) (CHR ''0'') @ ?ds) =
        of_nat c * 10 powi (dp - int (length ?ds))" by (simp add: algebra_simps)
    moreover have "0 < length ?ds" by simp
    then have "\<not> int (length ?ds) \<le> dp" using 3 by linarith
    ultimately show ?thesis using 3 by (simp add: format_f_def)
  qed
qed

lemma decimal_bounds: "0 < n \<Longrightarrow> 10 ^ (length (decimal n) - 1) \<le> n \<and> n < 10 ^ length (decimal n)"
proof (induction n rule: decimal.induct)
  case (1 n)
  show ?case
  proof (cases "n < 10")
    case False
    let ?k = "length (decimal (n div 10))"
    have "10 ^ (?k - 1) \<le> n div 10" "n div 10 < 10 ^ ?k" using 1 False by auto
    then have "10 ^ (?k - 1) * 10 \<le> n" "n < 10 ^ ?k * 10" by (simp_all add: less_mult_imp_div_less div_less_iff_less_mult le_div_geq less_eq_div_iff_mult_less_eq)
    moreover have "0 < ?k" by simp
    then have "(10::nat) ^ (?k - 1) * 10 = 10 ^ ?k" by (metis Suc_diff_1 power_Suc2)
    ultimately show ?thesis using False by (simp add: decimal.simps [of n] mult.commute)
  qed (use 1 in \<open>simp add: decimal.simps [of n]\<close>)
qed

lemma round64_large: "pow2 1025 \<le> y \<Longrightarrow> round64 y = PInf"
proof -
  assume y: "pow2 1025 \<le> y"
  have "round_sgn (pow2 1025) = pow2 1025"
    using round_mag_exact [of "pow2 1025" 1 1025] by (simp add: round_sgn_def)
  moreover have "MaxFloat < pow2 1025" by (simp add: MaxFloat_def power_int_def)
  ultimately show ?thesis using round_sgn_mono [OF y] by (simp add: round64_def)
qed

lemma round64_range:
  assumes "round64 y = Fin x" "0 < x"
  shows "pow2 (- 1076) \<le> y" "y \<le> pow2 1025"
proof -
  have x: "round_sgn y = x" using assms(1) by (auto simp: round64_def split: if_splits)
  have y: "0 < y"
  proof (rule ccontr)
    assume "\<not> 0 < y"
    then have "round_sgn y \<le> 0" using round_sgn_mono [of y 0] by (simp add: round_sgn_def)
    with x assms(2) show False by simp
  qed
  show "pow2 (- 1076) \<le> y"
  proof (rule ccontr)
    assume a: "\<not> pow2 (- 1076) \<le> y"
    have "pow2 (- 1074) \<le> pow2 (ulp_exp y)" by (rule pow2_mono) (simp add: ulp_exp_def)
    moreover have "pow2 (- 1074) = 4 * pow2 (- 1076)" using power_int_add [of "2::rat" 2 "- 1076"] by simp
    ultimately have "y / pow2 (ulp_exp y) < 1 / 4" using a by (simp add: field_simps)
    moreover have "0 < y / pow2 (ulp_exp y)" using y by simp
    moreover from calculation have "\<lfloor>y / pow2 (ulp_exp y)\<rfloor> = 0" by (intro floor_unique; linarith)
    ultimately have "half_even (y / pow2 (ulp_exp y)) = 0" unfolding half_even_def by (simp add: Let_def)
    then have "round_sgn y = 0" using y by (simp add: round_sgn_def round_mag_def)
    with x assms(2) show False by simp
  qed
  show "y \<le> pow2 1025"
  proof (rule ccontr)
    assume "\<not> y \<le> pow2 1025"
    then have "round64 y = PInf" by (intro round64_large) simp
    with assms(1) show False by simp
  qed
qed

lemma powi_10_le: "(10::rat) powi i \<le> 10 powi j \<Longrightarrow> i \<le> j"
  using power_int_strict_increasing [of j i "10::rat"] by force

lemma pow2_le_powi_10: "0 \<le> k \<Longrightarrow> pow2 k \<le> (10::rat) powi k"
  by (simp add: power_int_def power_mono)

lemma powi_10_le_pow2: "k \<le> 0 \<Longrightarrow> (10::rat) powi k \<le> pow2 k"
  by (simp add: power_int_def power_mono)

lemma shortest_point:
  assumes "round64 x = Fin x" "0 < x" "shortest x = (c, s)"
  shows "\<bar>int (length (decimal (nat c))) - s - 1\<bar> < 100000"
proof -
  let ?n = "length (decimal (nat c))"
  let ?y = "of_int c * 10 powi (- s) :: rat"
  note r = shortest_reads_back [OF assms]
  have y: "pow2 (- 1076) \<le> ?y" "?y \<le> pow2 1025" using round64_range [OF r(1) assms(2)] by auto
  have n: "0 < ?n" by simp
  have c: "10 ^ (?n - 1) \<le> c" "c < 10 ^ ?n"
    using decimal_bounds [of "nat c"] r(2) by (simp_all add: le_nat_iff nat_less_iff)
  then have c': "(10::rat) ^ (?n - 1) \<le> of_int c" "of_int c < (10::rat) ^ ?n"
    by (metis of_int_le_iff of_int_numeral of_int_power, metis of_int_less_iff of_int_numeral of_int_power)
  have "(10::rat) powi (int ?n - 1 - s) \<le> ?y"
  proof -
    have "(10::rat) powi (int ?n - 1 - s) = 10 ^ (?n - 1) * 10 powi (- s)"
    proof -
      have "int ?n - 1 - s = int (?n - 1) + - s" using n by linarith
      then have "(10::rat) powi (int ?n - 1 - s) = 10 powi (int (?n - 1) + - s)" by (rule arg_cong)
      also have "\<dots> = 10 powi int (?n - 1) * 10 powi (- s)" by (rule power_int_add) simp
      finally show ?thesis by (simp only: power_int_of_nat)
    qed
    with c'(1) show ?thesis by (simp add: mult_right_mono)
  qed
  also note y(2)
  also have "pow2 1025 \<le> (10::rat) powi 1025" by (rule pow2_le_powi_10) simp
  finally have "(10::rat) powi (int ?n - 1 - s) \<le> 10 powi 1025" .
  then have 1: "int ?n - 1 - s \<le> 1025" by (rule powi_10_le)
  have "(10::rat) powi (- 1076) \<le> pow2 (- 1076)" by (rule powi_10_le_pow2) simp
  also note y(1)
  also have "?y < 10 powi (int ?n - s)"
  proof -
    have "(10::rat) powi (int ?n - s) = 10 ^ ?n * 10 powi (- s)"
      by (simp flip: power_int_of_nat power_int_add)
    with c'(2) show ?thesis by (simp add: mult_strict_right_mono)
  qed
  finally have "(10::rat) powi (- 1076) < 10 powi (int ?n - s)" .
  then have 2: "- 1076 \<le> int ?n - s" by (intro powi_10_le less_imp_le)
  show ?thesis using 1 2 by simp
qed


lemma format_pos_reads_back:
  assumes "round64 x = Fin x" "0 < x"
  shows "round64 (magnitude (format_pos x)) = Fin x"
proof -
  obtain c s where cs: "shortest x = (c, s)" by fastforce
  note r = shortest_reads_back [OF assms cs]
  have "of_nat (nat c) = (of_int c :: rat)" using r(2) by (metis nat_0_le of_int_of_nat_eq order_less_imp_le)
  with r(1) show ?thesis
    using shortest_point [OF assms cs]
    by (simp add: format_pos_def cs Let_def format_e_value format_f_value)
qed

lemma hd_append_digit: "s \<noteq> [] \<Longrightarrow> is_digit (hd s) \<Longrightarrow> is_digit (hd (s @ t))"
  by simp

lemma dropWhile_digits: "\<forall>c\<in>set s. is_digit c \<Longrightarrow> dropWhile is_digit (s @ t) = dropWhile is_digit t"
  by (simp add: dropWhile_append2)

lemma valid_exp_e: "valid_exp (CHR ''e'' # (if e < 0 then CHR ''-'' else CHR ''+'') # decimal n)"
  by (auto simp: valid_exp_def list_all_iff decimal_digits)

lemma valid_unsigned_format_e: "0 < c \<Longrightarrow> valid_unsigned (format_e (decimal c) dp)"
proof -
  assume c: "0 < c"
  obtain d ds where ds: "decimal c = d # ds" by (cases "decimal c") auto
  have d: "is_digit d" "d \<noteq> CHR ''0''" "\<forall>x\<in>set ds. is_digit x"
    using hd_decimal_digit [of c] hd_decimal_nonzero [OF c] decimal_digits [of _ c] ds by auto
  show ?thesis
  proof (cases "ds = []")
    case True
    with d ds valid_exp_e [of "dp - 1" "nat \<bar>dp - 1\<bar>"] show ?thesis
      by (simp add: valid_unsigned_def valid_frac_def format_e_def)
  next
    case False
    then have "is_digit (hd (ds @ t))" for t using d(3) by simp
    with False d ds valid_exp_e [of "dp - 1" "nat \<bar>dp - 1\<bar>"] show ?thesis
      by (simp add: valid_unsigned_def valid_frac_def format_e_def dropWhile_digits)
  qed
qed

lemma valid_unsigned_format_f: "0 < c \<Longrightarrow> valid_unsigned (format_f (decimal c) dp)"
proof -
  assume c: "0 < c"
  let ?ds = "decimal c"
  have d: "is_digit (hd ?ds)" "hd ?ds \<noteq> CHR ''0''" "\<forall>x\<in>set ?ds. is_digit x"
    using hd_decimal_nonzero [OF c] decimal_digits [of _ c] by auto
  consider "int (length ?ds) \<le> dp" | "0 < dp" "dp < int (length ?ds)" | "dp \<le> 0" "\<not> int (length ?ds) \<le> dp"
    by linarith
  then show ?thesis
  proof cases
    case 1
    then have "format_f ?ds dp = ?ds @ replicate (nat dp - length ?ds) (CHR ''0'')" by (simp add: format_f_def)
    moreover have "dropWhile is_digit (?ds @ replicate (nat dp - length ?ds) (CHR ''0'')) = []"
      using d(3) by (auto simp: dropWhile_eq_Nil_conv)
    ultimately show ?thesis using d by (simp add: valid_unsigned_def valid_frac_def valid_exp_def)
  next
    case 2
    let ?a = "take (nat dp) ?ds" and ?b = "drop (nat dp) ?ds"
    have a: "?a \<noteq> []" "hd ?a = hd ?ds" "\<forall>x\<in>set ?a. is_digit x"
      using 2 d(3) by (auto dest: in_set_takeD)
    have b: "?b \<noteq> []" "\<forall>x\<in>set ?b. is_digit x" using 2 d(3) by (auto dest: in_set_dropD)
    have "dropWhile is_digit ?b = []" using b(2) by (simp add: dropWhile_eq_Nil_conv)
    moreover have "is_digit (hd ?b)" using b by (meson hd_in_set)
    ultimately show ?thesis using 2 a b d
      by (simp add: format_f_def valid_unsigned_def valid_frac_def valid_exp_def dropWhile_digits)
  next
    case 3
    let ?b = "replicate (nat (- dp)) (CHR ''0'') @ ?ds"
    have b: "?b \<noteq> []" "\<forall>x\<in>set ?b. is_digit x" using d(3) by auto
    have "dropWhile is_digit ?b = []" using b(2) by (simp add: dropWhile_eq_Nil_conv)
    moreover have "is_digit (hd ?b)" using b by (meson hd_in_set)
    ultimately show ?thesis using 3 b
      by (simp add: format_f_def valid_unsigned_def valid_frac_def valid_exp_def)
  qed
qed

lemma valid_unsigned_format_pos:
  assumes "round64 x = Fin x" "0 < x"
  shows "valid_unsigned (format_pos x)"
proof -
  obtain c s where cs: "shortest x = (c, s)" by fastforce
  have "0 < nat c" using shortest_reads_back [OF assms cs] by simp
  then show ?thesis
    by (simp add: format_pos_def cs Let_def valid_unsigned_format_e valid_unsigned_format_f)
qed

lemma valid_unsigned_hd: "valid_unsigned s \<Longrightarrow> s \<noteq> [] \<and> hd s \<noteq> CHR ''-''"
  by (auto simp: valid_unsigned_def)

lemma round64_uminus: "round64 (- x) = f64_neg (round64 x)"
proof -
  have "0 \<le> MaxFloat" by (simp add: MaxFloat_def)
  then show ?thesis by (auto simp: round64_def round_sgn_def)
qed

lemma ParseFloat_AppendFloat:
  assumes "is_f64 (Fin x)"
  shows "ParseFloat (AppendFloat x) = (x < 0, Fin \<bar>x\<bar>)"
proof -
  have r: "round64 x = Fin x" using assms by (simp add: is_f64_def)
  consider "x = 0" | "0 < x" | "x < 0" by linarith
  then show ?thesis
  proof cases
    case 1
    have "magnitude ''0'' = 0" by (simp add: magnitude_def digit_val_def)
    with 1 r show ?thesis by (simp add: AppendFloat_def ParseFloat_def)
  next
    case 2
    with r show ?thesis
      using valid_unsigned_hd [OF valid_unsigned_format_pos] format_pos_reads_back
      by (simp add: AppendFloat_def ParseFloat_def)
  next
    case 3
    with r have "round64 (- x) = Fin (- x)" by (simp add: round64_uminus)
    with 3 format_pos_reads_back [of "- x"] show ?thesis by (simp add: AppendFloat_def ParseFloat_def)
  qed
qed

lemma valid_number_AppendFloat:
  assumes "is_f64 (Fin x)"
  shows "valid_number (AppendFloat x)"
proof -
  have r: "round64 x = Fin x" using assms by (simp add: is_f64_def)
  consider "x = 0" | "0 < x" | "x < 0" by linarith
  then show ?thesis
  proof cases
    case 1
    then show ?thesis by (simp add: AppendFloat_def valid_number_def valid_unsigned_def valid_frac_def valid_exp_def)
  next
    case 2
    with r show ?thesis
      using valid_unsigned_format_pos valid_unsigned_hd by (simp add: AppendFloat_def valid_number_def)
  next
    case 3
    with r have "round64 (- x) = Fin (- x)" by (simp add: round64_uminus)
    with 3 show ?thesis using valid_unsigned_format_pos by (simp add: AppendFloat_def valid_number_def)
  qed
qed

end
