(* ===== verification/Json_String.thy ===== *)
theory Json_String
  imports Go_Strings
begin

text \<open>
  Strings in JSON texts, as encoding/json reads and writes them. A Go string is any byte
  sequence; encoding/json reads and writes UTF-8 and puts the replacement character for
  every byte that is not part of a well-formed sequence. \<open>unquote\<close> is \<open>unquoteBytes\<close> of
  encoding/json on the bytes between the quotes, which the scanner has accepted; \<open>escape\<close>
  is \<open>appendString\<close> with HTML escaping, as \<open>json.Marshal\<close> calls it.
\<close>

subsection \<open>UTF-8\<close>

definition byte :: "char \<Rightarrow> nat" where
  "byte c = of_char c"

definition cont :: "char \<Rightarrow> bool" where
  \<comment> \<open>a continuation byte\<close>
  "cont c \<longleftrightarrow> 128 \<le> byte c \<and> byte c \<le> 191"

definition second_byte :: "char \<Rightarrow> char \<Rightarrow> bool" where
  \<comment> \<open>which second byte may follow the first of a longer sequence: no overlong form, no
     surrogate, nothing above U+10FFFF\<close>
  "second_byte c d \<longleftrightarrow>
     (if byte c = 224 then 160 else if byte c = 240 then 144 else 128) \<le> byte d \<and>
     byte d \<le> (if byte c = 237 then 159 else if byte c = 244 then 143 else 191)"

fun rune_len :: "string \<Rightarrow> nat" where
  \<comment> \<open>the length of the well-formed sequence at the head of a string, 0 when there is none\<close>
  "rune_len [] = 0"
| "rune_len (c # s) =
     (if byte c < 128 then 1
      else if byte c < 194 then 0
      else if byte c < 224 then (case s of [] \<Rightarrow> 0 | d # _ \<Rightarrow> if cont d then 2 else 0)
      else if byte c < 240 then (case s of d # e # _ \<Rightarrow> if second_byte c d \<and> cont e then 3 else 0 | _ \<Rightarrow> 0)
      else if byte c < 245 then
        (case s of d # e # f # _ \<Rightarrow> if second_byte c d \<and> cont e \<and> cont f then 4 else 0 | _ \<Rightarrow> 0)
      else 0)"

declare rune_len.simps [simp del]

fun valid_utf8 :: "string \<Rightarrow> bool" where
  "valid_utf8 [] = True"
| "valid_utf8 (c # s) =
     (0 < rune_len (c # s) \<and> valid_utf8 (drop (rune_len (c # s) - 1) s))"

definition encode_rune :: "nat \<Rightarrow> string" where
  \<comment> \<open>\<open>utf8.EncodeRune\<close>; a surrogate or a value out of range is replaced by U+FFFD\<close>
  "encode_rune r =
     (if r < 128 then [char_of r]
      else if r < 2048 then [char_of (192 + r div 64), char_of (128 + r mod 64)]
      else if 55296 \<le> r \<and> r < 57344 \<or> 1114112 \<le> r then [CHR 0xEF, CHR 0xBF, CHR 0xBD]
      else if r < 65536 then
        [char_of (224 + r div 4096), char_of (128 + r div 64 mod 64), char_of (128 + r mod 64)]
      else [char_of (240 + r div 262144), char_of (128 + r div 4096 mod 64),
            char_of (128 + r div 64 mod 64), char_of (128 + r mod 64)])"

definition replacement :: string where
  "replacement = encode_rune 65533"

subsection \<open>Reading\<close>

definition hex_val :: "char \<Rightarrow> nat option" where
  "hex_val c =
     (let n = byte c in
      if 48 \<le> n \<and> n \<le> 57 then Some (n - 48)
      else if 97 \<le> n \<and> n \<le> 102 then Some (n - 87)
      else if 65 \<le> n \<and> n \<le> 70 then Some (n - 55)
      else None)"

abbreviation backslash :: char where "backslash \<equiv> CHR 0x5C"

fun getu4 :: "string \<Rightarrow> nat option" where
  \<comment> \<open>the value of an escape with four hexadecimal digits at the head of a string\<close>
  "getu4 (c # u # h1 # h2 # h3 # h4 # s) =
     (if c = backslash \<and> u = CHR ''u'' then
        (case (hex_val h1, hex_val h2, hex_val h3, hex_val h4) of
           (Some a, Some b, Some c, Some d) \<Rightarrow> Some (4096 * a + 256 * b + 16 * c + d)
         | _ \<Rightarrow> None)
      else None)"
| "getu4 _ = None"

definition surrogate_pair :: "nat \<Rightarrow> nat option \<Rightarrow> nat option" where
  \<comment> \<open>\<open>utf16.DecodeRune\<close>\<close>
  "surrogate_pair r1 r2 =
     (case r2 of
        Some r \<Rightarrow> if 55296 \<le> r1 \<and> r1 < 56320 \<and> 56320 \<le> r \<and> r < 57344
                 then Some (65536 + 1024 * (r1 - 55296) + (r - 56320)) else None
      | None \<Rightarrow> None)"

definition unescape :: "char \<Rightarrow> char option" where
  "unescape c =
     (if c = CHR 0x22 \<or> c = backslash \<or> c = CHR ''/'' \<or> c = CHR 0x27 then Some c
      else if c = CHR ''b'' then Some (CHR 0x08) else if c = CHR ''f'' then Some (CHR 0x0C)
      else if c = CHR ''n'' then Some (CHR 0x0A) else if c = CHR ''r'' then Some (CHR 0x0D)
      else if c = CHR ''t'' then Some (CHR 0x09) else None)"

fun unquote :: "string \<Rightarrow> string option" where
  "unquote [] = Some []"
| "unquote (c # s) =
     (if c = backslash then
        (case getu4 (c # s) of
           None \<Rightarrow>
             (case s of
                [] \<Rightarrow> None
              | e # t \<Rightarrow> (case unescape e of None \<Rightarrow> None | Some x \<Rightarrow> map_option (Cons x) (unquote t)))
         | Some r \<Rightarrow>
             if 55296 \<le> r \<and> r < 57344 then
               (case surrogate_pair r (getu4 (drop 5 s)) of
                  Some q \<Rightarrow> map_option (append (encode_rune q)) (unquote (drop 11 s))
                | None \<Rightarrow> map_option (append replacement) (unquote (drop 5 s)))
             else map_option (append (encode_rune r)) (unquote (drop 5 s)))
      else if c = CHR 0x22 \<or> byte c < 32 then None
      else if rune_len (c # s) = 0 then map_option (append replacement) (unquote s)
      else map_option (append (take (rune_len (c # s)) (c # s))) (unquote (drop (rune_len (c # s) - 1) s)))"

subsection \<open>Writing\<close>

definition hex_digit :: "nat \<Rightarrow> char" where
  "hex_digit d = (if d < 10 then char_of (48 + d) else char_of (87 + d))"

definition html_safe :: "char \<Rightarrow> bool" where
  \<comment> \<open>\<open>htmlSafeSet\<close>: the ASCII characters written as they are\<close>
  "html_safe c \<longleftrightarrow> 32 \<le> byte c \<and> byte c < 128 \<and> c \<notin> {CHR 0x22, backslash, CHR ''<'', CHR ''>'', CHR ''&''}"

definition escape_ascii :: "char \<Rightarrow> string" where
  "escape_ascii c =
     (if html_safe c then [c]
      else if c = backslash \<or> c = CHR 0x22 then [backslash, c]
      else if c = CHR 0x08 then [backslash, CHR ''b'']
      else if c = CHR 0x0C then [backslash, CHR ''f'']
      else if c = CHR 0x0A then [backslash, CHR ''n'']
      else if c = CHR 0x0D then [backslash, CHR ''r'']
      else if c = CHR 0x09 then [backslash, CHR ''t'']
      else backslash # ''u00'' @ [hex_digit (byte c div 16), hex_digit (byte c mod 16)])"

definition line_separators :: "string list" where
  \<comment> \<open>U+2028 and U+2029\<close>
  "line_separators = [[CHR 0xE2, CHR 0x80, CHR 0xA8], [CHR 0xE2, CHR 0x80, CHR 0xA9]]"

fun escape :: "string \<Rightarrow> string" where
  "escape [] = []"
| "escape (c # s) =
     (if byte c < 128 then escape_ascii c @ escape s
      else if rune_len (c # s) = 0 then backslash # ''ufffd'' @ escape s
      else
        let r = take (rune_len (c # s)) (c # s) in
        (if r \<in> set line_separators then backslash # ''u202'' @ [hex_digit (byte (last r) mod 16)] else r) @
        escape (drop (rune_len (c # s) - 1) s))"

subsection \<open>Lemmas on UTF-8\<close>

definition is_rune :: "string \<Rightarrow> bool" where
  \<comment> \<open>the well-formed sequences\<close>
  "is_rune r \<longleftrightarrow>
     (case r of
        [c] \<Rightarrow> byte c < 128
      | [c, d] \<Rightarrow> 194 \<le> byte c \<and> byte c < 224 \<and> cont d
      | [c, d, e] \<Rightarrow> 224 \<le> byte c \<and> byte c < 240 \<and> second_byte c d \<and> cont e
      | [c, d, e, f] \<Rightarrow> 240 \<le> byte c \<and> byte c < 245 \<and> second_byte c d \<and> cont e \<and> cont f
      | _ \<Rightarrow> False)"

lemma is_rune_cases:
  assumes "is_rune r"
  obtains (one) c where "r = [c]" "byte c < 128"
  | (two) c d where "r = [c, d]" "194 \<le> byte c" "byte c < 224" "cont d"
  | (three) c d e where "r = [c, d, e]" "224 \<le> byte c" "byte c < 240" "second_byte c d" "cont e"
  | (four) c d e f where "r = [c, d, e, f]" "240 \<le> byte c" "byte c < 245" "second_byte c d" "cont e" "cont f"
  using assms by (auto simp: is_rune_def split: list.splits)

lemma rune_len_append [simp]: "is_rune r \<Longrightarrow> rune_len (r @ t) = length r"
  by (elim is_rune_cases) (simp_all add: rune_len.simps)

lemma is_rune_take: "0 < rune_len s \<Longrightarrow> is_rune (take (rune_len s) s)"
proof (cases s)
  case (Cons c t)
  assume a: "0 < rune_len s"
  consider "byte c < 128" | "194 \<le> byte c" "byte c < 224" | "224 \<le> byte c" "byte c < 240" | "240 \<le> byte c" "byte c < 245"
    using a Cons by (force simp: rune_len.simps split: if_splits)
  then show ?thesis
  proof cases
    case 1
    with Cons show ?thesis by (simp add: is_rune_def rune_len.simps)
  next
    case 2
    then obtain d t' where "t = d # t'" "cont d" using a Cons by (auto simp: rune_len.simps split: list.splits if_splits)
    with 2 Cons show ?thesis by (simp add: is_rune_def rune_len.simps)
  next
    case 3
    then obtain d e t' where "t = d # e # t'" "second_byte c d" "cont e"
      using a Cons by (auto simp: rune_len.simps split: list.splits if_splits)
    with 3 Cons show ?thesis by (simp add: is_rune_def rune_len.simps)
  next
    case 4
    then obtain d e f t' where "t = d # e # f # t'" "second_byte c d" "cont e" "cont f"
      using a Cons by (auto simp: rune_len.simps split: list.splits if_splits)
    with 4 Cons show ?thesis by (simp add: is_rune_def rune_len.simps)
  qed
qed (simp add: rune_len.simps)

lemma split_rune:
  assumes "0 < rune_len s"
  obtains r t where "s = r @ t" "is_rune r" "rune_len s = length r"
proof -
  have "s = take (rune_len s) s @ drop (rune_len s) s" by simp
  moreover have "is_rune (take (rune_len s) s)" by (rule is_rune_take [OF assms])
  ultimately show ?thesis using that by (metis rune_len_append)
qed

lemma is_rune_Nil [simp]: "\<not> is_rune []"
  by (auto simp: is_rune_def)

lemma rune_bytes: "is_rune r \<Longrightarrow> 128 \<le> byte (hd r) \<Longrightarrow> x \<in> set r \<Longrightarrow> 128 \<le> byte x"
  by (elim is_rune_cases) (auto simp: cont_def second_byte_def split: if_splits)

lemma rune_ascii: "is_rune r \<Longrightarrow> byte (hd r) < 128 \<Longrightarrow> r = [hd r]"
  by (elim is_rune_cases) auto

lemma byte_char_of [simp]: "n < 256 \<Longrightarrow> byte (char_of n) = n"
  by (simp add: byte_def)

lemma byte_less [simp]: "byte c < 256"
  by (simp add: byte_def)

lemma char_of_byte [simp]: "char_of (byte c) = c"
  by (simp add: byte_def)

lemma is_rune_encode: "is_rune (encode_rune r)"
proof -
  consider "r < 128" | "128 \<le> r" "r < 2048" | "55296 \<le> r \<and> r < 57344 \<or> 1114112 \<le> r"
    | "2048 \<le> r" "r < 65536" "\<not> (55296 \<le> r \<and> r < 57344)" | "65536 \<le> r" "r < 1114112" by linarith
  then show ?thesis
  proof cases
    case 1
    then show ?thesis by (simp add: encode_rune_def is_rune_def)
  next
    case 2
    then have "2 \<le> r div 64" "r div 64 < 32" by (simp_all add: less_eq_div_iff_mult_less_eq div_less_iff_less_mult)
    with 2 show ?thesis by (simp add: encode_rune_def is_rune_def cont_def)
  next
    case 3
    then show ?thesis by (auto simp: encode_rune_def is_rune_def cont_def second_byte_def byte_def)
  next
    case 4
    define q where "q = r div 64"
    have q: "r div 4096 = q div 64" unfolding q_def by (simp flip: div_mult2_eq)
    have b: "32 \<le> q" "q < 1024" using 4 unfolding q_def by linarith+
    have s: "q < 864 \<or> 896 \<le> q" using 4 unfolding q_def by linarith
    have "q mod 64 < 32" if "q div 64 = 13" using s that div_mult_mod_eq [of q 64] mod_less_divisor [of 64 q] by auto
    moreover have "q div 64 = 0 \<Longrightarrow> 32 \<le> q mod 64" using b div_mult_mod_eq [of q 64] by auto
    moreover have "q div 64 < 16" using b by linarith
    ultimately show ?thesis using 4
      by (auto simp: encode_rune_def is_rune_def cont_def second_byte_def q simp flip: q_def)
  next
    case 5
    define q where "q = r div 4096"
    have q: "r div 262144 = q div 64" unfolding q_def by (simp flip: div_mult2_eq)
    have b: "16 \<le> q" "q < 272" using 5 unfolding q_def by linarith+
    then have "q div 64 = 4 \<Longrightarrow> q mod 64 < 16" using div_mult_mod_eq [of q 64] by auto
    moreover have "q div 64 = 0 \<Longrightarrow> 16 \<le> q mod 64" using b div_mult_mod_eq [of q 64] by auto
    moreover have "q div 64 < 5" using b by linarith
    ultimately show ?thesis using 5
      by (auto simp: encode_rune_def is_rune_def cont_def second_byte_def q simp flip: q_def)
  qed
qed

lemma valid_utf8_rune: "is_rune r \<Longrightarrow> valid_utf8 (r @ t) \<longleftrightarrow> valid_utf8 t"
proof -
  assume r: "is_rune r"
  then obtain c s where cs: "r = c # s" by (cases r) auto
  have "rune_len (c # s @ t) = Suc (length s)" using rune_len_append [OF r, of t] cs by simp
  then show ?thesis using cs by simp
qed

lemma valid_utf8_induct [consumes 1, case_names Nil rune]:
  assumes "valid_utf8 s" "P []" "\<And>r t. is_rune r \<Longrightarrow> valid_utf8 t \<Longrightarrow> P t \<Longrightarrow> P (r @ t)"
  shows "P s"
  using assms(1)
proof (induction "length s" arbitrary: s rule: less_induct)
  case less
  show ?case
  proof (cases s)
    case Nil
    with assms(2) show ?thesis by simp
  next
    case (Cons c u)
    with less.prems have "0 < rune_len s" by simp
    then obtain r t where rt: "s = r @ t" "is_rune r" by (rule split_rune)
    moreover have "valid_utf8 t" using less.prems rt by (simp add: valid_utf8_rune)
    moreover have "length t < length s" using rt by (cases r) auto
    ultimately show ?thesis using less.hyps assms(3) by blast
  qed
qed


subsection \<open>Strings read back\<close>

lemma valid_utf8_unquote: "unquote s = Some t \<Longrightarrow> valid_utf8 t"
proof (induction s arbitrary: t rule: unquote.induct)
  case (2 c s)
  show ?case
  proof (cases "c = backslash")
    case True
    show ?thesis
    proof (cases "getu4 (c # s)")
      case None
      with True "2.prems" obtain e s' x u where "s = e # s'" "unescape e = Some x" "unquote s' = Some u" "t = x # u"
        by (auto split: list.splits option.splits)
      moreover have "byte x < 128" using \<open>unescape e = Some x\<close>
        by (auto simp: unescape_def byte_def split: if_splits)
      ultimately show ?thesis using "2.IH"(1) [OF True None] by (simp add: rune_len.simps)
    next
      case (Some r)
      with True "2.prems" "2.IH"(2-4) [OF True Some] show ?thesis
        by (auto simp: replacement_def is_rune_encode valid_utf8_rune split: if_splits option.splits)
    qed
  next
    case False
    with "2.prems" have c: "\<not> (c = CHR 0x22 \<or> byte c < 32)" by (auto split: if_splits)
    show ?thesis
    proof (cases "rune_len (c # s) = 0")
      case True
      with False c "2.prems" "2.IH"(5) [OF False c True] show ?thesis
        by (auto simp: replacement_def is_rune_encode valid_utf8_rune)
    next
      case rune: False
      then have "is_rune (take (rune_len (c # s)) (c # s))" by (intro is_rune_take) simp
      with False c rune "2.prems" "2.IH"(6) [OF False c rune] show ?thesis
        by (auto simp: valid_utf8_rune simp del: take_Suc_Cons)
    qed
  qed
qed simp

lemma getu4_not_u: "c \<noteq> CHR ''u'' \<Longrightarrow> getu4 (backslash # c # t) = None"
  by (cases "backslash # c # t" rule: getu4.cases) auto

lemma hex_val_digit [simp]: "d < 16 \<Longrightarrow> hex_val (hex_digit d) = Some d"
  by (auto simp: hex_val_def hex_digit_def Let_def)

lemma encode_rune_byte: "byte c < 128 \<Longrightarrow> encode_rune (byte c) = [c]"
  by (simp add: encode_rune_def)

lemma unquote_rune:
  assumes "is_rune r" "hd r \<noteq> backslash" "hd r \<noteq> CHR 0x22" "32 \<le> byte (hd r)"
  shows "unquote (r @ t) = map_option (append r) (unquote t)"
proof -
  obtain c s where r: "r = c # s" using assms(1) by (cases r) auto
  have "rune_len (c # s @ t) = length r" using rune_len_append [OF assms(1), of t] r by simp
  with r assms show ?thesis by simp
qed

lemma unquote_getu4:
  "getu4 (backslash # s) = Some n \<Longrightarrow> \<not> (55296 \<le> n \<and> n < 57344) \<Longrightarrow>
   unquote (backslash # s) = map_option (append (encode_rune n)) (unquote (drop 5 s))"
  by (subst unquote.simps(2)) (simp only: option.case if_False if_True simp_thms)

lemma unquote_u:
  assumes "hex_val h1 = Some a" "hex_val h2 = Some b" "hex_val h3 = Some c" "hex_val h4 = Some d"
    and "n = 4096 * a + 256 * b + 16 * c + d" "\<not> (55296 \<le> n \<and> n < 57344)"
  shows "unquote (backslash # CHR ''u'' # h1 # h2 # h3 # h4 # t) = map_option (append (encode_rune n)) (unquote t)"
proof -
  have "getu4 (backslash # CHR ''u'' # h1 # h2 # h3 # h4 # t) = Some n" using assms by simp
  from unquote_getu4 [OF this assms(6)] show ?thesis by simp
qed

lemma escape_ascii_cases:
  obtains (safe) "html_safe c" "escape_ascii c = [c]"
  | (short) x where "escape_ascii c = [backslash, x]" "x \<noteq> CHR ''u''" "unescape x = Some c"
  | (hex) "escape_ascii c = backslash # ''u00'' @ [hex_digit (byte c div 16), hex_digit (byte c mod 16)]"
proof -
  consider "html_safe c" | "\<not> html_safe c" "c \<in> {backslash, CHR 0x22, CHR 0x08, CHR 0x0C, CHR 0x0A, CHR 0x0D, CHR 0x09}"
    | "\<not> html_safe c" "c \<notin> {backslash, CHR 0x22, CHR 0x08, CHR 0x0C, CHR 0x0A, CHR 0x0D, CHR 0x09}" by blast
  then show thesis
  proof cases
    case 1
    then show ?thesis using safe by (simp add: escape_ascii_def)
  next
    case 2
    then have "\<exists>x. escape_ascii c = [backslash, x] \<and> x \<noteq> CHR ''u'' \<and> unescape x = Some c"
      by (elim insertE emptyE) (simp_all add: escape_ascii_def unescape_def)
    then show ?thesis using short by blast
  next
    case 3
    then show ?thesis using hex by (simp add: escape_ascii_def)
  qed
qed

lemma unquote_escape_ascii:
  assumes "byte c < 128"
  shows "unquote (escape_ascii c @ t) = map_option (append [c]) (unquote t)"
proof (cases c rule: escape_ascii_cases)
  case safe
  then show ?thesis using unquote_rune [of "[c]" t] assms by (simp add: html_safe_def is_rune_def)
next
  case (short x)
  then show ?thesis using getu4_not_u [of x t] by (cases "unquote t") simp_all
next
  case hex
  have "hex_val (CHR ''0'') = Some 0" by (simp add: hex_val_def byte_def)
  moreover have "byte c div 16 < 16" using assms by simp
  ultimately have "unquote (backslash # CHR ''u'' # CHR ''0'' # CHR ''0'' # hex_digit (byte c div 16) # hex_digit (byte c mod 16) # t) =
      map_option (append (encode_rune (byte c))) (unquote t)"
    using assms by (intro unquote_u [where a = 0 and b = 0 and c = "byte c div 16" and d = "byte c mod 16"]) auto
  with hex show ?thesis using assms by (simp add: encode_rune_byte)
qed

lemma escape_rune:
  assumes "is_rune r"
  shows "escape (r @ t) =
    (if byte (hd r) < 128 then escape_ascii (hd r)
     else if r \<in> set line_separators then backslash # ''u202'' @ [hex_digit (byte (last r) mod 16)] else r) @ escape t"
proof -
  obtain c s where r: "r = c # s" using assms by (cases r) auto
  have n: "rune_len (c # s @ t) = length r" using rune_len_append [OF assms, of t] r by simp
  show ?thesis
  proof (cases "byte c < 128")
    case True
    with assms r rune_ascii [of r] have "s = []" by simp
    with True r show ?thesis by simp
  next
    case False
    with n r show ?thesis by (simp add: Let_def)
  qed
qed

lemma unquote_separator:
  assumes "r \<in> set line_separators"
  shows "unquote (backslash # ''u202'' @ [hex_digit (byte (last r) mod 16)] @ t) = map_option (append r) (unquote t)"
proof -
  have h: "hex_val (CHR ''2'') = Some 2" "hex_val (CHR ''0'') = Some 0" by (simp_all add: hex_val_def byte_def)
  consider "r = [CHR 0xE2, CHR 0x80, CHR 0xA8]" | "r = [CHR 0xE2, CHR 0x80, CHR 0xA9]"
    using assms by (auto simp: line_separators_def)
  then show ?thesis
  proof cases
    case 1
    then have "byte (last r) mod 16 = 8" by (simp add: byte_def)
    moreover have "encode_rune 8232 = r" unfolding 1 by (simp add: encode_rune_def char_of_def bit_0)
    ultimately show ?thesis
      using unquote_u [OF h(1,2,1) hex_val_digit [of 8] refl, of t] by simp
  next
    case 2
    then have "byte (last r) mod 16 = 9" by (simp add: byte_def)
    moreover have "encode_rune 8233 = r" unfolding 2 by (simp add: encode_rune_def char_of_def bit_0)
    ultimately show ?thesis
      using unquote_u [OF h(1,2,1) hex_val_digit [of 9] refl, of t] by simp
  qed
qed

lemma unquote_escape: "valid_utf8 s \<Longrightarrow> unquote (escape s) = Some s"
proof (induction rule: valid_utf8_induct)
  case (rune r t)
  consider "byte (hd r) < 128" | "128 \<le> byte (hd r)" "r \<in> set line_separators"
    | "128 \<le> byte (hd r)" "r \<notin> set line_separators" by linarith
  then show ?case
  proof cases
    case 1
    with rune rune_ascii [of r] unquote_escape_ascii [of "hd r" "escape t"] show ?thesis
      by (simp add: escape_rune)
  next
    case 2
    with rune unquote_separator [of r "escape t"] show ?thesis by (simp add: escape_rune)
  next
    case 3
    have "hd r \<noteq> backslash" "hd r \<noteq> CHR 0x22" using 3 by (auto simp: byte_def)
    with 3 rune unquote_rune [of r "escape t"] show ?thesis by (simp add: escape_rune)
  qed
qed simp

end
