(* ===== verification/Json_Codec.thy ===== *)
theory Json_Codec
  imports Json Json_Number Json_String "HOL-Library.List_Lexorder" "HOL-Library.Char_ord"
begin

text \<open>
  The codec of encoding/json, as far as the handlers use it. Decoding first checks the
  whole text with a scanner and then fills the target: a text the scanner refuses leaves
  the target as it is. The scanner is a machine with a stack of open arrays and objects, at
  most 10000 of them; here it works on the tokens of the text and also collects the value it
  reads. What the scanner accepts is then stored in the target. A value that does not fit
  does not stop the decoder: the first such error is reported after the rest is stored.

  Encoding writes a map with its keys in the order of their bytes. The texts of the errors
  are a parameter: nothing in the program depends on them.
\<close>

subsection \<open>Tokens\<close>

datatype token =
    TLBrace | TRBrace | TLBrack | TRBrack | TColon | TComma
  | TStr string
  | TNum string
  | TTrue | TFalse | TNull

datatype lstate =
    Idle
  | Word string  \<comment> \<open>in a literal or number; the bytes read, last first\<close>
  | Str string
  | Esc string
  | Hex nat string

definition is_ws :: "char \<Rightarrow> bool" where
  "is_ws c \<longleftrightarrow> c = CHR 0x20 \<or> c = CHR 0x09 \<or> c = CHR 0x0A \<or> c = CHR 0x0D"

definition punct :: "char \<Rightarrow> token option" where
  "punct c =
     (if c = CHR 0x7B then Some TLBrace else if c = CHR 0x7D then Some TRBrace
      else if c = CHR 0x5B then Some TLBrack else if c = CHR 0x5D then Some TRBrack
      else if c = CHR 0x3A then Some TColon else if c = CHR 0x2C then Some TComma else None)"

definition word_byte :: "char \<Rightarrow> bool" where
  "word_byte c \<longleftrightarrow>
     is_digit c \<or> c = CHR ''+'' \<or> c = CHR ''-'' \<or> c = CHR ''.'' \<or>
     65 \<le> byte c \<and> byte c \<le> 90 \<or> 97 \<le> byte c \<and> byte c \<le> 122"

definition word_token :: "string \<Rightarrow> token option" where
  "word_token w =
     (if w = ''true'' then Some TTrue else if w = ''false'' then Some TFalse
      else if w = ''null'' then Some TNull
      else if valid_number w then Some (TNum w) else None)"

definition escapable :: "char \<Rightarrow> bool" where
  "escapable c \<longleftrightarrow> c \<in> {CHR 0x22, backslash, CHR ''/'', CHR ''b'', CHR ''f'', CHR ''n'', CHR ''r'', CHR ''t''}"

definition put :: "token option \<Rightarrow> token list option \<Rightarrow> token list option" where
  "put t ts = (case (t, ts) of (Some t, Some ts) \<Rightarrow> Some (t # ts) | _ \<Rightarrow> None)"

function tokenize :: "lstate \<Rightarrow> string \<Rightarrow> token list option" where
  "tokenize st [] =
     (case st of Idle \<Rightarrow> Some [] | Word w \<Rightarrow> put (word_token (rev w)) (Some []) | _ \<Rightarrow> None)"
| "tokenize Idle (c # s) =
     (if is_ws c then tokenize Idle s
      else if c = CHR 0x22 then tokenize (Str []) s
      else if word_byte c then tokenize (Word [c]) s
      else put (punct c) (tokenize Idle s))"
| "tokenize (Word w) (c # s) =
     (if word_byte c then tokenize (Word (c # w)) s else put (word_token (rev w)) (tokenize Idle (c # s)))"
| "tokenize (Str r) (c # s) =
     (if c = CHR 0x22 then put (map_option TStr (unquote (rev r))) (tokenize Idle s)
      else if c = backslash then tokenize (Esc (c # r)) s
      else if byte c < 32 then None
      else tokenize (Str (c # r)) s)"
| "tokenize (Esc r) (c # s) =
     (if c = CHR ''u'' then tokenize (Hex 3 (c # r)) s
      else if escapable c then tokenize (Str (c # r)) s
      else None)"
| "tokenize (Hex n r) (c # s) =
     (if hex_val c = None then None
      else tokenize (if n = 0 then Str (c # r) else Hex (n - 1) (c # r)) s)"
  by pat_completeness auto
termination
  by (relation "measures [\<lambda>(st, s). length s, \<lambda>(st, s). case st of Word w \<Rightarrow> 1 | _ \<Rightarrow> 0]") auto

subsection \<open>The scanner\<close>

datatype raw =
    RNull
  | RBool bool
  | RNum string
  | RStr string
  | RArr "raw list"
  | RObj "(string \<times> raw) list"

datatype frame =
    FArr "raw list"  \<comment> \<open>the elements read, last first\<close>
  | FObj "(string \<times> raw) list" string  \<comment> \<open>the members read and the key of the next one\<close>

datatype pstate = PValue | PValueOrEnd | PKeyOrEnd | PKey | PColon | PGot raw

definition maxNestingDepth :: nat where "maxNestingDepth = 10000"

definition room :: "frame list \<Rightarrow> bool" where
  \<comment> \<open>one more array or object may be opened\<close>
  "room stk \<longleftrightarrow> length stk < maxNestingDepth"

lemma room_code [code]: "room stk \<longleftrightarrow> int (length stk) < 10000"
  by (simp add: room_def maxNestingDepth_def)

type_synonym scan_state = "pstate \<times> frame list"

definition begin_value :: "frame list \<Rightarrow> token \<Rightarrow> scan_state option" where
  "begin_value stk t =
     (case t of
        TLBrace \<Rightarrow> if room stk then Some (PKeyOrEnd, FObj [] [] # stk) else None
      | TLBrack \<Rightarrow> if room stk then Some (PValueOrEnd, FArr [] # stk) else None
      | TStr s \<Rightarrow> Some (PGot (RStr s), stk)
      | TNum w \<Rightarrow> Some (PGot (RNum w), stk)
      | TTrue \<Rightarrow> Some (PGot (RBool True), stk)
      | TFalse \<Rightarrow> Some (PGot (RBool False), stk)
      | TNull \<Rightarrow> Some (PGot RNull, stk)
      | _ \<Rightarrow> None)"

definition end_value :: "raw \<Rightarrow> frame list \<Rightarrow> token \<Rightarrow> scan_state option" where
  "end_value v stk t =
     (case stk of
        [] \<Rightarrow> None
      | FArr vs # stk' \<Rightarrow>
          (case t of
             TComma \<Rightarrow> Some (PValue, FArr (v # vs) # stk')
           | TRBrack \<Rightarrow> Some (PGot (RArr (rev (v # vs))), stk')
           | _ \<Rightarrow> None)
      | FObj ms k # stk' \<Rightarrow>
          (case t of
             TComma \<Rightarrow> Some (PKey, FObj ((k, v) # ms) [] # stk')
           | TRBrace \<Rightarrow> Some (PGot (RObj (rev ((k, v) # ms))), stk')
           | _ \<Rightarrow> None))"

definition read_key :: "frame list \<Rightarrow> token \<Rightarrow> scan_state option" where
  "read_key stk t =
     (case (stk, t) of (FObj ms k # stk', TStr s) \<Rightarrow> Some (PColon, FObj ms s # stk') | _ \<Rightarrow> None)"

fun scan_step :: "scan_state \<Rightarrow> token \<Rightarrow> scan_state option" where
  "scan_step (PValue, stk) t = begin_value stk t"
| "scan_step (PValueOrEnd, stk) t =
     (if t = TRBrack then Some (PGot (RArr []), tl stk) else begin_value stk t)"
| "scan_step (PKeyOrEnd, stk) t =
     (if t = TRBrace then Some (PGot (RObj []), tl stk) else read_key stk t)"
| "scan_step (PKey, stk) t = read_key stk t"
| "scan_step (PColon, stk) t = (if t = TColon then Some (PValue, stk) else None)"
| "scan_step (PGot v, stk) t = end_value v stk t"

fun scan :: "scan_state \<Rightarrow> token list \<Rightarrow> raw option" where
  "scan st [] = (case st of (PGot v, []) \<Rightarrow> Some v | _ \<Rightarrow> None)"
| "scan st (t # ts) = (case scan_step st t of None \<Rightarrow> None | Some st' \<Rightarrow> scan st' ts)"

definition checkValid :: "string \<Rightarrow> raw option" where
  "checkValid s = (case tokenize Idle s of None \<Rightarrow> None | Some ts \<Rightarrow> scan (PValue, []) ts)"

subsection \<open>Decoding\<close>

definition convertNumber :: "string \<Rightarrow> json option" where
  \<comment> \<open>a literal out of the range of \<open>float64\<close> is an error\<close>
  "convertNumber w =
     (case ParseFloat w of
        (neg, Fin x) \<Rightarrow> Some (if \<not> neg then JNum (Fin x) else if x = 0 then JNegZero else JNum (Fin (- x)))
      | _ \<Rightarrow> None)"

definition put_all :: "json_map \<Rightarrow> (string \<times> json) list \<Rightarrow> json_map" where
  \<comment> \<open>members are stored in order: the last one of a name stays\<close>
  "put_all m ms = fold (\<lambda>(k, v). AList.update k v) ms m"

fun interface_value :: "raw \<Rightarrow> json" and interface_members :: "(string \<times> raw) list \<Rightarrow> (string \<times> json) list" where
  "interface_value RNull = JNull"
| "interface_value (RBool b) = JBool b"
| "interface_value (RNum w) = (case convertNumber w of None \<Rightarrow> JNull | Some j \<Rightarrow> j)"
| "interface_value (RStr s) = JString s"
| "interface_value (RArr vs) = JArray (map interface_value vs)"
| "interface_value (RObj ms) = JObject (put_all [] (interface_members ms))"
| "interface_members [] = []"
| "interface_members ((k, v) # ms) = (k, interface_value v) # interface_members ms"

fun out_of_range :: "raw \<Rightarrow> bool" and members_out_of_range :: "(string \<times> raw) list \<Rightarrow> bool" where
  \<comment> \<open>some number does not fit\<close>
  "out_of_range (RNum w) = (convertNumber w = None)"
| "out_of_range (RArr vs) = (\<exists>v\<in>set vs. out_of_range v)"
| "out_of_range (RObj ms) = members_out_of_range ms"
| "out_of_range _ = False"
| "members_out_of_range [] = False"
| "members_out_of_range ((k, v) # ms) = (out_of_range v \<or> members_out_of_range ms)"

datatype json_error = SyntaxError | UnmarshalTypeError | UnsupportedValueError

type_synonym error_text = "json_error \<Rightarrow> string \<Rightarrow> string"

definition unmarshal_map :: "error_text \<Rightarrow> json_map option \<Rightarrow> string \<Rightarrow> json_map option \<times> string option" where
  "unmarshal_map errtext m s =
     (case checkValid s of
        None \<Rightarrow> (m, Some (errtext SyntaxError s))
      | Some (RObj ms) \<Rightarrow>
          (Some (put_all (case m of None \<Rightarrow> [] | Some es \<Rightarrow> es) (interface_members ms)),
           if members_out_of_range ms then Some (errtext UnmarshalTypeError s) else None)
      | Some RNull \<Rightarrow> (None, None)
      | Some _ \<Rightarrow> (m, Some (errtext UnmarshalTypeError s)))"

definition unmarshal_string :: "string \<Rightarrow> string option" where
  \<comment> \<open>into a fresh string\<close>
  "unmarshal_string s =
     (case checkValid s of
        Some (RStr v) \<Rightarrow> Some v
      | Some RNull \<Rightarrow> Some []
      | _ \<Rightarrow> None)"

function foldName :: "string \<Rightarrow> string" where
  \<comment> \<open>names of fields are compared without regard to case; beside the ASCII letters only
     U+212A (the Kelvin sign) and U+017F (the long s) fold to an ASCII letter\<close>
  "foldName s =
     (if s = [] then []
      else if prefix [CHR 0xE2, CHR 0x84, CHR 0xAA] s then CHR ''k'' # foldName (drop 3 s)
      else if prefix [CHR 0xC5, CHR 0xBF] s then CHR ''s'' # foldName (drop 2 s)
      else lower_byte (hd s) # foldName (tl s))"
  by pat_completeness auto
termination by (relation "measure length") auto

declare foldName.simps [simp del]

definition unmarshal_int :: "raw \<Rightarrow> int \<times> bool \<Rightarrow> int \<times> bool" where
  \<comment> \<open>\<open>literalStore\<close> for a target of type \<open>int\<close>; the second component says that an error is saved\<close>
  "unmarshal_int v st =
     (case v of
        RNum w \<Rightarrow> (case Atoi w of (n, None) \<Rightarrow> (n, snd st) | _ \<Rightarrow> (fst st, True))
      | RNull \<Rightarrow> st
      | _ \<Rightarrow> (fst st, True))"

fun unmarshal_usage_members :: "(string \<times> raw) list \<Rightarrow> Usage \<times> bool \<Rightarrow> Usage \<times> bool" where
  "unmarshal_usage_members [] st = st"
| "unmarshal_usage_members ((k, v) # ms) (u, err) =
     unmarshal_usage_members ms
       (if foldName k = ''prompt_tokens''
        then (case unmarshal_int v (PromptTokens u, err) of (n, e) \<Rightarrow> (u\<lparr>PromptTokens := n\<rparr>, e))
        else if foldName k = ''completion_tokens''
        then (case unmarshal_int v (CompletionTokens u, err) of (n, e) \<Rightarrow> (u\<lparr>CompletionTokens := n\<rparr>, e))
        else if foldName k = ''total_tokens''
        then (case unmarshal_int v (TotalTokens u, err) of (n, e) \<Rightarrow> (u\<lparr>TotalTokens := n\<rparr>, e))
        else (u, err))"

definition unmarshal_usage :: "raw \<Rightarrow> Usage \<times> bool \<Rightarrow> Usage \<times> bool" where
  "unmarshal_usage v st =
     (case v of RObj ms \<Rightarrow> unmarshal_usage_members ms st | RNull \<Rightarrow> st | _ \<Rightarrow> (fst st, True))"

fun unmarshal_response_members :: "(string \<times> raw) list \<Rightarrow> Usage \<times> bool \<Rightarrow> Usage \<times> bool" where
  "unmarshal_response_members [] st = st"
| "unmarshal_response_members ((k, v) # ms) st =
     unmarshal_response_members ms (if foldName k = ''usage'' then unmarshal_usage v st else st)"

definition unmarshal_response :: "error_text \<Rightarrow> Usage \<Rightarrow> string \<Rightarrow> Usage \<times> string option" where
  "unmarshal_response errtext u s =
     (case checkValid s of
        None \<Rightarrow> (u, Some (errtext SyntaxError s))
      | Some (RObj ms) \<Rightarrow>
          (case unmarshal_response_members ms (u, False) of
             (u', err) \<Rightarrow> (u', if err then Some (errtext UnmarshalTypeError s) else None))
      | Some RNull \<Rightarrow> (u, None)
      | Some _ \<Rightarrow> (u, Some (errtext UnmarshalTypeError s)))"

subsection \<open>Encoding\<close>

definition quoted :: "string \<Rightarrow> string" where
  "quoted s = CHR 0x22 # escape s @ [CHR 0x22]"

definition array_text :: "string list \<Rightarrow> string" where
  "array_text ts = CHR 0x5B # Join ts (CHR 0x2C) @ [CHR 0x5D]"

definition object_text :: "(string \<times> string) list \<Rightarrow> string" where
  "object_text ms = CHR 0x7B # Join (map (\<lambda>(k, t). quoted k @ CHR 0x3A # t) (sort_key fst ms)) (CHR 0x2C) @ [CHR 0x7D]"

fun encode :: "json \<Rightarrow> string option"
  and encode_elements :: "json list \<Rightarrow> string list option"
  and encode_members :: "(string \<times> json) list \<Rightarrow> (string \<times> string) list option" where
  "encode JNull = Some ''null''"
| "encode (JBool b) = Some (if b then ''true'' else ''false'')"
| "encode (JNum v) = (case v of Fin x \<Rightarrow> Some (AppendFloat x) | _ \<Rightarrow> None)"
| "encode JNegZero = Some ''-0''"
| "encode (JString s) = Some (quoted s)"
| "encode (JArray js) = map_option array_text (encode_elements js)"
| "encode (JObject ms) = map_option object_text (encode_members ms)"
| "encode (JStrings ss) = Some (array_text (map quoted ss))"
| "encode_elements [] = Some []"
| "encode_elements (j # js) =
     (case (encode j, encode_elements js) of (Some t, Some ts) \<Rightarrow> Some (t # ts) | _ \<Rightarrow> None)"
| "encode_members [] = Some []"
| "encode_members ((k, j) # ms) =
     (case (encode j, encode_members ms) of (Some t, Some ts) \<Rightarrow> Some ((k, t) # ts) | _ \<Rightarrow> None)"

definition marshal_map :: "error_text \<Rightarrow> json_map option \<Rightarrow> string + string" where
  "marshal_map errtext m =
     (case m of
        None \<Rightarrow> Inr ''null''
      | Some es \<Rightarrow> (case encode (JObject es) of None \<Rightarrow> Inl (errtext UnsupportedValueError []) | Some t \<Rightarrow> Inr t))"

definition go_json :: "error_text \<Rightarrow> json_codec" where
  "go_json errtext =
     \<lparr>UnmarshalMap = unmarshal_map errtext, UnmarshalResponse = unmarshal_response errtext,
      UnmarshalString = unmarshal_string, MarshalMap = marshal_map errtext\<rparr>"

lemma go_json_simps [simp]:
  "UnmarshalMap (go_json errtext) = unmarshal_map errtext" "UnmarshalResponse (go_json errtext) = unmarshal_response errtext"
  "UnmarshalString (go_json errtext) = unmarshal_string" "MarshalMap (go_json errtext) = marshal_map errtext"
  by (simp_all add: go_json_def)

end
