(* ===== verification/Json_Roundtrip.thy ===== *)
theory Json_Roundtrip
  imports Json_Codec
begin

text \<open>
  What encoding/json writes it reads back. \<open>canon\<close> is the document as it is written: members
  in the order of their names, and a \<open>[]string\<close> as an array of strings. A document is well
  formed when its strings are UTF-8, its numbers finite \<open>float64\<close> values, its objects maps, and
  it is nested at most \<open>d\<close> deep (\<open>wf_json\<close>); every decoded document is.
\<close>

subsection \<open>Documents\<close>

fun wf_json :: "nat \<Rightarrow> json \<Rightarrow> bool" and wf_members :: "nat \<Rightarrow> (string \<times> json) list \<Rightarrow> bool" where
  "wf_json d JNull = True"
| "wf_json d (JBool b) = True"
| "wf_json d (JNum v) = (case v of Fin x \<Rightarrow> is_f64 (Fin x) | _ \<Rightarrow> False)"
| "wf_json d JNegZero = True"
| "wf_json d (JString s) = valid_utf8 s"
| "wf_json d (JArray js) = (case d of 0 \<Rightarrow> False | Suc n \<Rightarrow> \<forall>j\<in>set js. wf_json n j)"
| "wf_json d (JObject ms) = (case d of 0 \<Rightarrow> False | Suc n \<Rightarrow> is_map ms \<and> wf_members n ms)"
| "wf_json d (JStrings ss) = (0 < d \<and> (\<forall>s\<in>set ss. valid_utf8 s))"
| "wf_members d [] = True"
| "wf_members d ((k, j) # ms) = (valid_utf8 k \<and> wf_json d j \<and> wf_members d ms)"

fun canon :: "json \<Rightarrow> json" and canon_members :: "(string \<times> json) list \<Rightarrow> (string \<times> json) list" where
  "canon (JArray js) = JArray (map canon js)"
| "canon (JObject ms) = JObject (sort_key fst (canon_members ms))"
| "canon (JStrings ss) = JArray (map JString ss)"
| "canon j = j"
| "canon_members [] = []"
| "canon_members ((k, j) # ms) = (k, canon j) # canon_members ms"

definition canon_map :: "json_map \<Rightarrow> json_map" where
  "canon_map es = sort_key fst (canon_members es)"

fun canonical :: "json \<Rightarrow> bool" and canonical_members :: "(string \<times> json) list \<Rightarrow> bool" where
  "canonical (JArray js) = (\<forall>j\<in>set js. canonical j)"
| "canonical (JObject ms) = (sorted (map fst ms) \<and> canonical_members ms)"
| "canonical (JStrings ss) = False"
| "canonical _ = True"
| "canonical_members [] = True"
| "canonical_members ((k, j) # ms) = (canonical j \<and> canonical_members ms)"

lemma json_induct [case_names JNull JBool JNum JNegZero JString JArray JObject JStrings]:
  assumes "P JNull" "\<And>b. P (JBool b)" "\<And>v. P (JNum v)" "P JNegZero" "\<And>s. P (JString s)"
    and "\<And>js. (\<And>j. j \<in> set js \<Longrightarrow> P j) \<Longrightarrow> P (JArray js)"
    and "\<And>ms. (\<And>k j. (k, j) \<in> set ms \<Longrightarrow> P j) \<Longrightarrow> P (JObject ms)"
    and "\<And>ss. P (JStrings ss)"
  shows "P j"
proof (induction j)
  case (JObject ms)
  then show ?case by (intro assms(7)) (auto simp: snds.simps)
qed (auto intro: assms)

lemma raw_induct [case_names RNull RBool RNum RStr RArr RObj]:
  assumes "P RNull" "\<And>b. P (RBool b)" "\<And>w. P (RNum w)" "\<And>s. P (RStr s)"
    and "\<And>vs. (\<And>v. v \<in> set vs \<Longrightarrow> P v) \<Longrightarrow> P (RArr vs)"
    and "\<And>ms. (\<And>k v. (k, v) \<in> set ms \<Longrightarrow> P v) \<Longrightarrow> P (RObj ms)"
  shows "P v"
proof (induction v)
  case (RObj ms)
  then show ?case by (intro assms(6)) (auto simp: snds.simps)
qed (auto intro: assms)

text \<open>The functions on members, as maps over the list.\<close>

lemma wf_members_iff: "wf_members d ms \<longleftrightarrow> (\<forall>(k, j)\<in>set ms. valid_utf8 k \<and> wf_json d j)"
  by (induction ms) auto

lemma canonical_members_iff: "canonical_members ms \<longleftrightarrow> (\<forall>(k, j)\<in>set ms. canonical j)"
  by (induction ms) auto

lemma canon_members_map: "canon_members ms = map (apsnd canon) ms"
  by (induction ms) auto

lemma interface_members_map: "interface_members ms = map (apsnd interface_value) ms"
  by (induction ms) auto

lemma members_out_of_range_iff: "members_out_of_range ms \<longleftrightarrow> (\<exists>(k, v)\<in>set ms. out_of_range v)"
  by (induction ms) auto

lemma encode_elements_map:
  "\<forall>j\<in>set js. encode j \<noteq> None \<Longrightarrow> encode_elements js = Some (map (the \<circ> encode) js)"
  by (induction js) auto

lemma encode_members_map:
  "\<forall>(k, j)\<in>set ms. encode j \<noteq> None \<Longrightarrow> encode_members ms = Some (map (apsnd (the \<circ> encode)) ms)"
  by (induction ms) auto

lemmas member_maps = canon_members_map interface_members_map wf_members_iff canonical_members_iff
  members_out_of_range_iff

subsection \<open>Sorting members\<close>

lemma insort_map: "insort_key f (g x) (map g xs) = map g (insort_key (f \<circ> g) x xs)"
  by (induction xs) auto

lemma sort_map: "sort_key f (map g xs) = map g (sort_key (f \<circ> g) xs)"
  by (induction xs) (auto simp: insort_map comp_def)

lemma sort_members: "sort_key fst (map (apsnd f) ms) = map (apsnd f) (sort_key fst ms)"
  by (simp add: sort_map)

lemma fst_apsnd_map: "map fst (map (apsnd f) ms) = map fst ms"
  by simp

lemma is_map_sort: "is_map (sort_key fst ms) \<longleftrightarrow> is_map ms"
  unfolding is_map_def by (metis distinct_map distinct_sort set_sort)

lemma sort_idem: "sort_key f (sort_key f xs) = sort_key f xs"
  by (simp add: sort_key_id_if_sorted)

subsection \<open>A document is encoded as its canonical form\<close>

lemma encode_total: "wf_json d j \<Longrightarrow> encode j \<noteq> None"
proof (induction j arbitrary: d rule: json_induct)
  case (JNum v)
  then show ?case by (cases v) auto
next
  case (JArray js)
  then have "\<forall>j\<in>set js. encode j \<noteq> None" by (cases d) auto
  then show ?case by (simp add: encode_elements_map)
next
  case (JObject ms)
  then have "\<forall>(k, j)\<in>set ms. encode j \<noteq> None" by (cases d) (fastforce simp: member_maps)+
  then show ?case by (simp add: encode_members_map)
qed auto

lemma encode_JArray:
  assumes "wf_json d (JArray js)"
  shows "encode (JArray js) = Some (array_text (map (the \<circ> encode) js))"
proof -
  obtain n where "\<forall>j\<in>set js. wf_json n j" using assms by (cases d) auto
  then have "\<forall>j\<in>set js. encode j \<noteq> None" using encode_total by blast
  then show ?thesis by (simp add: encode_elements_map)
qed

lemma encode_JObject:
  assumes "wf_json d (JObject ms)"
  shows "encode (JObject ms) = Some (object_text (map (apsnd (the \<circ> encode)) ms))"
proof -
  obtain n where "\<forall>(k, j)\<in>set ms. wf_json n j" using assms by (cases d) (auto simp: member_maps)
  then have "\<forall>(k, j)\<in>set ms. encode j \<noteq> None" using encode_total by blast
  then show ?thesis by (simp add: encode_members_map)
qed

lemma wf_canon: "wf_json d j \<Longrightarrow> wf_json d (canon j)"
proof (induction j arbitrary: d rule: json_induct)
  case (JArray js)
  then show ?case by (cases d) auto
next
  case (JObject ms)
  then obtain n where n: "d = Suc n" "is_map ms" "\<forall>(k, j)\<in>set ms. valid_utf8 k \<and> wf_json n j"
    by (cases d) (auto simp: member_maps)
  moreover have "is_map (map (apsnd canon) ms)" using n(2) by (simp add: is_map_def)
  ultimately show ?case using JObject.IH by (fastforce simp: member_maps is_map_sort)
qed (auto split: nat.splits)

lemma canonical_canon: "canonical (canon j)"
proof (induction j rule: json_induct)
  case (JObject ms)
  then show ?case by (fastforce simp: member_maps)
qed auto

lemma encode_canon: "wf_json d j \<Longrightarrow> encode (canon j) = encode j"
proof (induction j arbitrary: d rule: json_induct)
  case (JArray js)
  then obtain n where n: "d = Suc n" "\<forall>j\<in>set js. wf_json n j" by (cases d) auto
  have "map (the \<circ> encode) (map canon js) = map (the \<circ> encode) js" using JArray.IH n by auto
  moreover have "wf_json d (JArray (map canon js))" using wf_canon [OF JArray.prems] by simp
  ultimately show ?case
    using encode_JArray [OF JArray.prems] encode_JArray [of d "map canon js"] by (simp only: canon.simps)
next
  case (JObject ms)
  then obtain n where n: "d = Suc n" "\<forall>(k, j)\<in>set ms. valid_utf8 k \<and> wf_json n j"
    by (cases d) (auto simp: member_maps)
  let ?ms = "sort_key fst (map (apsnd canon) ms)"
  have "map (apsnd (the \<circ> encode)) (map (apsnd canon) ms) = map (apsnd (the \<circ> encode)) ms"
    using JObject.IH n by (auto simp: apsnd_def map_prod_def)
  then have "sort_key fst (map (apsnd (the \<circ> encode)) ?ms) = sort_key fst (map (apsnd (the \<circ> encode)) ms)"
    by (metis sort_idem sort_members)
  moreover have "wf_json d (JObject ?ms)" using wf_canon [OF JObject.prems] by (simp only: canon.simps canon_members_map)
  ultimately show ?case
    using encode_JObject [OF JObject.prems] encode_JObject [of d ?ms]
    by (simp only: canon.simps canon_members_map object_text_def)
next
  case (JStrings ss)
  then have "wf_json d (JArray (map JString ss))" by (cases d) auto
  from encode_JArray [OF this] show ?case by (simp only: canon.simps encode.simps) (simp add: comp_def)
qed auto


subsection \<open>The tokens of an encoded document\<close>

fun comma_join :: "token list list \<Rightarrow> token list" where
  "comma_join [] = []"
| "comma_join [p] = p"
| "comma_join (p # ps) = p @ TComma # comma_join ps"

fun toks :: "json \<Rightarrow> token list" and member_toks :: "(string \<times> json) list \<Rightarrow> token list list" where
  "toks JNull = [TNull]"
| "toks (JBool b) = [if b then TTrue else TFalse]"
| "toks (JNum v) = (case v of Fin x \<Rightarrow> [TNum (AppendFloat x)] | _ \<Rightarrow> [])"
| "toks JNegZero = [TNum ''-0'']"
| "toks (JString s) = [TStr s]"
| "toks (JArray js) = TLBrack # comma_join (map toks js) @ [TRBrack]"
| "toks (JObject ms) = TLBrace # comma_join (member_toks ms) @ [TRBrace]"
| "toks (JStrings ss) = []"
| "member_toks [] = []"
| "member_toks ((k, j) # ms) = (TStr k # TColon # toks j) # member_toks ms"

lemma member_toks_map: "member_toks ms = map (\<lambda>(k, j). TStr k # TColon # toks j) ms"
  by (induction ms) auto

definition ends_word :: "string \<Rightarrow> bool" where
  "ends_word s \<longleftrightarrow> s = [] \<or> \<not> word_byte (hd s)"

definition lexes :: "string \<Rightarrow> token list \<Rightarrow> bool" where
  "lexes t ts \<longleftrightarrow> (\<forall>s. ends_word s \<longrightarrow> tokenize Idle (t @ s) = map_option (append ts) (tokenize Idle s))"

lemma put_Some: "put (Some t) ts = map_option (append [t]) ts"
  by (cases ts) (simp_all add: put_def)

lemma map_option_Nil [simp]: "map_option (append []) x = x"
  by (cases x) simp_all

lemma map_option_append [simp]: "map_option (append a) (map_option (append b) x) = map_option (append (a @ b)) x"
  by (cases x) simp_all

lemma lexes_Nil: "lexes [] []"
  by (simp add: lexes_def)

lemma lexes_append:
  assumes "lexes a x" "lexes b y" "b \<noteq> []" "\<not> word_byte (hd b)"
  shows "lexes (a @ b) (x @ y)"
  unfolding lexes_def
proof (intro allI impI)
  fix s assume s: "ends_word s"
  have "ends_word (b @ s)" using assms by (simp add: ends_word_def)
  then show "tokenize Idle ((a @ b) @ s) = map_option (append (x @ y)) (tokenize Idle s)"
    using assms s by (simp add: lexes_def)
qed

lemma punct_plain: "punct c = Some t \<Longrightarrow> \<not> is_ws c \<and> c \<noteq> CHR 0x22 \<and> \<not> word_byte c"
  by (auto simp: punct_def is_ws_def word_byte_def byte_def is_digit_def digit_val_def split: if_splits)

lemma lex_punct: "punct c = Some t \<Longrightarrow> tokenize Idle (c # s) = map_option (append [t]) (tokenize Idle s)"
  using punct_plain [of c t] by (simp add: put_Some)

lemma lexes_punct: "punct c = Some t \<Longrightarrow> lexes u ts \<Longrightarrow> lexes (c # u) (t # ts)"
  unfolding lexes_def by (simp add: lex_punct del: tokenize.simps)

lemma lex_in_word:
  "\<forall>c\<in>set w. word_byte c \<Longrightarrow> ends_word s \<Longrightarrow>
   tokenize (Word r) (w @ s) = put (word_token (rev r @ w)) (tokenize Idle s)"
proof (induction w arbitrary: r)
  case Nil
  then show ?case by (cases s) (simp_all add: ends_word_def)
qed simp

lemma lexes_word:
  assumes "w \<noteq> []" "\<forall>c\<in>set w. word_byte c" "word_token w = Some t"
  shows "lexes w [t]"
proof -
  obtain c v where w: "w = c # v" using assms(1) by (cases w) auto
  have "\<not> is_ws c" "c \<noteq> CHR 0x22"
    using assms(2) w by (auto simp: is_ws_def word_byte_def byte_def is_digit_def digit_val_def)
  then show ?thesis
    using assms w by (simp add: lexes_def lex_in_word put_Some)
qed

lemma word_byte_digit: "is_digit c \<Longrightarrow> word_byte c"
  by (simp add: word_byte_def)

lemma word_bytes: "word_byte (CHR ''e'')" "word_byte (CHR ''E'')" "word_byte (CHR ''+'')" "word_byte (CHR ''-'')" "word_byte (CHR ''.'')"
  by (simp_all add: word_byte_def byte_def)

lemma digits_then: "(\<forall>c\<in>set (dropWhile is_digit s). word_byte c) \<Longrightarrow> (\<forall>c\<in>set s. word_byte c)"
  by (metis Un_iff set_append set_takeWhileD takeWhile_dropWhile_id word_byte_digit)

lemma valid_exp_bytes: "valid_exp t \<Longrightarrow> \<forall>c\<in>set t. word_byte c"
proof -
  assume a: "valid_exp t"
  show ?thesis
  proof (cases t)
    case (Cons e u)
    let ?v = "if u \<noteq> [] \<and> (hd u = CHR ''+'' \<or> hd u = CHR ''-'') then tl u else u"
    have e: "e = CHR ''e'' \<or> e = CHR ''E''" "list_all is_digit ?v"
      using a Cons by (auto simp: valid_exp_def Let_def split: if_splits)
    have "\<forall>c\<in>set ?v. word_byte c" using e(2) by (simp add: list_all_iff word_byte_digit)
    then have "\<forall>c\<in>set u. word_byte c" by (cases u) (auto simp: word_bytes split: if_splits)
    with Cons e(1) word_bytes show ?thesis by auto
  qed simp
qed

lemma valid_frac_bytes: "valid_frac t \<Longrightarrow> \<forall>c\<in>set t. word_byte c"
proof (cases "t \<noteq> [] \<and> hd t = CHR ''.''")
  case True
  moreover assume "valid_frac t"
  ultimately have "valid_exp (dropWhile is_digit (tl t))" by (simp add: valid_frac_def)
  from digits_then [OF valid_exp_bytes [OF this]] have "\<forall>c\<in>set (tl t). word_byte c" .
  with True word_bytes show ?thesis by (cases t) auto
next
  case False
  moreover assume "valid_frac t"
  ultimately show ?thesis using valid_exp_bytes by (auto simp: valid_frac_def)
qed

lemma valid_number_bytes: "valid_number w \<Longrightarrow> w \<noteq> [] \<and> (\<forall>c\<in>set w. word_byte c)"
proof -
  have u: "\<forall>c\<in>set s. word_byte c" if "valid_unsigned s" for s
  proof (cases "hd s = CHR ''0''")
    case True
    with that have "valid_frac (tl s)" "word_byte (hd s)" by (simp_all add: valid_unsigned_def word_byte_digit)
    with valid_frac_bytes show ?thesis by (cases s) auto
  next
    case False
    with that have "valid_frac (dropWhile is_digit s)" by (simp add: valid_unsigned_def)
    from digits_then [OF valid_frac_bytes [OF this]] show ?thesis .
  qed
  assume "valid_number w"
  then show ?thesis
    using u [of w] u [of "tl w"] word_bytes by (cases w) (auto simp: valid_number_def valid_unsigned_def split: if_splits)
qed

lemma word_token_number: "valid_number w \<Longrightarrow> word_token w = Some (TNum w)"
proof -
  have "\<not> valid_number ''true''" "\<not> valid_number ''false''" "\<not> valid_number ''null''" by code_simp+
  then show "valid_number w \<Longrightarrow> word_token w = Some (TNum w)" by (auto simp: word_token_def)
qed

lemma lexes_number: "valid_number w \<Longrightarrow> lexes w [TNum w]"
  using valid_number_bytes word_token_number by (intro lexes_word) auto

lemma lexes_literals: "lexes ''null'' [TNull]" "lexes ''true'' [TTrue]" "lexes ''false'' [TFalse]" "lexes ''-0'' [TNum ''-0'']"
proof -
  have "valid_number ''-0''" by code_simp
  then show "lexes ''-0'' [TNum ''-0'']" by (rule lexes_number)
qed (auto intro!: lexes_word simp: word_token_def word_byte_def byte_def)


lemma tokenize_plain:
  "\<forall>c\<in>set b. c \<noteq> CHR 0x22 \<and> c \<noteq> backslash \<and> 32 \<le> byte c \<Longrightarrow> tokenize (Str r) (b @ s) = tokenize (Str (rev b @ r)) s"
  by (induction b arbitrary: r) auto

lemma tokenize_u:
  assumes "hex_val h1 \<noteq> None" "hex_val h2 \<noteq> None" "hex_val h3 \<noteq> None" "hex_val h4 \<noteq> None"
  shows "tokenize (Str r) ([backslash, CHR ''u'', h1, h2, h3, h4] @ s) =
    tokenize (Str (rev [backslash, CHR ''u'', h1, h2, h3, h4] @ r)) s"
  using assms by auto

lemma escapable_unescape: "unescape x = Some c \<Longrightarrow> x \<noteq> CHR 0x27 \<Longrightarrow> escapable x"
  by (auto simp: unescape_def escapable_def split: if_splits)

lemma tokenize_escape_ascii:
  assumes "byte c < 128"
  shows "tokenize (Str r) (escape_ascii c @ s) = tokenize (Str (rev (escape_ascii c) @ r)) s"
proof (cases c rule: escape_ascii_cases)
  case safe
  with tokenize_plain [of "[c]" r s] show ?thesis by (simp add: html_safe_def)
next
  case (short x)
  have "x \<noteq> CHR 0x27"
  proof
    assume x: "x = CHR 0x27"
    with short have "c = CHR 0x27" by (simp add: unescape_def)
    then have "html_safe c" by (simp add: html_safe_def byte_def)
    then show False using short by (simp add: escape_ascii_def)
  qed
  with short escapable_unescape [of x c] show ?thesis by simp
next
  case hex
  have "byte c div 16 < 16" using assms by simp
  moreover have "hex_val (CHR ''0'') = Some 0" by (simp add: hex_val_def byte_def)
  ultimately show ?thesis
    using tokenize_u [of "CHR ''0''" "CHR ''0''" "hex_digit (byte c div 16)" "hex_digit (byte c mod 16)" r s] hex
    by simp
qed

lemma tokenize_escape:
  "valid_utf8 v \<Longrightarrow> tokenize (Str r) (escape v @ s) = tokenize (Str (rev (escape v) @ r)) s"
proof (induction arbitrary: r rule: valid_utf8_induct)
  case (rune b t)
  let ?e = "if byte (hd b) < 128 then escape_ascii (hd b)
     else if b \<in> set line_separators then backslash # ''u202'' @ [hex_digit (byte (last b) mod 16)] else b"
  have "tokenize (Str r) (?e @ s') = tokenize (Str (rev ?e @ r)) s'" for s'
  proof (cases "byte (hd b) < 128")
    case True
    then show ?thesis by (simp only: if_True tokenize_escape_ascii)
  next
    case big: False
    show ?thesis
    proof (cases "b \<in> set line_separators")
      case True
      have "hex_val (CHR ''2'') = Some 2" "hex_val (CHR ''0'') = Some 0" by (simp_all add: hex_val_def byte_def)
      with big True tokenize_u [of "CHR ''2''" "CHR ''0''" "CHR ''2''" "hex_digit (byte (last b) mod 16)" r s'] show ?thesis
        by simp
    next
      case False
      have "\<forall>c\<in>set b. c \<noteq> CHR 0x22 \<and> c \<noteq> backslash \<and> 32 \<le> byte c"
        using rune_bytes [OF rune(1)] big by (force simp: byte_def)
      with big False tokenize_plain [of b r s'] show ?thesis by simp
    qed
  qed
  then have "tokenize (Str r) (?e @ escape t @ s) = tokenize (Str (rev (?e @ escape t) @ r)) s"
    using rune.IH by (simp only: rev_append append_assoc)
  then show ?case using escape_rune [OF rune(1), of t] by (simp only: append_assoc)
qed simp

lemma lexes_quoted: "valid_utf8 s \<Longrightarrow> lexes (quoted s) [TStr s]"
  unfolding lexes_def
proof (intro allI impI)
  fix t assume s: "valid_utf8 s"
  have "tokenize Idle (quoted s @ t) = tokenize (Str []) (escape s @ CHR 0x22 # t)"
    by (simp add: quoted_def is_ws_def)
  also have "\<dots> = put (map_option TStr (unquote (escape s))) (tokenize Idle t)"
    using tokenize_escape [OF s, of "[]" "CHR 0x22 # t"] by simp
  finally show "tokenize Idle (quoted s @ t) = map_option (append [TStr s]) (tokenize Idle t)"
    using unquote_escape [OF s] by (simp add: put_Some)
qed

lemma puncts: "punct (CHR 0x7B) = Some TLBrace" "punct (CHR 0x7D) = Some TRBrace" "punct (CHR 0x5B) = Some TLBrack"
  "punct (CHR 0x5D) = Some TRBrack" "punct (CHR 0x3A) = Some TColon" "punct (CHR 0x2C) = Some TComma"
  by (simp_all add: punct_def)

lemma lexes_then_punct: "lexes a x \<Longrightarrow> punct c = Some t \<Longrightarrow> lexes u ts \<Longrightarrow> lexes (a @ c # u) (x @ t # ts)"
  using lexes_append [of a x "c # u" "t # ts"] lexes_punct punct_plain by auto

lemma lexes_Join: "list_all2 lexes ts tks \<Longrightarrow> lexes (Join ts (CHR 0x2C)) (comma_join tks)"
proof (induction ts tks rule: list_all2_induct)
  case Nil
  then show ?case by (simp add: lexes_Nil)
next
  case (Cons a ts x tks)
  show ?case
  proof (cases ts)
    case Nil
    with Cons show ?thesis by simp
  next
    case (Cons b ts')
    with Cons.hyps obtain y tks' where "tks = y # tks'" by (cases tks) auto
    with Cons Cons.IH Cons.hyps lexes_then_punct [OF _ puncts(6)] show ?thesis by simp
  qed
qed

lemma lexes_bracket:
  assumes "punct a = Some x" "punct b = Some y" "lexes t ts"
  shows "lexes (a # t @ [b]) (x # ts @ [y])"
  using lexes_punct [OF assms(1) lexes_then_punct [OF assms(3,2) lexes_Nil]] by simp

lemma lexes_encode: "wf_json d j \<Longrightarrow> canonical j \<Longrightarrow> lexes (the (encode j)) (toks j)"
proof (induction j arbitrary: d rule: json_induct)
  case (JNum v)
  then show ?case by (cases v) (auto intro: lexes_number valid_number_AppendFloat)
next
  case (JArray js)
  then obtain n where n: "d = Suc n" "\<forall>j\<in>set js. wf_json n j \<and> canonical j" by (cases d) auto
  have "list_all2 lexes (map (the \<circ> encode) js) (map toks js)"
    using JArray.IH n by (auto simp: list.rel_map list_all2_same)
  from lexes_bracket [OF puncts(3,4) lexes_Join [OF this]] encode_JArray [OF JArray.prems(1)] show ?case
    by (simp only: option.sel array_text_def toks.simps)
next
  case (JObject ms)
  then obtain n where n: "d = Suc n" "sorted (map fst ms)"
      "\<forall>(k, j)\<in>set ms. valid_utf8 k \<and> wf_json n j" "\<forall>(k, j)\<in>set ms. canonical j"
    by (cases d) (auto simp: member_maps)
  have "lexes (quoted k @ CHR 0x3A # the (encode j)) (TStr k # TColon # toks j)" if "(k, j) \<in> set ms" for k j
  proof -
    have "valid_utf8 k" "wf_json n j" "canonical j" using n that by auto
    then have "valid_utf8 k" "lexes (the (encode j)) (toks j)" using JObject.IH [OF that] by auto
    with lexes_then_punct [OF lexes_quoted puncts(5)] show ?thesis by force
  qed
  then have "list_all2 lexes (map (\<lambda>(k, t). quoted k @ CHR 0x3A # t) (map (apsnd (the \<circ> encode)) ms)) (member_toks ms)"
    by (auto simp: member_toks_map list.rel_map list_all2_same)
  moreover have "sort_key fst (map (apsnd (the \<circ> encode)) ms) = map (apsnd (the \<circ> encode)) ms"
    using n(2) by (intro sort_key_id_if_sorted) (simp only: fst_apsnd_map)
  ultimately show ?case
    using lexes_bracket [OF puncts(1,2) lexes_Join] encode_JObject [OF JObject.prems(1)]
    by (simp only: option.sel object_text_def toks.simps)
qed (auto simp: lexes_literals lexes_quoted)


subsection \<open>The scanner reads the tokens back\<close>

fun raw_of :: "json \<Rightarrow> raw" and raw_members :: "(string \<times> json) list \<Rightarrow> (string \<times> raw) list" where
  "raw_of JNull = RNull"
| "raw_of (JBool b) = RBool b"
| "raw_of (JNum v) = (case v of Fin x \<Rightarrow> RNum (AppendFloat x) | _ \<Rightarrow> RNull)"
| "raw_of JNegZero = RNum ''-0''"
| "raw_of (JString s) = RStr s"
| "raw_of (JArray js) = RArr (map raw_of js)"
| "raw_of (JObject ms) = RObj (raw_members ms)"
| "raw_of (JStrings ss) = RNull"
| "raw_members [] = []"
| "raw_members ((k, j) # ms) = (k, raw_of j) # raw_members ms"

lemma raw_members_map: "raw_members ms = map (apsnd raw_of) ms"
  by (induction ms) auto

definition scans :: "frame list \<Rightarrow> json \<Rightarrow> bool" where
  "scans stk j \<longleftrightarrow> (\<forall>ts. scan (PValue, stk) (toks j @ ts) = scan (PGot (raw_of j), stk) ts)"

lemma scan_array:
  assumes "\<forall>j\<in>set js. \<forall>vs. scans (FArr vs # stk) j" "js \<noteq> []"
  shows "scan (PValue, FArr vs # stk) (comma_join (map toks js) @ TRBrack # ts) =
    scan (PGot (RArr (rev vs @ map raw_of js)), stk) ts"
  using assms
proof (induction js arbitrary: vs)
  case (Cons j js)
  then have j: "scan (PValue, FArr vs # stk) (toks j @ us) = scan (PGot (raw_of j), FArr vs # stk) us" for us
    by (simp add: scans_def)
  show ?case
  proof (cases js)
    case Nil
    with j show ?thesis by (simp add: end_value_def)
  next
    case (Cons i js')
    with j Cons.IH [of "raw_of j # vs"] Cons.prems show ?thesis by (simp add: end_value_def)
  qed
qed simp

lemma scan_object:
  assumes "\<forall>(k, j)\<in>set ms. \<forall>ns x. scans (FObj ns x # stk) j" "ms \<noteq> []"
  shows "scan (PKey, FObj ns x # stk) (comma_join (member_toks ms) @ TRBrace # ts) =
    scan (PGot (RObj (rev ns @ raw_members ms)), stk) ts"
  using assms
proof (induction ms arbitrary: ns x)
  case (Cons m ms)
  obtain k j where m: "m = (k, j)" by fastforce
  with Cons.prems have j: "scan (PValue, FObj ns k # stk) (toks j @ us) = scan (PGot (raw_of j), FObj ns k # stk) us" for us
    by (simp add: scans_def)
  show ?case
  proof (cases ms)
    case Nil
    with j m show ?thesis by (simp add: end_value_def read_key_def)
  next
    case (Cons m' ms')
    obtain k' j' where m': "m' = (k', j')" by fastforce
    with j m Cons Cons.IH [of "(k, raw_of j) # ns" "[]"] Cons.prems show ?thesis
      by (simp add: end_value_def read_key_def)
  qed
qed simp

lemma toks_first: "wf_json d j \<Longrightarrow> canonical j \<Longrightarrow> \<exists>t ts. toks j = t # ts \<and> t \<noteq> TRBrack"
  by (cases j) (auto split: f64.splits)

lemma scans_json:
  "wf_json d j \<Longrightarrow> canonical j \<Longrightarrow> length stk + d \<le> maxNestingDepth \<Longrightarrow> scans stk j"
proof (induction j arbitrary: d stk rule: json_induct)
  case (JNum v)
  then show ?case by (cases v) (auto simp: scans_def begin_value_def)
next
  case (JArray js)
  then obtain n where n: "d = Suc n" "\<forall>j\<in>set js. wf_json n j \<and> canonical j" by (cases d) auto
  then have s: "\<forall>j\<in>set js. \<forall>vs. scans (FArr vs # stk) j" using JArray.IH JArray.prems by auto
  show ?case
  proof (cases js)
    case Nil
    with JArray.prems n show ?thesis by (simp add: scans_def begin_value_def room_def)
  next
    case (Cons j js')
    obtain t us where t: "toks j = t # us" "t \<noteq> TRBrack" using toks_first [of n j] n Cons by auto
    have "scan (PValueOrEnd, FArr [] # stk) (comma_join (map toks js) @ ts) =
      scan (PValue, FArr [] # stk) (comma_join (map toks js) @ ts)" for ts
      using t Cons by (cases js') simp_all
    with scan_array [OF s, of "[]"] Cons JArray.prems n show ?thesis by (simp add: scans_def begin_value_def room_def)
  qed
next
  case (JObject ms)
  then obtain n where n: "d = Suc n" "\<forall>(k, j)\<in>set ms. wf_json n j" "\<forall>(k, j)\<in>set ms. canonical j"
    by (cases d) (fastforce simp: member_maps)+
  then have s: "\<forall>(k, j)\<in>set ms. \<forall>ns x. scans (FObj ns x # stk) j"
    using JObject.IH JObject.prems(3) by fastforce
  show ?case
  proof (cases ms)
    case Nil
    with JObject.prems n show ?thesis by (simp add: scans_def begin_value_def room_def)
  next
    case (Cons m ms')
    obtain k j where m: "m = (k, j)" by fastforce
    have "scan (PKeyOrEnd, FObj [] [] # stk) (comma_join (member_toks ms) @ ts) =
      scan (PKey, FObj [] [] # stk) (comma_join (member_toks ms) @ ts)" for ts
      using Cons m by (cases ms') auto
    with scan_object [OF s, of "[]" "[]"] Cons JObject.prems n show ?thesis by (simp add: scans_def begin_value_def room_def)
  qed
qed (auto simp: scans_def begin_value_def)

subsection \<open>The document is stored as it was\<close>

lemma put_all_new: "distinct (map fst (ms @ ns)) \<Longrightarrow> put_all ms ns = ms @ ns"
proof (induction ns arbitrary: ms)
  case (Cons n ns)
  obtain k v where n: "n = (k, v)" by fastforce
  with Cons.prems have "AList.update k v ms = ms @ [n]" by (intro update_new [of k ms v, THEN trans]) auto
  with Cons.IH [of "ms @ [n]"] Cons.prems n show ?case by (simp add: put_all_def)
qed (simp add: put_all_def)

lemma put_all_map: "is_map ms \<Longrightarrow> put_all [] ms = ms"
  using put_all_new [of "[]" ms] by (simp add: is_map_def)

lemma convertNumber_AppendFloat: "is_f64 (Fin x) \<Longrightarrow> convertNumber (AppendFloat x) = Some (JNum (Fin x))"
  by (auto simp: convertNumber_def ParseFloat_AppendFloat)

lemma convertNumber_negzero: "convertNumber ''-0'' = Some JNegZero"
  by (simp add: convertNumber_def ParseFloat_def magnitude_def digit_val_def round64_def round_sgn_def MaxFloat_def)

lemma interface_raw_of:
  "wf_json d j \<Longrightarrow> canonical j \<Longrightarrow> interface_value (raw_of j) = j \<and> \<not> out_of_range (raw_of j)"
proof (induction j arbitrary: d rule: json_induct)
  case (JNum v)
  then show ?case by (cases v) (auto simp: convertNumber_AppendFloat)
next
  case (JArray js)
  then obtain n where "\<forall>j\<in>set js. wf_json n j \<and> canonical j" by (cases d) auto
  with JArray.IH show ?case by (fastforce intro: map_idI)
next
  case (JObject ms)
  then obtain n where n: "\<forall>(k, j)\<in>set ms. wf_json n j" "\<forall>(k, j)\<in>set ms. canonical j" "is_map ms"
    by (cases d) (fastforce simp: member_maps)+
  then have "interface_members (raw_members ms) = ms" "\<not> members_out_of_range (raw_members ms)"
    using JObject.IH by (fastforce simp: member_maps raw_members_map intro: map_idI)+
  with n(3) show ?case by (simp add: put_all_map)
qed (auto simp: convertNumber_negzero)

lemma checkValid_encode:
  assumes "wf_json d j" "d \<le> maxNestingDepth"
  shows "checkValid (the (encode j)) = Some (raw_of (canon j))"
proof -
  have c: "wf_json d (canon j)" "canonical (canon j)" using assms wf_canon canonical_canon by auto
  have "tokenize Idle (the (encode j)) = Some (toks (canon j))"
    using lexes_encode [OF c] encode_canon [OF assms(1)] by (auto simp: lexes_def ends_word_def dest: spec [of _ "[]"])
  moreover have "scan (PValue, []) (toks (canon j)) = Some (raw_of (canon j))"
    using scans_json [OF c, of "[]"] assms(2) by (auto simp: scans_def dest: spec [of _ "[]"])
  ultimately show ?thesis by (simp add: checkValid_def)
qed

lemma marshal_unmarshal:
  assumes "wf_json d (JObject es)" "d \<le> maxNestingDepth"
  shows "\<exists>bytes. marshal_map errtext (Some es) = Inr bytes \<and> unmarshal_map errtext None bytes = (Some (canon_map es), None)"
proof -
  obtain t where t: "encode (JObject es) = Some t" using encode_total [OF assms(1)] by blast
  then have "marshal_map errtext (Some es) = Inr t" unfolding marshal_map_def by (simp only: option.case)
  let ?ms = "canon_map es"
  have c: "wf_json d (JObject ?ms)" "canonical (JObject ?ms)"
    using wf_canon [OF assms(1)] canonical_canon [of "JObject es"] by (simp_all only: canon.simps canon_map_def)
  have "checkValid t = Some (RObj (raw_members ?ms))"
    using checkValid_encode [OF assms] unfolding t by (simp add: canon_map_def)
  moreover have "interface_value (RObj (raw_members ?ms)) = JObject ?ms" "\<not> out_of_range (RObj (raw_members ?ms))"
    using interface_raw_of [OF c] by simp_all
  ultimately have "unmarshal_map errtext None t = (Some ?ms, None)" by (simp add: unmarshal_map_def)
  with \<open>marshal_map errtext (Some es) = Inr t\<close> show ?thesis by blast
qed


subsection \<open>A decoded document is well formed\<close>

fun raw_ok :: "nat \<Rightarrow> raw \<Rightarrow> bool" and raw_members_ok :: "nat \<Rightarrow> (string \<times> raw) list \<Rightarrow> bool" where
  "raw_ok d (RStr s) = valid_utf8 s"
| "raw_ok d (RArr vs) = (case d of 0 \<Rightarrow> False | Suc n \<Rightarrow> \<forall>v\<in>set vs. raw_ok n v)"
| "raw_ok d (RObj ms) = (case d of 0 \<Rightarrow> False | Suc n \<Rightarrow> raw_members_ok n ms)"
| "raw_ok d _ = True"
| "raw_members_ok d [] = True"
| "raw_members_ok d ((k, v) # ms) = (valid_utf8 k \<and> raw_ok d v \<and> raw_members_ok d ms)"

lemma raw_members_ok_iff: "raw_members_ok d ms \<longleftrightarrow> (\<forall>(k, v)\<in>set ms. valid_utf8 k \<and> raw_ok d v)"
  by (induction ms) auto

fun token_ok :: "token \<Rightarrow> bool" where
  "token_ok (TStr s) = valid_utf8 s"
| "token_ok _ = True"

lemma put_eq_Some: "put t ts = Some us \<longleftrightarrow> (\<exists>t' ts'. t = Some t' \<and> ts = Some ts' \<and> us = t' # ts')"
  by (auto simp: put_def split: option.splits)

lemma word_token_ok: "word_token w = Some t \<Longrightarrow> token_ok t"
  by (auto simp: word_token_def split: if_splits)

lemma punct_ok: "punct c = Some t \<Longrightarrow> token_ok t"
  by (auto simp: punct_def split: if_splits)

lemma tokenize_ok: "tokenize st s = Some ts \<Longrightarrow> t \<in> set ts \<Longrightarrow> token_ok t"
proof (induction st s arbitrary: ts rule: tokenize.induct)
  case (1 st)
  then show ?case by (auto simp: put_eq_Some dest: word_token_ok split: lstate.splits)
next
  case (2 c s)
  then show ?case by (auto simp: put_eq_Some dest: punct_ok split: if_splits)
next
  case (3 w c s)
  then show ?case by (auto simp: put_eq_Some dest: word_token_ok simp del: tokenize.simps(2) split: if_splits)
next
  case (4 r c s)
  then show ?case using valid_utf8_unquote [of "rev r"] by (auto simp: put_eq_Some split: if_splits)
qed (auto split: if_splits)

fun frame_ok :: "nat \<Rightarrow> frame \<Rightarrow> bool" where
  "frame_ok d (FArr vs) = (\<forall>v\<in>set vs. raw_ok d v)"
| "frame_ok d (FObj ms k) = (raw_members_ok d ms \<and> valid_utf8 k)"

fun stack_ok :: "frame list \<Rightarrow> bool" where
  "stack_ok [] = True"
| "stack_ok (f # stk) =
     (length stk < maxNestingDepth \<and> frame_ok (maxNestingDepth - Suc (length stk)) f \<and> stack_ok stk)"

fun scan_ok :: "scan_state \<Rightarrow> bool" where
  "scan_ok (PGot v, stk) = (stack_ok stk \<and> raw_ok (maxNestingDepth - length stk) v)"
| "scan_ok (PValueOrEnd, stk) = (stack_ok stk \<and> stk \<noteq> [])"
| "scan_ok (PKeyOrEnd, stk) = (stack_ok stk \<and> stk \<noteq> [])"
| "scan_ok (_, stk) = stack_ok stk"

lemma begin_value_ok: "begin_value stk t = Some st \<Longrightarrow> stack_ok stk \<Longrightarrow> token_ok t \<Longrightarrow> scan_ok st"
  by (cases t) (auto simp: begin_value_def room_def split: if_splits)

lemma read_key_ok: "read_key stk t = Some st \<Longrightarrow> stack_ok stk \<Longrightarrow> token_ok t \<Longrightarrow> scan_ok st"
  by (auto simp: read_key_def split: list.splits frame.splits token.splits)

lemma depth_left: "n < m \<Longrightarrow> m - n = Suc (m - Suc n)"
  by simp

lemma end_value_ok: "end_value v stk t = Some st \<Longrightarrow> scan_ok (PGot v, stk) \<Longrightarrow> scan_ok st"
  by (cases stk; cases "hd stk"; cases t)
    (auto simp: end_value_def depth_left raw_members_ok_iff)

lemma scan_step_ok:
  assumes "scan_step st t = Some st'" "scan_ok st" "token_ok t"
  shows "scan_ok st'"
proof -
  obtain p stk where st: "st = (p, stk)" by fastforce
  show ?thesis
  proof (cases p)
    case PValueOrEnd
    with assms st begin_value_ok [of stk t st'] show ?thesis
      by (cases stk) (auto simp: depth_left split: if_splits)
  next
    case PKeyOrEnd
    with assms st read_key_ok [of stk t st'] show ?thesis
      by (cases stk) (auto simp: depth_left split: if_splits)
  next
    case (PGot v)
    with assms st end_value_ok [of v stk t st'] show ?thesis by simp
  qed (use assms st begin_value_ok [of stk t st'] read_key_ok [of stk t st'] in \<open>auto split: if_splits\<close>)
qed

lemma scan_result_ok: "scan st ts = Some v \<Longrightarrow> scan_ok st \<Longrightarrow> \<forall>t\<in>set ts. token_ok t \<Longrightarrow> raw_ok maxNestingDepth v"
proof (induction st ts rule: scan.induct)
  case (1 st)
  then show ?case by (auto split: prod.splits pstate.splits list.splits)
next
  case (2 st t ts)
  then show ?case by (auto dest: scan_step_ok split: option.splits)
qed

lemma checkValid_ok: "checkValid s = Some v \<Longrightarrow> raw_ok maxNestingDepth v"
  by (auto simp: checkValid_def intro: scan_result_ok dest: tokenize_ok split: option.splits)

lemma convertNumber_wf: "convertNumber w = Some j \<Longrightarrow> wf_json d j"
  by (auto simp: convertNumber_def ParseFloat_def is_f64_round64 is_f64_minus split: prod.splits f64.splits if_splits)

lemma put_all_wf: "is_map m \<Longrightarrow> wf_members d m \<Longrightarrow> wf_members d ms \<Longrightarrow> is_map (put_all m ms) \<and> wf_members d (put_all m ms)"
proof (induction ms arbitrary: m)
  case (Cons p ms)
  obtain k v where p: "p = (k, v)" by fastforce
  have "is_map (AList.update k v m)" "wf_members d (AList.update k v m)"
    using Cons.prems p by (auto simp: wf_members_iff set_update_is_map)
  with Cons.IH Cons.prems p show ?case by (simp add: put_all_def)
qed (simp add: put_all_def)

lemma interface_wf: "raw_ok d v \<Longrightarrow> wf_json d (interface_value v)"
proof (induction v arbitrary: d rule: raw_induct)
  case (RNum w)
  then show ?case by (auto dest: convertNumber_wf split: option.splits)
next
  case (RArr vs)
  then show ?case by (cases d) auto
next
  case (RObj ms)
  then obtain n where n: "d = Suc n" "\<forall>(k, v)\<in>set ms. valid_utf8 k \<and> raw_ok n v" by (cases d) (auto simp: raw_members_ok_iff)
  then have "wf_members n (interface_members ms)" using RObj.IH by (fastforce simp: member_maps)
  then show ?case using n put_all_wf [of "[]" n] by simp
qed auto

lemma interface_members_wf: "raw_members_ok d ms \<Longrightarrow> wf_members d (interface_members ms)"
  by (fastforce simp: member_maps raw_members_ok_iff intro: interface_wf)

definition wf_doc :: "json_map \<Rightarrow> bool" where
  \<comment> \<open>a map that can be the body of a request or a response\<close>
  "wf_doc es \<longleftrightarrow> wf_json maxNestingDepth (JObject es)"

lemma wf_doc_iff: "wf_doc es \<longleftrightarrow> is_map es \<and> wf_members (maxNestingDepth - 1) es"
  by (simp add: wf_doc_def maxNestingDepth_def)

lemma unmarshal_map_wf:
  assumes "unmarshal_map errtext m s = (Some es, e)" "\<And>es0. m = Some es0 \<Longrightarrow> wf_doc es0"
  shows "wf_doc es"
proof (cases "checkValid s")
  case None
  with assms show ?thesis by (simp add: unmarshal_map_def)
next
  case (Some v)
  show ?thesis
  proof (cases v)
    case (RObj ms)
    let ?m0 = "case m of None \<Rightarrow> [] | Some es \<Rightarrow> es"
    have "raw_members_ok (maxNestingDepth - 1) ms"
      using checkValid_ok [OF Some] RObj by (simp add: maxNestingDepth_def)
    then have "wf_members (maxNestingDepth - 1) (interface_members ms)" by (rule interface_members_wf)
    moreover have "is_map ?m0" "wf_members (maxNestingDepth - 1) ?m0"
      using assms(2) by (auto simp: wf_doc_iff split: option.splits)
    ultimately have "wf_doc (put_all ?m0 (interface_members ms))" using put_all_wf by (simp add: wf_doc_iff)
    with assms(1) Some RObj show ?thesis by (simp add: unmarshal_map_def)
  qed (use assms Some in \<open>auto simp: unmarshal_map_def\<close>)
qed

lemma wf_doc_update:
  "wf_doc es \<Longrightarrow> valid_utf8 k \<Longrightarrow> wf_json (maxNestingDepth - 1) j \<Longrightarrow> wf_doc (AList.update k j es)"
  by (auto simp: wf_doc_iff wf_members_iff set_update_is_map)


subsection \<open>What the handlers rely on\<close>

text \<open>
  The contract between the handlers and the codec: what is decoded can be encoded, also with
  the model replaced, and reads back as the same document. \<open>good\<close> are the documents that
  occur and \<open>norm\<close> the form in which a document reads back.
\<close>

locale document_codec =
  fixes codec :: json_codec and good :: "json_map \<Rightarrow> bool" and norm :: "json_map \<Rightarrow> json_map"
  assumes decoded_good: "UnmarshalMap codec None body = (Some es, e) \<Longrightarrow> good es"
    and good_model: "good es \<Longrightarrow> valid_utf8 name \<Longrightarrow> good (AList.update ''model'' (JString name) es)"
    and read_back: "good es \<Longrightarrow>
      \<exists>bytes. MarshalMap codec (Some es) = Inr bytes \<and> UnmarshalMap codec None bytes = (Some (norm es), None)"
    and norm_get: "good es \<Longrightarrow> map_of (norm es) k = map_option canon (map_of es k)"
begin

lemma decoded: "fst (UnmarshalMap codec None body) = Some es \<Longrightarrow> good es"
  using decoded_good [of body es "snd (UnmarshalMap codec None body)"] by (metis prod.collapse)

lemma encodes: "good es \<Longrightarrow> \<exists>bytes. MarshalMap codec (Some es) = Inr bytes"
  using read_back by blast

lemma reads_back:
  "good es \<Longrightarrow> MarshalMap codec (Some es) = Inr bytes \<Longrightarrow> UnmarshalMap codec None bytes = (Some (norm es), None)"
  using read_back [of es] by auto

end

lemma map_of_sort: "is_map es \<Longrightarrow> map_of (sort_key fst es) = map_of es"
  by (metis is_map_def is_map_sort map_of_inject_set set_sort)

lemma map_of_apsnd: "map_of (map (apsnd f) es) k = map_option f (map_of es k)"
  by (induction es) auto

lemma canon_map_get: "is_map es \<Longrightarrow> map_of (canon_map es) k = map_option canon (map_of es k)"
proof -
  assume "is_map es"
  then have "is_map (map (apsnd canon) es)" by (simp add: is_map_def)
  then show ?thesis by (simp add: canon_map_def canon_members_map map_of_sort map_of_apsnd)
qed

lemma valid_utf8_ascii: "\<forall>c\<in>set s. byte c < 128 \<Longrightarrow> valid_utf8 s"
  by (induction s) (auto simp: rune_len.simps)

interpretation go: document_codec "go_json errtext" wf_doc canon_map
proof
  fix body es e assume "UnmarshalMap (go_json errtext) None body = (Some es, e)"
  then show "wf_doc es" using unmarshal_map_wf [of errtext None body es e] by simp
next
  fix es name assume "wf_doc es" "valid_utf8 name"
  moreover have "valid_utf8 ''model''" by code_simp
  ultimately show "wf_doc (AList.update ''model'' (JString name) es)" by (simp add: wf_doc_update)
next
  fix es assume "wf_doc es"
  then show "\<exists>bytes. MarshalMap (go_json errtext) (Some es) = Inr bytes \<and>
      UnmarshalMap (go_json errtext) None bytes = (Some (canon_map es), None)"
    using marshal_unmarshal [of maxNestingDepth es errtext] by (simp add: wf_doc_def)
next
  fix es k assume "wf_doc es"
  then show "map_of (canon_map es) k = map_option canon (map_of es k)" by (simp add: wf_doc_iff canon_map_get)
qed

lemma unmarshal_empty: "unmarshal_map errtext m [] = (m, Some (errtext SyntaxError []))"
  by (simp add: unmarshal_map_def checkValid_def)

lemma marshal_nil: "marshal_map errtext None = Inr ''null''"
  by (simp add: marshal_map_def)

lemma unmarshal_quoted:
  assumes "\<forall>c\<in>set s. html_safe c"
  shows "unmarshal_string (CHR 0x22 # s @ [CHR 0x22]) = Some s"
proof -
  have v: "valid_utf8 s" using assms by (intro valid_utf8_ascii) (auto simp: html_safe_def)
  have "escape s = s" using assms by (induction s) (auto simp: html_safe_def escape_ascii_def)
  then have q: "CHR 0x22 # s @ [CHR 0x22] = the (encode (JString s))" by (simp add: quoted_def)
  have "checkValid (the (encode (JString s))) = Some (RStr s)"
    using checkValid_encode [of 0 "JString s"] v by simp
  then show ?thesis unfolding q by (simp add: unmarshal_string_def)
qed

lemma encode_members_iff: "encode_members ms \<noteq> None \<longleftrightarrow> (\<forall>(k, j)\<in>set ms. encode j \<noteq> None)"
  by (induction ms) (auto split: option.splits)

lemma marshal_update:
  "marshal_map errtext (Some es) = Inr bytes \<Longrightarrow> is_map es \<Longrightarrow>
   \<exists>bytes'. marshal_map errtext (Some (AList.update k (JString v) es)) = Inr bytes'"
  using encode_members_iff [of es] encode_members_iff [of "AList.update k (JString v) es"]
  by (fastforce simp: marshal_map_def set_update_is_map split: option.splits)

subsection \<open>An example\<close>

definition example_text :: string where
  \<comment> \<open>an object with the member \<^verbatim>\<open>model\<close>\<close>
  "example_text = CHR 0x7B # CHR 0x22 # ''model'' @ CHR 0x22 # CHR 0x3A # CHR 0x22 # ''m'' @ [CHR 0x22, CHR 0x7D]"

lemma example_unmarshal: "unmarshal_map errtext None example_text = (Some [(''model'', JString ''m'')], None)"
proof -
  have "checkValid example_text = Some (RObj [(''model'', RStr ''m'')])" by code_simp
  then show ?thesis by (simp add: unmarshal_map_def put_all_def)
qed

lemma example_marshal: "marshal_map errtext (Some [(''model'', JString ''m'')]) = Inr example_text"
proof -
  have "encode (JObject [(''model'', JString ''m'')]) = Some example_text" by code_simp
  then show ?thesis unfolding marshal_map_def by (simp only: option.case)
qed

text \<open>A document with a number that no \<open>float64\<close> holds.\<close>

definition example_overflow :: string where
  "example_overflow = CHR 0x7B # CHR 0x22 # ''model'' @ CHR 0x22 # CHR 0x3A # CHR 0x22 # ''m'' @
     [CHR 0x22, CHR 0x2C, CHR 0x22] @ ''n'' @ CHR 0x22 # CHR 0x3A # ''1e1025'' @ [CHR 0x7D]"

lemma convertNumber_overflow: "convertNumber ''1e1025'' = None"
proof -
  have e: "exponent ''e1025'' = 1025" by (simp add: digit_val_def exponent_def)
  have "parse_digits 0 ''1'' = Some 1" by (simp add: digit_val_def)
  then have "magnitude (''1'' @ ''e1025'') = of_nat 1 * 10 powi exponent ''e1025''" by (rule magnitude_exp) simp_all
  then have m: "magnitude ''1e1025'' = 10 powi 1025" by (simp only: e append.simps of_nat_1 mult_1_left)
  have "pow2 1025 \<le> (10::rat) powi 1025" by (rule pow2_le_powi_10) simp
  then have "round64 (magnitude ''1e1025'') = PInf" unfolding m by (rule round64_large)
  then show ?thesis by (simp only: convertNumber_def ParseFloat_def) simp
qed

lemma overflow_unmarshal:
  "unmarshal_map errtext None example_overflow =
     (Some [(''model'', JString ''m''), (''n'', JNull)], Some (errtext UnmarshalTypeError example_overflow))"
proof -
  have "checkValid example_overflow = Some (RObj [(''model'', RStr ''m''), (''n'', RNum ''1e1025'')])" by code_simp
  then show ?thesis by (simp add: unmarshal_map_def put_all_def convertNumber_overflow)
qed

end
