(* ===== verification/Frontend.thy ===== *)
theory Frontend
  imports Ext_Proc Json_Roundtrip
begin

text \<open>
  \<open>callFrontEndForWorker\<close> of handlers/streamingserver.go: the call to the Dynamo front end
  that chooses a worker. Three parts: the body that is sent, the reader of the server-sent
  events, and the call with its error paths. The HTTP client is a parameter that gives the
  outcome of the request; the body it delivers is the text read before the end of the
  stream or a read error.

  The body of the request is copied one level deep, so its \<^verbatim>\<open>nvext\<close> object is shared with
  the caller's map: \<open>fe_body\<close> also returns the caller's map as the call leaves it.
\<close>

subsection \<open>The request body\<close>

fun copy_entries :: "json_map \<Rightarrow> json_map \<Rightarrow> json_map" where
  "copy_entries out [] = out"
| "copy_entries out ((k, v) # es) = copy_entries (AList.update k v out) es"

fun collect_strings :: "json list \<Rightarrow> string list \<Rightarrow> string list" where
  "collect_strings [] anns = anns"
| "collect_strings (x # xs) anns =
     (case as_string (Some x) of
        Some str \<Rightarrow> collect_strings xs (anns @ [str])
      | None \<Rightarrow> collect_strings xs anns)"

fun annotations_of :: "json option \<Rightarrow> string list" where
  "annotations_of (Some (JStrings v)) = v"
| "annotations_of (Some (JArray v)) = collect_strings v []"
| "annotations_of _ = []"

definition needQueryInstanceID :: string where
  "needQueryInstanceID = ''query_instance_id''"

fun has_annotation :: "string list \<Rightarrow> string \<Rightarrow> bool" where
  "has_annotation [] a = False"
| "has_annotation (x # xs) a = (if x = a then True else has_annotation xs a)"

definition fe_nvext :: "json_map \<Rightarrow> json_map" where
  \<comment> \<open>the extension object with the annotation added\<close>
  "fe_nvext feBody =
     (let nvext = (case as_object (map_of feBody ''nvext'') of None \<Rightarrow> [] | Some n \<Rightarrow> n);
          anns = annotations_of (map_of nvext ''annotations'');
          anns' = (if has_annotation anns needQueryInstanceID then anns else anns @ [needQueryInstanceID])
      in AList.update ''annotations'' (JStrings anns') nvext)"

definition fe_body :: "json_map option \<Rightarrow> json_map \<times> json_map option" where
  "fe_body originalBody =
     (let feBody = copy_entries [] (case originalBody of None \<Rightarrow> [] | Some es \<Rightarrow> es);
          feBody1 = (if map_of feBody ''stream'' = None then AList.update ''stream'' (JBool True) feBody else feBody);
          nvext = fe_nvext feBody1
      in (AList.update ''nvext'' (JObject nvext) feBody1,
          map_option (\<lambda>es. if as_object (map_of es ''nvext'') = None then es
                          else AList.update ''nvext'' (JObject nvext) es) originalBody))"

subsection \<open>Reading the events\<close>

datatype read_end = EOF | ReadError string

record sse_state =
  eventName :: string
  dataBuf :: string
  commentBuf :: string

definition quote :: string where "quote = [CHR 0x22]"

definition raw_id :: "string \<Rightarrow> string" where
  "raw_id candidate = (let clean = Trim candidate quote in if clean \<noteq> [] \<and> clean \<noteq> ''[DONE]'' then clean else [])"

definition event_id :: "json_codec \<Rightarrow> string \<Rightarrow> string" where
  \<comment> \<open>the id in the payload of the named event, empty when there is none\<close>
  "event_id codec candidate =
     (if candidate = [] then []
      else case UnmarshalString codec candidate of
             Some s \<Rightarrow> if s \<noteq> [] then s else raw_id candidate
           | None \<Rightarrow> raw_id candidate)"

definition annotation_id :: "json_map option \<Rightarrow> string" where
  "annotation_id msg =
     (case as_object (json_get msg ''annotations'') of
        None \<Rightarrow> []
      | Some ann \<Rightarrow> (case as_string (map_of ann ''worker_instance_id'') of None \<Rightarrow> [] | Some wid \<Rightarrow> wid))"

definition payload_id :: "json_codec \<Rightarrow> string \<Rightarrow> string" where
  \<comment> \<open>the generic path: an object with the id at the top or in its annotations\<close>
  "payload_id codec data =
     (if data = [] then []
      else case UnmarshalMap codec None data of
             (msg, Some err) \<Rightarrow> []
           | (msg, None) \<Rightarrow>
               (case as_string (json_get msg ''worker_instance_id'') of
                  Some wid \<Rightarrow> if wid \<noteq> [] then wid else annotation_id msg
                | None \<Rightarrow> annotation_id msg))"

definition flushEvent :: "json_codec \<Rightarrow> sse_state \<Rightarrow> sse_state \<times> string \<times> bool" where
  "flushEvent codec st =
     (let data = TrimSpace (dataBuf st);
          comment = TrimSpace (commentBuf st);
          st' = st\<lparr>dataBuf := [], commentBuf := []\<rparr>
      in if data = ''[DONE]'' \<or> comment = ''[DONE]'' then (st', [], True)
         else
           let wid = (if eventName st = ''worker_instance_id''
                      then event_id codec (if data = [] then comment else data) else [])
           in if wid \<noteq> [] then (st', wid, False) else (st', payload_id codec data, False))"

definition append_line :: "string \<Rightarrow> string \<Rightarrow> string" where
  "append_line buf l = (if 0 < length buf then buf @ [CHR 0x0A] @ l else l)"

definition sse_line :: "sse_state \<Rightarrow> string \<Rightarrow> sse_state" where
  \<comment> \<open>a line that is not empty: a comment or a field\<close>
  "sse_line st l =
     (if HasPrefix l '':'' then st\<lparr>commentBuf := append_line (commentBuf st) (TrimSpace (tl l))\<rparr>
      else let idx = IndexByte l CHR '':'' in
        if idx = -1 then st
        else
          let field = take (nat idx) l; val = TrimSpace (drop (nat idx + 1) l)
          in if field = ''event'' then st\<lparr>eventName := val\<rparr>
             else if field = ''data'' then st\<lparr>dataBuf := append_line (dataBuf st) val\<rparr>
             else st)"

fun read_lines :: "string \<Rightarrow> string list" where
  \<comment> \<open>the lines \<open>ReadString\<close> delivers, with their line feeds; a last line without one comes
     together with the error and is not used\<close>
  "read_lines [] = []"
| "read_lines (c # s) =
     (if c = CHR 0x0A then [c] # read_lines s
      else case read_lines s of [] \<Rightarrow> [] | l # ls \<Rightarrow> (c # l) # ls)"

definition not_found_done :: string where
  "not_found_done = ''Dynamo worker_instance_id not found before DONE''"

fun sse_loop :: "json_codec \<Rightarrow> string list \<Rightarrow> read_end \<Rightarrow> sse_state \<Rightarrow> string + string" where
  "sse_loop codec [] fin st =
     (case fin of
        ReadError e \<Rightarrow> Inl (''sse read error: '' @ e)
      | EOF \<Rightarrow>
          (case flushEvent codec st of (st', wid, fin_seen) \<Rightarrow>
             if wid \<noteq> [] then Inr wid
             else if fin_seen then Inl not_found_done
             else Inl ''worker_instance_id not found in SSE stream (EOF)''))"
| "sse_loop codec (line # lines) fin st =
     (let l = TrimRight line [CHR 0x0D, CHR 0x0A] in
      if l = [] then
        (case flushEvent codec st of (st', wid, fin_seen) \<Rightarrow>
           if wid \<noteq> [] then Inr wid
           else if fin_seen then Inl not_found_done
           else sse_loop codec lines fin (st'\<lparr>eventName := []\<rparr>))
      else sse_loop codec lines fin (sse_line st l))"

subsection \<open>The call\<close>

record fe_response =
  fe_StatusCode :: int
  fe_ContentType :: string
  fe_text :: string
  fe_end :: read_end

datatype fe_result = BuildFailed string | PostFailed string | FeResponse fe_response

definition fmt_q :: "string \<Rightarrow> string" where
  \<comment> \<open>the verb \<open>%q\<close>, for the bytes a header value may have; bytes outside ASCII are kept\<close>
  "fmt_q s =
     quote @ concat (map (\<lambda>c. if c = CHR 0x22 \<or> c = CHR 0x5C then [CHR 0x5C, c]
                             else if c = CHR 0x09 then [CHR 0x5C, CHR ''t''] else [c]) s) @ quote"

definition callFrontEndForWorker ::
  "json_codec \<Rightarrow> (string \<Rightarrow> fe_result) \<Rightarrow> json_map option \<Rightarrow> (string + string) \<times> json_map option" where
  \<comment> \<open>\<open>post payload\<close> is the outcome of the request; the result is the error message or the id,
     with the caller's map after the call\<close>
  "callFrontEndForWorker codec post originalBody =
     (case fe_body originalBody of (feBody, originalBody') \<Rightarrow>
        (case MarshalMap codec (Some feBody) of
           Inl e \<Rightarrow> Inl (''marshal FrontEnd body: '' @ e)
         | Inr payload \<Rightarrow>
             (case post payload of
                BuildFailed e \<Rightarrow> Inl (''build FrontEnd request: '' @ e)
              | PostFailed e \<Rightarrow> Inl (''FrontEnd POST failed: '' @ e)
              | FeResponse resp \<Rightarrow>
                  if fe_StatusCode resp < 200 \<or> 300 \<le> fe_StatusCode resp then
                    Inl (''Dynamo FrontEnd error: '' @ Itoa (fe_StatusCode resp) @ '' body='' @ fe_text resp)
                  else if \<not> Contains (ToLower (fe_ContentType resp)) ''text/event-stream'' then
                    Inl (''unexpected non-SSE response (Content-Type='' @ fmt_q (fe_ContentType resp) @ '')'')
                  else sse_loop codec (read_lines (fe_text resp)) (fe_end resp)
                         \<lparr>eventName = [], dataBuf = [], commentBuf = []\<rparr>),
         originalBody'))"

subsection \<open>Lemmas\<close>

lemma read_lines_append: "CHR 0x0A \<notin> set l \<Longrightarrow> read_lines (l @ CHR 0x0A # s) = (l @ [CHR 0x0A]) # read_lines s"
  by (induction l) auto

lemma read_lines_unterminated: "CHR 0x0A \<notin> set l \<Longrightarrow> read_lines l = []"
  by (induction l) auto

lemma concat_read_lines: "\<exists>rest. s = concat (read_lines s) @ rest \<and> CHR 0x0A \<notin> set rest"
proof (induction s)
  case (Cons c s)
  then show ?case by (cases "read_lines s") auto
qed simp

lemma TrimRight_line:
  "l = [] \<or> last l \<notin> {CHR 0x0D, CHR 0x0A} \<Longrightarrow> TrimRight (l @ [CHR 0x0A]) [CHR 0x0D, CHR 0x0A] = l"
  by (cases l rule: rev_cases) (auto simp: TrimRight_def)

lemma copy_entries_append: "is_map (out @ es) \<Longrightarrow> copy_entries out es = out @ es"
  by (induction out es rule: copy_entries.induct) (auto simp: is_map_def update_new)

lemma copy_entries_id [simp]: "is_map es \<Longrightarrow> copy_entries [] es = es"
  by (simp add: copy_entries_append)

lemma has_annotation_iff [simp]: "has_annotation xs a \<longleftrightarrow> a \<in> set xs"
  by (induction xs) auto



lemma flushEvent_id: "flushEvent codec st = (st', wid, d) \<Longrightarrow> d \<Longrightarrow> wid = []"
  by (auto simp: flushEvent_def Let_def split: if_splits)

lemma sse_loop_nonempty: "sse_loop codec ls fin st = Inr wid \<Longrightarrow> wid \<noteq> []"
  by (induction codec ls fin st rule: sse_loop.induct)
    (auto simp: Let_def split: read_end.splits prod.splits if_splits)

lemma Trim_quoted:
  assumes "wid \<noteq> []" "CHR 0x22 \<notin> set wid"
  shows "Trim (quote @ wid @ quote) quote = wid"
proof -
  have "dropWhile (\<lambda>c. c = CHR 0x22) (wid @ [CHR 0x22]) = wid @ [CHR 0x22]"
    using assms by (cases wid) auto
  moreover have "dropWhile (\<lambda>c. c = CHR 0x22) (rev wid) = rev wid"
    using assms by (cases "rev wid") auto
  ultimately show ?thesis by (simp add: Trim_def TrimRight_def quote_def)
qed

lemma event_id_quoted:
  assumes "wid \<noteq> []" "CHR 0x22 \<notin> set wid" "wid \<noteq> ''[DONE]''"
    and "UnmarshalString codec (quote @ wid @ quote) \<in> {None, Some wid}"
  shows "event_id codec (quote @ wid @ quote) = wid"
  using assms Trim_quoted [OF assms(1,2)] by (auto simp: event_id_def raw_id_def Let_def quote_def)

lemma sse_event_line:
  "sse_line st ''event: worker_instance_id'' = st\<lparr>eventName := ''worker_instance_id''\<rparr>"
proof -
  have "TrimSpace '' worker_instance_id'' = ''worker_instance_id''" by code_simp
  then show ?thesis by (simp add: sse_line_def HasPrefix_def)
qed

definition worker_event :: "string \<Rightarrow> string" where
  \<comment> \<open>the event the front end sends: the name, then the quoted id on a comment line\<close>
  "worker_event wid =
     ''event: worker_instance_id'' @ CHR 0x0A # '': '' @ quote @ wid @ quote @ [CHR 0x0A, CHR 0x0A]"

lemma sse_loop_worker_event:
  assumes wid: "wid \<noteq> []" "\<forall>c\<in>set wid. plain_byte c \<and> c \<noteq> CHR 0x22" "wid \<noteq> ''[DONE]''"
    and json: "UnmarshalString codec (quote @ wid @ quote) \<in> {None, Some wid}"
  shows "sse_loop codec (read_lines (worker_event wid @ rest)) fin \<lparr>eventName = [], dataBuf = [], commentBuf = []\<rparr> = Inr wid"
proof -
  let ?q = "quote @ wid @ quote" and ?c = "'': '' @ quote @ wid @ quote"
  have nl: "CHR 0x0A \<notin> set ?c" using wid(2) plain_not_break by (fastforce simp: quote_def)
  have plain: "\<forall>c\<in>set ?q. plain_byte c" using wid(2) by (auto simp: quote_def plain_byte_def)
  have lines: "read_lines (worker_event wid @ rest) =
      (''event: worker_instance_id'' @ [CHR 0x0A]) # (?c @ [CHR 0x0A]) # [CHR 0x0A] # read_lines rest"
    using read_lines_append [of "''event: worker_instance_id''"] read_lines_append [OF nl]
    by (simp add: worker_event_def)
  have l2: "sse_line st ?c = st\<lparr>commentBuf := append_line (commentBuf st) ?q\<rparr>" for st
    using TrimSpace_space [of ?q] plain by (simp add: sse_line_def HasPrefix_def quote_def)
  have q: "CHR 0x22 \<notin> set wid" "?q \<noteq> ''[DONE]''" "?q \<noteq> []" using wid(2) by (auto simp: quote_def)
  have flush: "flushEvent codec \<lparr>eventName = ''worker_instance_id'', dataBuf = [], commentBuf = ?q\<rparr> =
      (\<lparr>eventName = ''worker_instance_id'', dataBuf = [], commentBuf = []\<rparr>, wid, False)"
    using wid(1) q(2) event_id_quoted [OF wid(1) q(1) wid(3) json] TrimSpace_plain [OF plain] TrimSpace_plain [of "[]"]
    by (simp add: flushEvent_def Let_def)
  have r1: "TrimRight (''event: worker_instance_id'' @ [CHR 0x0A]) [CHR 0x0D, CHR 0x0A] = ''event: worker_instance_id''"
    by (rule TrimRight_line) simp
  have r2: "TrimRight (?c @ [CHR 0x0A]) [CHR 0x0D, CHR 0x0A] = ?c"
    by (rule TrimRight_line) (simp add: quote_def)
  have r3: "TrimRight [CHR 0x0A] [CHR 0x0D, CHR 0x0A] = []" by (simp add: TrimRight_def)
  let ?st1 = "\<lparr>eventName = ''worker_instance_id'', dataBuf = [], commentBuf = []\<rparr>"
  have "sse_loop codec (read_lines (worker_event wid @ rest)) fin \<lparr>eventName = [], dataBuf = [], commentBuf = []\<rparr> =
      sse_loop codec ((?c @ [CHR 0x0A]) # [CHR 0x0A] # read_lines rest) fin ?st1"
    unfolding lines sse_loop.simps(2) [of codec "''event: worker_instance_id'' @ [CHR 0x0A]"] r1 Let_def sse_event_line by simp
  also have "\<dots> = sse_loop codec ([CHR 0x0A] # read_lines rest) fin (?st1\<lparr>commentBuf := ?q\<rparr>)"
    unfolding sse_loop.simps(2) [of codec "?c @ [CHR 0x0A]"] r2 Let_def l2 by (simp add: append_line_def)
  also have "\<dots> = Inr wid"
    unfolding sse_loop.simps(2) [of codec "[CHR 0x0A]"] r3 Let_def using flush wid(1) by simp
  finally show ?thesis .
qed

subsection \<open>The body can be encoded\<close>

lemma copy_entries_put_all: "copy_entries m es = put_all m es"
  by (induction m es rule: copy_entries.induct) (simp_all add: put_all_def)

lemma valid_collect:
  "\<forall>j\<in>set js. wf_json d j \<Longrightarrow> \<forall>a\<in>set anns. valid_utf8 a \<Longrightarrow> \<forall>a\<in>set (collect_strings js anns). valid_utf8 a"
proof (induction js arbitrary: anns)
  case (Cons j js)
  show ?case
  proof (cases "as_string (Some j)")
    case None
    with Cons show ?thesis by simp
  next
    case (Some a)
    then have "j = JString a" by (cases j) auto
    with Cons.prems Cons.IH [of "anns @ [a]"] show ?thesis by simp
  qed
qed simp

lemma valid_annotations:
  assumes "\<And>j. x = Some j \<Longrightarrow> wf_json d j"
  shows "\<forall>a\<in>set (annotations_of x). valid_utf8 a"
proof (cases "\<exists>js. x = Some (JArray js)")
  case True
  then obtain js where x: "x = Some (JArray js)" by blast
  with assms obtain n where "\<forall>j\<in>set js. wf_json n j" by (cases d) auto
  with x valid_collect [of js n "[]"] show ?thesis by simp
next
  case False
  with assms show ?thesis by (cases x rule: annotations_of.cases) auto
qed

lemma valid_names: "valid_utf8 ''stream''" "valid_utf8 ''nvext''" "valid_utf8 ''annotations''" "valid_utf8 needQueryInstanceID"
  by code_simp+

lemma wf_member: "wf_members d es \<Longrightarrow> map_of es k = Some j \<Longrightarrow> wf_json d j"
  by (auto simp: wf_members_iff dest: map_of_SomeD)

lemma fe_nvext_wf:
  assumes "wf_members (Suc (Suc n)) es"
  shows "wf_json (Suc (Suc n)) (JObject (fe_nvext es))"
proof -
  let ?nv = "case as_object (map_of es ''nvext'') of None \<Rightarrow> [] | Some n \<Rightarrow> n"
  have nv: "is_map ?nv" "wf_members (Suc n) ?nv"
  proof -
    have "is_map ms \<and> wf_members (Suc n) ms" if "as_object (map_of es ''nvext'') = Some ms" for ms
    proof -
      have "map_of es ''nvext'' = Some (JObject ms)"
        using that by (cases "map_of es ''nvext''" rule: as_object.cases) auto
      from wf_member [OF assms this] show ?thesis by simp
    qed
    then show "is_map ?nv" "wf_members (Suc n) ?nv" by (auto split: option.splits)
  qed
  have "\<forall>a\<in>set (annotations_of (map_of ?nv ''annotations'')). valid_utf8 a"
    using wf_member [OF nv(2)] by (rule valid_annotations)
  then show ?thesis
    using nv valid_names
    by (auto simp: fe_nvext_def Let_def wf_members_iff set_update_is_map)
qed

lemma fe_body_wf:
  assumes "\<And>es. originalBody = Some es \<Longrightarrow> wf_doc es"
  shows "wf_doc (fst (fe_body originalBody))" "\<And>es. snd (fe_body originalBody) = Some es \<Longrightarrow> wf_doc es"
proof -
  let ?es = "case originalBody of None \<Rightarrow> [] | Some es \<Rightarrow> es"
  let ?fe = "copy_entries [] ?es"
  let ?fe1 = "if map_of ?fe ''stream'' = None then AList.update ''stream'' (JBool True) ?fe else ?fe"
  have d: "maxNestingDepth - 1 = Suc (Suc 9997)" by (simp add: maxNestingDepth_def)
  have "wf_doc ?es" using assms by (auto simp: wf_doc_iff split: option.splits)
  then have "copy_entries [] ?es = ?es" by (simp add: copy_entries_put_all put_all_map wf_doc_iff)
  with \<open>wf_doc ?es\<close> have fe1: "wf_doc ?fe1" using valid_names(1) by (simp add: wf_doc_update)
  then have nv: "wf_json (maxNestingDepth - 1) (JObject (fe_nvext ?fe1))"
    using fe_nvext_wf [of 9997 ?fe1] unfolding wf_doc_iff d by blast
  show "wf_doc (fst (fe_body originalBody))"
    using wf_doc_update [OF fe1 valid_names(2) nv] by (simp add: fe_body_def Let_def)
  fix es assume "snd (fe_body originalBody) = Some es"
  then obtain es0 where "originalBody = Some es0"
      "es = es0 \<or> es = AList.update ''nvext'' (JObject (fe_nvext ?fe1)) es0"
    by (auto simp: fe_body_def Let_def split: if_splits)
  with assms wf_doc_update [OF _ valid_names(2) nv] show "wf_doc es" by auto
qed

lemma plain_safe: "plain_byte c \<Longrightarrow> c \<noteq> CHR 0x22 \<Longrightarrow> c \<notin> {backslash, CHR ''<'', CHR ''>'', CHR ''&''} \<Longrightarrow> html_safe c"
  by (auto simp: plain_byte_def html_safe_def byte_def Let_def)

text \<open>
  C28. The worker id is found: when the front end answers with an event stream that starts
  with the event it documents, the call returns exactly the id, whatever the document, whatever
  follows and whether or not the stream ends cleanly.
\<close>

theorem frontend_returns_worker:
  assumes wid: "wid \<noteq> []" "\<forall>c\<in>set wid. plain_byte c \<and> c \<notin> {CHR 0x22, backslash, CHR ''<'', CHR ''>'', CHR ''&''}"
      "wid \<noteq> ''[DONE]''"
    and body: "\<And>es. originalBody = Some es \<Longrightarrow> wf_doc es"
    and resp: "\<And>payload. MarshalMap (go_json errtext) (Some (fst (fe_body originalBody))) = Inr payload \<Longrightarrow> post payload = FeResponse resp"
      "200 \<le> fe_StatusCode resp" "fe_StatusCode resp < 300"
      "fe_ContentType resp = ''text/event-stream''" "fe_text resp = worker_event wid @ rest"
  shows "fst (callFrontEndForWorker (go_json errtext) post originalBody) = Inr wid"
proof -
  have "UnmarshalString (go_json errtext) (quote @ wid @ quote) \<in> {None, Some wid}"
    using unmarshal_quoted [of wid] wid(2) plain_safe by (auto simp: quote_def)
  moreover have "\<forall>c\<in>set wid. plain_byte c \<and> c \<noteq> CHR 0x22" using wid(2) by auto
  ultimately have loop: "sse_loop (go_json errtext) (read_lines (worker_event wid @ rest)) (fe_end resp)
      \<lparr>eventName = [], dataBuf = [], commentBuf = []\<rparr> = Inr wid"
    by (intro sse_loop_worker_event wid(1,3))
  obtain payload where p: "MarshalMap (go_json errtext) (Some (fst (fe_body originalBody))) = Inr payload"
    using go.encodes [OF fe_body_wf(1) [OF body]] by blast
  have "Contains (ToLower ''text/event-stream'') ''text/event-stream''" by code_simp
  with loop resp(1) [OF p] resp(2-5) p show ?thesis
    by (cases "fe_body originalBody") (simp add: callFrontEndForWorker_def del: go_json_simps)
qed

theorem frontend_returns_worker_witness:
  "fst (callFrontEndForWorker (go_json (\<lambda>_ _. [])) (\<lambda>_. FeResponse \<lparr>fe_StatusCode = 200, fe_ContentType = ''text/event-stream'',
     fe_text = worker_event ''83036'' @ ''data: [DONE]'', fe_end = EOF\<rparr>) (Some [(''model'', JString ''m'')])) = Inr ''83036''"
proof (rule frontend_returns_worker [where rest = "''data: [DONE]''" and
      resp = "\<lparr>fe_StatusCode = 200, fe_ContentType = ''text/event-stream'',
        fe_text = worker_event ''83036'' @ ''data: [DONE]'', fe_end = EOF\<rparr>"])
  fix es assume "Some [(''model'', JString ''m'')] = Some es"
  then show "wf_doc es" using unmarshal_map_wf [OF example_unmarshal [of "\<lambda>_ _. []"]] by simp
qed (simp_all add: plain_byte_def)

lemma frontend_id_nonempty:
  assumes "fst (callFrontEndForWorker codec post originalBody) = Inr wid"
  shows "wid \<noteq> []"
  using assms
  by (cases "fe_body originalBody")
    (auto simp: callFrontEndForWorker_def split: sum.splits fe_result.splits if_splits dest: sse_loop_nonempty)

end
