(* ===== verification/Filters.thy ===== *)
theory Filters
  imports Datastore
begin

text \<open>
  pkg/epp/scheduling/filter.go and types.go: the filters of the scheduler and their
  composition into a decision tree.

  A filter function takes the request and the candidate pods and returns the pods it keeps
  with an optional error. Random draws are explicit: \<open>u\<close> is the value \<open>randGen.Float64()\<close>
  gives to the one filter that draws (every path through the tree contains it at most
  once). Queue sizes are 64-bit integers with their wrap-around, cache usages are IEEE
  doubles with NaN and the infinities.
\<close>

subsection \<open>Requests and configuration\<close>

record LLMRequest =
  req_Model :: string
  req_TargetModels :: "(string, int) gomap"
  ResolvedTargetModel :: string
  req_Critical :: bool

record Config =
  KVCacheThreshold :: f64
  QueueThresholdCritical :: int
  QueueingThresholdLoRA :: int
  LoraAffinityThreshold :: f64

subsection \<open>The filter tree\<close>

type_synonym filterFunc = "f64 \<Rightarrow> LLMRequest \<Rightarrow> podMetrics list \<Rightarrow> podMetrics list \<times> error option"

datatype filter =
  Filter_node (filter_name: string) (filter_func: filterFunc) (nextOnSuccess: "filter option")
    (nextOnFailure: "filter option") (nextOnSuccessOrFailure: "filter option")

definition filter_Name :: "filter option \<Rightarrow> string" where
  "filter_Name f = (case f of None \<Rightarrow> ''nil'' | Some g \<Rightarrow> filter_name g)"

fun Filter :: "filter \<Rightarrow> f64 \<Rightarrow> LLMRequest \<Rightarrow> podMetrics list \<Rightarrow> podMetrics list \<times> error option" where
  "Filter (Filter_node nm f onSuccess onFailure onEither) u req pods =
     (case f u req pods of (filtered, err) \<Rightarrow>
        if err = None \<and> 0 < length filtered then
          (case onSuccess of
             Some next \<Rightarrow> Filter next u req filtered
           | None \<Rightarrow>
               (case onEither of
                  None \<Rightarrow> (filtered, err)
                | Some next \<Rightarrow> Filter next u req filtered))
        else
          (case onFailure of
             Some next \<Rightarrow> Filter next u req pods
           | None \<Rightarrow>
               (case onEither of
                  None \<Rightarrow> (filtered, err)
                | Some next \<Rightarrow> Filter next u req pods)))"

subsection \<open>The filter functions\<close>

fun predicate_loop ::
  "(LLMRequest \<Rightarrow> podMetrics \<Rightarrow> bool) \<Rightarrow> LLMRequest \<Rightarrow> podMetrics list \<Rightarrow> podMetrics list \<Rightarrow> podMetrics list" where
  "predicate_loop pp req [] filtered = filtered"
| "predicate_loop pp req (pod # pods) filtered =
     (if pp req pod then predicate_loop pp req pods (filtered @ [pod]) else predicate_loop pp req pods filtered)"

definition toFilterFunc :: "(LLMRequest \<Rightarrow> podMetrics \<Rightarrow> bool) \<Rightarrow> filterFunc" where
  "toFilterFunc pp u req pods =
     (let filtered = predicate_loop pp req pods []
      in if length filtered = 0 then ([], Some (PlainError ''no pods left'')) else (filtered, None))"

abbreviation queue_size :: "podMetrics \<Rightarrow> int" where
  "queue_size pod \<equiv> WaitingQueueSize (pm_metrics pod)"

abbreviation kv_usage :: "podMetrics \<Rightarrow> f64" where
  "kv_usage pod \<equiv> KVCacheUsagePercent (pm_metrics pod)"

fun queue_range_loop :: "podMetrics list \<Rightarrow> int \<Rightarrow> int \<Rightarrow> int \<times> int" where
  "queue_range_loop [] mn mx = (mn, mx)"
| "queue_range_loop (pod # pods) mn mx =
     queue_range_loop pods
       (if queue_size pod \<le> mn then queue_size pod else mn)
       (if mx \<le> queue_size pod then queue_size pod else mx)"

definition leastQueuingFilterFunc :: filterFunc where
  "leastQueuingFilterFunc u req pods =
     (case queue_range_loop pods MaxInt 0 of
        (mn, mx) \<Rightarrow>
          (filter (\<lambda>pod. mn \<le> queue_size pod \<and>
                     queue_size pod \<le> wrap64 (mn + go_div (wrap64 (mx - mn)) (int (length pods)))) pods,
           None))"

definition lowQueueingPodPredicate :: "Config \<Rightarrow> LLMRequest \<Rightarrow> podMetrics \<Rightarrow> bool" where
  "lowQueueingPodPredicate config req pod \<longleftrightarrow> queue_size pod < QueueingThresholdLoRA config"

fun kv_range_loop :: "podMetrics list \<Rightarrow> f64 \<Rightarrow> f64 \<Rightarrow> f64 \<times> f64" where
  "kv_range_loop [] mn mx = (mn, mx)"
| "kv_range_loop (pod # pods) mn mx =
     kv_range_loop pods
       (if f64_le (kv_usage pod) mn then kv_usage pod else mn)
       (if f64_le mx (kv_usage pod) then kv_usage pod else mx)"

definition f64_div_len :: "f64 \<Rightarrow> nat \<Rightarrow> f64" where
  \<comment> \<open>\<open>x / float64(n)\<close> for the length \<open>n\<close> of a slice that is not empty\<close>
  "f64_div_len x n = (case float64_of_int (int n) of Fin d \<Rightarrow> f64_div_pos x d | _ \<Rightarrow> NaN)"

definition leastKVCacheFilterFunc :: filterFunc where
  "leastKVCacheFilterFunc u req pods =
     (case kv_range_loop pods MaxFloat64 (Fin 0) of
        (mn, mx) \<Rightarrow>
          (filter (\<lambda>pod. f64_le mn (kv_usage pod) \<and>
                     f64_le (kv_usage pod) (f64_add mn (f64_div_len (f64_sub mx mn) (length pods)))) pods,
           None))"

definition model_active :: "LLMRequest \<Rightarrow> podMetrics \<Rightarrow> bool" where
  "model_active req pod \<longleftrightarrow> map_of (ActiveModels (pm_metrics pod)) (ResolvedTargetModel req) \<noteq> None"

definition has_lora_room :: "podMetrics \<Rightarrow> bool" where
  "has_lora_room pod \<longleftrightarrow> int (length (ActiveModels (pm_metrics pod))) < MaxActiveModels (pm_metrics pod)"

definition lowLoRACostPredicate :: "LLMRequest \<Rightarrow> podMetrics \<Rightarrow> bool" where
  "lowLoRACostPredicate req pod \<longleftrightarrow> model_active req pod \<or> has_lora_room pod"

fun affinity_loop ::
  "LLMRequest \<Rightarrow> podMetrics list \<Rightarrow> podMetrics list \<Rightarrow> podMetrics list \<Rightarrow> podMetrics list \<times> podMetrics list" where
  "affinity_loop req [] aff avail = (aff, avail)"
| "affinity_loop req (pod # pods) aff avail =
     (if model_active req pod then affinity_loop req pods (aff @ [pod]) avail
      else if has_lora_room pod then affinity_loop req pods aff (avail @ [pod])
      else affinity_loop req pods aff avail)"

definition loRASoftAffinityFilter :: "Config \<Rightarrow> filterFunc" where
  "loRASoftAffinityFilter config u req pods =
     (case affinity_loop req pods [] [] of
        (aff, avail) \<Rightarrow>
          if 0 < length aff \<and> 0 < length avail then
            (if f64_lt u (LoraAffinityThreshold config) then (aff, None) else (avail, None))
          else if 0 < length aff then (aff, None)
          else (avail, None))"

definition criticalRequestPredicate :: "LLMRequest \<Rightarrow> podMetrics \<Rightarrow> bool" where
  "criticalRequestPredicate req pod \<longleftrightarrow> req_Critical req"

definition noQueueAndLessThanKVCacheThresholdPredicate ::
  "int \<Rightarrow> f64 \<Rightarrow> LLMRequest \<Rightarrow> podMetrics \<Rightarrow> bool" where
  "noQueueAndLessThanKVCacheThresholdPredicate queueThreshold kvCacheThreshold req pod \<longleftrightarrow>
     queue_size pod \<le> queueThreshold \<and> f64_le (kv_usage pod) kvCacheThreshold"

subsection \<open>The loops\<close>

lemma predicate_loop_filter: "predicate_loop pp req pods out = out @ filter (pp req) pods"
  by (induction pods arbitrary: out) auto

lemma toFilterFunc_eq:
  "toFilterFunc pp u req pods =
     (filter (pp req) pods, if filter (pp req) pods = [] then Some (PlainError ''no pods left'') else None)"
  by (simp add: toFilterFunc_def predicate_loop_filter Let_def)

lemma affinity_loop_filter:
  "affinity_loop req pods aff avail =
     (aff @ filter (model_active req) pods,
      avail @ filter (\<lambda>p. \<not> model_active req p \<and> has_lora_room p) pods)"
  by (induction pods arbitrary: aff avail) auto

lemma queue_range_loop_eq:
  "queue_range_loop pods mn mx =
     (fold min (map queue_size pods) mn, fold max (map queue_size pods) mx)"
  by (induction pods arbitrary: mn mx) (auto simp: min_def max_def)

lemma fold_min_le: "fold min xs (m::int) \<le> m \<and> (\<forall>x\<in>set xs. fold min xs m \<le> x)"
proof (induction xs arbitrary: m)
  case (Cons x xs)
  then show ?case by (simp, meson min.cobounded1 min.cobounded2 order.trans)
qed simp

lemma fold_min_in: "fold min xs (m::int) \<in> insert m (set xs)"
proof (induction xs arbitrary: m)
  case (Cons x xs)
  then show ?case by (simp, metis min_def)
qed simp

lemma fold_max_ge: "(m::int) \<le> fold max xs m \<and> (\<forall>x\<in>set xs. x \<le> fold max xs m)"
proof (induction xs arbitrary: m)
  case (Cons x xs)
  then show ?case by (simp, meson max.cobounded1 max.cobounded2 order.trans)
qed simp

lemma fold_max_in: "fold max xs (m::int) \<in> insert m (set xs)"
proof (induction xs arbitrary: m)
  case (Cons x xs)
  then show ?case by (simp, metis max_def)
qed simp

lemma fold_min_Min: "xs \<noteq> [] \<Longrightarrow> \<forall>x\<in>set xs. x \<le> (m::int) \<Longrightarrow> fold min xs m = Min (set xs)"
  using fold_min_le [of xs m] fold_min_in [of xs m]
  by (intro Min_eqI [symmetric]) (auto, metis last_in_set order_antisym)

lemma fold_max_Max: "xs \<noteq> [] \<Longrightarrow> \<forall>x\<in>set xs. (m::int) \<le> x \<Longrightarrow> fold max xs m = Max (set xs)"
  using fold_max_ge [of m xs] fold_max_in [of xs m]
  by (intro Max_eqI [symmetric]) (auto, metis last_in_set order_antisym)

lemma kv_range_loop_spec:
  assumes "kv_range_loop pods mn mx = (mn', mx')" "mn \<noteq> NaN" "mx \<noteq> NaN"
  shows "f64_le mn' mn" "f64_le mx mx'"
    "\<forall>p\<in>set pods. kv_usage p \<noteq> NaN \<longrightarrow> f64_le mn' (kv_usage p) \<and> f64_le (kv_usage p) mx'"
    "mn' = mn \<or> (\<exists>p\<in>set pods. kv_usage p = mn')" "mx' = mx \<or> (\<exists>p\<in>set pods. kv_usage p = mx')"
proof -
  have "f64_le mn' mn \<and> f64_le mx mx' \<and>
    (\<forall>p\<in>set pods. kv_usage p \<noteq> NaN \<longrightarrow> f64_le mn' (kv_usage p) \<and> f64_le (kv_usage p) mx') \<and>
    (mn' = mn \<or> (\<exists>p\<in>set pods. kv_usage p = mn')) \<and> (mx' = mx \<or> (\<exists>p\<in>set pods. kv_usage p = mx'))"
    using assms
  proof (induction pods arbitrary: mn mx)
    case (Cons p pods)
    let ?mn = "if f64_le (kv_usage p) mn then kv_usage p else mn"
    let ?mx = "if f64_le mx (kv_usage p) then kv_usage p else mx"
    have "?mn \<noteq> NaN" "?mx \<noteq> NaN" using Cons.prems f64_le_not_NaN by auto
    with Cons.IH [of ?mn ?mx] Cons.prems(1)
    have ih: "f64_le mn' ?mn" "f64_le ?mx mx'" "mn' = ?mn \<or> (\<exists>p\<in>set pods. kv_usage p = mn')"
      "\<forall>p\<in>set pods. kv_usage p \<noteq> NaN \<longrightarrow> f64_le mn' (kv_usage p) \<and> f64_le (kv_usage p) mx'"
      "mx' = ?mx \<or> (\<exists>p\<in>set pods. kv_usage p = mx')" by auto
    have "f64_le ?mn mn" "f64_le mx ?mx" using Cons.prems by auto
    with ih have le: "f64_le mn' mn" "f64_le mx mx'" by (blast intro: f64_le_trans)+
    have "f64_le mn' (kv_usage p) \<and> f64_le (kv_usage p) mx'" if "kv_usage p \<noteq> NaN"
    proof -
      have "f64_le ?mn (kv_usage p)" "f64_le (kv_usage p) ?mx"
        using f64_le_linear [of mn "kv_usage p"] f64_le_linear [of mx "kv_usage p"] that Cons.prems by auto
      with ih show ?thesis by (blast intro: f64_le_trans)
    qed
    with ih(4) have "\<forall>q\<in>set (p # pods). kv_usage q \<noteq> NaN \<longrightarrow> f64_le mn' (kv_usage q) \<and> f64_le (kv_usage q) mx'"
      by simp
    moreover have "mn' = mn \<or> (\<exists>q\<in>set (p # pods). kv_usage q = mn')"
      "mx' = mx \<or> (\<exists>q\<in>set (p # pods). kv_usage q = mx')"
      using ih(3,5) by (auto split: if_splits)
    ultimately show ?case using le by blast
  qed simp
  then show "f64_le mn' mn" "f64_le mx mx'"
    "\<forall>p\<in>set pods. kv_usage p \<noteq> NaN \<longrightarrow> f64_le mn' (kv_usage p) \<and> f64_le (kv_usage p) mx'"
    "mn' = mn \<or> (\<exists>p\<in>set pods. kv_usage p = mn')" "mx' = mx \<or> (\<exists>p\<in>set pods. kv_usage p = mx')" by blast+
qed

lemma f64_div_len_nonneg:
  assumes "f64_le (Fin 0) x" "0 < n" "int n \<le> MaxInt"
  shows "f64_le (Fin 0) (f64_div_len x n)"
proof -
  have "f64_le (round64 1) (round64 (of_int (int n)))" using assms(2) by (intro round64_mono) simp
  moreover have "round64 1 = Fin 1"
    by (rule round64_exact [of _ 1 0]) (simp_all add: MaxFloat_def)
  moreover have "(of_int (int n) :: rat) \<le> of_int (2 ^ 63)"
    using assms(3) unfolding MaxInt_def of_int_le_iff by linarith
  then have "f64_le (round64 (of_int (int n))) (round64 (2 ^ 63))" by (intro round64_mono) simp
  moreover have "round64 (2 ^ 63) = Fin (2 ^ 63)"
    by (rule round64_exact [of _ 1 63]) (simp_all add: MaxFloat_def power_int_def)
  ultimately obtain d where "float64_of_int (int n) = Fin d" "1 \<le> d"
    unfolding float64_of_int_def by (cases "round64 (of_int (int n))") auto
  with assms(1) show ?thesis by (simp add: f64_div_len_def f64_div_pos_nonneg)
qed

subsection \<open>What the filters keep\<close>

definition sane_metrics :: "podMetrics \<Rightarrow> bool" where
  \<comment> \<open>the metrics a model server means to report: a queue size that is not negative, a cache
     usage that is a number above minus infinity\<close>
  "sane_metrics pod \<longleftrightarrow> 0 \<le> queue_size pod \<and> queue_size pod \<le> MaxInt \<and>
     kv_usage pod \<noteq> NaN \<and> kv_usage pod \<noteq> NInf \<and> is_f64 (kv_usage pod)"

abbreviation sane_pods :: "podMetrics list \<Rightarrow> bool" where
  "sane_pods pods \<equiv> (\<forall>p\<in>set pods. sane_metrics p) \<and> pods \<noteq> [] \<and> int (length pods) \<le> MaxInt"

definition queue_limit :: "podMetrics list \<Rightarrow> int" where
  \<comment> \<open>the upper end of the first of \<open>n\<close> equal parts of the range of queue sizes\<close>
  "queue_limit pods = (let q = queue_size ` set pods in Min q + (Max q - Min q) div int (length pods))"

lemma leastQueuing_limit:
  assumes "pods \<noteq> []" "\<forall>p\<in>set pods. 0 \<le> queue_size p \<and> queue_size p \<le> MaxInt"
  shows "leastQueuingFilterFunc u req pods = (filter (\<lambda>p. queue_size p \<le> queue_limit pods) pods, None)"
proof -
  let ?q = "queue_size ` set pods" and ?n = "int (length pods)"
  have fin: "finite ?q" "?q \<noteq> {}" using assms(1) by auto
  have mn: "fold min (map queue_size pods) MaxInt = Min ?q"
    using assms fold_min_Min [of "map queue_size pods" MaxInt] by simp
  have mx: "fold max (map queue_size pods) 0 = Max ?q"
    using assms fold_max_Max [of "map queue_size pods" 0] by simp
  have n: "0 < ?n" using assms(1) by simp
  have b: "0 \<le> Min ?q" "Min ?q \<le> Max ?q" "Max ?q \<le> MaxInt"
    using fin assms(2) Min_in [OF fin] Max_in [OF fin] by (auto intro: Max_ge)
  have d: "0 \<le> (Max ?q - Min ?q) div ?n" "(Max ?q - Min ?q) div ?n \<le> Max ?q - Min ?q"
    using b n go_div_le [of "Max ?q - Min ?q" ?n] by (auto simp: go_div_pos pos_imp_zdiv_nonneg_iff)
  have "wrap64 (Max ?q - Min ?q) = Max ?q - Min ?q"
    using b by (intro wrap64_id) (auto simp: is_int64_def MinInt_def MaxInt_def)
  moreover have "wrap64 (Min ?q + (Max ?q - Min ?q) div ?n) = Min ?q + (Max ?q - Min ?q) div ?n"
    using b d by (intro wrap64_id) (auto simp: is_int64_def MinInt_def MaxInt_def)
  ultimately show ?thesis
    using fin b n by (auto simp: leastQueuingFilterFunc_def queue_range_loop_eq mn mx queue_limit_def Let_def
        go_div_pos intro!: filter_cong)
qed

lemma queue_limit_min:
  assumes "pods \<noteq> []" shows "\<exists>p\<in>set pods. queue_size p \<le> queue_limit pods"
proof -
  let ?q = "queue_size ` set pods"
  have fin: "finite ?q" "?q \<noteq> {}" using assms by auto
  obtain p where p: "p \<in> set pods" "queue_size p = Min ?q" using Min_in [OF fin] by auto
  have "Min ?q \<le> Max ?q" using fin by (auto intro: Max_ge)
  then have "0 \<le> (Max ?q - Min ?q) div int (length pods)"
    using assms by (simp add: pos_imp_zdiv_nonneg_iff)
  with p show ?thesis by (intro bexI [of _ p]) (simp_all add: queue_limit_def Let_def)
qed

lemma is_f64_le_MaxFloat: "is_f64 (Fin a) \<Longrightarrow> a \<le> MaxFloat"
  by (auto simp: is_f64_def round64_def split: if_splits)

lemma f64_le_antisym: "f64_le a b \<Longrightarrow> f64_le b a \<Longrightarrow> a = b"
  by (cases a; cases b) auto

lemma leastKVCache_keeps_min:
  assumes len: "int (length pods) \<le> MaxInt" and sane: "\<forall>p\<in>set pods. sane_metrics p"
    and p: "p \<in> set pods" "\<forall>q\<in>set pods. f64_le (kv_usage p) (kv_usage q)"
  shows "p \<in> set (fst (leastKVCacheFilterFunc u req pods))"
proof -
  obtain mn mx where r: "kv_range_loop pods MaxFloat64 (Fin 0) = (mn, mx)" by fastforce
  note s = kv_range_loop_spec [OF r]
  let ?lim = "f64_add mn (f64_div_len (f64_sub mx mn) (length pods))"
  from p(1) have n: "0 < length pods" by auto
  have sane': "kv_usage p \<noteq> NaN" "kv_usage p \<noteq> NInf" "is_f64 (kv_usage p)"
    using sane p(1) by (auto simp: sane_metrics_def)
  have le: "f64_le mn (kv_usage p)" "f64_le (kv_usage p) mx"
    using s(3) p(1) sane'(1) by (simp_all add: MaxFloat64_def)
  have "f64_le (kv_usage p) ?lim"
  proof (cases "kv_usage p = mn")
    case True
    with s(1) sane' obtain a where a: "mn = Fin a" "is_f64 (Fin a)"
      by (cases mn) (auto simp: MaxFloat64_def)
    have "f64_le (Fin 0) (f64_sub mx mn)" using le True a by (intro f64_sub_nonneg) auto
    then have "f64_le (Fin 0) (f64_div_len (f64_sub mx mn) (length pods))"
      using n len by (intro f64_div_len_nonneg) auto
    with f64_add_nonneg a True show ?thesis by auto
  next
    case False
    with s(4) p(2) le(1) have mn: "mn = MaxFloat64"
      using f64_le_antisym by (auto simp: MaxFloat64_def)
    with le(1) sane' False have "kv_usage p = PInf"
      by (cases "kv_usage p") (auto simp: MaxFloat64_def dest!: is_f64_le_MaxFloat)
    with le(2) have mx: "mx = PInf" by (cases mx) auto
    have "f64_div_len PInf (length pods) = PInf"
      using f64_div_len_nonneg [of PInf "length pods"] n len
      by (auto simp: f64_div_len_def split: f64.splits)
    then have "?lim = PInf" by (simp add: mn mx MaxFloat64_def f64_sub_def)
    with \<open>kv_usage p = PInf\<close> show ?thesis by simp
  qed
  with le p(1) show ?thesis by (simp add: leastKVCacheFilterFunc_def r)
qed

lemma kv_min_exists:
  "pods \<noteq> [] \<Longrightarrow> \<forall>p\<in>set pods. kv_usage p \<noteq> NaN \<Longrightarrow> \<exists>p\<in>set pods. \<forall>q\<in>set pods. f64_le (kv_usage p) (kv_usage q)"
proof (induction pods)
  case (Cons p pods)
  show ?case
  proof (cases "pods = []")
    case False
    with Cons obtain m where m: "m \<in> set pods" "\<forall>q\<in>set pods. f64_le (kv_usage m) (kv_usage q)" by auto
    show ?thesis
    proof (cases "f64_le (kv_usage m) (kv_usage p)")
      case True
      with m show ?thesis by auto
    next
      case False
      with f64_le_linear [of "kv_usage m" "kv_usage p"] Cons.prems(2) m(1)
      have pm: "f64_le (kv_usage p) (kv_usage m)" by auto
      with m(2) have "\<forall>q\<in>set pods. f64_le (kv_usage p) (kv_usage q)" by (blast intro: f64_le_trans)
      with Cons.prems(2) show ?thesis by auto
    qed
  qed (use Cons.prems in simp)
qed simp

lemma leastKVCache_nonempty:
  assumes "sane_pods pods"
  shows "fst (leastKVCacheFilterFunc u req pods) \<noteq> []"
proof -
  have "\<forall>p\<in>set pods. kv_usage p \<noteq> NaN" using assms by (auto simp: sane_metrics_def)
  with kv_min_exists [of pods] assms leastKVCache_keeps_min [of pods _ u req] show ?thesis by fastforce
qed

lemma kv_range_loop_bounds:
  assumes sane: "\<forall>p\<in>set pods. sane_metrics p" and lo: "lo \<in> set pods" "kv_usage lo \<noteq> PInf"
    and hi: "hi \<in> set pods" "f64_le (Fin 0) (kv_usage hi)"
    and range: "\<forall>q\<in>set pods. f64_le (kv_usage lo) (kv_usage q) \<and> f64_le (kv_usage q) (kv_usage hi)"
  shows "kv_range_loop pods MaxFloat64 (Fin 0) = (kv_usage lo, kv_usage hi)"
proof -
  obtain mn mx where r: "kv_range_loop pods MaxFloat64 (Fin 0) = (mn, mx)" by fastforce
  note s = kv_range_loop_spec [OF r]
  from sane lo have "kv_usage lo \<noteq> NaN" "kv_usage lo \<noteq> NInf" "is_f64 (kv_usage lo)"
    by (auto simp: sane_metrics_def)
  with lo(2) have "f64_le (kv_usage lo) MaxFloat64"
    by (cases "kv_usage lo") (auto simp: MaxFloat64_def dest: is_f64_le_MaxFloat)
  with s(4) range have "f64_le (kv_usage lo) mn" by (auto simp: MaxFloat64_def)
  moreover from s(5) hi(2) range have "f64_le mx (kv_usage hi)" by (auto simp: MaxFloat64_def)
  moreover have "f64_le mn (kv_usage lo)" "f64_le (kv_usage hi) mx"
    using s(3) lo(1) hi(1) sane by (auto simp: MaxFloat64_def sane_metrics_def)
  ultimately show ?thesis using r f64_le_antisym by auto
qed

end
