(* ===== verification/Env.thy ===== *)
theory Env
  imports Go_Strings Float64
begin

text \<open>
  pkg/epp/util/env: configuration values from the environment. The environment is a
  partial map; \<open>ParseFloat\<close> (package strconv) is the parameter \<open>parse_float\<close>, with \<open>None\<close>
  for its error.
\<close>

type_synonym environ = "string \<rightharpoonup> string"

definition GetEnvFloat :: "(string \<Rightarrow> f64 option) \<Rightarrow> environ \<Rightarrow> string \<Rightarrow> f64 \<Rightarrow> f64" where
  "GetEnvFloat parse_float env key defaultVal =
     (case env key of
        None \<Rightarrow> defaultVal
      | Some val \<Rightarrow> (case parse_float val of None \<Rightarrow> defaultVal | Some floatVal \<Rightarrow> floatVal))"

definition GetEnvInt :: "environ \<Rightarrow> string \<Rightarrow> int \<Rightarrow> int" where
  "GetEnvInt env key defaultVal =
     (case env key of
        None \<Rightarrow> defaultVal
      | Some val \<Rightarrow> (case Atoi val of (intVal, None) \<Rightarrow> intVal | (_, Some err) \<Rightarrow> defaultVal))"

lemma GetEnvInt_unset: "env key = None \<Longrightarrow> GetEnvInt env key d = d"
  by (simp add: GetEnvInt_def)

lemma GetEnvInt_decimal: "env key = Some (Itoa n) \<Longrightarrow> is_int64 n \<Longrightarrow> GetEnvInt env key d = n"
  by (simp add: GetEnvInt_def Atoi_Itoa)

lemma GetEnvInt_int64: "is_int64 d \<Longrightarrow> is_int64 (GetEnvInt env key d)"
proof (cases "env key")
  case (Some v)
  assume d: "is_int64 d"
  have "snd (Atoi v) = None \<Longrightarrow> is_int64 (fst (Atoi v))"
    by (auto simp: Atoi_def is_int64_def Let_def split: option.splits if_splits)
  with Some d show ?thesis
    by (cases "Atoi v") (auto simp: GetEnvInt_def split: option.splits)
qed (simp add: GetEnvInt_def)

end
