(* ===== verification/Scheduler.thy ===== *)
theory Scheduler
  imports Filters Env Examples
begin

text \<open>
  pkg/epp/scheduling/scheduler.go: the configuration, the decision tree, and \<open>Schedule\<close>,
  which runs the tree on the pods of the datastore and draws one of the pods it leaves.

  Two contracts carry the proofs: \<open>narrowing_filter\<close> (a filter function only drops pods)
  and \<open>total_filter\<close> (a tree that, on pods with sane metrics, always leaves some). The
  second is closed under putting a narrowing filter in front, which is how the trees of the
  program are built.
\<close>

subsection \<open>Configuration\<close>

definition defaultKVCacheThreshold :: f64 where "defaultKVCacheThreshold = round64 (8 / 10)"
definition defaultQueueThresholdCritical :: int where "defaultQueueThresholdCritical = 5"
definition defaultQueueingThresholdLoRA :: int where "defaultQueueingThresholdLoRA = 128"
definition defaultLoraAffinityThreshold :: f64 where "defaultLoraAffinityThreshold = round64 (999 / 1000)"

definition LoadConfig :: "(string \<Rightarrow> f64 option) \<Rightarrow> environ \<Rightarrow> Config" where
  "LoadConfig parse_float env =
     \<lparr>KVCacheThreshold = GetEnvFloat parse_float env ''KV_CACHE_THRESHOLD'' defaultKVCacheThreshold,
      QueueThresholdCritical = GetEnvInt env ''QUEUE_THRESHOLD_CRITICAL'' defaultQueueThresholdCritical,
      QueueingThresholdLoRA = GetEnvInt env ''QUEUING_THRESHOLD_LORA'' defaultQueueingThresholdLoRA,
      LoraAffinityThreshold = GetEnvFloat parse_float env ''LORA_AFFINITY_THRESHOLD'' defaultLoraAffinityThreshold\<rparr>"

subsection \<open>The decision tree\<close>

definition leastKVCacheNode :: filter where
  "leastKVCacheNode = Filter_node ''least KV cache percent'' leastKVCacheFilterFunc None None None"

definition queueLoRAAndKVCacheFilter :: "Config \<Rightarrow> filter" where
  "queueLoRAAndKVCacheFilter config =
     Filter_node ''least queuing'' leastQueuingFilterFunc None None
       (Some (Filter_node ''low cost LoRA'' (loRASoftAffinityFilter config) None None (Some leastKVCacheNode)))"

definition queueAndKVCacheFilter :: filter where
  "queueAndKVCacheFilter =
     Filter_node ''least queuing'' leastQueuingFilterFunc None None (Some leastKVCacheNode)"

definition lowLatencyFilter :: "Config \<Rightarrow> filter" where
  "lowLatencyFilter config =
     Filter_node ''low queueing filter'' (toFilterFunc (lowQueueingPodPredicate config))
       (Some (Filter_node ''affinity LoRA'' (loRASoftAffinityFilter config) None None (Some queueAndKVCacheFilter)))
       (Some (queueLoRAAndKVCacheFilter config)) None"

definition drop_request :: filterFunc where
  "drop_request u req pods =
     ([], Some (EppError InferencePoolResourceExhausted ''dropping request due to limited backend resources''))"

definition sheddableRequestFilter :: "Config \<Rightarrow> filter" where
  "sheddableRequestFilter config =
     Filter_node ''has capacity for sheddable requests''
       (toFilterFunc (noQueueAndLessThanKVCacheThresholdPredicate
          (QueueThresholdCritical config) (KVCacheThreshold config)))
       (Some (queueLoRAAndKVCacheFilter config))
       (Some (Filter_node ''drop request'' drop_request None None None)) None"

definition defaultFilter :: "Config \<Rightarrow> filter" where
  "defaultFilter config =
     Filter_node ''critical request'' (toFilterFunc criticalRequestPredicate)
       (Some (lowLatencyFilter config)) (Some (sheddableRequestFilter config)) None"

subsection \<open>Schedule\<close>

definition wrapped_error :: "error option \<Rightarrow> string" where
  \<comment> \<open>the verb \<open>%w\<close> of \<open>fmt.Errorf\<close>\<close>
  "wrapped_error err = (case err of None \<Rightarrow> ''%!w(<nil>)'' | Some e \<Rightarrow> error_Error e)"

definition Schedule ::
  "Config \<Rightarrow> datastore \<Rightarrow> f64 \<Rightarrow> nat \<Rightarrow> LLMRequest \<Rightarrow> (error + podMetrics) go" where
  "Schedule config ds u r req =
     (case Filter (defaultFilter config) u req (PodGetAll ds) of (pods, err) \<Rightarrow>
        if err \<noteq> None \<or> length pods = 0 then
          Ret (Inl (PlainError (''failed to apply filter, resulted '' @ Itoa (int (length pods)) @
            '' pods, this should never happen: '' @ wrapped_error err)))
        else go_bind (Intn r (int (length pods))) (\<lambda>i. Ret (Inr (pods ! nat i))))"

subsection \<open>Filters only drop pods\<close>

locale narrowing_filter =
  fixes f :: filterFunc
  assumes narrows: "subseq (fst (f u req pods)) pods"
begin

lemma kept: "f u req pods = (r, err) \<Longrightarrow> set r \<subseteq> set pods"
  using narrows [of u req pods] by (auto elim: list_emb_set)

lemma kept_length: "f u req pods = (r, err) \<Longrightarrow> length r \<le> length pods"
  using narrows [of u req pods] by (auto dest: list_emb_length)

end

interpretation predicate_filter: narrowing_filter "toFilterFunc pp" for pp
  by unfold_locales (simp add: toFilterFunc_eq)

interpretation queue_filter: narrowing_filter leastQueuingFilterFunc
  by unfold_locales (simp add: leastQueuingFilterFunc_def split: prod.splits)

interpretation kv_filter: narrowing_filter leastKVCacheFilterFunc
  by unfold_locales (simp add: leastKVCacheFilterFunc_def split: prod.splits)

interpretation lora_filter: narrowing_filter "loRASoftAffinityFilter config" for config
  by unfold_locales (simp add: loRASoftAffinityFilter_def affinity_loop_filter)

interpretation drop_filter: narrowing_filter drop_request
  by unfold_locales (simp add: drop_request_def)

inductive narrowing :: "filter \<Rightarrow> bool" where
  node: "(\<And>u req pods. subseq (fst (f u req pods)) pods) \<Longrightarrow>
    (\<And>g. s = Some g \<Longrightarrow> narrowing g) \<Longrightarrow> (\<And>g. l = Some g \<Longrightarrow> narrowing g) \<Longrightarrow> (\<And>g. e = Some g \<Longrightarrow> narrowing g) \<Longrightarrow>
    narrowing (Filter_node nm f s l e)"

lemma Filter_narrowing: "narrowing g \<Longrightarrow> subseq (fst (Filter g u req pods)) pods"
proof (induction arbitrary: pods rule: narrowing.induct)
  case (node f s l e nm)
  obtain r err where r: "f u req pods = (r, err)" by fastforce
  with node(1) [of u req pods] have sub: "subseq r pods" by simp
  then have trans: "subseq (fst (Filter g u req r)) pods" if "subseq (fst (Filter g u req r)) r" for g
    using that by (rule subseq_order.trans [rotated])
  show ?case using r sub node.IH trans by (auto split: option.splits)
qed

lemma narrowing_tree: "narrowing (defaultFilter config)"
  unfolding defaultFilter_def lowLatencyFilter_def sheddableRequestFilter_def
    queueAndKVCacheFilter_def queueLoRAAndKVCacheFilter_def leastKVCacheNode_def
  by (intro narrowing.intros predicate_filter.narrows queue_filter.narrows kv_filter.narrows
      lora_filter.narrows drop_filter.narrows) (auto intro!: narrowing.intros predicate_filter.narrows
      queue_filter.narrows kv_filter.narrows lora_filter.narrows drop_filter.narrows)

subsection \<open>Trees that always leave a pod\<close>

lemma sane_pods_sub:
  "sane_pods pods \<Longrightarrow> set r \<subseteq> set pods \<Longrightarrow> r \<noteq> [] \<Longrightarrow> length r \<le> length pods \<Longrightarrow> sane_pods r"
  by auto

locale total_filter =
  fixes g :: filter
  assumes total: "sane_pods pods \<Longrightarrow>
    \<exists>r. Filter g u req pods = (r, None) \<and> r \<noteq> [] \<and> set r \<subseteq> set pods"

locale filter_in_front = total_filter g + narrowing_filter f for g f

sublocale filter_in_front \<subseteq> front: total_filter "Filter_node nm f None None (Some g)" for nm
proof
  fix pods u req assume sane: "sane_pods pods"
  obtain r err where r: "f u req pods = (r, err)" by fastforce
  show "\<exists>r. Filter (Filter_node nm f None None (Some g)) u req pods = (r, None) \<and> r \<noteq> [] \<and> set r \<subseteq> set pods"
  proof (cases "err = None \<and> r \<noteq> []")
    case True
    with sane_pods_sub [OF sane kept [OF r] _ kept_length [OF r]] have "sane_pods r" by simp
    from total [OF this, of u req] kept [OF r] r True show ?thesis by auto
  next
    case False
    with total [OF sane, of u req] r show ?thesis by auto
  qed
qed

interpretation kv_leaf: total_filter leastKVCacheNode
proof
  fix pods u req assume sane: "sane_pods pods"
  obtain r err where r: "leastKVCacheFilterFunc u req pods = (r, err)" by fastforce
  have "err = None" using r by (auto simp: leastKVCacheFilterFunc_def split: prod.splits)
  moreover have "r \<noteq> []" using leastKVCache_nonempty [of pods u req] sane r by simp
  ultimately show "\<exists>r. Filter leastKVCacheNode u req pods = (r, None) \<and> r \<noteq> [] \<and> set r \<subseteq> set pods"
    using r kv_filter.kept [OF r] by (simp add: leastKVCacheNode_def)
qed

interpretation queue_kv: filter_in_front leastKVCacheNode leastQueuingFilterFunc ..

interpretation lora_kv: filter_in_front leastKVCacheNode "loRASoftAffinityFilter config" for config ..

interpretation queue_lora_kv: filter_in_front
  "Filter_node ''low cost LoRA'' (loRASoftAffinityFilter config) None None (Some leastKVCacheNode)"
  leastQueuingFilterFunc for config ..

interpretation queue_kv_tree: total_filter queueAndKVCacheFilter
  unfolding queueAndKVCacheFilter_def ..

interpretation queue_lora_kv_tree: total_filter "queueLoRAAndKVCacheFilter config" for config
  unfolding queueLoRAAndKVCacheFilter_def ..

interpretation lora_queue_kv: filter_in_front queueAndKVCacheFilter "loRASoftAffinityFilter config" for config ..

lemmas affinity_total = lora_queue_kv.front.total [of _ "''affinity LoRA''"]

subsection \<open>The two halves of the tree\<close>

definition has_capacity :: "Config \<Rightarrow> podMetrics \<Rightarrow> bool" where
  \<comment> \<open>the pod can take a sheddable request\<close>
  "has_capacity config pod \<longleftrightarrow> queue_size pod \<le> QueueThresholdCritical config \<and>
     f64_le (kv_usage pod) (KVCacheThreshold config)"

definition low_queue :: "Config \<Rightarrow> podMetrics \<Rightarrow> bool" where
  "low_queue config pod \<longleftrightarrow> queue_size pod < QueueingThresholdLoRA config"

lemma predicate_eqs [simp]:
  "lowQueueingPodPredicate config req = low_queue config"
  "noQueueAndLessThanKVCacheThresholdPredicate (QueueThresholdCritical config) (KVCacheThreshold config) req =
     has_capacity config"
  "criticalRequestPredicate req = (\<lambda>_. req_Critical req)"
  by (simp_all add: fun_eq_iff lowQueueingPodPredicate_def low_queue_def has_capacity_def
      noQueueAndLessThanKVCacheThresholdPredicate_def criticalRequestPredicate_def)

lemma length_filter_MaxInt: "int (length pods) \<le> MaxInt \<Longrightarrow> int (length (filter P pods)) \<le> MaxInt"
  using length_filter_le [of P pods] by linarith

lemma lowLatency_total:
  assumes sane: "sane_pods pods"
  shows "\<exists>r. Filter (lowLatencyFilter config) u req pods = (r, None) \<and> r \<noteq> [] \<and>
    set r \<subseteq> set (if \<exists>p\<in>set pods. low_queue config p then filter (low_queue config) pods else pods)"
proof (cases "\<exists>p\<in>set pods. low_queue config p")
  case True
  let ?low = "filter (low_queue config) pods"
  have low: "toFilterFunc (lowQueueingPodPredicate config) u req pods = (?low, None)"
    using True by (auto simp: toFilterFunc_eq filter_empty_conv)
  have "sane_pods ?low" using sane True by (auto simp: filter_empty_conv length_filter_MaxInt)
  from affinity_total [OF this, of config u req] low True sane show ?thesis
    by (auto simp: lowLatencyFilter_def filter_empty_conv)
next
  case False
  then have "toFilterFunc (lowQueueingPodPredicate config) u req pods = ([], Some (PlainError ''no pods left''))"
    by (auto simp: toFilterFunc_eq)
  with queue_lora_kv_tree.total [OF sane, of config u req] False show ?thesis
    by (auto simp: lowLatencyFilter_def)
qed

lemma sheddable_admits:
  assumes sane: "\<forall>p\<in>set pods. sane_metrics p" "int (length pods) \<le> MaxInt" and cap: "\<exists>p\<in>set pods. has_capacity config p"
  shows "\<exists>r. Filter (sheddableRequestFilter config) u req pods = (r, None) \<and> r \<noteq> [] \<and>
    set r \<subseteq> set (filter (has_capacity config) pods)"
proof -
  let ?cap = "filter (has_capacity config) pods"
  have f: "toFilterFunc (noQueueAndLessThanKVCacheThresholdPredicate (QueueThresholdCritical config)
      (KVCacheThreshold config)) u req pods = (?cap, None)"
    using cap by (auto simp: toFilterFunc_eq filter_empty_conv)
  have "sane_pods ?cap" using sane cap by (auto simp: filter_empty_conv length_filter_MaxInt)
  from queue_lora_kv_tree.total [OF this, of config u req] f cap show ?thesis
    by (auto simp: sheddableRequestFilter_def filter_empty_conv)
qed

lemma sheddable_drops:
  "\<not> (\<exists>p\<in>set pods. has_capacity config p) \<Longrightarrow>
   Filter (sheddableRequestFilter config) u req pods = drop_request u req pods"
  by (auto simp: sheddableRequestFilter_def toFilterFunc_eq drop_request_def)

lemma defaultFilter_split:
  "Filter (defaultFilter config) u req pods =
     (if req_Critical req \<and> pods \<noteq> [] then Filter (lowLatencyFilter config) u req pods
      else Filter (sheddableRequestFilter config) u req pods)"
  by (cases "req_Critical req") (simp_all add: defaultFilter_def toFilterFunc_eq)

lemma Schedule_picks:
  assumes "Filter (defaultFilter config) u req (PodGetAll ds) = (pods, None)" "pods \<noteq> []"
  shows "\<exists>pod\<in>set pods. Schedule config ds u r req = Ret (Inr pod)"
proof -
  have "0 < int (length pods)" using assms(2) by simp
  then have "nat (int r mod int (length pods)) < length pods" by (simp add: nat_less_iff)
  with assms show ?thesis by (auto simp: Schedule_def Intn_def)
qed

lemma Schedule_drops:
  assumes "Filter (defaultFilter config) u req (PodGetAll ds) = drop_request u req (PodGetAll ds)"
  shows "Schedule config ds u r req = Ret (Inl (PlainError (''failed to apply filter, resulted 0 pods, this should never happen: inference gateway: InferencePoolResourceExhausted - dropping request due to limited backend resources'')))"
  using assms
  by (simp add: Schedule_def drop_request_def wrapped_error_def error_codes Itoa_0)

subsection \<open>Properties of Schedule\<close>

definition example_config :: Config where
  "example_config = LoadConfig (\<lambda>_. None) Map.empty"

definition example_request :: "bool \<Rightarrow> LLMRequest" where
  "example_request critical =
     \<lparr>req_Model = ''m'', req_TargetModels = [], ResolvedTargetModel = ''lora'', req_Critical = critical\<rparr>"

lemma is_f64_1 [simp]: "is_f64 (Fin 1)"
  by (rule is_f64_exact [of _ 1 0]) (simp_all add: MaxFloat_def)

lemma example_sane: "sane_pods (PodGetAll example_ds)"
  by (simp add: example_pods sane_metrics_def newMetrics_def MaxInt_def)

lemma example_capacity:
  "has_capacity example_config (PodGetAll example_ds ! 0)" "\<not> has_capacity example_config (PodGetAll example_ds ! 1)"
  "low_queue example_config (PodGetAll example_ds ! 0)" "\<not> low_queue example_config (PodGetAll example_ds ! 1)"
  by (simp_all add: example_pods has_capacity_def low_queue_def newMetrics_def example_config_def
      LoadConfig_def GetEnvInt_def GetEnvFloat_def defaultQueueThresholdCritical_def
      defaultQueueingThresholdLoRA_def defaultKVCacheThreshold_def f64_eval)

text \<open>
  C4. A critical request is never dropped: as long as the datastore has a pod and all its pods
  report sane metrics, \<open>Schedule\<close> returns one of them, whatever the configuration and the
  random draws; and it returns one with a short queue if there is one.
\<close>

theorem Schedule_critical:
  assumes sane: "sane_pods (PodGetAll ds)" and crit: "req_Critical req"
  shows "\<exists>pod\<in>set (PodGetAll ds). Schedule config ds u r req = Ret (Inr pod) \<and>
    ((\<exists>p\<in>set (PodGetAll ds). low_queue config p) \<longrightarrow> low_queue config pod)"
proof -
  from lowLatency_total [OF sane, of config u req] obtain res where res:
    "Filter (lowLatencyFilter config) u req (PodGetAll ds) = (res, None)" "res \<noteq> []"
    "set res \<subseteq> set (if \<exists>p\<in>set (PodGetAll ds). low_queue config p
      then filter (low_queue config) (PodGetAll ds) else PodGetAll ds)" by blast
  from res(1) sane crit have "Filter (defaultFilter config) u req (PodGetAll ds) = (res, None)"
    by (simp add: defaultFilter_split)
  from Schedule_picks [OF this res(2), of r] res(3) show ?thesis by (auto split: if_splits)
qed

theorem Schedule_critical_witness:
  "\<exists>pod\<in>set (PodGetAll example_ds).
     Schedule example_config example_ds (Fin 0) 7 (example_request True) = Ret (Inr pod) \<and> low_queue example_config pod"
proof -
  have "\<exists>p\<in>set (PodGetAll example_ds). low_queue example_config p"
    using example_capacity(3) by (metis example_sane length_greater_0_conv nth_mem)
  moreover have "req_Critical (example_request True)" by (simp add: example_request_def)
  ultimately show ?thesis using Schedule_critical [OF example_sane] by blast
qed

text \<open>
  C5. A sheddable request is admitted exactly when some pod has capacity, that is, when its
  queue is at most \<open>QueueThresholdCritical\<close> (5 unless configured) and its cache usage at most
  \<open>KVCacheThreshold\<close>: the pod that is returned has capacity itself, and with no such pod the
  request is dropped with the error of the last filter. All pods report sane metrics. The
  comments of \<open>sheddableRequestFilter\<close> ask for a pod that is not queuing at all; what the code
  asks for is the threshold (lemma \<open>sheddable_admitted_while_queuing\<close> below).
\<close>

theorem Schedule_sheddable:
  assumes sane: "\<forall>p\<in>set (PodGetAll ds). sane_metrics p" "int (length (PodGetAll ds)) \<le> MaxInt"
    and noncrit: "\<not> req_Critical req"
  shows "if \<exists>p\<in>set (PodGetAll ds). has_capacity config p
    then \<exists>pod\<in>set (PodGetAll ds). Schedule config ds u r req = Ret (Inr pod) \<and> has_capacity config pod
    else Schedule config ds u r req = Ret (Inl (PlainError (''failed to apply filter, resulted 0 pods, this should never happen: inference gateway: InferencePoolResourceExhausted - dropping request due to limited backend resources'')))"
proof (cases "\<exists>p\<in>set (PodGetAll ds). has_capacity config p")
  case True
  from sheddable_admits [OF sane True, of u req] obtain res where res:
    "Filter (sheddableRequestFilter config) u req (PodGetAll ds) = (res, None)" "res \<noteq> []"
    "set res \<subseteq> set (filter (has_capacity config) (PodGetAll ds))" by blast
  from res(1) noncrit have "Filter (defaultFilter config) u req (PodGetAll ds) = (res, None)"
    by (simp add: defaultFilter_split)
  from Schedule_picks [OF this res(2), of r] res(3) True show ?thesis by auto
next
  case False
  with noncrit have "Filter (defaultFilter config) u req (PodGetAll ds) = drop_request u req (PodGetAll ds)"
    by (simp only: defaultFilter_split sheddable_drops if_False simp_thms)
  from Schedule_drops [OF this] False show ?thesis by simp
qed

theorem Schedule_sheddable_witness:
  "\<exists>pod\<in>set (PodGetAll example_ds).
     Schedule example_config example_ds (Fin 0) 7 (example_request False) = Ret (Inr pod) \<and>
     has_capacity example_config pod"
proof -
  have "\<exists>p\<in>set (PodGetAll example_ds). has_capacity example_config p"
    using example_capacity(1) by (metis example_sane length_greater_0_conv nth_mem)
  moreover have "\<not> req_Critical (example_request False)" by (simp add: example_request_def)
  ultimately show ?thesis
    using Schedule_sheddable [of example_ds "example_request False" example_config "Fin 0" 7] example_sane
    by meson
qed

text \<open>
  A sheddable request is admitted while every pod is queuing.
\<close>

lemma sheddable_admitted_while_queuing:
  \<comment> \<open>every pod has three requests waiting, and a sheddable request is sent to one of them\<close>
  "(\<forall>pod\<in>set (PodGetAll (example_queuing 3)). 0 < queue_size pod) \<and>
   (\<exists>pod\<in>set (PodGetAll (example_queuing 3)).
      Schedule example_config (example_queuing 3) u r (example_request False) = Ret (Inr pod))"
proof
  show "\<forall>pod\<in>set (PodGetAll (example_queuing 3)). 0 < queue_size pod" by (simp add: example_queuing_pods)
  have sane: "\<forall>pod\<in>set (PodGetAll (example_queuing 3)). sane_metrics pod" "int (length (PodGetAll (example_queuing 3))) \<le> MaxInt"
    by (simp_all add: example_queuing_pods sane_metrics_def newMetrics_def MaxInt_def)
  have "\<exists>pod\<in>set (PodGetAll (example_queuing 3)). has_capacity example_config pod"
    by (simp add: example_queuing_pods has_capacity_def newMetrics_def example_config_def LoadConfig_def GetEnvInt_def
        GetEnvFloat_def defaultQueueThresholdCritical_def defaultKVCacheThreshold_def f64_eval)
  from sheddable_admits [OF sane this, of u "example_request False"] obtain res where res:
    "Filter (sheddableRequestFilter example_config) u (example_request False) (PodGetAll (example_queuing 3)) = (res, None)" "res \<noteq> []"
    "set res \<subseteq> set (PodGetAll (example_queuing 3))" by auto
  from res(1) have "Filter (defaultFilter example_config) u (example_request False) (PodGetAll (example_queuing 3)) = (res, None)"
    by (simp add: defaultFilter_split example_request_def)
  from Schedule_picks [OF this res(2), of r] res(3)
  show "\<exists>pod\<in>set (PodGetAll (example_queuing 3)).
      Schedule example_config (example_queuing 3) u r (example_request False) = Ret (Inr pod)" by blast
qed

text \<open>
  Without pods every request is dropped, a critical one too: its filter fails on the empty
  list.
\<close>

lemma no_pods_drop:
  assumes "PodGetAll ds = []"
  shows "Schedule config ds u r req = Ret (Inl (PlainError (''failed to apply filter, resulted 0 pods, this should never happen: inference gateway: InferencePoolResourceExhausted - dropping request due to limited backend resources'')))"
proof (rule Schedule_drops)
  show "Filter (defaultFilter config) u req (PodGetAll ds) = drop_request u req (PodGetAll ds)"
    using sheddable_drops [of "[]" config u req] assms by (simp add: defaultFilter_split)
qed

text \<open>
  C26. \<open>Schedule\<close> does not panic, for any metrics, and a pod it returns is in the datastore.
\<close>

theorem Schedule_member:
  "\<exists>res. Schedule config ds u r req = Ret res \<and>
     (case res of Inl e \<Rightarrow> True | Inr pod \<Rightarrow> pod \<in> set (PodGetAll ds))"
proof -
  obtain pods err where f: "Filter (defaultFilter config) u req (PodGetAll ds) = (pods, err)" by fastforce
  show ?thesis
  proof (cases "err = None \<and> pods \<noteq> []")
    case True
    have "subseq pods (PodGetAll ds)"
      using Filter_narrowing [OF narrowing_tree, of config u req "PodGetAll ds"] f by simp
    with Schedule_picks [of config u req ds pods r] f True show ?thesis
      by (fastforce elim: list_emb_set)
  next
    case False
    with f show ?thesis by (auto simp: Schedule_def)
  qed
qed

lemma affinity_keeps:
  assumes "\<exists>p\<in>set pods. model_active req p" "f64_lt u (LoraAffinityThreshold config)"
  shows "loRASoftAffinityFilter config u req pods = (filter (model_active req) pods, None)"
  using assms by (auto simp: loRASoftAffinityFilter_def affinity_loop_filter filter_empty_conv)

text \<open>
  C23. LoRA affinity: when all pods report sane metrics, a pod with a short queue has the
  adapter of a critical request loaded, and the draw is below the affinity threshold, the
  request goes to such a pod.
\<close>

theorem Schedule_affinity:
  assumes sane: "sane_pods (PodGetAll ds)" and crit: "req_Critical req"
    and act: "\<exists>p\<in>set (PodGetAll ds). low_queue config p \<and> model_active req p"
    and draw: "f64_lt u (LoraAffinityThreshold config)"
  shows "\<exists>pod\<in>set (PodGetAll ds). Schedule config ds u r req = Ret (Inr pod) \<and>
    low_queue config pod \<and> model_active req pod"
proof -
  let ?low = "filter (low_queue config) (PodGetAll ds)"
  let ?aff = "filter (model_active req) ?low"
  have low: "toFilterFunc (lowQueueingPodPredicate config) u req (PodGetAll ds) = (?low, None)"
    using act by (auto simp: toFilterFunc_eq filter_empty_conv)
  have aff: "loRASoftAffinityFilter config u req ?low = (?aff, None)"
    using act draw by (intro affinity_keeps) auto
  have "sane_pods ?aff"
    using sane act by (auto simp: filter_empty_conv length_filter_MaxInt simp del: filter_filter)
  from queue_kv_tree.total [OF this, of u req] obtain res where res:
    "Filter queueAndKVCacheFilter u req ?aff = (res, None)" "res \<noteq> []" "set res \<subseteq> set ?aff" by blast
  have ne: "?low \<noteq> []" "?aff \<noteq> []" using act by (auto simp: filter_empty_conv)
  have "Filter (defaultFilter config) u req (PodGetAll ds) = (res, None)"
    using sane crit low aff res(1) ne
    by (simp add: defaultFilter_split lowLatencyFilter_def del: filter_filter predicate_eqs)
  from Schedule_picks [OF this res(2), of r] res(3) show ?thesis by auto
qed

theorem Schedule_affinity_witness:
  "\<exists>pod\<in>set (PodGetAll example_ds).
     Schedule (example_config\<lparr>QueueingThresholdLoRA := 1000\<rparr>) example_ds (Fin 0) 7 (example_request True) = Ret (Inr pod) \<and>
     low_queue (example_config\<lparr>QueueingThresholdLoRA := 1000\<rparr>) pod \<and> model_active (example_request True) pod"
proof (rule Schedule_affinity [OF example_sane])
  show "req_Critical (example_request True)" by (simp add: example_request_def)
  show "\<exists>p\<in>set (PodGetAll example_ds). low_queue (example_config\<lparr>QueueingThresholdLoRA := 1000\<rparr>) p \<and>
      model_active (example_request True) p"
    by (simp add: example_pods low_queue_def model_active_def example_request_def newMetrics_def)
  show "f64_lt (Fin 0) (LoraAffinityThreshold (example_config\<lparr>QueueingThresholdLoRA := 1000\<rparr>))"
    by (simp add: example_config_def LoadConfig_def GetEnvFloat_def defaultLoraAffinityThreshold_def f64_eval)
qed

text \<open>
  C24. The least-queuing filter: it keeps the pods whose queue lies in the first of \<open>n\<close> equal
  parts of the range between the shortest and the longest queue, and nothing overflows.
\<close>

theorem leastQueuing_first_range:
  assumes "pods \<noteq> []" "\<forall>p\<in>set pods. 0 \<le> queue_size p \<and> queue_size p \<le> MaxInt"
  shows "leastQueuingFilterFunc u req pods =
    (filter (\<lambda>p. queue_size p \<le> Min (queue_size ` set pods) +
        (Max (queue_size ` set pods) - Min (queue_size ` set pods)) div int (length pods)) pods, None)"
  using leastQueuing_limit [OF assms, of u req] by (simp add: queue_limit_def Let_def)

theorem leastQueuing_first_range_witness:
  "leastQueuingFilterFunc (Fin 0) (example_request True) (PodGetAll example_ds) = ([PodGetAll example_ds ! 0], None)"
proof -
  have "PodGetAll example_ds \<noteq> []" "\<forall>p\<in>set (PodGetAll example_ds). 0 \<le> queue_size p \<and> queue_size p \<le> MaxInt"
    by (simp_all add: example_pods newMetrics_def MaxInt_def)
  from leastQueuing_first_range [OF this] show ?thesis
    by (simp add: example_pods newMetrics_def)
qed

text \<open>
  C25. The least-KV-cache filter: with the lowest usage \<open>lo\<close> and the highest usage \<open>hi\<close>, it
  keeps the pods up to \<open>lo + (hi - lo) / n\<close>, computed in doubles, and a pod with the lowest
  usage is always kept.
\<close>

theorem leastKVCache_first_range:
  assumes sane: "sane_pods pods" and lo: "lo \<in> set pods" "kv_usage lo \<noteq> PInf"
    and hi: "hi \<in> set pods" "f64_le (Fin 0) (kv_usage hi)"
    and range: "\<forall>q\<in>set pods. f64_le (kv_usage lo) (kv_usage q) \<and> f64_le (kv_usage q) (kv_usage hi)"
  shows "leastKVCacheFilterFunc u req pods =
      (filter (\<lambda>q. f64_le (kv_usage q)
         (f64_add (kv_usage lo) (f64_div_len (f64_sub (kv_usage hi) (kv_usage lo)) (length pods)))) pods, None) \<and>
    lo \<in> set (fst (leastKVCacheFilterFunc u req pods))"
proof
  have "\<forall>q\<in>set pods. f64_le (kv_usage lo) (kv_usage q)" using range by blast
  with leastKVCache_keeps_min [of pods lo u req] sane lo(1)
  show "lo \<in> set (fst (leastKVCacheFilterFunc u req pods))" by blast
  have "kv_range_loop pods MaxFloat64 (Fin 0) = (kv_usage lo, kv_usage hi)"
    using sane lo hi range by (intro kv_range_loop_bounds) auto
  with range show "leastKVCacheFilterFunc u req pods =
      (filter (\<lambda>q. f64_le (kv_usage q)
         (f64_add (kv_usage lo) (f64_div_len (f64_sub (kv_usage hi) (kv_usage lo)) (length pods)))) pods, None)"
    by (auto simp: leastKVCacheFilterFunc_def intro!: filter_cong)
qed

theorem leastKVCache_first_range_witness:
  "PodGetAll example_ds ! 0 \<in> set (fst (leastKVCacheFilterFunc (Fin 0) (example_request True) (PodGetAll example_ds)))"
proof -
  let ?p = "PodGetAll example_ds ! 0" and ?q = "PodGetAll example_ds ! 1"
  have "kv_usage ?p = Fin 0" "kv_usage ?q = Fin 1" "?p \<in> set (PodGetAll example_ds)" "?q \<in> set (PodGetAll example_ds)"
    "\<forall>q\<in>set (PodGetAll example_ds). q = ?p \<or> q = ?q"
    by (simp_all add: example_pods newMetrics_def)
  with leastKVCache_first_range [OF example_sane, of ?p ?q] show ?thesis by fastforce
qed

end
