(* ===== verification/Epp_Metrics.thy ===== *)
theory Epp_Metrics
  imports Prelude Float64
begin

text \<open>
  pkg/epp/metrics/metrics.go: the Prometheus metrics of the endpoint picker. A counter or
  gauge vector is a function from label values to its value, a histogram vector a function
  from label values to the observations made so far (\<open>bucket_count\<close> gives what Prometheus
  exports for them). The registry of component-base is the list of the registered names;
  registering a name twice panics. Times are in nanoseconds.
\<close>

type_synonym model_labels = "string \<times> string"

record epp_metrics =
  requestCounter :: "model_labels \<Rightarrow> nat"
  requestErrCounter :: "string \<times> string \<times> string \<Rightarrow> nat"
  requestLatencies :: "model_labels \<Rightarrow> f64 list"
  requestSizes :: "model_labels \<Rightarrow> f64 list"
  responseSizes :: "model_labels \<Rightarrow> f64 list"
  inputTokens :: "model_labels \<Rightarrow> f64 list"
  outputTokens :: "model_labels \<Rightarrow> f64 list"
  runningRequests :: "string \<Rightarrow> int"
  inferencePoolAvgKVCache :: "string \<Rightarrow> f64 option"
  inferencePoolAvgQueueSize :: "string \<Rightarrow> f64 option"
  inferencePoolReadyPods :: "string \<Rightarrow> f64 option"

definition no_metrics :: epp_metrics where
  "no_metrics = \<lparr>requestCounter = (\<lambda>_. 0), requestErrCounter = (\<lambda>_. 0), requestLatencies = (\<lambda>_. []),
     requestSizes = (\<lambda>_. []), responseSizes = (\<lambda>_. []), inputTokens = (\<lambda>_. []), outputTokens = (\<lambda>_. []),
     runningRequests = (\<lambda>_. 0), inferencePoolAvgKVCache = (\<lambda>_. None),
     inferencePoolAvgQueueSize = (\<lambda>_. None), inferencePoolReadyPods = (\<lambda>_. None)\<rparr>"

subsection \<open>Buckets\<close>

definition requestLatencies_buckets :: "rat list" where
  "requestLatencies_buckets =
     [5/1000, 25/1000, 5/100, 1/10, 2/10, 4/10, 6/10, 8/10, 1, 125/100, 15/10, 2, 3, 4, 5, 6, 8, 10, 15, 20,
      30, 45, 60, 120, 180, 240, 300, 360, 480, 600, 900, 1200, 1800, 2700, 3600]"

definition requestSizes_buckets :: "rat list" where
  "requestSizes_buckets =
     [64, 128, 256, 512, 1024, 2048, 4096, 8192, 16384, 32768, 65536,
      131072, 262144, 524288, 1048576, 2097152, 4194304, 8388608,
      16777216, 33554432, 67108864, 134217728, 268435456, 536870912, 1073741824]"

definition responseSizes_buckets :: "rat list" where
  "responseSizes_buckets = [1, 8, 16, 32, 64, 128, 256, 512, 1024, 2048, 4096, 8192, 16384, 32778, 65536]"

definition inputTokens_buckets :: "rat list" where
  "inputTokens_buckets =
     [1, 8, 16, 32, 64, 128, 256, 512, 1024, 2048, 4096, 8192, 16384, 32778, 65536, 131072, 262144, 524288, 1048576]"

definition outputTokens_buckets :: "rat list" where
  "outputTokens_buckets = [1, 8, 16, 32, 64, 128, 256, 512, 1024, 2048, 4096, 8192]"

definition bucket_count :: "rat list \<Rightarrow> f64 list \<Rightarrow> nat list" where
  \<comment> \<open>the cumulative counts of a histogram: observations up to each bound, then all\<close>
  "bucket_count bounds obs =
     map (\<lambda>b. length (filter (\<lambda>v. f64_le v (round64 b)) obs)) bounds @ [length obs]"

subsection \<open>Registration\<close>

definition collector_names :: "string list" where
  "collector_names =
     map (\<lambda>n. ''inference_model_'' @ n)
       [''request_total'', ''request_error_total'', ''request_duration_seconds'', ''request_sizes'',
        ''response_sizes'', ''input_tokens'', ''output_tokens'', ''running_requests''] @
     map (\<lambda>n. ''inference_pool_'' @ n)
       [''average_kv_cache_utilization'', ''average_queue_size'', ''ready_pods'']"

fun MustRegister :: "string list \<Rightarrow> string list \<Rightarrow> string list go" where
  "MustRegister reg [] = Ret reg"
| "MustRegister reg (n # ns) =
     (if n \<in> set reg then Panic ''duplicate metrics collector registration attempted''
      else MustRegister (reg @ [n]) ns)"

definition Register :: "bool \<times> string list \<Rightarrow> (bool \<times> string list) go" where
  \<comment> \<open>the state is the \<open>sync.Once\<close> and the registry\<close>
  "Register st =
     (case st of (done_once, reg) \<Rightarrow>
        if done_once then Ret st
        else go_bind (MustRegister reg collector_names) (\<lambda>reg'. Ret (True, reg')))"

subsection \<open>Recording\<close>

definition RecordRequestCounter :: "string \<Rightarrow> string \<Rightarrow> epp_metrics \<Rightarrow> epp_metrics" where
  "RecordRequestCounter modelName targetModelName s =
     s\<lparr>requestCounter := (requestCounter s)((modelName, targetModelName) :=
         requestCounter s (modelName, targetModelName) + 1)\<rparr>"

definition RecordRequestErrCounter :: "string \<Rightarrow> string \<Rightarrow> string \<Rightarrow> epp_metrics \<Rightarrow> epp_metrics" where
  "RecordRequestErrCounter modelName targetModelName code s =
     (if code \<noteq> [] then
        s\<lparr>requestErrCounter := (requestErrCounter s)((modelName, targetModelName, code) :=
            requestErrCounter s (modelName, targetModelName, code) + 1)\<rparr>
      else s)"

definition observe :: "(model_labels \<Rightarrow> f64 list) \<Rightarrow> model_labels \<Rightarrow> f64 \<Rightarrow> model_labels \<Rightarrow> f64 list" where
  "observe h l v = h(l := h l @ [v])"

definition RecordRequestSizes :: "string \<Rightarrow> string \<Rightarrow> int \<Rightarrow> epp_metrics \<Rightarrow> epp_metrics" where
  "RecordRequestSizes modelName targetModelName reqSize s =
     s\<lparr>requestSizes := observe (requestSizes s) (modelName, targetModelName) (float64_of_int reqSize)\<rparr>"

definition time_Sub :: "int \<Rightarrow> int \<Rightarrow> int" where
  \<comment> \<open>a \<open>time.Duration\<close> is an \<open>int64\<close>; \<open>Sub\<close> saturates\<close>
  "time_Sub t u = max MinInt (min MaxInt (t - u))"

definition duration_Seconds :: "int \<Rightarrow> f64" where
  "duration_Seconds d =
     (let sec = go_div d 1000000000; nsec = d - sec * 1000000000
      in f64_add (float64_of_int sec) (f64_div_pos (float64_of_int nsec) 1000000000))"

definition RecordRequestLatencies ::
  "string \<Rightarrow> string \<Rightarrow> int \<Rightarrow> int \<Rightarrow> epp_metrics \<Rightarrow> epp_metrics \<times> bool" where
  "RecordRequestLatencies modelName targetModelName received completed s =
     (if \<not> received < completed then (s, False)
      else (s\<lparr>requestLatencies := observe (requestLatencies s) (modelName, targetModelName)
                (duration_Seconds (time_Sub completed received))\<rparr>, True))"

definition RecordResponseSizes :: "string \<Rightarrow> string \<Rightarrow> int \<Rightarrow> epp_metrics \<Rightarrow> epp_metrics" where
  "RecordResponseSizes modelName targetModelName sz s =
     s\<lparr>responseSizes := observe (responseSizes s) (modelName, targetModelName) (float64_of_int sz)\<rparr>"

definition RecordInputTokens :: "string \<Rightarrow> string \<Rightarrow> int \<Rightarrow> epp_metrics \<Rightarrow> epp_metrics" where
  "RecordInputTokens modelName targetModelName sz s =
     (if 0 < sz
      then s\<lparr>inputTokens := observe (inputTokens s) (modelName, targetModelName) (float64_of_int sz)\<rparr>
      else s)"

definition RecordOutputTokens :: "string \<Rightarrow> string \<Rightarrow> int \<Rightarrow> epp_metrics \<Rightarrow> epp_metrics" where
  "RecordOutputTokens modelName targetModelName sz s =
     (if 0 < sz
      then s\<lparr>outputTokens := observe (outputTokens s) (modelName, targetModelName) (float64_of_int sz)\<rparr>
      else s)"

definition IncRunningRequests :: "string \<Rightarrow> epp_metrics \<Rightarrow> epp_metrics" where
  "IncRunningRequests modelName s =
     (if modelName \<noteq> []
      then s\<lparr>runningRequests := (runningRequests s)(modelName := runningRequests s modelName + 1)\<rparr> else s)"

definition DecRunningRequests :: "string \<Rightarrow> epp_metrics \<Rightarrow> epp_metrics" where
  "DecRunningRequests modelName s =
     (if modelName \<noteq> []
      then s\<lparr>runningRequests := (runningRequests s)(modelName := runningRequests s modelName - 1)\<rparr> else s)"

definition RecordInferencePoolAvgKVCache :: "string \<Rightarrow> f64 \<Rightarrow> epp_metrics \<Rightarrow> epp_metrics" where
  "RecordInferencePoolAvgKVCache name utilization s =
     s\<lparr>inferencePoolAvgKVCache := (inferencePoolAvgKVCache s)(name := Some utilization)\<rparr>"

definition RecordInferencePoolAvgQueueSize :: "string \<Rightarrow> f64 \<Rightarrow> epp_metrics \<Rightarrow> epp_metrics" where
  "RecordInferencePoolAvgQueueSize name queueSize s =
     s\<lparr>inferencePoolAvgQueueSize := (inferencePoolAvgQueueSize s)(name := Some queueSize)\<rparr>"

definition RecordinferencePoolReadyPods :: "string \<Rightarrow> f64 \<Rightarrow> epp_metrics \<Rightarrow> epp_metrics" where
  "RecordinferencePoolReadyPods name runningPods s =
     s\<lparr>inferencePoolReadyPods := (inferencePoolReadyPods s)(name := Some runningPods)\<rparr>"

lemmas recorders = RecordRequestCounter_def RecordRequestErrCounter_def RecordRequestSizes_def
  RecordRequestLatencies_def RecordResponseSizes_def RecordInputTokens_def RecordOutputTokens_def
  IncRunningRequests_def DecRunningRequests_def

subsection \<open>Lemmas\<close>

lemma running_frame [simp]:
  "runningRequests (RecordRequestCounter a b s) = runningRequests s"
  "runningRequests (RecordRequestErrCounter a b c s) = runningRequests s"
  "runningRequests (RecordRequestSizes a b i s) = runningRequests s"
  "runningRequests (fst (RecordRequestLatencies a b t u s)) = runningRequests s"
  "runningRequests (RecordResponseSizes a b i s) = runningRequests s"
  "runningRequests (RecordInputTokens a b i s) = runningRequests s"
  "runningRequests (RecordOutputTokens a b i s) = runningRequests s"
  by (simp_all add: recorders)

lemma Dec_Inc [simp]: "runningRequests (DecRunningRequests m (IncRunningRequests m s)) = runningRequests s"
  by (auto simp: recorders fun_eq_iff)

lemma MustRegister_distinct:
  "distinct ns \<Longrightarrow> set ns \<inter> set reg = {} \<Longrightarrow> MustRegister reg ns = Ret (reg @ ns)"
  by (induction reg ns rule: MustRegister.induct) auto

lemma bucket_count_mono:
  assumes "sorted bounds"
  shows "sorted (bucket_count bounds obs)"
proof -
  have le: "length (filter (\<lambda>v. f64_le v (round64 a)) obs) \<le> length (filter (\<lambda>v. f64_le v (round64 b)) obs)"
    if "a \<le> b" for a b
  proof -
    have "f64_le v (round64 a) \<Longrightarrow> f64_le v (round64 b)" for v
      using round64_mono [OF that] f64_le_trans by blast
    then show ?thesis by (induction obs) auto
  qed
  have "sorted (map (\<lambda>b. length (filter (\<lambda>v. f64_le v (round64 b)) obs)) bounds)"
    using assms by (induction bounds) (auto intro: le)
  then show ?thesis by (auto simp: bucket_count_def sorted_append)
qed

text \<open>
  The metrics register: every histogram has strictly increasing bucket bounds (which the
  Prometheus library demands), the names of the collectors are distinct, so \<open>Register\<close>
  returns on a registry that has none of them, and calling it again changes nothing.
\<close>

theorem Register_once:
  assumes "set collector_names \<inter> set reg = {}"
  shows "Register (False, reg) = Ret (True, reg @ collector_names) \<and>
    Register (True, reg @ collector_names) = Ret (True, reg @ collector_names) \<and>
    list_all (sorted_wrt (<)) [requestLatencies_buckets, requestSizes_buckets, responseSizes_buckets,
      inputTokens_buckets, outputTokens_buckets]"
proof -
  have "distinct collector_names" by (simp add: collector_names_def)
  with MustRegister_distinct [of collector_names reg] assms
  have "MustRegister reg collector_names = Ret (reg @ collector_names)" by blast
  then show ?thesis
    by (simp add: Register_def requestLatencies_buckets_def requestSizes_buckets_def
        responseSizes_buckets_def inputTokens_buckets_def outputTokens_buckets_def)
qed

theorem Register_once_witness:
  "Register (False, [''go_goroutines'']) = Ret (True, ''go_goroutines'' # collector_names)"
proof -
  have "set collector_names \<inter> set [''go_goroutines''] = {}" by (simp add: collector_names_def)
  from Register_once [OF this] show ?thesis by simp
qed

end
