(* ===== verification/Streaming_Server.thy ===== *)
theory Streaming_Server
  imports Frontend Scheduler Epp_Metrics
begin

text \<open>
  handlers/streamingserver.go: the external processing server for full-duplex streaming.

  One stream is a list of what \<open>Recv\<close> returns. What a handler reads from outside while it
  handles a message (clock, datastore, random draws, the front end) is the record \<open>step_env\<close>
  that comes with the message. The variables of \<open>Process\<close> are the record \<open>stream_state\<close>,
  together with the responses sent so far and the metrics. \<open>send n\<close> is the error of the
  send that would be the \<open>n\<close>-th to succeed, \<open>None\<close> if it succeeds.
\<close>

record StreamingServer =
  destinationEndpointHintKey :: string
  destinationEndpointHintMetadataNamespace :: string

record step_env =
  env_now :: int
  env_ds :: datastore
  env_config :: Config
  env_u :: f64
  env_model_draw :: nat
  env_pod_draw :: nat
  env_post :: "string \<Rightarrow> fe_result"

subsection \<open>Request headers\<close>

definition endpoint_of :: "Pod \<Rightarrow> InferencePool \<Rightarrow> string" where
  "endpoint_of pod pool = Address pod @ '':'' @ Itoa (sint (TargetPortNumber (pool_Spec pool)))"

definition endpoint_metadata :: "StreamingServer \<Rightarrow> string \<Rightarrow> (string \<times> pb_value) list" where
  "endpoint_metadata s endpoint =
     (let targetEndpointValue = [(destinationEndpointHintKey s, StringValue endpoint)]
      in if destinationEndpointHintMetadataNamespace s \<noteq> []
         then [(destinationEndpointHintMetadataNamespace s, StructValue targetEndpointValue)]
         else targetEndpointValue)"

definition request_headers :: "StreamingServer \<Rightarrow> string \<Rightarrow> string \<Rightarrow> int \<Rightarrow> HeaderValue list" where
  "request_headers s workerInstanceID endpoint requestBodyLength =
     [\<lparr>hdr_Key = destinationEndpointHintKey s, hdr_RawValue = endpoint\<rparr>] @
     (if 0 < requestBodyLength
      then [\<lparr>hdr_Key = ''Content-Length'', hdr_RawValue = Itoa requestBodyLength\<rparr>] else []) @
     (if workerInstanceID \<noteq> []
      then [\<lparr>hdr_Key = ''x-worker-instance-id'', hdr_RawValue = workerInstanceID\<rparr>] else [])"

definition populateRequestHeaderResponse :: "StreamingServer \<Rightarrow> RequestContext \<Rightarrow> string \<Rightarrow> int \<Rightarrow> RequestContext" where
  "populateRequestHeaderResponse s reqCtx endpoint requestBodyLength =
     reqCtx\<lparr>reqHeaderResp := Some
       \<lparr>resp_Response = RespRequestHeaders
          \<lparr>ClearRouteCache = True,
           SetHeaders = request_headers s (WorkerInstanceID reqCtx) endpoint requestBodyLength,
           BodyMutation_field = None\<rparr>,
        DynamicMetadata = Some (endpoint_metadata s endpoint)\<rparr>\<rparr>"

definition HandleRequestHeaders ::
  "StreamingServer \<Rightarrow> step_env \<Rightarrow> RequestContext \<Rightarrow> HttpHeaders \<Rightarrow> (RequestContext \<times> error option) go" where
  "HandleRequestHeaders s env reqCtx h =
     (let ctx1 = reqCtx\<lparr>RequestReceivedTimestamp := env_now env\<rparr> in
      if headers_EndOfStream h then
        go_bind (GetRandomPod (env_ds env) (env_pod_draw env)) (\<lambda>pod.
          case PoolGet (env_ds env) of
            Inl err \<Rightarrow> Ret (ctx1, Some err)
          | Inr pool \<Rightarrow> Ret (populateRequestHeaderResponse s ctx1 (endpoint_of pod pool) 0, None))
      else Ret (ctx1, None))"

subsection \<open>Request body\<close>

definition assembleRequest :: "datastore \<Rightarrow> nat \<Rightarrow> json_map option \<Rightarrow> (error + LLMRequest) go" where
  \<comment> \<open>from the body to the scheduler's request: resolve the target model\<close>
  "assembleRequest ds r requestBodyMap =
     (case as_string (json_get requestBodyMap ''model'') of
        None \<Rightarrow> Ret (Inl (EppError BadRequest ''model not found in request''))
      | Some model \<Rightarrow>
          (case ModelGet ds model of
             None \<Rightarrow> Ret (Inl (EppError BadConfiguration
                       (''error finding a model object in InferenceModel for input '' @ model)))
           | Some modelObj \<Rightarrow>
               go_bind (if 0 < length (TargetModels (model_Spec modelObj))
                        then RandomWeightedDraw modelObj r else Ret model) (\<lambda>modelName.
                 if 0 < length (TargetModels (model_Spec modelObj)) \<and> modelName = [] then
                   Ret (Inl (EppError BadConfiguration
                     (''error getting target model name for model '' @ Name (model_meta modelObj))))
                 else Ret (Inr \<lparr>req_Model = model, req_TargetModels = [], ResolvedTargetModel = modelName,
                                req_Critical = IsCritical modelObj\<rparr>))))"

definition replace_model :: "LLMRequest \<Rightarrow> json_map option \<Rightarrow> json_map option" where
  "replace_model llmReq m =
     (if req_Model llmReq \<noteq> ResolvedTargetModel llmReq
      then map_option (AList.update ''model'' (JString (ResolvedTargetModel llmReq))) m else m)"

definition nn_String :: "NamespacedName \<Rightarrow> string" where
  "nn_String nn = nn_Namespace nn @ ''/'' @ nn_Name nn"

definition body_response :: "string \<Rightarrow> ProcessingResponse" where
  "body_response requestBodyBytes =
     mk_response (RespRequestBody (noCommon\<lparr>BodyMutation_field := Some (StreamedResponse requestBodyBytes True)\<rparr>))"

definition ask_frontend ::
  "json_codec \<Rightarrow> step_env \<Rightarrow> RequestContext \<Rightarrow> json_map option \<Rightarrow> RequestContext \<times> json_map option" where
  "ask_frontend codec env reqCtx m =
     (case callFrontEndForWorker codec (env_post env) m of
        (Inl feErr, m') \<Rightarrow> (reqCtx, m')
      | (Inr workerID, m') \<Rightarrow>
          (if workerID \<noteq> [] then reqCtx\<lparr>WorkerInstanceID := workerID\<rparr> else reqCtx, m'))"

definition HandleRequestBody ::
  "StreamingServer \<Rightarrow> json_codec \<Rightarrow> step_env \<Rightarrow> RequestContext \<Rightarrow> json_map option \<Rightarrow>
   ((RequestContext \<times> json_map option) \<times> error option) go" where
  \<comment> \<open>the second component is the decoded body as the handler leaves it\<close>
  "HandleRequestBody s codec env reqCtx requestBodyMap =
     go_bind (assembleRequest (env_ds env) (env_model_draw env) requestBodyMap) (\<lambda>res.
       case res of
         Inl err \<Rightarrow> Ret ((reqCtx, requestBodyMap), Some err)
       | Inr llmReq \<Rightarrow>
           let body1 = replace_model llmReq requestBodyMap in
           (case MarshalMap codec body1 of
              Inl e \<Rightarrow> Ret ((reqCtx, body1), Some (EppError Internal (''error marshaling request body: '' @ e)))
            | Inr requestBodyBytes \<Rightarrow>
                (case ask_frontend codec env reqCtx body1 of (ctx1, body2) \<Rightarrow>
                   go_bind (Schedule (env_config env) (env_ds env) (env_u env) (env_pod_draw env) llmReq) (\<lambda>target.
                     case target of
                       Inl e \<Rightarrow> Ret ((ctx1, body2), Some (EppError InferencePoolResourceExhausted
                                  (''failed to find target pod: '' @ error_Error e)))
                     | Inr pm \<Rightarrow>
                         (case PoolGet (env_ds env) of
                            Inl err \<Rightarrow> Ret ((ctx1, body2), Some err)
                          | Inr pool \<Rightarrow>
                              let endpoint = endpoint_of (pm_pod pm) pool;
                                  ctx2 = ctx1\<lparr>ctx_Model := req_Model llmReq,
                                    ctx_ResolvedTargetModel := ResolvedTargetModel llmReq,
                                    RequestSize := int (length requestBodyBytes),
                                    TargetPod := nn_String (pm_nn pm), TargetEndpoint := endpoint\<rparr>;
                                  ctx3 = populateRequestHeaderResponse s ctx2 endpoint (int (length requestBodyBytes))
                              in Ret ((ctx3\<lparr>reqBodyResp := Some (body_response requestBodyBytes)\<rparr>, body2), None))))))"

subsection \<open>Response body\<close>

definition usage_field :: "(f64 \<Rightarrow> int) \<Rightarrow> json_map \<Rightarrow> string \<Rightarrow> int go" where
  \<comment> \<open>\<open>int(usg[k].(float64))\<close>, which panics for any other type\<close>
  "usage_field conv usg k =
     (case map_of usg k of
        Some (JNum v) \<Rightarrow> Ret (f64_to_int conv v)
      | Some JNegZero \<Rightarrow> Ret 0
      | _ \<Rightarrow> Panic ''interface conversion: interface {} is not float64'')"

definition parse_usage :: "(f64 \<Rightarrow> int) \<Rightarrow> json \<Rightarrow> Usage go" where
  "parse_usage conv u =
     (case u of
        JObject usg \<Rightarrow>
          go_bind (usage_field conv usg ''prompt_tokens'') (\<lambda>p.
            go_bind (usage_field conv usg ''completion_tokens'') (\<lambda>c.
              go_bind (usage_field conv usg ''total_tokens'') (\<lambda>t.
                Ret \<lparr>PromptTokens = p, CompletionTokens = c, TotalTokens = t\<rparr>)))
      | _ \<Rightarrow> Panic ''interface conversion: interface {} is not map[string]interface {}'')"

definition streamed_body :: "string \<Rightarrow> bool \<Rightarrow> ProcessingResponse" where
  "streamed_body bytes eos =
     mk_response (RespResponseBody (noCommon\<lparr>BodyMutation_field := Some (StreamedResponse bytes eos)\<rparr>))"

definition HandleResponseBody ::
  "json_codec \<Rightarrow> (f64 \<Rightarrow> int) \<Rightarrow> RequestContext \<Rightarrow> json_map option \<Rightarrow> (RequestContext \<times> error option) go" where
  "HandleResponseBody codec conv reqCtx response =
     (case MarshalMap codec response of
        Inl e \<Rightarrow> Ret (reqCtx, Some (PlainError e))
      | Inr responseBytes \<Rightarrow>
          go_bind
            (case json_get response ''usage'' of
               None \<Rightarrow> Ret reqCtx
             | Some JNull \<Rightarrow> Ret reqCtx
             | Some u \<Rightarrow> go_bind (parse_usage conv u) (\<lambda>usage. Ret (reqCtx\<lparr>ctx_Usage := usage\<rparr>)))
            (\<lambda>ctx1. Ret (ctx1\<lparr>ResponseSize := int (length responseBytes), ResponseComplete := True,
                              respBodyResp := Some (streamed_body responseBytes True)\<rparr>, None)))"

definition HandleResponseBodyModelStreaming ::
  "json_codec \<Rightarrow> RequestContext \<Rightarrow> string \<Rightarrow> epp_metrics \<Rightarrow> epp_metrics" where
  "HandleResponseBodyModelStreaming codec reqCtx responseText mets =
     (if Contains responseText streamingEndMsg then
        let usage = ParseRespForUsage codec responseText in
        RecordOutputTokens (ctx_Model reqCtx) (ctx_ResolvedTargetModel reqCtx) (CompletionTokens usage)
          (RecordInputTokens (ctx_Model reqCtx) (ctx_ResolvedTargetModel reqCtx) (PromptTokens usage) mets)
      else mets)"

subsection \<open>Response headers\<close>

definition header_step :: "RequestContext \<Rightarrow> HeaderValue \<Rightarrow> RequestContext" where
  "header_step reqCtx header =
     (if hdr_Key header = ''status'' \<and> hdr_RawValue header \<noteq> ''200'' then
        reqCtx\<lparr>ResponseStatusCode := ModelServerError\<rparr>
      else if hdr_Key header = ''content-type'' \<and> Contains (hdr_RawValue header) ''text/event-stream'' then
        reqCtx\<lparr>modelServerStreaming := True\<rparr>
      else reqCtx)"

definition debug_header_response :: ProcessingResponse where
  "debug_header_response =
     mk_response (RespResponseHeaders (noCommon\<lparr>SetHeaders := [\<lparr>hdr_Key = ''x-went-into-resp-headers'', hdr_RawValue = ''true''\<rparr>]\<rparr>))"

definition response_headers :: "RequestContext \<Rightarrow> HttpHeaders \<Rightarrow> RequestContext" where
  "response_headers reqCtx h =
     (foldl header_step reqCtx (Headers h))\<lparr>RequestState := ResponseRecieved, respHeaderResp := Some debug_header_response\<rparr>"

end
