(* ===== verification/Streaming_Process.thy ===== *)
theory Streaming_Process
  imports Streaming_Server
begin

text \<open>
  \<open>Process\<close> and \<open>updateStateAndSendIfNeeded\<close> of handlers/streamingserver.go: the loop of
  one stream and the state machine that decides which response may be sent.
\<close>

record stream_state =
  st_ctx :: RequestContext
  st_body :: string
  st_requestBody :: "json_map option"
  st_responseBody :: "json_map option"
  st_err :: "error option"
  st_sent :: "ProcessingResponse list"
  st_metrics :: epp_metrics

definition initial_stream :: "epp_metrics \<Rightarrow> stream_state" where
  "initial_stream mets =
     \<lparr>st_ctx = newRequestContext, st_body = [], st_requestBody = None, st_responseBody = None,
      st_err = None, st_sent = [], st_metrics = mets\<rparr>"

subsection \<open>Sending\<close>

type_synonym sender = "nat \<Rightarrow> string option"

definition Send :: "sender \<Rightarrow> ProcessingResponse \<Rightarrow> stream_state \<Rightarrow> stream_state \<times> error option" where
  "Send send resp st =
     (case send (length (st_sent st)) of
        Some e \<Rightarrow> (st, Some (StatusError UnknownCode (''failed to send response back to Envoy: '' @ e)))
      | None \<Rightarrow> (st\<lparr>st_sent := st_sent st @ [resp]\<rparr>, None))"

definition then_if_ok ::
  "stream_state \<times> error option \<Rightarrow> (stream_state \<Rightarrow> stream_state \<times> error option) \<Rightarrow> stream_state \<times> error option" where
  "then_if_ok r f = (case r of (st, Some e) \<Rightarrow> (st, Some e) | (st, None) \<Rightarrow> f st)"

abbreviation in_state :: "stream_state \<Rightarrow> StreamRequestState \<Rightarrow> bool" where
  "in_state st s \<equiv> RequestState (st_ctx st) = s"

abbreviation set_ctx :: "stream_state \<Rightarrow> RequestContext \<Rightarrow> stream_state" where
  "set_ctx st c \<equiv> st\<lparr>st_ctx := c\<rparr>"

definition send_request_header :: "sender \<Rightarrow> stream_state \<Rightarrow> stream_state \<times> error option" where
  "send_request_header send st =
     (case reqHeaderResp (st_ctx st) of
        Some resp \<Rightarrow>
          if in_state st RequestReceived then
            then_if_ok (Send send resp st)
              (\<lambda>st'. (set_ctx st' ((st_ctx st')\<lparr>RequestState := HeaderRequestResponseComplete\<rparr>), None))
          else (st, None)
      | None \<Rightarrow> (st, None))"

definition send_request_body :: "sender \<Rightarrow> stream_state \<Rightarrow> stream_state \<times> error option" where
  "send_request_body send st =
     (case reqBodyResp (st_ctx st) of
        Some resp \<Rightarrow>
          if in_state st HeaderRequestResponseComplete then
            then_if_ok (Send send resp st)
              (\<lambda>st'. ((set_ctx st' ((st_ctx st')\<lparr>RequestState := BodyRequestResponsesComplete,
                         RequestRunning := True, reqBodyResp := None\<rparr>))
                        \<lparr>st_metrics := IncRunningRequests (ctx_Model (st_ctx st')) (st_metrics st')\<rparr>, None))
          else (st, None)
      | None \<Rightarrow> (st, None))"

definition send_request_trailer :: "sender \<Rightarrow> stream_state \<Rightarrow> stream_state \<times> error option" where
  "send_request_trailer send st =
     (if in_state st BodyRequestResponsesComplete \<and> reqTrailerResp (st_ctx st) \<noteq> None
      then Send send (case reqHeaderResp (st_ctx st) of None \<Rightarrow> nil_message | Some resp \<Rightarrow> resp) st
      else (st, None))"

definition send_response_header :: "sender \<Rightarrow> stream_state \<Rightarrow> stream_state \<times> error option" where
  "send_response_header send st =
     (case respHeaderResp (st_ctx st) of
        Some resp \<Rightarrow>
          if in_state st ResponseRecieved then
            then_if_ok (Send send resp st)
              (\<lambda>st'. (set_ctx st' ((st_ctx st')\<lparr>RequestState := HeaderResponseResponseComplete\<rparr>), None))
          else (st, None)
      | None \<Rightarrow> (st, None))"

definition GetEndOfStream :: "ProcessingResponse \<Rightarrow> bool go" where
  \<comment> \<open>the assertion that the response is a body response, then its streamed end mark\<close>
  "GetEndOfStream resp =
     (case resp_Response resp of
        RespResponseBody c \<Rightarrow>
          Ret (case BodyMutation_field c of Some (StreamedResponse b eos) \<Rightarrow> eos | _ \<Rightarrow> False)
      | _ \<Rightarrow> Panic ''interface conversion'')"

definition send_response_body :: "sender \<Rightarrow> stream_state \<Rightarrow> (stream_state \<times> error option) go" where
  "send_response_body send st =
     (case respBodyResp (st_ctx st) of
        Some resp \<Rightarrow>
          if in_state st HeaderResponseResponseComplete then
            (case Send send resp st of
               (st', Some e) \<Rightarrow> Ret (st', Some e)
             | (st', None) \<Rightarrow>
                 go_bind (GetEndOfStream resp) (\<lambda>eos.
                   Ret (set_ctx st' ((st_ctx st')\<lparr>
                          RequestState := (if eos then BodyResponseResponsesComplete else RequestState (st_ctx st')),
                          respBodyResp := None\<rparr>), None)))
          else Ret (st, None)
      | None \<Rightarrow> Ret (st, None))"

definition send_response_trailer :: "sender \<Rightarrow> stream_state \<Rightarrow> stream_state \<times> error option" where
  "send_response_trailer send st =
     (if in_state st BodyResponseResponsesComplete \<and> respTrailerResp (st_ctx st) \<noteq> None
      then Send send (case reqHeaderResp (st_ctx st) of None \<Rightarrow> nil_message | Some resp \<Rightarrow> resp) st
      else (st, None))"

definition go_if_ok ::
  "(stream_state \<times> error option) go \<Rightarrow> (stream_state \<Rightarrow> (stream_state \<times> error option) go) \<Rightarrow>
   (stream_state \<times> error option) go" where
  "go_if_ok r f = go_bind r (\<lambda>x. case x of (st, Some e) \<Rightarrow> Ret (st, Some e) | (st, None) \<Rightarrow> f st)"

definition updateStateAndSendIfNeeded :: "sender \<Rightarrow> stream_state \<Rightarrow> (stream_state \<times> error option) go" where
  "updateStateAndSendIfNeeded send st =
     go_if_ok (go_if_ok
       (Ret (then_if_ok (then_if_ok (then_if_ok (send_request_header send st)
          (send_request_body send)) (send_request_trailer send)) (send_response_header send)))
       (send_response_body send))
       (\<lambda>st'. Ret (send_response_trailer send st'))"

subsection \<open>One message\<close>

definition on_request_body ::
  "StreamingServer \<Rightarrow> json_codec \<Rightarrow> step_env \<Rightarrow> HttpBody \<Rightarrow> stream_state \<Rightarrow> stream_state go" where
  "on_request_body s codec env b st =
     (let body = st_body st @ body_Body b in
      if \<not> body_EndOfStream b then Ret (st\<lparr>st_body := body\<rparr>)
      else case UnmarshalMap codec (st_requestBody st) body of (requestBody, jerr) \<Rightarrow>
        go_bind (HandleRequestBody s codec env (st_ctx st) requestBody) (\<lambda>((ctx', requestBody'), err).
          let st1 = st\<lparr>st_body := [], st_ctx := ctx', st_requestBody := requestBody', st_err := err\<rparr>
          in Ret (if err = None
                  then st1\<lparr>st_metrics :=
                    RecordRequestSizes (ctx_Model ctx') (ctx_ResolvedTargetModel ctx') (RequestSize ctx')
                      (RecordRequestCounter (ctx_Model ctx') (ctx_ResolvedTargetModel ctx') (st_metrics st1))\<rparr>
                  else st1)))"

definition on_streamed_response ::
  "json_codec \<Rightarrow> step_env \<Rightarrow> HttpBody \<Rightarrow> stream_state \<Rightarrow> stream_state" where
  "on_streamed_response codec env b st =
     (let ctx = st_ctx st;
          mets = HandleResponseBodyModelStreaming codec ctx (body_Body b) (st_metrics st);
          ctx1 = (if body_EndOfStream b then ctx\<lparr>ResponseCompleteTimestamp := env_now env\<rparr> else ctx);
          mets1 = (if body_EndOfStream b
                   then RecordResponseSizes (ctx_Model ctx1) (ctx_ResolvedTargetModel ctx1) (ResponseSize ctx1)
                          (fst (RecordRequestLatencies (ctx_Model ctx1) (ctx_ResolvedTargetModel ctx1)
                             (RequestReceivedTimestamp ctx1) (ResponseCompleteTimestamp ctx1) mets))
                   else mets)
      in st\<lparr>st_ctx := ctx1\<lparr>respBodyResp := Some (streamed_body (body_Body b) (body_EndOfStream b))\<rparr>,
            st_metrics := mets1\<rparr>)"

definition record_response :: "RequestContext \<Rightarrow> epp_metrics \<Rightarrow> epp_metrics" where
  "record_response ctx mets =
     (let m = ctx_Model ctx; t = ctx_ResolvedTargetModel ctx in
      RecordOutputTokens m t (CompletionTokens (ctx_Usage ctx))
        (RecordInputTokens m t (PromptTokens (ctx_Usage ctx))
          (RecordResponseSizes m t (ResponseSize ctx)
            (fst (RecordRequestLatencies m t (RequestReceivedTimestamp ctx) (ResponseCompleteTimestamp ctx) mets)))))"

definition on_buffered_response ::
  "json_codec \<Rightarrow> (f64 \<Rightarrow> int) \<Rightarrow> step_env \<Rightarrow> HttpBody \<Rightarrow> stream_state \<Rightarrow> stream_state go" where
  "on_buffered_response codec conv env b st =
     (let body = st_body st @ body_Body b in
      if \<not> body_EndOfStream b then Ret (st\<lparr>st_body := body\<rparr>)
      else case UnmarshalMap codec (st_responseBody st) body of (responseBody, jerr) \<Rightarrow>
        go_bind (HandleResponseBody codec conv (st_ctx st) responseBody) (\<lambda>(ctx', responseErr).
          let st1 = st\<lparr>st_body := body, st_responseBody := responseBody, st_ctx := ctx'\<rparr>
          in Ret (if responseErr = None \<and> ResponseComplete ctx'
                  then let ctx2 = ctx'\<lparr>ResponseCompleteTimestamp := env_now env\<rparr>
                       in st1\<lparr>st_ctx := ctx2, st_metrics := record_response ctx2 (st_metrics st1)\<rparr>
                  else st1)))"

definition handle_message ::
  "StreamingServer \<Rightarrow> json_codec \<Rightarrow> (f64 \<Rightarrow> int) \<Rightarrow> step_env \<Rightarrow> ProcessingRequest \<Rightarrow> stream_state \<Rightarrow> stream_state go" where
  "handle_message s codec conv env req st =
     (case req of
        RequestHeaders h \<Rightarrow>
          go_bind (HandleRequestHeaders s env (st_ctx st) h) (\<lambda>(ctx', err). Ret (st\<lparr>st_ctx := ctx', st_err := err\<rparr>))
      | RequestBody b \<Rightarrow> on_request_body s codec env b st
      | RequestTrailers \<Rightarrow> Ret st
      | ResponseHeaders h \<Rightarrow> Ret (set_ctx st (response_headers (st_ctx st) h))
      | ResponseBody b \<Rightarrow>
          if modelServerStreaming (st_ctx st) then Ret (on_streamed_response codec env b st)
          else on_buffered_response codec conv env b st
      | ResponseTrailers \<Rightarrow> Ret st
      | NoRequest \<Rightarrow> Ret st)"

subsection \<open>The loop\<close>

datatype recv = Recv ProcessingRequest step_env | RecvEOF | RecvError error | CtxDone error

datatype process_result = Running stream_state | Returned stream_state "error option"

definition deferred :: "stream_state \<Rightarrow> stream_state" where
  \<comment> \<open>the deferred function of \<open>Process\<close>\<close>
  "deferred st =
     (let ctx = st_ctx st;
          mets = (if ResponseStatusCode ctx \<noteq> [] then
                    RecordRequestErrCounter (ctx_Model ctx) (ctx_ResolvedTargetModel ctx) (ResponseStatusCode ctx) (st_metrics st)
                  else case st_err st of
                    Some e \<Rightarrow> RecordRequestErrCounter (ctx_Model ctx) (ctx_ResolvedTargetModel ctx) (CanonicalCode e) (st_metrics st)
                  | None \<Rightarrow> st_metrics st)
      in st\<lparr>st_metrics := (if RequestRunning ctx then DecRunningRequests (ctx_Model ctx) mets else mets)\<rparr>)"

definition err_string :: "error option \<Rightarrow> string" where
  "err_string e = (case e of None \<Rightarrow> ''<nil>'' | Some x \<Rightarrow> error_Error x)"

definition fire_error :: "sender \<Rightarrow> error \<Rightarrow> stream_state \<Rightarrow> stream_state \<times> error option" where
  "fire_error send err st =
     (case BuildErrResponse err of
        Inl e \<Rightarrow> (st, Some e)
      | Inr resp \<Rightarrow> Send send resp st)"

fun Process ::
  "StreamingServer \<Rightarrow> json_codec \<Rightarrow> (f64 \<Rightarrow> int) \<Rightarrow> sender \<Rightarrow> recv list \<Rightarrow> stream_state \<Rightarrow> process_result go" where
  "Process s codec conv send [] st = Ret (Running st)"
| "Process s codec conv send (CtxDone e # rs) st = Ret (Returned (deferred st) (Some e))"
| "Process s codec conv send (RecvEOF # rs) st = Ret (Returned (deferred st) None)"
| "Process s codec conv send (RecvError e # rs) st =
     (if status_Code e = Canceled then Ret (Returned (deferred st) None)
      else Ret (Returned (deferred st)
             (Some (StatusError UnknownCode (''cannot receive stream request: '' @ err_string (st_err st))))))"
| "Process s codec conv send (Recv req env # rs) st =
     go_bind (handle_message s codec conv env req st) (\<lambda>st1.
       case st_err st1 of
         Some err \<Rightarrow>
           (case fire_error send err st1 of (st2, e) \<Rightarrow> Ret (Returned (deferred st2) e))
       | None \<Rightarrow>
           go_bind (updateStateAndSendIfNeeded send st1) (\<lambda>(st2, e).
             case e of
               Some err \<Rightarrow> Ret (Returned (deferred st2) (Some err))
             | None \<Rightarrow> Process s codec conv send rs st2))"

subsection \<open>The order of the responses\<close>

datatype kind = KReqHeaders | KReqBody | KRespHeaders | KRespBody | KImmediate | KOther

definition kind_of :: "ProcessingResponse \<Rightarrow> kind" where
  "kind_of resp =
     (case resp_Response resp of
        RespRequestHeaders c \<Rightarrow> KReqHeaders
      | RespRequestBody c \<Rightarrow> KReqBody
      | RespResponseHeaders c \<Rightarrow> KRespHeaders
      | RespResponseBody c \<Rightarrow> KRespBody
      | ImmediateResponse n \<Rightarrow> KImmediate
      | _ \<Rightarrow> KOther)"

fun may_follow :: "kind \<Rightarrow> kind \<Rightarrow> bool" where
  \<comment> \<open>what may come after a response: headers before body, the response after the request,
     nothing after an immediate response\<close>
  "may_follow KReqHeaders k = (k \<in> {KReqBody, KRespHeaders, KImmediate})"
| "may_follow KReqBody k = (k \<in> {KRespHeaders, KImmediate})"
| "may_follow KRespHeaders k = (k \<in> {KRespHeaders, KRespBody, KImmediate})"
| "may_follow KRespBody k = (k \<in> {KRespHeaders, KRespBody, KImmediate})"
| "may_follow _ k = False"

definition ordered :: "kind list \<Rightarrow> bool" where
  "ordered ks \<longleftrightarrow> (ks = [] \<or> hd ks \<in> {KReqHeaders, KRespHeaders, KImmediate}) \<and> successively may_follow ks"

lemma ordered_snoc:
  "ordered (ks @ [k]) \<longleftrightarrow>
     ordered ks \<and> (if ks = [] then k \<in> {KReqHeaders, KRespHeaders, KImmediate} else may_follow (last ks) k)"
  by (auto simp: ordered_def successively_append_iff)

lemma ordered_single [simp]: "ordered []" "ordered [k] \<longleftrightarrow> k \<in> {KReqHeaders, KRespHeaders, KImmediate}"
  by (simp_all add: ordered_def)

abbreviation kinds :: "stream_state \<Rightarrow> kind list" where
  "kinds st \<equiv> map kind_of (st_sent st)"

fun state_ok :: "StreamRequestState \<Rightarrow> kind list \<Rightarrow> bool" where
  \<comment> \<open>the state knows what was sent last\<close>
  "state_ok RequestReceived ks = (ks = [])"
| "state_ok HeaderRequestResponseComplete ks = (ks \<noteq> [] \<and> last ks = KReqHeaders)"
| "state_ok BodyRequestResponsesComplete ks = (ks \<noteq> [] \<and> last ks = KReqBody)"
| "state_ok ResponseRecieved ks = (ks = [] \<or> last ks \<in> {KReqHeaders, KReqBody, KRespHeaders, KRespBody})"
| "state_ok HeaderResponseResponseComplete ks = (ks \<noteq> [] \<and> last ks \<in> {KRespHeaders, KRespBody})"
| "state_ok BodyResponseResponsesComplete ks = (ks \<noteq> [] \<and> last ks = KRespBody)"
| "state_ok _ ks = False"

definition resp_ok :: "ProcessingResponse option \<Rightarrow> kind \<Rightarrow> bool" where
  "resp_ok r k \<longleftrightarrow> (case r of None \<Rightarrow> True | Some resp \<Rightarrow> kind_of resp = k)"

definition ctx_ok :: "RequestContext \<Rightarrow> bool" where
  "ctx_ok c \<longleftrightarrow> resp_ok (reqHeaderResp c) KReqHeaders \<and> resp_ok (reqBodyResp c) KReqBody \<and>
     resp_ok (respHeaderResp c) KRespHeaders \<and> resp_ok (respBodyResp c) KRespBody \<and>
     reqTrailerResp c = None \<and> respTrailerResp c = None"

definition stream_ok :: "stream_state \<Rightarrow> bool" where
  "stream_ok st \<longleftrightarrow> ctx_ok (st_ctx st) \<and> ordered (kinds st) \<and> state_ok (RequestState (st_ctx st)) (kinds st)"

lemma Send_cases:
  assumes "Send send resp st = (st', e)"
  obtains (sent) "e = None" "st' = st\<lparr>st_sent := st_sent st @ [resp]\<rparr>" | (failed) x where "e = Some x" "st' = st"
  using assms by (auto simp: Send_def split: option.splits)

lemma stream_ok_sent:
  assumes "stream_ok st" "ctx_ok c" "ordered (kinds st @ [kind_of resp])" "state_ok (RequestState c) (kinds st @ [kind_of resp])"
  shows "stream_ok (st\<lparr>st_sent := st_sent st @ [resp], st_ctx := c, st_metrics := m\<rparr>)"
    "stream_ok (st\<lparr>st_sent := st_sent st @ [resp], st_ctx := c\<rparr>)"
  using assms by (simp_all add: stream_ok_def)

lemma stream_okD:
  assumes "stream_ok st"
  shows "ctx_ok (st_ctx st)" "ordered (kinds st)" "state_ok (RequestState (st_ctx st)) (kinds st)"
  using assms by (simp_all add: stream_ok_def)

lemma ctx_okD:
  assumes "ctx_ok c"
  shows "reqHeaderResp c = Some r \<Longrightarrow> kind_of r = KReqHeaders" "reqBodyResp c = Some r \<Longrightarrow> kind_of r = KReqBody"
    "respHeaderResp c = Some r \<Longrightarrow> kind_of r = KRespHeaders" "respBodyResp c = Some r \<Longrightarrow> kind_of r = KRespBody"
  using assms by (simp_all add: ctx_ok_def resp_ok_def)

lemma ctx_ok_updates [simp]:
  "ctx_ok c \<Longrightarrow> ctx_ok (c\<lparr>RequestState := x\<rparr>)" "ctx_ok c \<Longrightarrow> ctx_ok (c\<lparr>RequestRunning := b\<rparr>)"
  "ctx_ok c \<Longrightarrow> ctx_ok (c\<lparr>reqBodyResp := None\<rparr>)" "ctx_ok c \<Longrightarrow> ctx_ok (c\<lparr>respBodyResp := None\<rparr>)"
  "ctx_ok c \<Longrightarrow> ctx_ok (c\<lparr>RequestReceivedTimestamp := t\<rparr>)" "ctx_ok c \<Longrightarrow> ctx_ok (c\<lparr>ResponseCompleteTimestamp := t\<rparr>)"
  "ctx_ok c \<Longrightarrow> ctx_ok (c\<lparr>ResponseStatusCode := m\<rparr>)" "ctx_ok c \<Longrightarrow> ctx_ok (c\<lparr>modelServerStreaming := b\<rparr>)"
  "ctx_ok c \<Longrightarrow> ctx_ok (c\<lparr>WorkerInstanceID := m\<rparr>)"
  "ctx_ok c \<Longrightarrow> kind_of r = KReqHeaders \<Longrightarrow> ctx_ok (c\<lparr>reqHeaderResp := Some r\<rparr>)"
  "ctx_ok c \<Longrightarrow> kind_of r = KReqBody \<Longrightarrow> ctx_ok (c\<lparr>reqBodyResp := Some r\<rparr>)"
  "ctx_ok c \<Longrightarrow> kind_of r = KRespHeaders \<Longrightarrow> ctx_ok (c\<lparr>respHeaderResp := Some r\<rparr>)"
  "ctx_ok c \<Longrightarrow> kind_of r = KRespBody \<Longrightarrow> ctx_ok (c\<lparr>respBodyResp := Some r\<rparr>)"
  by (simp_all add: ctx_ok_def resp_ok_def)

lemma send_request_header_ok:
  assumes ok: "stream_ok st" and r: "send_request_header send st = (st', e)"
  shows "stream_ok st'"
proof (cases "\<exists>resp. reqHeaderResp (st_ctx st) = Some resp \<and> in_state st RequestReceived")
  case True
  then obtain resp where resp: "reqHeaderResp (st_ctx st) = Some resp" "in_state st RequestReceived" by blast
  have k: "kind_of resp = KReqHeaders" using ctx_okD(1) [OF stream_okD(1) [OF ok] resp(1)] .
  from stream_okD [OF ok] resp(2) have "ordered (kinds st @ [kind_of resp])"
    by (simp add: ordered_snoc k)
  with stream_ok_sent(2) [OF ok, of "(st_ctx st)\<lparr>RequestState := HeaderRequestResponseComplete\<rparr>" resp]
  have "stream_ok (st\<lparr>st_sent := st_sent st @ [resp], st_ctx := (st_ctx st)\<lparr>RequestState := HeaderRequestResponseComplete\<rparr>\<rparr>)"
    using stream_okD(1) [OF ok] by (simp add: k)
  with ok r resp show ?thesis by (auto simp: send_request_header_def then_if_ok_def Send_def split: option.splits)
qed (use ok r in \<open>auto simp: send_request_header_def split: option.splits if_splits\<close>)

lemma send_request_body_ok:
  assumes ok: "stream_ok st" and r: "send_request_body send st = (st', e)"
  shows "stream_ok st'"
proof (cases "\<exists>resp. reqBodyResp (st_ctx st) = Some resp \<and> in_state st HeaderRequestResponseComplete")
  case True
  then obtain resp where resp: "reqBodyResp (st_ctx st) = Some resp" "in_state st HeaderRequestResponseComplete" by blast
  have k: "kind_of resp = KReqBody" using ctx_okD(2) [OF stream_okD(1) [OF ok] resp(1)] .
  from stream_okD [OF ok] resp(2) have "ordered (kinds st @ [kind_of resp])"
    by (simp add: ordered_snoc k)
  with stream_ok_sent(1) [OF ok, of "(st_ctx st)\<lparr>RequestState := BodyRequestResponsesComplete, RequestRunning := True,
      reqBodyResp := None\<rparr>" resp "IncRunningRequests (ctx_Model (st_ctx st)) (st_metrics st)"] ok r resp
  show ?thesis using stream_okD(1) [OF ok]
    by (auto simp: send_request_body_def then_if_ok_def Send_def k split: option.splits)
qed (use ok r in \<open>auto simp: send_request_body_def split: option.splits if_splits\<close>)

lemma send_trailers_none:
  "ctx_ok (st_ctx st) \<Longrightarrow> send_request_trailer send st = (st, None)"
  "ctx_ok (st_ctx st) \<Longrightarrow> send_response_trailer send st = (st, None)"
  by (simp_all add: send_request_trailer_def send_response_trailer_def ctx_ok_def)

lemma send_response_header_ok:
  assumes ok: "stream_ok st" and r: "send_response_header send st = (st', e)"
  shows "stream_ok st'"
proof (cases "\<exists>resp. respHeaderResp (st_ctx st) = Some resp \<and> in_state st ResponseRecieved")
  case True
  then obtain resp where resp: "respHeaderResp (st_ctx st) = Some resp" "in_state st ResponseRecieved" by blast
  have k: "kind_of resp = KRespHeaders" using ctx_okD(3) [OF stream_okD(1) [OF ok] resp(1)] .
  from stream_okD [OF ok] resp(2) have "ordered (kinds st @ [kind_of resp])"
    by (auto simp: ordered_snoc k)
  with stream_ok_sent(2) [OF ok, of "(st_ctx st)\<lparr>RequestState := HeaderResponseResponseComplete\<rparr>" resp]
  have "stream_ok (st\<lparr>st_sent := st_sent st @ [resp], st_ctx := (st_ctx st)\<lparr>RequestState := HeaderResponseResponseComplete\<rparr>\<rparr>)"
    using stream_okD(1) [OF ok] by (simp add: k)
  with ok r resp show ?thesis by (auto simp: send_response_header_def then_if_ok_def Send_def split: option.splits)
qed (use ok r in \<open>auto simp: send_response_header_def split: option.splits if_splits\<close>)

lemma GetEndOfStream_body: "kind_of resp = KRespBody \<Longrightarrow> \<exists>eos. GetEndOfStream resp = Ret eos"
  by (auto simp: kind_of_def GetEndOfStream_def split: Response_oneof.splits)

lemma send_response_body_ok:
  assumes ok: "stream_ok st"
  shows "\<exists>st' e. send_response_body send st = Ret (st', e) \<and> stream_ok st'"
proof (cases "\<exists>resp. respBodyResp (st_ctx st) = Some resp \<and> in_state st HeaderResponseResponseComplete")
  case True
  then obtain resp where resp: "respBodyResp (st_ctx st) = Some resp" "in_state st HeaderResponseResponseComplete" by blast
  have k: "kind_of resp = KRespBody" using ctx_okD(4) [OF stream_okD(1) [OF ok] resp(1)] .
  from GetEndOfStream_body [OF this] obtain eos where eos: "GetEndOfStream resp = Ret eos" by blast
  let ?c = "(st_ctx st)\<lparr>RequestState := (if eos then BodyResponseResponsesComplete else RequestState (st_ctx st)),
      respBodyResp := None\<rparr>"
  from stream_okD [OF ok] resp(2) have "ordered (kinds st @ [kind_of resp])"
    by (auto simp: ordered_snoc k)
  moreover have "state_ok (RequestState ?c) (kinds st @ [kind_of resp])" using resp(2) by (simp add: k)
  ultimately have "stream_ok (st\<lparr>st_sent := st_sent st @ [resp], st_ctx := ?c\<rparr>)"
    using stream_okD(1) [OF ok] by (intro stream_ok_sent(2) [OF ok]) simp_all
  with ok resp eos show ?thesis by (auto simp: send_response_body_def Send_def split: option.splits)
next
  case False
  with ok show ?thesis by (auto simp: send_response_body_def split: option.splits)
qed

lemma updateState_ok:
  assumes ok: "stream_ok st"
  shows "\<exists>st' e. updateStateAndSendIfNeeded send st = Ret (st', e) \<and> stream_ok st'"
proof -
  obtain st1 e1 where 1: "send_request_header send st = (st1, e1)" by fastforce
  note ok1 = send_request_header_ok [OF ok 1]
  obtain st2 e2 where 2: "send_request_body send st1 = (st2, e2)" by fastforce
  note ok2 = send_request_body_ok [OF ok1 2]
  obtain st3 e3 where 3: "send_response_header send st2 = (st3, e3)" by fastforce
  note ok3 = send_response_header_ok [OF ok2 3]
  from send_response_body_ok [OF ok3] obtain st4 e4 where
    4: "send_response_body send st3 = Ret (st4, e4)" and ok4: "stream_ok st4" by blast
  note none = send_trailers_none [OF stream_okD(1) [OF ok2]] send_trailers_none [OF stream_okD(1) [OF ok4]]
  show ?thesis
    using 1 2 3 4 none ok1 ok2 ok3 ok4
    by (cases e1; cases e2; cases e3; cases e4) (simp_all add: updateStateAndSendIfNeeded_def go_if_ok_def then_if_ok_def)
qed

subsection \<open>What the handlers leave alone\<close>

definition ctx_step :: "RequestContext \<Rightarrow> RequestContext \<Rightarrow> bool" where
  \<comment> \<open>a handler keeps the state of the request and builds responses of the right kind\<close>
  "ctx_step c c' \<longleftrightarrow> (ctx_ok c \<longrightarrow> ctx_ok c') \<and> RequestState c' = RequestState c \<and> RequestRunning c' = RequestRunning c"

lemma ctx_step_refl [simp]: "ctx_step c c"
  by (simp add: ctx_step_def)

lemma populate_step: "ctx_step c (populateRequestHeaderResponse s c endpoint n)"
  by (simp add: ctx_step_def populateRequestHeaderResponse_def kind_of_def)

lemma ctx_step_trans: "ctx_step a b \<Longrightarrow> ctx_step b c \<Longrightarrow> ctx_step a c"
  by (simp add: ctx_step_def)

lemma HandleRequestHeaders_step:
  assumes "HandleRequestHeaders s env c h = Ret (c', e)"
  shows "ctx_step c c' \<and> reqBodyResp c' = reqBodyResp c \<and> ctx_Model c' = ctx_Model c"
proof -
  have t: "ctx_step c (c\<lparr>RequestReceivedTimestamp := env_now env\<rparr>)" by (simp add: ctx_step_def)
  from assms consider "c' = c\<lparr>RequestReceivedTimestamp := env_now env\<rparr>"
    | endpoint where "c' = populateRequestHeaderResponse s (c\<lparr>RequestReceivedTimestamp := env_now env\<rparr>) endpoint 0"
    by (cases "PoolGet (env_ds env)") (auto simp: HandleRequestHeaders_def Let_def go_simps split: if_split_asm)
  then show ?thesis
    by cases (use t ctx_step_trans [OF t populate_step] in \<open>simp_all add: populateRequestHeaderResponse_def\<close>)
qed

lemma ask_frontend_step: "ask_frontend codec env c m = (c', m') \<Longrightarrow> ctx_step c c' \<and> reqBodyResp c' = reqBodyResp c \<and>
    ctx_Model c' = ctx_Model c"
  by (auto simp: ask_frontend_def ctx_step_def split: prod.splits sum.splits if_splits)

lemma HandleRequestBody_cases:
  assumes "HandleRequestBody s codec env c m = Ret ((c', m'), e)"
  obtains (failed) err where "e = Some err" "ctx_step c c'" "reqBodyResp c' = reqBodyResp c" "ctx_Model c' = ctx_Model c"
  | (handled) llmReq bytes ctx1 body2 pm pool where "e = None"
    "assembleRequest (env_ds env) (env_model_draw env) m = Ret (Inr llmReq)"
    "MarshalMap codec (replace_model llmReq m) = Inr bytes"
    "ask_frontend codec env c (replace_model llmReq m) = (ctx1, body2)"
    "Schedule (env_config env) (env_ds env) (env_u env) (env_pod_draw env) llmReq = Ret (Inr pm)"
    "PoolGet (env_ds env) = Inr pool"
    "c' = (populateRequestHeaderResponse s (ctx1\<lparr>ctx_Model := req_Model llmReq,
            ctx_ResolvedTargetModel := ResolvedTargetModel llmReq, RequestSize := int (length bytes),
            TargetPod := nn_String (pm_nn pm), TargetEndpoint := endpoint_of (pm_pod pm) pool\<rparr>)
            (endpoint_of (pm_pod pm) pool) (int (length bytes)))\<lparr>reqBodyResp := Some (body_response bytes)\<rparr>"
proof -
  from assms obtain res where a: "assembleRequest (env_ds env) (env_model_draw env) m = Ret res"
    by (cases "assembleRequest (env_ds env) (env_model_draw env) m") (auto simp: HandleRequestBody_def)
  show thesis
  proof (cases res)
    case (Inl err)
    with assms a failed show ?thesis by (auto simp: HandleRequestBody_def)
  next
    case (Inr llmReq)
    show ?thesis
    proof (cases "MarshalMap codec (replace_model llmReq m)")
      case (Inl x)
      with assms a Inr failed show ?thesis by (auto simp: HandleRequestBody_def Let_def)
    next
      case bytes: (Inr bytes)
      obtain ctx1 body2 where fe: "ask_frontend codec env c (replace_model llmReq m) = (ctx1, body2)" by fastforce
      note step = ask_frontend_step [OF fe]
      from assms a Inr bytes fe obtain target where
        t: "Schedule (env_config env) (env_ds env) (env_u env) (env_pod_draw env) llmReq = Ret target"
        by (auto simp: HandleRequestBody_def Let_def go_simps)
      show ?thesis
      proof (cases "target"; cases "PoolGet (env_ds env)")
        fix pm pool assume p: "target = Inr pm" "PoolGet (env_ds env) = Inr pool"
        with assms a Inr bytes fe t show ?thesis
          by (intro handled [of llmReq bytes ctx1 body2 pm pool]) (auto simp: HandleRequestBody_def Let_def)
      qed (use assms a Inr bytes fe t step failed in \<open>auto simp: HandleRequestBody_def Let_def\<close>)
    qed
  qed
qed

lemma HandleRequestBody_step:
  assumes "HandleRequestBody s codec env c m = Ret ((c', m'), e)"
  shows "ctx_step c c'"
  using assms
proof (cases rule: HandleRequestBody_cases)
  case (handled llmReq bytes ctx1 body2 pm pool)
  let ?d = "ctx1\<lparr>ctx_Model := req_Model llmReq, ctx_ResolvedTargetModel := ResolvedTargetModel llmReq,
    RequestSize := int (length bytes), TargetPod := nn_String (pm_nn pm), TargetEndpoint := endpoint_of (pm_pod pm) pool\<rparr>"
  have "ctx_step c ctx1" using ask_frontend_step [OF handled(4)] by blast
  moreover have "ctx_step ctx1 ?d" by (simp add: ctx_step_def ctx_ok_def)
  moreover have "ctx_step ?d (populateRequestHeaderResponse s ?d (endpoint_of (pm_pod pm) pool) (int (length bytes)))"
    by (rule populate_step)
  ultimately show ?thesis
    unfolding handled(7) by (simp add: ctx_step_def body_response_def mk_response_def kind_of_def)
qed

lemma HandleResponseBody_step:
  "HandleResponseBody codec conv c m = Ret (c', e) \<Longrightarrow>
   ctx_step c c' \<and> reqBodyResp c' = reqBodyResp c \<and> ctx_Model c' = ctx_Model c"
  by (auto simp: HandleResponseBody_def ctx_step_def go_simps streamed_body_def mk_response_def kind_of_def
      ctx_ok_def resp_ok_def split: sum.split_asm option.split_asm json.split_asm)

lemma header_steps:
  "ctx_step c (foldl header_step c hs) \<and> reqBodyResp (foldl header_step c hs) = reqBodyResp c \<and>
   ctx_Model (foldl header_step c hs) = ctx_Model c"
proof (induction hs arbitrary: c)
  case (Cons h hs)
  have "ctx_step c (header_step c h) \<and> reqBodyResp (header_step c h) = reqBodyResp c \<and> ctx_Model (header_step c h) = ctx_Model c"
    by (simp add: header_step_def ctx_step_def)
  with Cons [of "header_step c h"] show ?case by (auto intro: ctx_step_trans)
qed simp

lemma state_ok_received: "state_ok x ks \<Longrightarrow> state_ok ResponseRecieved ks"
  by (cases x) auto

lemma stream_ok_step:
  "stream_ok st \<Longrightarrow> ctx_step (st_ctx st) (st_ctx st') \<Longrightarrow> st_sent st' = st_sent st \<Longrightarrow> stream_ok st'"
  by (simp add: stream_ok_def ctx_step_def)

lemma on_request_body_cases:
  assumes "on_request_body s codec env b st = Ret st'"
  obtains (chunk) "\<not> body_EndOfStream b" "st' = st\<lparr>st_body := st_body st @ body_Body b\<rparr>"
  | (whole) requestBody c' m' e where "body_EndOfStream b"
      "requestBody = fst (UnmarshalMap codec (st_requestBody st) (st_body st @ body_Body b))"
      "HandleRequestBody s codec env (st_ctx st) requestBody = Ret ((c', m'), e)"
      "st_ctx st' = c'" "st_sent st' = st_sent st" "st_err st' = e"
      "runningRequests (st_metrics st') = runningRequests (st_metrics st)"
proof (cases "body_EndOfStream b")
  case False
  with assms chunk show ?thesis by (simp add: on_request_body_def Let_def)
next
  case True
  obtain rb jerr where u: "UnmarshalMap codec (st_requestBody st) (st_body st @ body_Body b) = (rb, jerr)" by fastforce
  from assms True u obtain c' m' e where h: "HandleRequestBody s codec env (st_ctx st) rb = Ret ((c', m'), e)"
    by (auto simp: on_request_body_def Let_def go_simps)
  show ?thesis
    by (rule whole [of rb c' m' e]) (use assms True u h in \<open>auto simp: on_request_body_def Let_def\<close>)
qed

lemma on_buffered_response_cases:
  assumes "on_buffered_response codec conv env b st = Ret st'"
  shows "ctx_step (st_ctx st) (st_ctx st') \<and> st_sent st' = st_sent st \<and> st_err st' = st_err st \<and>
    reqBodyResp (st_ctx st') = reqBodyResp (st_ctx st) \<and> ctx_Model (st_ctx st') = ctx_Model (st_ctx st) \<and>
    runningRequests (st_metrics st') = runningRequests (st_metrics st)"
proof (cases "body_EndOfStream b")
  case False
  with assms have "st' = st\<lparr>st_body := st_body st @ body_Body b\<rparr>" by (simp add: on_buffered_response_def Let_def)
  then show ?thesis by simp
next
  case True
  obtain rb jerr where u: "UnmarshalMap codec (st_responseBody st) (st_body st @ body_Body b) = (rb, jerr)" by fastforce
  from assms True u obtain c' e where h: "HandleResponseBody codec conv (st_ctx st) rb = Ret (c', e)"
    by (auto simp: on_buffered_response_def Let_def go_simps)
  have "ctx_step (st_ctx st) (c'\<lparr>ResponseCompleteTimestamp := t\<rparr>)" for t
    using HandleResponseBody_step [OF h] by (auto simp: ctx_step_def)
  with HandleResponseBody_step [OF h] assms True u h show ?thesis
    by (auto simp: on_buffered_response_def Let_def record_response_def split: if_split_asm)
qed

lemma on_streamed_response_frame:
  "ctx_step (st_ctx st) (st_ctx (on_streamed_response codec env b st)) \<and>
   st_sent (on_streamed_response codec env b st) = st_sent st \<and> st_err (on_streamed_response codec env b st) = st_err st \<and>
   reqBodyResp (st_ctx (on_streamed_response codec env b st)) = reqBodyResp (st_ctx st) \<and>
   ctx_Model (st_ctx (on_streamed_response codec env b st)) = ctx_Model (st_ctx st) \<and>
   runningRequests (st_metrics (on_streamed_response codec env b st)) = runningRequests (st_metrics st)"
  by (auto simp: on_streamed_response_def Let_def ctx_step_def HandleResponseBodyModelStreaming_def streamed_body_def
      mk_response_def kind_of_def)

lemma handle_message_ok:
  assumes ok: "stream_ok st" and h: "handle_message s codec conv env req st = Ret st'"
  shows "stream_ok st'"
proof (cases req)
  case (RequestHeaders hd)
  with h obtain c' e where "HandleRequestHeaders s env (st_ctx st) hd = Ret (c', e)" "st' = st\<lparr>st_ctx := c', st_err := e\<rparr>"
    by (auto simp: handle_message_def go_simps)
  with ok HandleRequestHeaders_step show ?thesis by (intro stream_ok_step [OF ok]) fastforce+
next
  case (RequestBody b)
  with h have "on_request_body s codec env b st = Ret st'" by (simp add: handle_message_def)
  then show ?thesis
  proof (cases rule: on_request_body_cases)
    case chunk
    with ok show ?thesis by (simp add: stream_ok_def)
  next
    case (whole requestBody c' m' e)
    with HandleRequestBody_step ok show ?thesis by (intro stream_ok_step [OF ok]) auto
  qed
next
  case (ResponseHeaders hd)
  with h have st': "st' = set_ctx st (response_headers (st_ctx st) hd)" by (simp add: handle_message_def)
  have "ctx_ok (foldl header_step (st_ctx st) (Headers hd))"
    using header_steps [of "st_ctx st" "Headers hd"] stream_okD(1) [OF ok] by (simp add: ctx_step_def)
  then have "ctx_ok (st_ctx st')"
    by (simp add: st' response_headers_def debug_header_response_def mk_response_def kind_of_def)
  with stream_okD(2) [OF ok] state_ok_received [OF stream_okD(3) [OF ok]] show ?thesis
    by (simp add: stream_ok_def st' response_headers_def)
next
  case (ResponseBody b)
  with h on_streamed_response_frame [of st codec env b] on_buffered_response_cases [of codec conv env b st st']
  show ?thesis by (intro stream_ok_step [OF ok]) (auto simp: handle_message_def split: if_split_asm)
qed (use h ok in \<open>simp_all add: handle_message_def\<close>)

lemma deferred_frame [simp]: "st_sent (deferred st) = st_sent st" "st_ctx (deferred st) = st_ctx st"
  by (simp_all add: deferred_def Let_def)

fun result_state :: "process_result \<Rightarrow> stream_state" where
  "result_state (Running st) = st"
| "result_state (Returned st e) = st"

lemma fire_error_ordered:
  assumes ok: "stream_ok st" and f: "fire_error send err st = (st', e)"
  shows "ordered (kinds st')"
proof (cases "st' = st")
  case False
  with f obtain resp where r: "BuildErrResponse err = Inr resp" "st' = st\<lparr>st_sent := st_sent st @ [resp]\<rparr>"
    by (auto simp: fire_error_def Send_def split: sum.split_asm option.split_asm)
  then have "kind_of resp = KImmediate"
    by (auto simp: BuildErrResponse_def Let_def mk_response_def kind_of_def split: if_split_asm)
  moreover have "kinds st = [] \<or> may_follow (last (kinds st)) KImmediate"
    using stream_okD(3) [OF ok] by (cases "RequestState (st_ctx st)") auto
  ultimately show ?thesis using stream_okD(2) [OF ok] r(2) by (auto simp: ordered_snoc)
qed (use stream_okD(2) [OF ok] in simp)

lemma Process_ordered:
  assumes "stream_ok st" "Process s codec conv send rs st = Ret res"
  shows "ordered (kinds (result_state res))"
  using assms
proof (induction s codec conv send rs st rule: Process.induct)
  case (5 s codec conv send req env rs st)
  from 5(3) obtain st1 where h: "handle_message s codec conv env req st = Ret st1" by (auto simp: go_simps)
  note ok1 = handle_message_ok [OF 5(2) h]
  show ?case
  proof (cases "st_err st1")
    case (Some err)
    obtain st2 e where f: "fire_error send err st1 = (st2, e)" by fastforce
    with 5(3) h Some have "res = Returned (deferred st2) e" by simp
    with fire_error_ordered [OF ok1 f] show ?thesis by simp
  next
    case None
    from updateState_ok [OF ok1, of send] obtain st2 e where
      u: "updateStateAndSendIfNeeded send st1 = Ret (st2, e)" "stream_ok st2" by blast
    with 5(1) [OF None u(2)] 5(3) h None show ?thesis
      by (cases e) (auto dest: stream_okD(2))
  qed
qed (auto dest: stream_okD(2) split: if_split_asm)

lemma initial_ok: "stream_ok (initial_stream mets)"
  by (simp add: initial_stream_def newRequestContext_def stream_ok_def ctx_ok_def resp_ok_def)

subsection \<open>Response headers go out once\<close>

definition announces :: "ProcessingRequest \<Rightarrow> bool" where
  \<comment> \<open>the message that announces a response of the model server\<close>
  "announces req \<longleftrightarrow> (case req of ResponseHeaders h \<Rightarrow> True | _ \<Rightarrow> False)"

definition announced :: "recv list \<Rightarrow> nat" where
  "announced rs = length (filter (\<lambda>r. case r of Recv req env \<Rightarrow> announces req | _ \<Rightarrow> False) rs)"

lemma announced_Cons [simp]: "announced [] = 0"
  "announced (r # rs) = (case r of Recv req env \<Rightarrow> of_bool (announces req) | _ \<Rightarrow> 0) + announced rs"
  by (auto simp: announced_def split: recv.splits)

definition header_count :: "stream_state \<Rightarrow> nat" where
  \<comment> \<open>the response headers sent, and the ones the state is about to send\<close>
  "header_count st = count_list (kinds st) KRespHeaders + of_bool (in_state st ResponseRecieved)"

lemma header_count_step:
  "ctx_step (st_ctx st) (st_ctx st') \<Longrightarrow> st_sent st' = st_sent st \<Longrightarrow> header_count st' = header_count st"
  by (simp add: header_count_def ctx_step_def)

lemma handle_message_count:
  assumes h: "handle_message s codec conv env req st = Ret st'"
  shows "header_count st' \<le> of_bool (announces req) + header_count st"
proof (cases req)
  case (RequestHeaders hd)
  with h obtain c' e where "HandleRequestHeaders s env (st_ctx st) hd = Ret (c', e)" "st' = st\<lparr>st_ctx := c', st_err := e\<rparr>"
    by (auto simp: handle_message_def go_simps)
  with HandleRequestHeaders_step have "header_count st' = header_count st" by (intro header_count_step) fastforce+
  then show ?thesis by simp
next
  case (RequestBody b)
  with h have "on_request_body s codec env b st = Ret st'" by (simp add: handle_message_def)
  then have "header_count st' = header_count st"
  proof (cases rule: on_request_body_cases)
    case (whole requestBody c' m' e)
    with HandleRequestBody_step show ?thesis by (intro header_count_step) auto
  qed (simp add: header_count_def)
  then show ?thesis by simp
next
  case (ResponseHeaders hd)
  with h show ?thesis by (auto simp: handle_message_def announces_def header_count_def)
next
  case (ResponseBody b)
  with h on_streamed_response_frame [of st codec env b] on_buffered_response_cases [of codec conv env b st st']
  have "header_count st' = header_count st"
    by (intro header_count_step) (auto simp: handle_message_def split: if_split_asm)
  then show ?thesis by simp
qed (use h in \<open>simp_all add: handle_message_def\<close>)

lemma send_count:
  assumes "ctx_ok (st_ctx st)"
  shows "send_request_header send st = (st', e) \<Longrightarrow> header_count st' \<le> header_count st"
    "send_request_body send st = (st', e) \<Longrightarrow> header_count st' \<le> header_count st"
    "send_response_header send st = (st', e) \<Longrightarrow> header_count st' \<le> header_count st"
  using assms
  by (auto simp: send_request_header_def send_request_body_def send_response_header_def then_if_ok_def Send_def header_count_def
      dest: ctx_okD split: option.split_asm if_split_asm)

lemma send_response_body_count:
  assumes ok: "ctx_ok (st_ctx st)" and b: "send_response_body send st = Ret (st', e)"
  shows "header_count st' \<le> header_count st"
proof (cases "respBodyResp (st_ctx st)")
  case (Some resp)
  with ok b ctx_okD(4) [OF ok Some] show ?thesis
    by (cases "GetEndOfStream resp")
      (auto simp: send_response_body_def Send_def header_count_def split: option.split_asm if_split_asm)
qed (use b in \<open>simp add: send_response_body_def\<close>)

lemma updateState_count:
  assumes ok: "stream_ok st" and u: "updateStateAndSendIfNeeded send st = Ret (st', e)"
  shows "header_count st' \<le> header_count st"
proof -
  obtain st1 e1 where 1: "send_request_header send st = (st1, e1)" by fastforce
  note ok1 = send_request_header_ok [OF ok 1] and c1 = send_count(1) [OF stream_okD(1) [OF ok] 1]
  obtain st2 e2 where 2: "send_request_body send st1 = (st2, e2)" by fastforce
  note ok2 = send_request_body_ok [OF ok1 2] and c2 = send_count(2) [OF stream_okD(1) [OF ok1] 2]
  obtain st3 e3 where 3: "send_response_header send st2 = (st3, e3)" by fastforce
  note ok3 = send_response_header_ok [OF ok2 3] and c3 = send_count(3) [OF stream_okD(1) [OF ok2] 3]
  from send_response_body_ok [OF ok3] obtain st4 e4 where
    4: "send_response_body send st3 = Ret (st4, e4)" and ok4: "stream_ok st4" by blast
  note c4 = send_response_body_count [OF stream_okD(1) [OF ok3] 4]
  note none = send_trailers_none [OF stream_okD(1) [OF ok2]] send_trailers_none [OF stream_okD(1) [OF ok4]]
  show ?thesis
    using u 1 2 3 4 none c1 c2 c3 c4
    by (cases e1; cases e2; cases e3; cases e4) (auto simp: updateStateAndSendIfNeeded_def go_if_ok_def then_if_ok_def)
qed

lemma fire_error_count:
  assumes "fire_error send err st = (st', e)"
  shows "header_count st' \<le> header_count st"
  using assms
  by (auto simp: fire_error_def Send_def BuildErrResponse_def Let_def header_count_def mk_response_def kind_of_def
      split: sum.split_asm option.split_asm if_split_asm)

lemma Process_count:
  assumes "stream_ok st" "Process s codec conv send rs st = Ret res"
  shows "header_count (result_state res) \<le> announced rs + header_count st"
  using assms
proof (induction s codec conv send rs st rule: Process.induct)
  case (5 s codec conv send req env rs st)
  from 5(3) obtain st1 where h: "handle_message s codec conv env req st = Ret st1" by (auto simp: go_simps)
  note ok1 = handle_message_ok [OF 5(2) h] and c1 = handle_message_count [OF h]
  have d: "header_count (deferred x) = header_count x" for x by (simp add: header_count_def)
  show ?case
  proof (cases "st_err st1")
    case (Some err)
    obtain st2 e where f: "fire_error send err st1 = (st2, e)" by fastforce
    with 5(3) h Some have "res = Returned (deferred st2) e" by simp
    with fire_error_count [OF f] c1 d [of st2] show ?thesis by simp
  next
    case None
    from updateState_ok [OF ok1, of send] obtain st2 e where
      u: "updateStateAndSendIfNeeded send st1 = Ret (st2, e)" "stream_ok st2" by blast
    from 5(1) [OF None u(2)] 5(3) h None u(1) c1 updateState_count [OF ok1 u(1)] d [of st2] show ?thesis
      by (cases e) fastforce+
  qed
qed (auto simp: header_count_def split: if_split_asm)

definition in_order :: "kind list \<Rightarrow> bool" where
  \<comment> \<open>Header, then Body, for the request and then for the response, each part in one piece; an
     immediate response ends the stream\<close>
  "in_order ks \<longleftrightarrow> (\<exists>req resp end. ks = req @ resp @ end \<and>
     req \<in> {[], [KReqHeaders], [KReqHeaders, KReqBody]} \<and>
     (resp = [] \<or> (\<exists>n. resp = KRespHeaders # replicate n KRespBody)) \<and>
     end \<in> {[], [KImmediate]})"

lemma in_order_snoc:
  assumes "in_order ks" "if ks = [] then k \<in> {KReqHeaders, KRespHeaders, KImmediate} else may_follow (last ks) k"
    "k = KRespHeaders \<Longrightarrow> KRespHeaders \<notin> set ks"
  shows "in_order (ks @ [k])"
proof -
  from assms(1) obtain req resp fin where ks: "ks = req @ resp @ fin" "req \<in> {[], [KReqHeaders], [KReqHeaders, KReqBody]}"
    "resp = [] \<or> (\<exists>n. resp = KRespHeaders # replicate n KRespBody)" "fin \<in> {[], [KImmediate]}"
    unfolding in_order_def by blast
  have fin: "fin = []"
  proof (rule ccontr)
    assume "fin \<noteq> []"
    with ks have "ks \<noteq> []" "last ks = KImmediate" by auto
    with assms(2) show False by simp
  qed
  have extend: "in_order (req' @ resp' @ fin')" if "req' \<in> {[], [KReqHeaders], [KReqHeaders, KReqBody]}"
    "resp' = [] \<or> (\<exists>n. resp' = KRespHeaders # replicate n KRespBody)" "fin' \<in> {[], [KImmediate]}" for req' resp' fin'
    using that unfolding in_order_def by blast
  show ?thesis
  proof (cases "k = KImmediate")
    case True
    with extend [OF ks(2,3), of "[KImmediate]"] ks(1) fin show ?thesis by simp
  next
    case imm: False
    show ?thesis
    proof (cases "resp = []")
      case True
      with assms(2) ks(1,2) fin imm have "k = KRespHeaders \<or> req @ [k] \<in> {[KReqHeaders], [KReqHeaders, KReqBody]}"
        by (cases k) (auto split: if_split_asm)
      with extend [of "req @ [k]" "[]" "[]"] extend [of req "[KRespHeaders]" "[]"] ks(1,2) True fin show ?thesis by auto
    next
      case False
      with ks(3) obtain n where n: "resp = KRespHeaders # replicate n KRespBody" by blast
      then have "last ks \<in> {KRespHeaders, KRespBody}" using ks(1) fin by (cases n) auto
      with assms(2,3) ks(1) n imm have "k = KRespBody" by (cases k) auto
      then have eq: "ks @ [k] = req @ (KRespHeaders # replicate (Suc n) KRespBody) @ []"
        using ks(1) n fin by (simp add: replicate_append_same)
      show ?thesis unfolding eq using ks(2) by (rule extend) blast+
    qed
  qed
qed

lemma ordered_once: "ordered ks \<Longrightarrow> count_list ks KRespHeaders \<le> 1 \<Longrightarrow> in_order ks"
proof (induction ks rule: rev_induct)
  case Nil
  then show ?case by (simp add: in_order_def)
next
  case (snoc k ks)
  from snoc.prems have ks: "ordered ks" "if ks = [] then k \<in> {KReqHeaders, KRespHeaders, KImmediate} else may_follow (last ks) k"
    unfolding ordered_snoc by blast+
  from snoc.prems(2) have "count_list ks KRespHeaders \<le> 1" "k = KRespHeaders \<Longrightarrow> KRespHeaders \<notin> set ks"
    by (auto simp: count_list_0_iff split: if_split_asm)
  with in_order_snoc [OF snoc.IH [OF ks(1)] ks(2)] show ?case by blast
qed

subsection \<open>The gauge of running requests\<close>

definition ends_request :: "recv \<Rightarrow> bool" where
  "ends_request r \<longleftrightarrow> (case r of Recv (RequestBody b) env \<Rightarrow> body_EndOfStream b | _ \<Rightarrow> False)"

definition gauge_ok :: "epp_metrics \<Rightarrow> recv list \<Rightarrow> stream_state \<Rightarrow> bool" where
  \<comment> \<open>the gauge is up by one exactly while the request is marked running, and from the moment
     the body response exists no further request body is to come\<close>
  "gauge_ok m0 rs st \<longleftrightarrow>
     runningRequests (st_metrics st) =
       (if RequestRunning (st_ctx st) then runningRequests (IncRunningRequests (ctx_Model (st_ctx st)) m0)
        else runningRequests m0) \<and>
     (RequestRunning (st_ctx st) \<or> reqBodyResp (st_ctx st) \<noteq> None \<longrightarrow> (\<forall>r\<in>set rs. \<not> ends_request r)) \<and>
     (RequestRunning (st_ctx st) \<longrightarrow> RequestState (st_ctx st) \<notin> {RequestReceived, HeaderRequestResponseComplete})"

lemma Inc_cong:
  "runningRequests a = runningRequests b \<Longrightarrow> runningRequests (IncRunningRequests m a) = runningRequests (IncRunningRequests m b)"
  "runningRequests a = runningRequests b \<Longrightarrow> runningRequests (DecRunningRequests m a) = runningRequests (DecRunningRequests m b)"
  by (simp_all add: IncRunningRequests_def DecRunningRequests_def)

lemma gauge_frame:
  assumes "gauge_ok m0 (r # rs) st" "RequestRunning (st_ctx st') = RequestRunning (st_ctx st)"
    "runningRequests (st_metrics st') = runningRequests (st_metrics st)"
    "reqBodyResp (st_ctx st') = reqBodyResp (st_ctx st)" "ctx_Model (st_ctx st') = ctx_Model (st_ctx st)"
    "RequestState (st_ctx st') = RequestState (st_ctx st) \<or> RequestState (st_ctx st') = ResponseRecieved"
  shows "gauge_ok m0 rs st'"
  using assms unfolding gauge_ok_def by auto

lemma handle_message_gauge:
  assumes g: "gauge_ok m0 (Recv req env # rs) st" and once: "length (filter ends_request (Recv req env # rs)) \<le> 1"
    and h: "handle_message s codec conv env req st = Ret st'"
  shows "gauge_ok m0 rs st'"
proof (cases req)
  case (RequestHeaders hd)
  with h obtain c' e where c: "HandleRequestHeaders s env (st_ctx st) hd = Ret (c', e)" "st' = st\<lparr>st_ctx := c', st_err := e\<rparr>"
    by (auto simp: handle_message_def go_simps)
  from HandleRequestHeaders_step [OF c(1)] c(2) show ?thesis
    by (intro gauge_frame [OF g]) (auto simp: ctx_step_def)
next
  case (RequestBody b)
  with h have "on_request_body s codec env b st = Ret st'" by (simp add: handle_message_def)
  then show ?thesis
  proof (cases rule: on_request_body_cases)
    case chunk
    then show ?thesis by (intro gauge_frame [OF g]) auto
  next
    case (whole rb c' m' e)
    from whole(1) RequestBody have e: "ends_request (Recv req env)" by (simp add: ends_request_def)
    with g have notrun: "\<not> RequestRunning (st_ctx st)" by (auto simp: gauge_ok_def)
    from e once have "\<forall>r\<in>set rs. \<not> ends_request r" by (auto simp: filter_empty_conv)
    moreover have "\<not> RequestRunning (st_ctx st')"
      using HandleRequestBody_step [OF whole(3)] notrun whole(4) by (simp add: ctx_step_def)
    ultimately show ?thesis using g notrun whole(7) by (auto simp: gauge_ok_def)
  qed
next
  case (ResponseHeaders hd)
  with h header_steps [of "st_ctx st" "Headers hd"] show ?thesis
    by (intro gauge_frame [OF g]) (auto simp: handle_message_def response_headers_def ctx_step_def)
next
  case (ResponseBody b)
  with h on_streamed_response_frame [of st codec env b] on_buffered_response_cases [of codec conv env b st st']
  show ?thesis by (intro gauge_frame [OF g]) (auto simp: handle_message_def ctx_step_def split: if_split_asm)
qed (use h in \<open>auto simp: handle_message_def intro!: gauge_frame [OF g]\<close>)

lemma Send_frame:
  assumes "Send send resp st = (st', e)"
  shows "st_ctx st' = st_ctx st" "st_metrics st' = st_metrics st"
  using assms by (auto simp: Send_def split: option.split_asm)

lemma send_request_header_gauge:
  "gauge_ok m0 rs st \<Longrightarrow> send_request_header send st = (st', e) \<Longrightarrow> gauge_ok m0 rs st'"
  by (auto simp: send_request_header_def then_if_ok_def Send_def gauge_ok_def split: option.split_asm if_split_asm)

lemma send_response_header_gauge:
  "gauge_ok m0 rs st \<Longrightarrow> send_response_header send st = (st', e) \<Longrightarrow> gauge_ok m0 rs st'"
  by (auto simp: send_response_header_def then_if_ok_def Send_def gauge_ok_def split: option.split_asm if_split_asm)

lemma send_response_body_gauge:
  assumes "gauge_ok m0 rs st" "send_response_body send st = Ret (st', e)"
  shows "gauge_ok m0 rs st'"
proof (cases "respBodyResp (st_ctx st)")
  case (Some resp)
  with assms show ?thesis
    by (cases "GetEndOfStream resp")
      (auto simp: send_response_body_def Send_def gauge_ok_def split: option.split_asm if_split_asm)
qed (use assms in \<open>simp add: send_response_body_def\<close>)

lemma send_request_body_gauge:
  assumes g: "gauge_ok m0 rs st" and b: "send_request_body send st = (st', e)"
  shows "gauge_ok m0 rs st'"
proof (cases "\<exists>resp. reqBodyResp (st_ctx st) = Some resp \<and> in_state st HeaderRequestResponseComplete")
  case True
  then obtain resp where resp: "reqBodyResp (st_ctx st) = Some resp" "in_state st HeaderRequestResponseComplete" by blast
  with g have nr: "\<not> RequestRunning (st_ctx st)" by (auto simp: gauge_ok_def)
  from g nr have m: "runningRequests (st_metrics st) = runningRequests m0" by (simp add: gauge_ok_def)
  from g resp have n: "\<forall>r\<in>set rs. \<not> ends_request r" by (simp add: gauge_ok_def)
  from b resp n nr m Inc_cong(1) [OF m] show ?thesis
    by (auto simp: send_request_body_def then_if_ok_def Send_def gauge_ok_def split: option.split_asm)
next
  case False
  with b g show ?thesis by (auto simp: send_request_body_def split: option.split_asm if_split_asm)
qed

lemma updateState_gauge:
  assumes ok: "stream_ok st" and g: "gauge_ok m0 rs st" and u: "updateStateAndSendIfNeeded send st = Ret (st', e)"
  shows "gauge_ok m0 rs st'"
proof -
  obtain st1 e1 where 1: "send_request_header send st = (st1, e1)" by fastforce
  note ok1 = send_request_header_ok [OF ok 1] and g1 = send_request_header_gauge [OF g 1]
  obtain st2 e2 where 2: "send_request_body send st1 = (st2, e2)" by fastforce
  note ok2 = send_request_body_ok [OF ok1 2] and g2 = send_request_body_gauge [OF g1 2]
  obtain st3 e3 where 3: "send_response_header send st2 = (st3, e3)" by fastforce
  note ok3 = send_response_header_ok [OF ok2 3] and g3 = send_response_header_gauge [OF g2 3]
  from send_response_body_ok [OF ok3] obtain st4 e4 where
    4: "send_response_body send st3 = Ret (st4, e4)" and ok4: "stream_ok st4" by blast
  note g4 = send_response_body_gauge [OF g3 4]
  note none = send_trailers_none [OF stream_okD(1) [OF ok2]] send_trailers_none [OF stream_okD(1) [OF ok4]]
  show ?thesis
    using u 1 2 3 4 none g1 g2 g3 g4
    by (cases e1; cases e2; cases e3; cases e4) (auto simp: updateStateAndSendIfNeeded_def go_if_ok_def then_if_ok_def)
qed

lemma deferred_gauge:
  assumes "gauge_ok m0 rs st"
  shows "runningRequests (st_metrics (deferred st)) = runningRequests m0"
proof -
  obtain mets where m: "st_metrics (deferred st) =
      (if RequestRunning (st_ctx st) then DecRunningRequests (ctx_Model (st_ctx st)) mets else mets)"
    "runningRequests mets = runningRequests (st_metrics st)"
    by (simp add: deferred_def Let_def split: option.splits)
  show ?thesis
  proof (cases "RequestRunning (st_ctx st)")
    case True
    with assms m(2) have "runningRequests mets = runningRequests (IncRunningRequests (ctx_Model (st_ctx st)) m0)"
      by (simp add: gauge_ok_def)
    with Inc_cong(2) [OF this, of "ctx_Model (st_ctx st)"] m(1) True show ?thesis by simp
  qed (use assms m in \<open>simp add: gauge_ok_def\<close>)
qed

lemma fire_error_gauge: "gauge_ok m0 rs st \<Longrightarrow> fire_error send err st = (st', e) \<Longrightarrow> gauge_ok m0 rs st'"
  by (auto simp: fire_error_def Send_def gauge_ok_def split: sum.split_asm option.split_asm)

lemma Process_gauge:
  assumes "stream_ok st" "gauge_ok m0 rs st" "length (filter ends_request rs) \<le> 1"
    "Process s codec conv send rs st = Ret (Returned st' e)"
  shows "runningRequests (st_metrics st') = runningRequests m0"
  using assms
proof (induction s codec conv send rs st rule: Process.induct)
  case (5 s codec conv send req env rs st)
  from 5(5) obtain st1 where h: "handle_message s codec conv env req st = Ret st1" by (auto simp: go_simps)
  note ok1 = handle_message_ok [OF 5(2) h] and g1 = handle_message_gauge [OF 5(3,4) h]
  show ?case
  proof (cases "st_err st1")
    case (Some err)
    obtain st2 x where f: "fire_error send err st1 = (st2, x)" by fastforce
    with 5(5) h Some have "st' = deferred st2" by simp
    with deferred_gauge [OF fire_error_gauge [OF g1 f]] show ?thesis by simp
  next
    case None
    from updateState_ok [OF ok1, of send] obtain st2 x where
      u: "updateStateAndSendIfNeeded send st1 = Ret (st2, x)" "stream_ok st2" by blast
    note g2 = updateState_gauge [OF ok1 g1 u(1)]
    have n: "length (filter ends_request rs) \<le> 1" using 5(4) by (auto split: if_split_asm)
    show ?thesis
    proof (cases x)
      case None
      with 5(1) [OF \<open>st_err st1 = None\<close> u(2) g2 n] 5(5) h u(1) \<open>st_err st1 = None\<close> show ?thesis by simp
    next
      case (Some err)
      with 5(5) h u(1) \<open>st_err st1 = None\<close> have "st' = deferred st2" by simp
      with deferred_gauge [OF g2] show ?thesis by simp
    qed
  qed
qed (auto dest: deferred_gauge split: if_split_asm)

end
