(* ===== verification/Streaming_Properties.thy ===== *)
theory Streaming_Properties
  imports Streaming_Process
begin

text \<open>
  Properties of the streaming server: what a routed request is answered with, the gauge of
  running requests, how requests are refused, that streamed responses pass through
  unchanged, and the order of the responses.
\<close>

subsection \<open>A concrete stream\<close>

definition example_stream_codec :: json_codec where
  "example_stream_codec = go_json (\<lambda>_ _. ''invalid character'')"

abbreviation example_doc :: json_map where
  "example_doc \<equiv> [(''model'', JString ''m'')]"

lemma example_codec [simp]:
  "UnmarshalMap example_stream_codec None example_text = (Some example_doc, None)"
  "MarshalMap example_stream_codec (Some example_doc) = Inr example_text"
  by (simp_all add: example_stream_codec_def example_unmarshal example_marshal)

lemma example_doc_wf: "wf_doc example_doc"
  using unmarshal_map_wf [OF example_unmarshal [of "\<lambda>_ _. []"]] by simp

definition example_env :: step_env where
  "example_env = \<lparr>env_now = 5, env_ds = example_pool_ds, env_config = example_config, env_u = Fin 0,
     env_model_draw = 0, env_pod_draw = 0, env_post = (\<lambda>_. PostFailed ''connection refused'')\<rparr>"

definition example_server :: StreamingServer where
  "example_server = \<lparr>destinationEndpointHintKey = ''x-gateway-destination-endpoint'',
     destinationEndpointHintMetadataNamespace = ''envoy.lb''\<rparr>"

definition example_messages :: "recv list" where
  "example_messages =
     [Recv (RequestHeaders \<lparr>Headers = [], headers_EndOfStream = False\<rparr>) example_env,
      Recv (RequestBody \<lparr>body_Body = example_text, body_EndOfStream = True\<rparr>) example_env]"

lemma example_assemble:
  "assembleRequest example_pool_ds r (Some [(''model'', JString ''m'')]) =
     Ret (Inr \<lparr>req_Model = ''m'', req_TargetModels = [], ResolvedTargetModel = ''m'', req_Critical = True\<rparr>)"
  by (simp add: assembleRequest_def json_get_def ModelGet_def example_pool_ds_simps example_model_def IsCritical_def)

lemma example_ask:
  "ask_frontend example_stream_codec example_env c (Some example_doc) =
     (c, snd (callFrontEndForWorker example_stream_codec (env_post example_env) (Some example_doc)))"
proof -
  obtain payload where "MarshalMap example_stream_codec (Some (fst (fe_body (Some example_doc)))) = Inr payload"
    using go.encodes [OF fe_body_wf(1)] example_doc_wf unfolding example_stream_codec_def by blast
  then have "fst (callFrontEndForWorker example_stream_codec (env_post example_env) (Some example_doc)) =
      Inl (''FrontEnd POST failed: connection refused'')"
    by (cases "fe_body (Some example_doc)") (simp add: callFrontEndForWorker_def example_env_def)
  then show ?thesis
    by (cases "callFrontEndForWorker example_stream_codec (env_post example_env) (Some example_doc)") (simp add: ask_frontend_def)
qed

lemma example_handled:
  "\<exists>c' m'. HandleRequestBody example_server example_stream_codec example_env c (Some [(''model'', JString ''m'')]) =
     Ret ((c', m'), None)"
proof -
  let ?req = "\<lparr>req_Model = ''m'', req_TargetModels = [], ResolvedTargetModel = ''m'', req_Critical = True\<rparr>"
  have sane: "sane_pods (PodGetAll example_pool_ds)" using example_sane by (simp add: example_pool_pods)
  have "\<exists>res. Filter (defaultFilter example_config) (Fin 0) ?req (PodGetAll example_pool_ds) = (res, None) \<and> res \<noteq> []"
    using lowLatency_total [OF sane, of example_config "Fin 0" ?req] sane by (auto simp: defaultFilter_split)
  then obtain pm where "Schedule example_config example_pool_ds (Fin 0) 0 ?req = Ret (Inr pm)"
    using Schedule_picks by blast
  moreover have "PoolGet example_pool_ds = Inr example_pool" by (simp add: PoolGet_Some example_pool_ds_simps)
  moreover have "env_ds example_env = example_pool_ds" "env_config example_env = example_config" "env_u example_env = Fin 0"
    "env_pod_draw example_env = 0" by (simp_all add: example_env_def)
  ultimately show ?thesis
    by (simp add: HandleRequestBody_def example_assemble replace_model_def Let_def example_ask)
qed

subsection \<open>Steps of a stream\<close>

lemma update_idle:
  assumes "reqHeaderResp (st_ctx st) = None" "reqBodyResp (st_ctx st) = None" "reqTrailerResp (st_ctx st) = None"
    "respHeaderResp (st_ctx st) = None" "respBodyResp (st_ctx st) = None" "respTrailerResp (st_ctx st) = None"
  shows "updateStateAndSendIfNeeded send st = Ret (st, None)"
  using assms by (simp add: updateStateAndSendIfNeeded_def go_if_ok_def then_if_ok_def send_request_header_def
      send_request_body_def send_request_trailer_def send_response_header_def send_response_body_def send_response_trailer_def)

lemma update_request:
  assumes "reqHeaderResp (st_ctx st) = Some hr" "reqBodyResp (st_ctx st) = Some br" "in_state st RequestReceived"
    "reqTrailerResp (st_ctx st) = None" "send (length (st_sent st)) = None" "send (Suc (length (st_sent st))) = None"
  shows "\<exists>st'. updateStateAndSendIfNeeded send st = Ret (st', None) \<and> st_sent st' = st_sent st @ [hr, br] \<and>
    RequestRunning (st_ctx st') \<and> in_state st' BodyRequestResponsesComplete"
proof -
  let ?st1 = "st\<lparr>st_sent := st_sent st @ [hr], st_ctx := (st_ctx st)\<lparr>RequestState := HeaderRequestResponseComplete\<rparr>\<rparr>"
  have 1: "send_request_header send st = (?st1, None)"
    using assms by (simp add: send_request_header_def then_if_ok_def Send_def)
  let ?st2 = "?st1\<lparr>st_sent := st_sent ?st1 @ [br], st_ctx := (st_ctx ?st1)\<lparr>RequestState := BodyRequestResponsesComplete,
      RequestRunning := True, reqBodyResp := None\<rparr>, st_metrics := IncRunningRequests (ctx_Model (st_ctx st)) (st_metrics st)\<rparr>"
  have 2: "send_request_body send ?st1 = (?st2, None)"
    using assms by (simp add: send_request_body_def then_if_ok_def Send_def)
  have 3: "send_request_trailer send ?st2 = (?st2, None)" "send_response_header send ?st2 = (?st2, None)"
    "send_response_body send ?st2 = Ret (?st2, None)" "send_response_trailer send ?st2 = (?st2, None)"
    using assms(4) by (simp_all add: send_request_trailer_def send_response_header_def send_response_body_def
        send_response_trailer_def split: option.splits)
  have "updateStateAndSendIfNeeded send st = Ret (?st2, None)"
    unfolding updateStateAndSendIfNeeded_def go_if_ok_def then_if_ok_def 1 prod.case option.case 2 3 go_bind.simps by simp
  then show ?thesis by (intro exI [of _ ?st2]) simp
qed

lemma request_headers_step:
  assumes "\<not> headers_EndOfStream h"
  shows "Process s codec conv send (Recv (RequestHeaders h) env0 # rs) (initial_stream mets) =
    Process s codec conv send rs
      ((initial_stream mets)\<lparr>st_ctx := newRequestContext\<lparr>RequestReceivedTimestamp := env_now env0\<rparr>\<rparr>)"
proof -
  let ?st = "(initial_stream mets)\<lparr>st_ctx := newRequestContext\<lparr>RequestReceivedTimestamp := env_now env0\<rparr>\<rparr>"
  have "handle_message s codec conv env0 (RequestHeaders h) (initial_stream mets) = Ret ?st"
    using assms by (simp add: handle_message_def HandleRequestHeaders_def initial_stream_def)
  moreover have "updateStateAndSendIfNeeded send ?st = Ret (?st, None)"
    by (rule update_idle) (simp_all add: newRequestContext_def)
  moreover have "st_err ?st = None" by (simp add: initial_stream_def)
  ultimately show ?thesis by simp
qed

subsection \<open>A routed request\<close>

lemma Schedule_pod: "Schedule config ds u r req = Ret (Inr pm) \<Longrightarrow> pm \<in> set (PodGetAll ds)"
proof -
  assume a: "Schedule config ds u r req = Ret (Inr pm)"
  obtain pods err where f: "Filter (defaultFilter config) u req (PodGetAll ds) = (pods, err)" by fastforce
  from a f have "err = None \<and> pods \<noteq> []" by (auto simp: Schedule_def split: if_split_asm)
  with Schedule_picks [of config u req ds pods r] f a have "pm \<in> set pods" by auto
  moreover have "subseq pods (PodGetAll ds)"
    using Filter_narrowing [OF narrowing_tree, of config u req "PodGetAll ds"] f by simp
  ultimately show ?thesis by (auto elim: list_emb_set)
qed

definition header_response :: "StreamingServer \<Rightarrow> string \<Rightarrow> string \<Rightarrow> int \<Rightarrow> ProcessingResponse" where
  "header_response s wid endpoint n =
     \<lparr>resp_Response = RespRequestHeaders
        \<lparr>ClearRouteCache = True, SetHeaders = request_headers s wid endpoint n, BodyMutation_field = None\<rparr>,
      DynamicMetadata = Some (endpoint_metadata s endpoint)\<rparr>"

lemma process_routed:
  assumes h: "\<not> headers_EndOfStream h" and b: "body_EndOfStream b" and send: "send 0 = None" "send 1 = None"
    and doc: "m = fst (UnmarshalMap codec None (body_Body b))"
    and hb: "HandleRequestBody s codec env (newRequestContext\<lparr>RequestReceivedTimestamp := env_now env0\<rparr>) m =
      Ret ((c', m'), None)"
    and c': "reqHeaderResp c' = Some hr" "reqBodyResp c' = Some br" "RequestState c' = RequestReceived" "reqTrailerResp c' = None"
  shows "\<exists>st'. st_sent st' = [hr, br] \<and>
    Process s codec conv send (Recv (RequestHeaders h) env0 # Recv (RequestBody b) env # rs) (initial_stream mets) =
    Process s codec conv send rs st'"
proof -
  let ?st = "(initial_stream mets)\<lparr>st_ctx := newRequestContext\<lparr>RequestReceivedTimestamp := env_now env0\<rparr>\<rparr>"
  obtain st1 where st1: "handle_message s codec conv env (RequestBody b) ?st = Ret st1"
    "st_ctx st1 = c'" "st_err st1 = None" "st_sent st1 = []"
    using b doc hb
    by (cases "UnmarshalMap codec None (body_Body b)")
      (simp add: handle_message_def on_request_body_def Let_def initial_stream_def)
  from update_request [of st1 hr br send] c' st1 send obtain st' where
    st': "updateStateAndSendIfNeeded send st1 = Ret (st', None)" "st_sent st' = [hr, br]"
    by auto
  have "Process s codec conv send (Recv (RequestHeaders h) env0 # Recv (RequestBody b) env # rs) (initial_stream mets) =
      Process s codec conv send rs st'"
    unfolding request_headers_step [OF h] by (simp add: st1 st')
  with st'(2) show ?thesis by blast
qed

lemma handled_context:
  assumes "HandleRequestBody s codec env (newRequestContext\<lparr>RequestReceivedTimestamp := t\<rparr>) m = Ret ((c', m'), None)"
  obtains llmReq bytes pm pool wid where
    "assembleRequest (env_ds env) (env_model_draw env) m = Ret (Inr llmReq)"
    "MarshalMap codec (replace_model llmReq m) = Inr bytes"
    "pm \<in> set (PodGetAll (env_ds env))" "ds_pool (env_ds env) = Some pool"
    "reqHeaderResp c' = Some (header_response s wid (endpoint_of (pm_pod pm) pool) (int (length bytes)))"
    "reqBodyResp c' = Some (body_response bytes)" "RequestState c' = RequestReceived" "reqTrailerResp c' = None"
proof -
  let ?c = "newRequestContext\<lparr>RequestReceivedTimestamp := t\<rparr>"
  have c: "ask_frontend codec env ?c x = (c1, y) \<Longrightarrow> reqTrailerResp c1 = None" for x c1 y
    by (auto simp: ask_frontend_def newRequestContext_def split: prod.split_asm sum.split_asm if_split_asm)
  from assms show thesis
  proof (cases rule: HandleRequestBody_cases)
    case (handled llmReq bytes ctx1 body2 pm pool)
    have step: "RequestState ctx1 = RequestReceived" "reqTrailerResp ctx1 = None"
      using ask_frontend_step [OF handled(4)] c [OF handled(4)] by (simp_all add: ctx_step_def newRequestContext_def)
    have "reqHeaderResp c' = Some (header_response s (WorkerInstanceID ctx1) (endpoint_of (pm_pod pm) pool) (int (length bytes)))"
      "reqBodyResp c' = Some (body_response bytes)" "RequestState c' = RequestReceived" "reqTrailerResp c' = None"
      unfolding handled(7) using step by (simp_all add: populateRequestHeaderResponse_def header_response_def)
    moreover have "ds_pool (env_ds env) = Some pool" using handled(6) by (simp add: PoolGet_Some)
    ultimately show ?thesis using that handled(2,3) Schedule_pod [OF handled(5)] by blast
  qed simp
qed

text \<open>
  C7. A request with a body that is handled without error is answered with exactly two
  responses: the headers, which carry the endpoint of a pod of the datastore as a header
  and as metadata and the length of the body, and then that body, the client's document
  with the model replaced by the resolved target model.
\<close>

theorem request_routed:
  assumes h: "\<not> headers_EndOfStream h" and b: "body_EndOfStream b" and send: "send 0 = None" "send 1 = None"
    and doc: "m = fst (UnmarshalMap codec None (body_Body b))"
    and handled: "HandleRequestBody s codec env (newRequestContext\<lparr>RequestReceivedTimestamp := env_now env0\<rparr>) m =
      Ret ((c', m'), None)"
  shows "\<exists>llmReq bytes pm pool wid st'.
    assembleRequest (env_ds env) (env_model_draw env) m = Ret (Inr llmReq) \<and>
    MarshalMap codec (replace_model llmReq m) = Inr bytes \<and>
    pm \<in> set (PodGetAll (env_ds env)) \<and> ds_pool (env_ds env) = Some pool \<and>
    Process s codec conv send [Recv (RequestHeaders h) env0, Recv (RequestBody b) env] (initial_stream mets) = Ret (Running st') \<and>
    st_sent st' = [header_response s wid (Address (pm_pod pm) @ '':'' @ Itoa (sint (TargetPortNumber (pool_Spec pool)))) (int (length bytes)),
                   body_response bytes]"
proof -
  obtain llmReq bytes pm pool wid where w:
    "assembleRequest (env_ds env) (env_model_draw env) m = Ret (Inr llmReq)"
    "MarshalMap codec (replace_model llmReq m) = Inr bytes"
    "pm \<in> set (PodGetAll (env_ds env))" "ds_pool (env_ds env) = Some pool"
    "reqHeaderResp c' = Some (header_response s wid (endpoint_of (pm_pod pm) pool) (int (length bytes)))"
    "reqBodyResp c' = Some (body_response bytes)" "RequestState c' = RequestReceived" "reqTrailerResp c' = None"
    using handled_context [OF handled] .
  with process_routed [OF h b send doc handled w(5-8), of conv "[]" mets] show ?thesis
    by (auto simp: endpoint_of_def)
qed

abbreviation example_headers :: HttpHeaders where
  "example_headers \<equiv> \<lparr>Headers = [], headers_EndOfStream = False\<rparr>"

abbreviation example_body :: HttpBody where
  "example_body \<equiv> \<lparr>body_Body = example_text, body_EndOfStream = True\<rparr>"

lemma example_document: "Some [(''model'', JString ''m'')] = fst (UnmarshalMap example_stream_codec None (body_Body example_body))"
  by simp

theorem request_routed_witness:
  "\<exists>pm st'. pm \<in> set (PodGetAll example_pool_ds) \<and>
    Process example_server example_stream_codec (\<lambda>_. 0) (\<lambda>_. None) example_messages (initial_stream no_metrics) = Ret (Running st') \<and>
    length (st_sent st') = 2"
proof -
  obtain c' m' where "HandleRequestBody example_server example_stream_codec example_env
      (newRequestContext\<lparr>RequestReceivedTimestamp := env_now example_env\<rparr>) (Some [(''model'', JString ''m'')]) = Ret ((c', m'), None)"
    using example_handled by blast
  from request_routed [OF _ _ _ _ example_document this, of example_headers "\<lambda>_. None" "\<lambda>_. 0" no_metrics]
  show ?thesis by (force simp: example_messages_def example_env_def)
qed

lemma example_process:
  "\<exists>st. Process example_server example_stream_codec (\<lambda>_. 0) (\<lambda>_. None) (example_messages @ [RecvEOF]) (initial_stream no_metrics) =
     Ret (Returned st None)"
proof -
  obtain c' m' where hb: "HandleRequestBody example_server example_stream_codec example_env
      (newRequestContext\<lparr>RequestReceivedTimestamp := env_now example_env\<rparr>) (Some [(''model'', JString ''m'')]) = Ret ((c', m'), None)"
    using example_handled by blast
  from hb show ?thesis
  proof (rule handled_context)
    fix llmReq bytes pm pool wid
    assume w: "reqHeaderResp c' = Some (header_response example_server wid (endpoint_of (pm_pod pm) pool) (int (length bytes)))"
      "reqBodyResp c' = Some (body_response bytes)" "RequestState c' = RequestReceived" "reqTrailerResp c' = None"
    from process_routed [OF _ _ _ _ example_document hb w, of example_headers "\<lambda>_. None" "\<lambda>_. 0" "[RecvEOF]" no_metrics]
    show ?thesis by (auto simp: example_messages_def)
  qed
qed

subsection \<open>The gauge of running requests\<close>

text \<open>
  C13. The gauge of running requests is balanced: whenever a stream in which Envoy ends the
  request body at most once returns, by whatever way, every model's gauge is back at the
  value it had before the stream.
\<close>

theorem running_requests_balanced:
  assumes "length (filter ends_request rs) \<le> 1"
    and "Process s codec conv send rs (initial_stream mets) = Ret (Returned st e)"
  shows "runningRequests (st_metrics st) = runningRequests mets"
proof -
  have "gauge_ok mets rs (initial_stream mets)"
    by (simp add: gauge_ok_def initial_stream_def newRequestContext_def)
  from Process_gauge [OF initial_ok this assms] show ?thesis .
qed

theorem running_requests_balanced_witness:
  "\<exists>st. Process example_server example_stream_codec (\<lambda>_. 0) (\<lambda>_. None) (example_messages @ [RecvEOF]) (initial_stream no_metrics) =
     Ret (Returned st None) \<and> runningRequests (st_metrics st) = runningRequests no_metrics"
proof -
  obtain st where st: "Process example_server example_stream_codec (\<lambda>_. 0) (\<lambda>_. None) (example_messages @ [RecvEOF])
      (initial_stream no_metrics) = Ret (Returned st None)" using example_process by blast
  have "length (filter ends_request (example_messages @ [RecvEOF])) \<le> 1" by (simp add: example_messages_def ends_request_def)
  with running_requests_balanced [OF _ st] st show ?thesis by blast
qed

subsection \<open>Rejected requests\<close>

lemma process_refused:
  assumes h: "\<not> headers_EndOfStream h" and b: "body_EndOfStream b"
    and doc: "m = fst (UnmarshalMap codec None (body_Body b))"
    and hb: "HandleRequestBody s codec env (newRequestContext\<lparr>RequestReceivedTimestamp := env_now env0\<rparr>) m =
      Ret ((c', m'), Some err)"
    and c': "ResponseStatusCode c' = []" "ctx_Model c' = []" "ctx_ResolvedTargetModel c' = []" "\<not> RequestRunning c'"
  shows "\<exists>st1. st_sent st1 = [] \<and>
    (\<forall>sent. st_metrics (deferred (st1\<lparr>st_sent := sent\<rparr>)) = RecordRequestErrCounter [] [] (CanonicalCode err) mets) \<and>
    Process s codec conv send (Recv (RequestHeaders h) env0 # Recv (RequestBody b) env # rs) (initial_stream mets) =
    (case fire_error send err st1 of (st2, e) \<Rightarrow> Ret (Returned (deferred st2) e))"
proof -
  let ?st = "(initial_stream mets)\<lparr>st_ctx := newRequestContext\<lparr>RequestReceivedTimestamp := env_now env0\<rparr>\<rparr>"
  obtain st1 where st1: "handle_message s codec conv env (RequestBody b) ?st = Ret st1"
    "st_ctx st1 = c'" "st_err st1 = Some err" "st_sent st1 = []" "st_metrics st1 = mets"
    using b doc hb
    by (cases "UnmarshalMap codec None (body_Body b)")
      (simp add: handle_message_def on_request_body_def Let_def initial_stream_def)
  moreover have "st_metrics (deferred (st1\<lparr>st_sent := sent\<rparr>)) = RecordRequestErrCounter [] [] (CanonicalCode err) mets" for sent
    using c' st1 by (simp add: deferred_def Let_def)
  ultimately show ?thesis unfolding request_headers_step [OF h] by (intro exI [of _ st1]) simp
qed

lemma frontend_context:
  assumes "ask_frontend codec env (newRequestContext\<lparr>RequestReceivedTimestamp := t\<rparr>) m = (c', m')"
  shows "ResponseStatusCode c' = []" "ctx_Model c' = []" "ctx_ResolvedTargetModel c' = []" "\<not> RequestRunning c'"
  using assms
  by (auto simp: ask_frontend_def newRequestContext_def split: prod.split_asm sum.split_asm if_split_asm)

definition reject_cause :: "json_codec \<Rightarrow> step_env \<Rightarrow> json_map option \<Rightarrow> string \<Rightarrow> int \<Rightarrow> bool" where
  \<comment> \<open>why a request is refused, with the code that is counted and the HTTP status sent\<close>
  "reject_cause codec env m code status \<longleftrightarrow>
     as_string (json_get m ''model'') = None \<and> code = BadRequest \<and> status = 400 \<or>
     (\<exists>model. as_string (json_get m ''model'') = Some model \<and> ModelGet (env_ds env) model = None) \<and>
       code = BadConfiguration \<and> status = 404 \<or>
     (\<exists>model obj. as_string (json_get m ''model'') = Some model \<and> ModelGet (env_ds env) model = Some obj \<and>
        TargetModels (model_Spec obj) \<noteq> [] \<and> RandomWeightedDraw obj (env_model_draw env) = Ret []) \<and>
       code = BadConfiguration \<and> status = 404 \<or>
     (\<exists>llmReq e. assembleRequest (env_ds env) (env_model_draw env) m = Ret (Inr llmReq) \<and>
        MarshalMap codec (replace_model llmReq m) = Inl e) \<and>
       code = Internal \<and> status = 500 \<or>
     (\<exists>llmReq bytes e. assembleRequest (env_ds env) (env_model_draw env) m = Ret (Inr llmReq) \<and>
        MarshalMap codec (replace_model llmReq m) = Inr bytes \<and>
        Schedule (env_config env) (env_ds env) (env_u env) (env_pod_draw env) llmReq = Ret (Inl e)) \<and>
       code = InferencePoolResourceExhausted \<and> status = 429"

definition pool_missing :: "json_codec \<Rightarrow> step_env \<Rightarrow> json_map option \<Rightarrow> bool" where
  \<comment> \<open>a pod is chosen for the request, but the pool it belongs to is not known\<close>
  "pool_missing codec env m \<longleftrightarrow>
     (\<exists>llmReq bytes pm. assembleRequest (env_ds env) (env_model_draw env) m = Ret (Inr llmReq) \<and>
        MarshalMap codec (replace_model llmReq m) = Inr bytes \<and>
        Schedule (env_config env) (env_ds env) (env_u env) (env_pod_draw env) llmReq = Ret (Inr pm)) \<and>
     ds_pool (env_ds env) = None"

lemma reject_causeI:
  assumes "assembleRequest (env_ds env) (env_model_draw env) m = Ret (Inr llmReq)"
  shows "MarshalMap codec (replace_model llmReq m) = Inl e \<Longrightarrow> reject_cause codec env m Internal 500"
    "MarshalMap codec (replace_model llmReq m) = Inr bytes \<Longrightarrow>
     Schedule (env_config env) (env_ds env) (env_u env) (env_pod_draw env) llmReq = Ret (Inl x) \<Longrightarrow>
     reject_cause codec env m InferencePoolResourceExhausted 429"
  using assms by (simp_all add: reject_cause_def)

lemma HandleRequestBody_rejects:
  assumes "reject_cause codec env m code status"
  shows "\<exists>c' m' msg. HandleRequestBody s codec env (newRequestContext\<lparr>RequestReceivedTimestamp := t\<rparr>) m =
      Ret ((c', m'), Some (EppError code msg)) \<and> BuildErrResponse (EppError code msg) = Inr (mk_response (ImmediateResponse status)) \<and>
      ResponseStatusCode c' = [] \<and> ctx_Model c' = [] \<and> ctx_ResolvedTargetModel c' = [] \<and> \<not> RequestRunning c'"
  using assms unfolding reject_cause_def
proof (elim disjE)
  assume "as_string (json_get m ''model'') = None \<and> code = BadRequest \<and> status = 400"
  then show ?thesis
    by (simp add: HandleRequestBody_def assembleRequest_def newRequestContext_def BuildErrResponse_def error_codes
        StatusCode_BadRequest_def)
next
  assume "(\<exists>model. as_string (json_get m ''model'') = Some model \<and> ModelGet (env_ds env) model = None) \<and>
       code = BadConfiguration \<and> status = 404"
  then show ?thesis
    by (auto simp: HandleRequestBody_def assembleRequest_def newRequestContext_def BuildErrResponse_def error_codes
        StatusCode_NotFound_def)
next
  assume "(\<exists>model obj. as_string (json_get m ''model'') = Some model \<and> ModelGet (env_ds env) model = Some obj \<and>
        TargetModels (model_Spec obj) \<noteq> [] \<and> RandomWeightedDraw obj (env_model_draw env) = Ret []) \<and>
       code = BadConfiguration \<and> status = 404"
  then show ?thesis
    by (auto simp: HandleRequestBody_def assembleRequest_def newRequestContext_def BuildErrResponse_def error_codes
        StatusCode_NotFound_def)
next
  assume "(\<exists>llmReq e. assembleRequest (env_ds env) (env_model_draw env) m = Ret (Inr llmReq) \<and>
        MarshalMap codec (replace_model llmReq m) = Inl e) \<and> code = Internal \<and> status = 500"
  then show ?thesis
    by (auto simp: HandleRequestBody_def newRequestContext_def BuildErrResponse_def error_codes Let_def
        StatusCode_InternalServerError_def)
next
  assume a: "(\<exists>llmReq bytes e. assembleRequest (env_ds env) (env_model_draw env) m = Ret (Inr llmReq) \<and>
        MarshalMap codec (replace_model llmReq m) = Inr bytes \<and>
        Schedule (env_config env) (env_ds env) (env_u env) (env_pod_draw env) llmReq = Ret (Inl e)) \<and>
       code = InferencePoolResourceExhausted \<and> status = 429"
  then obtain llmReq bytes e where w: "assembleRequest (env_ds env) (env_model_draw env) m = Ret (Inr llmReq)"
    "MarshalMap codec (replace_model llmReq m) = Inr bytes"
    "Schedule (env_config env) (env_ds env) (env_u env) (env_pod_draw env) llmReq = Ret (Inl e)" by blast
  obtain c1 m1 where f: "ask_frontend codec env (newRequestContext\<lparr>RequestReceivedTimestamp := t\<rparr>) (replace_model llmReq m) = (c1, m1)"
    by fastforce
  from w f a frontend_context [OF f] show ?thesis
    by (simp add: HandleRequestBody_def BuildErrResponse_def error_codes StatusCode_TooManyRequests_def Let_def)
qed

lemma HandleRequestBody_pool_missing:
  assumes "pool_missing codec env m"
  shows "\<exists>c' m'. HandleRequestBody s codec env (newRequestContext\<lparr>RequestReceivedTimestamp := t\<rparr>) m =
      Ret ((c', m'), Some errPoolNotSynced) \<and>
      ResponseStatusCode c' = [] \<and> ctx_Model c' = [] \<and> ctx_ResolvedTargetModel c' = [] \<and> \<not> RequestRunning c'"
proof -
  from assms obtain llmReq bytes pm where w: "assembleRequest (env_ds env) (env_model_draw env) m = Ret (Inr llmReq)"
    "MarshalMap codec (replace_model llmReq m) = Inr bytes"
    "Schedule (env_config env) (env_ds env) (env_u env) (env_pod_draw env) llmReq = Ret (Inr pm)"
    "PoolGet (env_ds env) = Inl errPoolNotSynced" by (auto simp: pool_missing_def PoolGet_None)
  obtain c1 m1 where f: "ask_frontend codec env (newRequestContext\<lparr>RequestReceivedTimestamp := t\<rparr>) (replace_model llmReq m) = (c1, m1)"
    by fastforce
  from w f frontend_context [OF f] show ?thesis by (simp add: HandleRequestBody_def Let_def)
qed

lemma HandleRequestBody_refusals:
  \<comment> \<open>there is no other way to refuse a request\<close>
  assumes "HandleRequestBody s codec env c m = Ret ((c', m'), Some err)"
  shows "(\<exists>code status. reject_cause codec env m code status) \<or> pool_missing codec env m"
proof (cases "\<exists>llmReq. assembleRequest (env_ds env) (env_model_draw env) m = Ret (Inr llmReq)")
  case True
  then obtain llmReq where a: "assembleRequest (env_ds env) (env_model_draw env) m = Ret (Inr llmReq)" by blast
  show ?thesis
  proof (cases "MarshalMap codec (replace_model llmReq m)")
    case (Inl e)
    from reject_causeI(1) [where codec = codec, OF a this] show ?thesis by blast
  next
    case (Inr bytes)
    obtain c1 m1 where f: "ask_frontend codec env c (replace_model llmReq m) = (c1, m1)" by fastforce
    show ?thesis
    proof (cases "Schedule (env_config env) (env_ds env) (env_u env) (env_pod_draw env) llmReq")
      case (Ret target)
      show ?thesis
      proof (cases target)
        case (Inl e)
        from reject_causeI(2) [where codec = codec, OF a \<open>MarshalMap codec _ = Inr bytes\<close> Ret [unfolded Inl]] show ?thesis by blast
      next
        case (Inr pm)
        with assms a \<open>MarshalMap codec _ = Inr bytes\<close> Ret f have "ds_pool (env_ds env) = None"
          by (cases "PoolGet (env_ds env)") (auto simp: HandleRequestBody_def Let_def PoolGet_None)
        with a \<open>MarshalMap codec _ = Inr bytes\<close> Ret Inr show ?thesis unfolding pool_missing_def by blast
      qed
    qed (use assms a Inr f in \<open>simp add: HandleRequestBody_def Let_def\<close>)
  qed
next
  case False
  with assms show ?thesis
    by (auto simp: HandleRequestBody_def assembleRequest_def reject_cause_def go_simps split: option.split_asm if_split_asm)
qed

lemma process_reject_cause:
  assumes h: "\<not> headers_EndOfStream h" and b: "body_EndOfStream b" and send: "send 0 = None"
    and cause: "reject_cause codec env (fst (UnmarshalMap codec None (body_Body b))) code status"
  shows "\<exists>st'. Process s codec conv send (Recv (RequestHeaders h) env0 # Recv (RequestBody b) env # rs) (initial_stream mets) =
      Ret (Returned st' None) \<and>
    st_sent st' = [mk_response (ImmediateResponse status)] \<and>
    st_metrics st' = RecordRequestErrCounter [] [] code mets"
proof -
  from HandleRequestBody_rejects [OF cause, of s "env_now env0"] obtain c' m' msg where
    r: "HandleRequestBody s codec env (newRequestContext\<lparr>RequestReceivedTimestamp := env_now env0\<rparr>)
        (fst (UnmarshalMap codec None (body_Body b))) = Ret ((c', m'), Some (EppError code msg))"
      and resp: "BuildErrResponse (EppError code msg) = Inr (mk_response (ImmediateResponse status))"
      and c: "ResponseStatusCode c' = []" "ctx_Model c' = []" "ctx_ResolvedTargetModel c' = []" "\<not> RequestRunning c'" by blast
  from process_refused [where send = send and conv = conv and rs = rs and mets = mets, OF h b refl r c] obtain st1 where
    st1: "st_sent st1 = []" "st_metrics (deferred (st1\<lparr>st_sent := sent\<rparr>)) = RecordRequestErrCounter [] [] code mets"
    "Process s codec conv send (Recv (RequestHeaders h) env0 # Recv (RequestBody b) env # rs) (initial_stream mets) =
      (case fire_error send (EppError code msg) st1 of (st2, e) \<Rightarrow> Ret (Returned (deferred st2) e))" for sent
    by (auto simp del: Process.simps)
  have "fire_error send (EppError code msg) st1 = (st1\<lparr>st_sent := [mk_response (ImmediateResponse status)]\<rparr>, None)"
    using resp st1(1) send by (simp add: fire_error_def Send_def)
  with st1 show ?thesis by (simp del: Process.simps)
qed

lemma process_pool_missing:
  assumes h: "\<not> headers_EndOfStream h" and b: "body_EndOfStream b"
    and missing: "pool_missing codec env (fst (UnmarshalMap codec None (body_Body b)))"
  shows "\<exists>st' e. Process s codec conv send (Recv (RequestHeaders h) env0 # Recv (RequestBody b) env # rs) (initial_stream mets) =
      Ret (Returned st' (Some e)) \<and> st_sent st' = [] \<and> st_metrics st' = RecordRequestErrCounter [] [] UnknownErr mets"
proof -
  from HandleRequestBody_pool_missing [OF missing, of s "env_now env0"] obtain c' m' where
    r: "HandleRequestBody s codec env (newRequestContext\<lparr>RequestReceivedTimestamp := env_now env0\<rparr>)
        (fst (UnmarshalMap codec None (body_Body b))) = Ret ((c', m'), Some errPoolNotSynced)"
      and c: "ResponseStatusCode c' = []" "ctx_Model c' = []" "ctx_ResolvedTargetModel c' = []" "\<not> RequestRunning c'" by blast
  from process_refused [where send = send and conv = conv and rs = rs and mets = mets, OF h b refl r c] obtain st1 where
    st1: "st_sent st1 = []" "st_metrics (deferred (st1\<lparr>st_sent := sent\<rparr>)) = RecordRequestErrCounter [] [] (CanonicalCode errPoolNotSynced) mets"
    "Process s codec conv send (Recv (RequestHeaders h) env0 # Recv (RequestBody b) env # rs) (initial_stream mets) =
      (case fire_error send errPoolNotSynced st1 of (st2, e) \<Rightarrow> Ret (Returned (deferred st2) e))" for sent
    by (auto simp del: Process.simps)
  have code: "CanonicalCode errPoolNotSynced = UnknownErr" by (simp add: errPoolNotSynced_def)
  then obtain e where "fire_error send errPoolNotSynced st1 = (st1, Some e)"
    by (simp add: fire_error_def BuildErrResponse_def Let_def error_codes)
  moreover have same: "st1\<lparr>st_sent := []\<rparr> = st1" using st1(1) by (cases st1) simp
  ultimately show ?thesis using st1(1,3) st1(2) [of "[]", unfolded same code] by (simp del: Process.simps)
qed

text \<open>
  C14. How a request with a complete body is refused. It is answered with one immediate
  response and nothing else, and counted once, with status 400 when the document has no
  model (or is not a document at all), 404 when no InferenceModel defines the model or the
  target drawn has no name, 500 when the document cannot be encoded, 429 when the scheduler
  returns no pod, whether it drops the request or there are no pods; the stream then ends
  without an error. When a pod was chosen but the pool is not known, nothing is sent and the
  stream ends with an error. The handler refuses a request for no other reason. The counter
  has empty model labels, since the model is stored in the context only after scheduling.
  A model without InferenceModel is refused although the comment above \<open>ModelGet\<close> says that
  it passes, and without pods the protocol (docs/proposals/004) asks for 503.
\<close>

theorem request_rejected:
  assumes "\<not> headers_EndOfStream h" "body_EndOfStream b" "send 0 = None"
  shows "(\<forall>code status. reject_cause codec env (fst (UnmarshalMap codec None (body_Body b))) code status \<longrightarrow>
      (\<exists>st'. Process s codec conv send (Recv (RequestHeaders h) env0 # Recv (RequestBody b) env # rs) (initial_stream mets) =
          Ret (Returned st' None) \<and>
        st_sent st' = [mk_response (ImmediateResponse status)] \<and>
        st_metrics st' = RecordRequestErrCounter [] [] code mets)) \<and>
    (pool_missing codec env (fst (UnmarshalMap codec None (body_Body b))) \<longrightarrow>
      (\<exists>st' e. Process s codec conv send (Recv (RequestHeaders h) env0 # Recv (RequestBody b) env # rs) (initial_stream mets) =
          Ret (Returned st' (Some e)) \<and>
        st_sent st' = [] \<and> st_metrics st' = RecordRequestErrCounter [] [] UnknownErr mets)) \<and>
    (\<forall>c c' m' err. HandleRequestBody s codec env c (fst (UnmarshalMap codec None (body_Body b))) = Ret ((c', m'), Some err) \<longrightarrow>
      (\<exists>code status. reject_cause codec env (fst (UnmarshalMap codec None (body_Body b))) code status) \<or>
      pool_missing codec env (fst (UnmarshalMap codec None (body_Body b))))"
  by (intro conjI allI impI; (erule process_reject_cause [where send = send, OF assms] | erule HandleRequestBody_refusals |
    erule process_pool_missing [where send = send, OF assms(1,2)]))

theorem request_rejected_witness:
  "(\<exists>st'. Process example_server example_stream_codec (\<lambda>_. 0) (\<lambda>_. None)
      [Recv (RequestHeaders example_headers) example_env,
       Recv (RequestBody \<lparr>body_Body = ''not json'', body_EndOfStream = True\<rparr>) example_env] (initial_stream no_metrics) =
      Ret (Returned st' None) \<and> st_sent st' = [mk_response (ImmediateResponse 400)]) \<and>
   (\<exists>st'. Process example_server example_stream_codec (\<lambda>_. 0) (\<lambda>_. None)
      [Recv (RequestHeaders example_headers) example_env,
       Recv (RequestBody example_body) (example_env\<lparr>env_ds := NewDatastore\<rparr>)] (initial_stream no_metrics) =
      Ret (Returned st' None) \<and> st_sent st' = [mk_response (ImmediateResponse 404)])"
proof -
  let ?bad = "\<lparr>body_Body = ''not json'', body_EndOfStream = True\<rparr>"
  have 1: "reject_cause example_stream_codec example_env (fst (UnmarshalMap example_stream_codec None (body_Body ?bad))) BadRequest 400"
  proof -
    have "checkValid ''not json'' = None" by code_simp
    then show ?thesis by (simp add: reject_cause_def example_stream_codec_def unmarshal_map_def json_get_def)
  qed
  have 2: "reject_cause example_stream_codec (example_env\<lparr>env_ds := NewDatastore\<rparr>)
      (fst (UnmarshalMap example_stream_codec None (body_Body example_body))) BadConfiguration 404"
    by (simp add: reject_cause_def json_get_def ModelGet_def NewDatastore_def)
  note rejected = request_rejected [THEN conjunct1, rule_format, where h = example_headers and send = "\<lambda>_. None" and
    s = example_server and conv = "\<lambda>_. 0" and ?env0.0 = example_env and rs = "[]" and mets = no_metrics]
  from rejected [OF _ _ _ 1] rejected [OF _ _ _ 2] show ?thesis by (auto simp del: Process.simps)
qed

subsection \<open>Streamed responses\<close>

lemma update_err:
  assumes "updateStateAndSendIfNeeded send st = Ret (st', e)"
  shows "st_err st' = st_err st"
proof -
  have 1: "send_request_header send x = (y, z) \<Longrightarrow> st_err y = st_err x"
    "send_request_body send x = (y, z) \<Longrightarrow> st_err y = st_err x"
    "send_request_trailer send x = (y, z) \<Longrightarrow> st_err y = st_err x"
    "send_response_header send x = (y, z) \<Longrightarrow> st_err y = st_err x"
    "send_response_trailer send x = (y, z) \<Longrightarrow> st_err y = st_err x" for x y z
    by (auto simp: send_request_header_def send_request_body_def send_request_trailer_def send_response_header_def
        send_response_trailer_def then_if_ok_def Send_def split: option.split_asm if_split_asm)
  have 2: "send_response_body send x = Ret (y, z) \<Longrightarrow> st_err y = st_err x" for x y z
    by (auto simp: send_response_body_def Send_def go_simps split: option.split_asm if_split_asm)
  obtain st1 e1 where s1: "send_request_header send st = (st1, e1)" by fastforce
  obtain st2 e2 where s2: "send_request_body send st1 = (st2, e2)" by fastforce
  obtain st3 e3 where s3: "send_request_trailer send st2 = (st3, e3)" by fastforce
  obtain st4 e4 where s4: "send_response_header send st3 = (st4, e4)" by fastforce
  note errs = 1(1) [OF s1] 1(2) [OF s2] 1(3) [OF s3] 1(4) [OF s4]
  show ?thesis
  proof (cases "e1 \<noteq> None \<or> e2 \<noteq> None \<or> e3 \<noteq> None \<or> e4 \<noteq> None")
    case True
    with assms s1 s2 s3 s4 errs show ?thesis
      by (cases e1; cases e2; cases e3; cases e4) (simp_all add: updateStateAndSendIfNeeded_def go_if_ok_def then_if_ok_def)
  next
    case False
    then have "e1 = None" "e2 = None" "e3 = None" "e4 = None" by auto
    with assms s1 s2 s3 s4 have u: "go_if_ok (send_response_body send st4) (\<lambda>st'. Ret (send_response_trailer send st')) = Ret (st', e)"
      by (simp add: updateStateAndSendIfNeeded_def go_if_ok_def then_if_ok_def)
    then obtain st5 e5 where s5: "send_response_body send st4 = Ret (st5, e5)"
      by (cases "send_response_body send st4") (auto simp: go_if_ok_def)
    from 2 [OF s5] errs u s5 show ?thesis
      by (cases e5) (auto simp: go_if_ok_def dest: 1(5))
  qed
qed

lemma Process_append:
  "Process s codec conv send rs st = Ret (Running st') \<Longrightarrow>
   Process s codec conv send (rs @ rs') st = Process s codec conv send rs' st'"
proof (induction s codec conv send rs st rule: Process.induct)
  case (5 s codec conv send req env rs st)
  from 5(2) obtain st1 where h: "handle_message s codec conv env req st = Ret st1" by (auto simp: go_simps)
  with 5(2) have e: "st_err st1 = None" by (cases "st_err st1") (auto split: prod.split_asm)
  from 5(2) h e obtain st2 where u: "updateStateAndSendIfNeeded send st1 = Ret (st2, None)"
    by (auto simp: go_simps split: option.split_asm)
  with 5(1) [OF e, of st2] 5(2) h e show ?case by simp
qed (auto split: if_split_asm)

lemma Process_running:
  "Process s codec conv send rs st = Ret (Running st') \<Longrightarrow> stream_ok st \<Longrightarrow> st_err st = None \<Longrightarrow> stream_ok st' \<and> st_err st' = None"
proof (induction s codec conv send rs st rule: Process.induct)
  case (5 s codec conv send req env rs st)
  from 5(2) obtain st1 where h: "handle_message s codec conv env req st = Ret st1" by (auto simp: go_simps)
  with 5(2) have e: "st_err st1 = None" by (cases "st_err st1") (auto split: prod.split_asm)
  from 5(2) h e obtain st2 where u: "updateStateAndSendIfNeeded send st1 = Ret (st2, None)"
    by (auto simp: go_simps split: option.split_asm)
  have "stream_ok st2" using updateState_ok [OF handle_message_ok [OF 5(3) h], of send] u by auto
  moreover have "st_err st2 = None" using update_err [OF u] e by simp
  ultimately show ?case using 5(1) [OF e, of st2] 5(2) h e u by simp
qed (auto split: if_split_asm)

definition streams :: "HttpHeaders \<Rightarrow> bool" where
  \<comment> \<open>the model server announces an event stream\<close>
  "streams h \<longleftrightarrow> (\<exists>v\<in>set (Headers h). hdr_Key v = ''content-type'' \<and> Contains (hdr_RawValue v) ''text/event-stream'')"

lemma header_steps_frame:
  "respBodyResp (foldl header_step c vs) = respBodyResp c"
  "modelServerStreaming c \<Longrightarrow> modelServerStreaming (foldl header_step c vs)"
  by (induction vs arbitrary: c) (simp_all add: header_step_def)

lemma header_steps_streaming:
  "\<exists>v\<in>set vs. hdr_Key v = ''content-type'' \<and> Contains (hdr_RawValue v) ''text/event-stream'' \<Longrightarrow>
   modelServerStreaming (foldl header_step c vs)"
proof (induction vs arbitrary: c)
  case (Cons v vs)
  show ?case
  proof (cases "hdr_Key v = ''content-type'' \<and> Contains (hdr_RawValue v) ''text/event-stream''")
    case True
    then have "modelServerStreaming (header_step c v)" by (simp add: header_step_def)
    then show ?thesis by (simp add: header_steps_frame(2))
  qed (use Cons in auto)
qed simp

definition forwarding :: "stream_state \<Rightarrow> bool" where
  \<comment> \<open>the response headers are out and the body is a stream\<close>
  "forwarding st \<longleftrightarrow> modelServerStreaming (st_ctx st) \<and> in_state st HeaderResponseResponseComplete \<and> st_err st = None \<and>
     respTrailerResp (st_ctx st) = None"

lemma update_response_header:
  assumes "in_state st ResponseRecieved" "respHeaderResp (st_ctx st) = Some hr" "respBodyResp (st_ctx st) = None"
    "send (length (st_sent st)) = None"
  shows "updateStateAndSendIfNeeded send st =
    Ret (st\<lparr>st_sent := st_sent st @ [hr], st_ctx := (st_ctx st)\<lparr>RequestState := HeaderResponseResponseComplete\<rparr>\<rparr>, None)"
  using assms by (simp add: updateStateAndSendIfNeeded_def go_if_ok_def then_if_ok_def send_request_header_def
      send_request_body_def send_request_trailer_def send_response_header_def send_response_body_def
      send_response_trailer_def Send_def split: option.splits)

lemma GetEndOfStream_streamed [simp]: "GetEndOfStream (streamed_body bytes eos) = Ret eos"
  by (simp add: GetEndOfStream_def streamed_body_def mk_response_def noCommon_def)

lemma update_response_body:
  assumes "in_state st HeaderResponseResponseComplete" "respBodyResp (st_ctx st) = Some (streamed_body bytes eos)"
    "respTrailerResp (st_ctx st) = None" "send (length (st_sent st)) = None"
  shows "updateStateAndSendIfNeeded send st =
    Ret (st\<lparr>st_sent := st_sent st @ [streamed_body bytes eos],
       st_ctx := (st_ctx st)\<lparr>RequestState := (if eos then BodyResponseResponsesComplete else HeaderResponseResponseComplete),
         respBodyResp := None\<rparr>\<rparr>, None)"
proof -
  have "send_request_header send st = (st, None)" "send_request_body send st = (st, None)"
    "send_request_trailer send st = (st, None)" "send_response_header send st = (st, None)"
    using assms(1) by (simp_all add: send_request_header_def send_request_body_def send_request_trailer_def
        send_response_header_def split: option.splits)
  with assms show ?thesis
    by (simp add: updateStateAndSendIfNeeded_def go_if_ok_def then_if_ok_def send_response_body_def
        send_response_trailer_def Send_def)
qed

lemma chunk_forwarded:
  assumes "forwarding st" "send (length (st_sent st)) = None"
  shows "\<exists>st'. Process s codec conv send (Recv (ResponseBody b) env # rs) st = Process s codec conv send rs st' \<and>
    st_sent st' = st_sent st @ [streamed_body (body_Body b) (body_EndOfStream b)] \<and>
    (body_EndOfStream b \<or> forwarding st')"
proof -
  let ?st1 = "on_streamed_response codec env b st"
  have 1: "handle_message s codec conv env (ResponseBody b) st = Ret ?st1"
    using assms by (simp add: handle_message_def forwarding_def)
  have 2: "in_state ?st1 HeaderResponseResponseComplete" "st_err ?st1 = None" "st_sent ?st1 = st_sent st"
    "respBodyResp (st_ctx ?st1) = Some (streamed_body (body_Body b) (body_EndOfStream b))"
    "respTrailerResp (st_ctx ?st1) = None" "modelServerStreaming (st_ctx ?st1)"
    using assms(1) by (simp_all add: on_streamed_response_def Let_def forwarding_def)
  from update_response_body [OF 2(1,4,5), of send] assms(2) 1 2 show ?thesis
    by (auto simp: forwarding_def)
qed

lemma chunks_forwarded:
  assumes "forwarding st" "\<And>n. send n = None" "\<forall>x\<in>set (butlast chunks). \<not> body_EndOfStream (fst x)"
  shows "\<exists>st'. Process s codec conv send (map (\<lambda>(b, env). Recv (ResponseBody b) env) chunks) st = Ret (Running st') \<and>
    st_sent st' = st_sent st @ map (\<lambda>(b, env). streamed_body (body_Body b) (body_EndOfStream b)) chunks"
  using assms(1,3)
proof (induction chunks arbitrary: st)
  case (Cons x chunks)
  obtain b env where x: "x = (b, env)" by fastforce
  from chunk_forwarded [where send = send, OF Cons(2) assms(2), of s codec conv b env "map (\<lambda>(b, env). Recv (ResponseBody b) env) chunks"]
  obtain st1 where st1: "Process s codec conv send (map (\<lambda>(b, env). Recv (ResponseBody b) env) (x # chunks)) st =
      Process s codec conv send (map (\<lambda>(b, env). Recv (ResponseBody b) env) chunks) st1"
    "st_sent st1 = st_sent st @ [streamed_body (body_Body b) (body_EndOfStream b)]" "body_EndOfStream b \<or> forwarding st1"
    by (auto simp del: Process.simps simp: x)
  show ?case
  proof (cases "chunks = []")
    case True
    with st1 x show ?thesis by (auto simp del: Process.simps(5))
  next
    case False
    with Cons(3) x st1(3) have "forwarding st1" "\<forall>x\<in>set (butlast chunks). \<not> body_EndOfStream (fst x)" by auto
    from Cons(1) [OF this] st1(1,2) x show ?thesis by auto
  qed
qed simp

lemma response_streamed:
  assumes sends: "\<And>n. send n = None"
    and request: "Process s codec conv send rs (initial_stream mets) = Ret (Running st)" "respBodyResp (st_ctx st) = None"
    and headers: "streams h"
    and chunks: "\<forall>x\<in>set (butlast chunks). \<not> body_EndOfStream (fst x)"
  shows "\<exists>st'. Process s codec conv send
      (rs @ Recv (ResponseHeaders h) env # map (\<lambda>(b, env). Recv (ResponseBody b) env) chunks) (initial_stream mets) =
      Ret (Running st') \<and>
    st_sent st' = st_sent st @ debug_header_response #
      map (\<lambda>(b, env). streamed_body (body_Body b) (body_EndOfStream b)) chunks"
proof -
  have "st_err (initial_stream mets) = None" by (simp add: initial_stream_def)
  with Process_running [OF request(1) initial_ok] have ok: "stream_ok st" "st_err st = None" by auto
  let ?c = "response_headers (st_ctx st) h"
  let ?st1 = "st\<lparr>st_ctx := ?c\<rparr>"
  have c: "RequestState ?c = ResponseRecieved" "respHeaderResp ?c = Some debug_header_response"
    "respBodyResp ?c = None" "modelServerStreaming ?c"
    using request(2) header_steps_frame(1) [of "st_ctx st" "Headers h"] header_steps_streaming [of "Headers h" "st_ctx st"] headers
    by (simp_all add: response_headers_def streams_def)
  let ?st2 = "?st1\<lparr>st_sent := st_sent st @ [debug_header_response], st_ctx := ?c\<lparr>RequestState := HeaderResponseResponseComplete\<rparr>\<rparr>"
  have h: "handle_message s codec conv env (ResponseHeaders h) st = Ret ?st1" by (simp add: handle_message_def)
  have u: "updateStateAndSendIfNeeded send ?st1 = Ret (?st2, None)"
    using update_response_header [of ?st1 debug_header_response send] c sends by simp
  have "ctx_ok (st_ctx ?st1)" using handle_message_ok [OF ok(1) h] by (rule stream_okD(1))
  then have "forwarding ?st2" using c ok(2) by (simp add: forwarding_def ctx_ok_def)
  from chunks_forwarded [where send = send, OF this sends chunks, of s codec conv] obtain st' where
    "Process s codec conv send (map (\<lambda>(b, env). Recv (ResponseBody b) env) chunks) ?st2 = Ret (Running st')"
    "st_sent st' = st_sent ?st2 @ map (\<lambda>(b, env). streamed_body (body_Body b) (body_EndOfStream b)) chunks" by blast
  then show ?thesis
    using ok(2) by (intro exI [of _ st']) (simp add: Process_append [OF request(1)] h u)
qed

text \<open>
  C11. A response the model server streams passes through: after the response headers every
  chunk is sent on as it came, byte for byte, in order, one response per chunk and with its
  end mark, whatever the chunks contain.
\<close>

theorem streamed_response_unchanged:
  assumes "\<And>n. send n = None"
    and "Process s codec conv send rs (initial_stream mets) = Ret (Running st)" "respBodyResp (st_ctx st) = None"
    and "streams h"
    and "\<forall>x\<in>set (butlast chunks). \<not> body_EndOfStream (fst x)"
  shows "\<exists>st'. Process s codec conv send
      (rs @ Recv (ResponseHeaders h) env # map (\<lambda>(b, env). Recv (ResponseBody b) env) chunks) (initial_stream mets) =
      Ret (Running st') \<and>
    st_sent st' = st_sent st @ debug_header_response #
      map (\<lambda>(b, env). streamed_body (body_Body b) (body_EndOfStream b)) chunks"
  using assms by (rule response_streamed [where send = send])

definition example_event_headers :: HttpHeaders where
  "example_event_headers = \<lparr>Headers = [\<lparr>hdr_Key = ''content-type'', hdr_RawValue = ''text/event-stream''\<rparr>], headers_EndOfStream = False\<rparr>"

lemma example_event_facts:
  "streams example_event_headers" "respBodyResp (st_ctx (initial_stream mets)) = None" "st_sent (initial_stream mets) = []"
proof -
  have "Contains ''text/event-stream'' ''text/event-stream''" by code_simp
  then show "streams example_event_headers" by (simp add: streams_def example_event_headers_def)
qed (simp_all add: initial_stream_def newRequestContext_def)

abbreviation example_chunks :: "(HttpBody \<times> step_env) list" where
  "example_chunks \<equiv> [(\<lparr>body_Body = ''data: a'', body_EndOfStream = False\<rparr>, example_env),
     (\<lparr>body_Body = ''data: [DONE]'', body_EndOfStream = True\<rparr>, example_env)]"

theorem streamed_response_unchanged_witness:
  "\<exists>st'. Process example_server example_stream_codec (\<lambda>_. 0) (\<lambda>_. None)
      [Recv (ResponseHeaders example_event_headers) example_env,
       Recv (ResponseBody \<lparr>body_Body = ''data: a'', body_EndOfStream = False\<rparr>) example_env,
       Recv (ResponseBody \<lparr>body_Body = ''data: [DONE]'', body_EndOfStream = True\<rparr>) example_env] (initial_stream no_metrics) =
      Ret (Running st') \<and>
    st_sent st' = [debug_header_response, streamed_body ''data: a'' False, streamed_body ''data: [DONE]'' True]"
proof -
  have r: "Process example_server example_stream_codec (\<lambda>_. 0) (\<lambda>_. None) [] (initial_stream no_metrics) = Ret (Running (initial_stream no_metrics))"
    by simp
  have "\<forall>x\<in>set (butlast example_chunks). \<not> body_EndOfStream (fst x)" by simp
  from streamed_response_unchanged [where send = "\<lambda>_. None" and env = example_env, OF refl r example_event_facts(2,1) this]
  show ?thesis unfolding append.simps list.map prod.case HttpBody.simps example_event_facts(3) by blast
qed

subsection \<open>Order of the responses\<close>

text \<open>
  C6. In every stream, whatever Envoy sends and wherever the stream fails, the responses go
  out in the order the comment of \<open>updateStateAndSendIfNeeded\<close> demands. Each response may
  follow the one before it: the request headers before the request body, each at most once
  and before the response; response headers before response bodies; nothing after an
  immediate response. Response headers are sent at most as often as Envoy announced a
  response. So when it announced at most one, as the protocol has it, the responses are
  request headers, request body, response headers once, then response bodies, and an
  immediate response only at the end.
\<close>

theorem responses_ordered:
  assumes "Process s codec conv send rs (initial_stream mets) = Ret res"
  shows "ordered (map kind_of (st_sent (result_state res))) \<and>
    count_list (map kind_of (st_sent (result_state res))) KRespHeaders \<le> announced rs \<and>
    (announced rs \<le> 1 \<longrightarrow> in_order (map kind_of (st_sent (result_state res))))"
proof -
  have "header_count (initial_stream mets) = 0" by (simp add: header_count_def initial_stream_def newRequestContext_def)
  with Process_count [OF initial_ok assms] have "count_list (kinds (result_state res)) KRespHeaders \<le> announced rs"
    by (simp add: header_count_def)
  with Process_ordered [OF initial_ok assms] ordered_once show ?thesis by auto
qed

theorem responses_ordered_witness:
  "\<exists>st'. Process example_server example_stream_codec (\<lambda>_. 0) (\<lambda>_. None)
      [Recv (ResponseHeaders example_event_headers) example_env,
       Recv (ResponseBody \<lparr>body_Body = ''data: a'', body_EndOfStream = False\<rparr>) example_env,
       Recv (ResponseBody \<lparr>body_Body = ''data: [DONE]'', body_EndOfStream = True\<rparr>) example_env] (initial_stream no_metrics) =
      Ret (Running st') \<and>
    length (st_sent st') = 3 \<and> count_list (map kind_of (st_sent st')) KRespHeaders \<le> 1 \<and> in_order (map kind_of (st_sent st'))"
proof -
  let ?rs = "[Recv (ResponseHeaders example_event_headers) example_env,
       Recv (ResponseBody \<lparr>body_Body = ''data: a'', body_EndOfStream = False\<rparr>) example_env,
       Recv (ResponseBody \<lparr>body_Body = ''data: [DONE]'', body_EndOfStream = True\<rparr>) example_env]"
  have r: "Process example_server example_stream_codec (\<lambda>_. 0) (\<lambda>_. None) [] (initial_stream no_metrics) = Ret (Running (initial_stream no_metrics))"
    by simp
  have "\<forall>x\<in>set (butlast example_chunks). \<not> body_EndOfStream (fst x)" by simp
  from response_streamed [where send = "\<lambda>_. None" and env = example_env, OF refl r example_event_facts(2,1) this]
  obtain st' where p: "Process example_server example_stream_codec (\<lambda>_. 0) (\<lambda>_. None) ?rs (initial_stream no_metrics) = Ret (Running st')"
    and sent: "st_sent st' = [debug_header_response, streamed_body ''data: a'' False, streamed_body ''data: [DONE]'' True]"
    unfolding append.simps list.map prod.case HttpBody.simps example_event_facts(3) by blast
  have "announced ?rs = 1" by (simp add: announces_def)
  with responses_ordered [OF p] p sent show ?thesis by (auto simp del: Process.simps announced_Cons)
qed

end
