(* ===== verification/Server.thy ===== *)
theory Server
  imports Streaming_Properties
begin

text \<open>
  handlers/server.go, request.go and response.go: the external processing server for
  buffered bodies. It answers every message of Envoy with one response.

  The variables of \<open>Process\<close> are the record \<open>server_state\<close>; what a handler reads from
  outside is the \<open>step_env\<close> that comes with the message, as for the streaming server, and
  \<open>send n\<close> is the error of the send that would be the \<open>n\<close>-th to succeed.
\<close>

type_synonym Server = StreamingServer

record server_state =
  sv_ctx :: RequestContext
  sv_err :: "error option"
  sv_sent :: "ProcessingResponse list"
  sv_metrics :: epp_metrics

definition initial_server :: "epp_metrics \<Rightarrow> server_state" where
  "initial_server mets = \<lparr>sv_ctx = newRequestContext, sv_err = None, sv_sent = [], sv_metrics = mets\<rparr>"

subsection \<open>The request\<close>

definition Server_HandleRequestHeaders :: ProcessingResponse where
  "Server_HandleRequestHeaders = mk_response (RespRequestHeaders (noCommon\<lparr>ClearRouteCache := True\<rparr>))"

definition Server_llmReq :: "datastore \<Rightarrow> nat \<Rightarrow> json_map option \<Rightarrow> (error + LLMRequest) go" where
  "Server_llmReq ds r rb =
     (case as_string (json_get rb ''model'') of
        None \<Rightarrow> Ret (Inl (EppError BadRequest ''model not found in request''))
      | Some model \<Rightarrow>
          (case ModelGet ds model of
             None \<Rightarrow> Ret (Inl (EppError BadConfiguration
                       (''error finding a model object in InferenceModel for input '' @ model)))
           | Some modelObj \<Rightarrow>
               if length (TargetModels (model_Spec modelObj)) > 0 then
                 go_bind (RandomWeightedDraw modelObj r) (\<lambda>modelName.
                   if modelName = [] then
                     Ret (Inl (EppError BadConfiguration
                       (''error getting target model name for model '' @ Name (model_meta modelObj))))
                   else Ret (Inr \<lparr>req_Model = model, req_TargetModels = [], ResolvedTargetModel = modelName,
                                  req_Critical = IsCritical modelObj\<rparr>))
               else Ret (Inr \<lparr>req_Model = model, req_TargetModels = [], ResolvedTargetModel = model,
                              req_Critical = IsCritical modelObj\<rparr>)))"

definition Server_requestBody ::
  "json_codec \<Rightarrow> LLMRequest \<Rightarrow> json_map option \<Rightarrow> string \<Rightarrow> string + string" where
  \<comment> \<open>the body sent on: the bytes as they came, unless the model has to be replaced\<close>
  "Server_requestBody codec llmReq rb body =
     (if req_Model llmReq \<noteq> ResolvedTargetModel llmReq
      then MarshalMap codec (map_option (AList.update ''model'' (JString (ResolvedTargetModel llmReq))) rb)
      else Inr body)"

definition Server_body_response :: "Server \<Rightarrow> string \<Rightarrow> string \<Rightarrow> ProcessingResponse" where
  "Server_body_response s endpoint requestBody =
     \<lparr>resp_Response = RespRequestBody
        \<lparr>ClearRouteCache = False,
         SetHeaders = [\<lparr>hdr_Key = destinationEndpointHintKey s, hdr_RawValue = endpoint\<rparr>,
                       \<lparr>hdr_Key = ''Content-Length'', hdr_RawValue = Itoa (int (length requestBody))\<rparr>],
         BodyMutation_field = Some (MutationBody requestBody)\<rparr>,
      DynamicMetadata = Some (endpoint_metadata s endpoint)\<rparr>"

definition Server_HandleRequestBody ::
  "Server \<Rightarrow> json_codec \<Rightarrow> step_env \<Rightarrow> RequestContext \<Rightarrow> string \<Rightarrow> (RequestContext \<times> (error + ProcessingResponse)) go" where
  "Server_HandleRequestBody s codec env reqCtx body =
     (case UnmarshalMap codec None body of
        (rb, Some e) \<Rightarrow> Ret (reqCtx, Inl (EppError BadRequest (''error unmarshaling request body: '' @ e)))
      | (rb, None) \<Rightarrow>
          go_bind (Server_llmReq (env_ds env) (env_model_draw env) rb) (\<lambda>res.
            case res of
              Inl err \<Rightarrow> Ret (reqCtx, Inl err)
            | Inr llmReq \<Rightarrow>
                (case Server_requestBody codec llmReq rb body of
                   Inl e \<Rightarrow> Ret (reqCtx, Inl (EppError Internal (''error marshaling request body: '' @ e)))
                 | Inr requestBody \<Rightarrow>
                     go_bind (Schedule (env_config env) (env_ds env) (env_u env) (env_pod_draw env) llmReq) (\<lambda>target.
                       case target of
                         Inl e \<Rightarrow> Ret (reqCtx, Inl (EppError InferencePoolResourceExhausted
                                    (''failed to find target pod: '' @ error_Error e)))
                       | Inr pm \<Rightarrow>
                           (case PoolGet (env_ds env) of
                              Inl err \<Rightarrow> Ret (reqCtx, Inl err)
                            | Inr pool \<Rightarrow>
                                let endpoint = endpoint_of (pm_pod pm) pool in
                                Ret (reqCtx\<lparr>ctx_Model := req_Model llmReq,
                                       ctx_ResolvedTargetModel := ResolvedTargetModel llmReq,
                                       RequestSize := int (length body),
                                       TargetPod := nn_String (pm_nn pm), TargetEndpoint := endpoint\<rparr>,
                                     Inr (Server_body_response s endpoint requestBody)))))))"

subsection \<open>The response\<close>

definition byte_string :: "char \<Rightarrow> string" where
  \<comment> \<open>\<open>string(code)\<close> of a byte: the UTF-8 encoding of that code point\<close>
  "byte_string c =
     (let n = (of_char c :: nat) in
      if n < 128 then [c] else [char_of (192 + n div 64), char_of (128 + n mod 64)])"

fun Server_headers_loop :: "HeaderValue list \<Rightarrow> RequestContext \<Rightarrow> RequestContext go" where
  \<comment> \<open>the two flags are declared inside the loop, so both are false for every header\<close>
  "Server_headers_loop [] reqCtx = Ret reqCtx"
| "Server_headers_loop (header # hs) reqCtx =
     go_bind (if hdr_Key header = ''status'' then
                (case hdr_RawValue header of
                   [] \<Rightarrow> Panic ''index out of range''
                 | code # cs \<Rightarrow>
                     Ret (if byte_string code \<noteq> ''200''
                          then (reqCtx\<lparr>ResponseStatusCode := ModelServerError\<rparr>, True) else (reqCtx, False)))
              else Ret (reqCtx, False)) (\<lambda>(ctx1, statusFound).
       let typeFound = (hdr_Key header = ''content-type'');
           ctx2 = (if typeFound \<and> Contains (hdr_RawValue header) ''text/event-stream''
                   then ctx1\<lparr>modelServerStreaming := True\<rparr> else ctx1)
       in if statusFound \<and> typeFound then Ret ctx2 else Server_headers_loop hs ctx2)"

definition Server_HandleResponseHeaders :: "RequestContext \<Rightarrow> HttpHeaders \<Rightarrow> (RequestContext \<times> ProcessingResponse) go" where
  "Server_HandleResponseHeaders reqCtx h =
     go_bind (Server_headers_loop (Headers h) reqCtx) (\<lambda>ctx'. Ret (ctx', debug_header_response))"

definition HandleNonStreaming :: "json_codec \<Rightarrow> RequestContext \<Rightarrow> HttpBody \<Rightarrow> RequestContext \<times> error option" where
  "HandleNonStreaming codec reqCtx b =
     (case UnmarshalResponse codec noUsage (body_Body b) of
        (res, Some e) \<Rightarrow> (reqCtx, Some (EppError Internal (''unmarshaling response body: '' @ e)))
      | (res, None) \<Rightarrow>
          (reqCtx\<lparr>ctx_Usage := res, ResponseSize := int (length (body_Body b)), ResponseComplete := True\<rparr>, None))"

definition HandleStreaming :: "json_codec \<Rightarrow> RequestContext \<Rightarrow> HttpBody \<Rightarrow> RequestContext \<times> error option" where
  "HandleStreaming codec reqCtx b =
     (let responseText = body_Body b;
          ctx1 = (if Contains responseText streamingEndMsg
                  then reqCtx\<lparr>ctx_Usage := ParseRespForUsage codec responseText\<rparr> else reqCtx)
      in (if body_EndOfStream b then ctx1\<lparr>ResponseComplete := True\<rparr>
          else ctx1\<lparr>ResponseSize := wrap64 (ResponseSize ctx1 + int (length (body_Body b)))\<rparr>, None))"

definition Server_HandleResponseBody ::
  "json_codec \<Rightarrow> RequestContext \<Rightarrow> HttpBody \<Rightarrow> RequestContext \<times> (error + ProcessingResponse)" where
  "Server_HandleResponseBody codec reqCtx b =
     (case (if modelServerStreaming reqCtx then HandleStreaming codec reqCtx b else HandleNonStreaming codec reqCtx b) of
        (ctx', Some err) \<Rightarrow> (ctx', Inl err)
      | (ctx', None) \<Rightarrow> (ctx', Inr (mk_response (RespResponseBody noCommon))))"

subsection \<open>The loop\<close>

definition Server_handle ::
  "Server \<Rightarrow> json_codec \<Rightarrow> step_env \<Rightarrow> ProcessingRequest \<Rightarrow> server_state \<Rightarrow> (error + (server_state \<times> ProcessingResponse)) go" where
  \<comment> \<open>the switch of \<open>Process\<close>: the state and the response, or the error it returns at once; the
     response of a handler that fails is nil\<close>
  "Server_handle s codec env req st =
     (case req of
        RequestHeaders h \<Rightarrow>
          Ret (Inr (st\<lparr>sv_ctx := (sv_ctx st)\<lparr>RequestReceivedTimestamp := env_now env\<rparr>\<rparr>, Server_HandleRequestHeaders))
      | RequestBody b \<Rightarrow>
          go_bind (Server_HandleRequestBody s codec env (sv_ctx st) (body_Body b)) (\<lambda>(ctx', res).
            case res of
              Inl err \<Rightarrow> Ret (Inr (st\<lparr>sv_ctx := ctx', sv_err := Some err\<rparr>, nil_message))
            | Inr resp \<Rightarrow> Ret (Inr (st\<lparr>sv_ctx := ctx', sv_err := None, sv_metrics :=
                RecordRequestSizes (ctx_Model ctx') (ctx_ResolvedTargetModel ctx') (RequestSize ctx')
                  (RecordRequestCounter (ctx_Model ctx') (ctx_ResolvedTargetModel ctx') (sv_metrics st))\<rparr>, resp)))
      | ResponseHeaders h \<Rightarrow>
          go_bind (Server_HandleResponseHeaders (sv_ctx st) h) (\<lambda>(ctx', resp).
            Ret (Inr (st\<lparr>sv_ctx := ctx', sv_err := None\<rparr>, resp)))
      | ResponseBody b \<Rightarrow>
          (case Server_HandleResponseBody codec (sv_ctx st) b of
             (ctx', Inl responseErr) \<Rightarrow> Ret (Inr (st\<lparr>sv_ctx := ctx'\<rparr>, nil_message))
           | (ctx', Inr resp) \<Rightarrow>
               Ret (Inr (if ResponseComplete ctx'
                    then let ctx2 = ctx'\<lparr>ResponseCompleteTimestamp := env_now env\<rparr>
                         in (st\<lparr>sv_ctx := ctx2, sv_metrics := record_response ctx2 (sv_metrics st)\<rparr>, resp)
                    else (st\<lparr>sv_ctx := ctx'\<rparr>, resp))))
      | _ \<Rightarrow> Ret (Inl (StatusError UnknownCode ''unknown request type'')))"

definition Server_answer :: "server_state \<Rightarrow> ProcessingResponse \<Rightarrow> error + (server_state \<times> ProcessingResponse)" where
  \<comment> \<open>a pending error replaces the response; the variable holds the result of \<open>BuildErrResponse\<close>\<close>
  "Server_answer st resp =
     (case sv_err st of
        None \<Rightarrow> Inr (st, resp)
      | Some err \<Rightarrow>
          (case BuildErrResponse err of
             Inl e \<Rightarrow> Inl e
           | Inr resp' \<Rightarrow> Inr (st\<lparr>sv_err := None\<rparr>, resp')))"

definition Server_deferred :: "server_state \<Rightarrow> server_state" where
  "Server_deferred st =
     (let ctx = sv_ctx st in
      st\<lparr>sv_metrics :=
        (if ResponseStatusCode ctx \<noteq> [] then
           RecordRequestErrCounter (ctx_Model ctx) (ctx_ResolvedTargetModel ctx) (ResponseStatusCode ctx) (sv_metrics st)
         else case sv_err st of
           Some e \<Rightarrow> RecordRequestErrCounter (ctx_Model ctx) (ctx_ResolvedTargetModel ctx) (CanonicalCode e) (sv_metrics st)
         | None \<Rightarrow> sv_metrics st)\<rparr>)"

datatype server_result = ServerRunning server_state | ServerReturned server_state "error option"

fun Server_Process ::
  "Server \<Rightarrow> json_codec \<Rightarrow> sender \<Rightarrow> recv list \<Rightarrow> server_state \<Rightarrow> server_result go" where
  "Server_Process s codec send [] st = Ret (ServerRunning st)"
| "Server_Process s codec send (CtxDone e # rs) st = Ret (ServerReturned (Server_deferred st) (Some e))"
| "Server_Process s codec send (RecvEOF # rs) st = Ret (ServerReturned (Server_deferred st) None)"
| "Server_Process s codec send (RecvError e # rs) st =
     (if status_Code e = Canceled then Ret (ServerReturned (Server_deferred st) None)
      else Ret (ServerReturned (Server_deferred st)
             (Some (StatusError UnknownCode (''cannot receive stream request: '' @ err_string (sv_err st))))))"
| "Server_Process s codec send (Recv req env # rs) st =
     go_bind (Server_handle s codec env req st) (\<lambda>r.
       case r of
         Inl e \<Rightarrow> Ret (ServerReturned (Server_deferred st) (Some e))
       | Inr (st1, resp) \<Rightarrow>
           (case Server_answer st1 resp of
              Inl e \<Rightarrow> Ret (ServerReturned (Server_deferred (st1\<lparr>sv_err := Some e\<rparr>)) (Some e))
            | Inr (st2, resp') \<Rightarrow>
                (case send (length (sv_sent st2)) of
                   Some e \<Rightarrow> Ret (ServerReturned (Server_deferred st2)
                      (Some (StatusError UnknownCode (''failed to send response back to Envoy: '' @ e))))
                 | None \<Rightarrow> Server_Process s codec send rs (st2\<lparr>sv_sent := sv_sent st2 @ [resp']\<rparr>))))"

subsection \<open>Both servers route alike\<close>

lemma Server_llmReq_assembleRequest: "Server_llmReq = assembleRequest"
proof (intro ext)
  fix ds r rb
  show "Server_llmReq ds r rb = assembleRequest ds r rb"
  proof (cases "as_string (json_get rb ''model'')")
    case (Some model)
    then show ?thesis
      by (cases "ModelGet ds model") (simp_all add: Server_llmReq_def assembleRequest_def)
  qed (simp add: Server_llmReq_def assembleRequest_def)
qed

fun same_decision ::
  "((RequestContext \<times> json_map option) \<times> error option) go \<Rightarrow> (RequestContext \<times> (error + ProcessingResponse)) go \<Rightarrow> bool" where
  \<comment> \<open>both fail with the same code, or both route to the same endpoint\<close>
  "same_decision (Ret ((c1, m), None)) (Ret (c2, Inr resp)) \<longleftrightarrow>
     TargetPod c1 = TargetPod c2 \<and> TargetEndpoint c1 = TargetEndpoint c2 \<and> ctx_Model c1 = ctx_Model c2 \<and>
     ctx_ResolvedTargetModel c1 = ctx_ResolvedTargetModel c2 \<and>
     (\<exists>resp1. reqHeaderResp c1 = Some resp1 \<and> DynamicMetadata resp1 = DynamicMetadata resp)"
| "same_decision (Ret ((c1, m), Some e1)) (Ret (c2, Inl e2)) \<longleftrightarrow> CanonicalCode e1 = CanonicalCode e2"
| "same_decision (Panic p) (Panic q) \<longleftrightarrow> p = q"
| "same_decision _ _ \<longleftrightarrow> False"

lemma decisions_agree:
  assumes decode: "\<And>m e. UnmarshalMap codec None body = (m, Some e) \<Longrightarrow> m = None"
    and encode: "\<And>llmReq es. replace_model llmReq (fst (UnmarshalMap codec None body)) = Some es \<Longrightarrow>
      \<exists>bytes. MarshalMap codec (Some es) = Inr bytes"
  shows "same_decision (HandleRequestBody s codec env c (fst (UnmarshalMap codec None body)))
    (Server_HandleRequestBody s codec env c body)"
proof -
  obtain rb jerr where u: "UnmarshalMap codec None body = (rb, jerr)" by fastforce
  show ?thesis
  proof (cases jerr)
    case (Some e)
    with decode u have "rb = None" by blast
    with u Some show ?thesis
      by (simp add: HandleRequestBody_def Server_HandleRequestBody_def assembleRequest_def json_get_def)
  next
    case None
    show ?thesis
    proof (cases "assembleRequest (env_ds env) (env_model_draw env) rb")
      case (Panic p)
      with u None show ?thesis
        by (simp add: HandleRequestBody_def Server_HandleRequestBody_def Server_llmReq_assembleRequest)
    next
      case (Ret res)
      show ?thesis
      proof (cases res)
        case (Inl err)
        with u None Ret show ?thesis
          by (simp add: HandleRequestBody_def Server_HandleRequestBody_def Server_llmReq_assembleRequest)
      next
        case (Inr llmReq)
        then have "rb \<noteq> None" using Ret by (cases rb) (auto simp: assembleRequest_def json_get_def)
        then have "replace_model llmReq rb \<noteq> None" by (simp add: replace_model_def)
        then obtain es where "replace_model llmReq rb = Some es" by blast
        with encode [of llmReq es] u obtain bytes where bytes: "MarshalMap codec (replace_model llmReq rb) = Inr bytes" by auto
        then obtain body' where body': "Server_requestBody codec llmReq rb body = Inr body'"
          by (cases "req_Model llmReq = ResolvedTargetModel llmReq") (auto simp: Server_requestBody_def replace_model_def)
        obtain c1 m1 where f: "ask_frontend codec env c (replace_model llmReq rb) = (c1, m1)" by fastforce
        let ?sch = "Schedule (env_config env) (env_ds env) (env_u env) (env_pod_draw env) llmReq"
        note defs = HandleRequestBody_def Server_HandleRequestBody_def Server_llmReq_assembleRequest
        show ?thesis
          using u None Ret Inr bytes body' f
          by (cases ?sch; cases "PoolGet (env_ds env)")
            (auto simp: defs Let_def populateRequestHeaderResponse_def Server_body_response_def split: sum.split)
      qed
    qed
  qed
qed

lemma replaced_encodes:
  assumes "fst (unmarshal_map errtext None body) = Some es" "replace_model llmReq (Some es) = Some es'"
  shows "\<exists>bytes. marshal_map errtext (Some es') = Inr bytes"
proof -
  have "wf_doc es" using go.decoded [of errtext body es] assms(1) by simp
  moreover obtain bytes where "marshal_map errtext (Some es) = Inr bytes"
    using go.encodes [OF \<open>wf_doc es\<close>, of errtext] by auto
  ultimately show ?thesis
    using assms(2) marshal_update [of errtext es bytes] by (auto simp: replace_model_def wf_doc_iff split: if_splits)
qed

text \<open>
  C9. The streaming and the buffering server take the same decision on the same body, in the
  same environment: they refuse it with the same error code, or they send it to the same
  pod and endpoint for the same target model, announced by the same metadata. Bodies with
  a number beyond the range of \<open>float64\<close> are left out: they decode with an error to a map.
\<close>

theorem servers_agree:
  assumes "\<not> (\<exists>es e. unmarshal_map errtext None body = (Some es, Some e))"
  shows "same_decision (HandleRequestBody s (go_json errtext) env c (fst (unmarshal_map errtext None body)))
    (Server_HandleRequestBody s (go_json errtext) env c body)"
proof -
  have "\<And>m e. UnmarshalMap (go_json errtext) None body = (m, Some e) \<Longrightarrow> m = None" using assms by (metis go_json_simps(1) option.exhaust)
  moreover have "\<exists>bytes. MarshalMap (go_json errtext) (Some es') = Inr bytes"
    if r: "replace_model llmReq (fst (UnmarshalMap (go_json errtext) None body)) = Some es'" for llmReq es'
  proof -
    obtain es where "fst (unmarshal_map errtext None body) = Some es"
      using r by (cases "fst (unmarshal_map errtext None body)") (auto simp: replace_model_def split: if_splits)
    with r replaced_encodes show ?thesis by simp
  qed
  ultimately show ?thesis using decisions_agree [of "go_json errtext" body s env c] by simp
qed

theorem servers_agree_witness:
  "same_decision (HandleRequestBody example_server (go_json (\<lambda>_ _. [])) example_env newRequestContext
       (fst (unmarshal_map (\<lambda>_ _. []) None example_text)))
     (Server_HandleRequestBody example_server (go_json (\<lambda>_ _. [])) example_env newRequestContext example_text)"
  by (rule servers_agree) (simp add: example_unmarshal)

subsection \<open>One answer per message\<close>

fun server_result_state :: "server_result \<Rightarrow> server_state" where
  "server_result_state (ServerRunning st) = st"
| "server_result_state (ServerReturned st e) = st"

fun answered :: "recv \<Rightarrow> ProcessingResponse \<Rightarrow> bool" where
  "answered (Recv (RequestHeaders h) env) resp \<longleftrightarrow> kind_of resp = KReqHeaders"
| "answered (Recv (RequestBody b) env) resp \<longleftrightarrow> kind_of resp \<in> {KReqBody, KImmediate}"
| "answered (Recv (ResponseHeaders h) env) resp \<longleftrightarrow> kind_of resp = KRespHeaders"
| "answered (Recv (ResponseBody b) env) resp \<longleftrightarrow> kind_of resp = KRespBody \<or> resp = nil_message"
| "answered _ resp \<longleftrightarrow> False"

lemma Server_deferred_sent [simp]: "sv_sent (Server_deferred st) = sv_sent st"
  by (simp add: Server_deferred_def Let_def)

lemma BuildErrResponse_kind: "BuildErrResponse err = Inr resp \<Longrightarrow> kind_of resp = KImmediate"
  by (auto simp: BuildErrResponse_def Let_def kind_of_def mk_response_def split: if_split_asm)

lemma Server_HandleRequestBody_kind:
  assumes "Server_HandleRequestBody s codec env c body = Ret (c', Inr resp)"
  shows "kind_of resp = KReqBody"
proof -
  obtain rb jerr where u: "UnmarshalMap codec None body = (rb, jerr)" by fastforce
  with assms have j: "jerr = None" by (cases jerr) (auto simp: Server_HandleRequestBody_def)
  obtain x where x: "Server_llmReq (env_ds env) (env_model_draw env) rb = Ret x"
    using assms u j by (cases "Server_llmReq (env_ds env) (env_model_draw env) rb") (auto simp: Server_HandleRequestBody_def)
  with assms u j obtain llmReq where l: "Server_llmReq (env_ds env) (env_model_draw env) rb = Ret (Inr llmReq)"
    by (cases x) (auto simp: Server_HandleRequestBody_def)
  with assms u j obtain body' where b: "Server_requestBody codec llmReq rb body = Inr body'"
    by (cases "Server_requestBody codec llmReq rb body") (auto simp: Server_HandleRequestBody_def)
  let ?sch = "Schedule (env_config env) (env_ds env) (env_u env) (env_pod_draw env) llmReq"
  obtain y where y: "?sch = Ret y" using assms u j l b by (cases ?sch) (auto simp: Server_HandleRequestBody_def)
  with assms u j l b obtain pm where "?sch = Ret (Inr pm)"
    by (cases y) (auto simp: Server_HandleRequestBody_def)
  with assms u j l b show ?thesis
    by (cases "PoolGet (env_ds env)")
      (auto simp: Server_HandleRequestBody_def Let_def Server_body_response_def kind_of_def)
qed

lemma Server_handle_sent:
  assumes "Server_handle s codec env req st = Ret (Inr (st1, resp))"
  shows "sv_sent st1 = sv_sent st"
proof (cases req)
  case (RequestBody b)
  with assms obtain c' res where "Server_HandleRequestBody s codec env (sv_ctx st) (body_Body b) = Ret (c', res)"
    by (auto simp: Server_handle_def go_simps)
  with assms RequestBody show ?thesis by (cases res) (auto simp: Server_handle_def)
next
  case (ResponseBody b)
  obtain c' r where "Server_HandleResponseBody codec (sv_ctx st) b = (c', r)" by fastforce
  with assms ResponseBody show ?thesis by (cases r) (auto simp: Server_handle_def Let_def split: if_split_asm)
qed (use assms in \<open>auto simp: Server_handle_def go_simps\<close>)

lemma Server_step:
  assumes "Server_handle s codec env req st = Ret (Inr (st1, resp))" "Server_answer st1 resp = Inr (st2, resp')" "sv_err st = None"
  shows "sv_sent st2 = sv_sent st \<and> sv_err st2 = None \<and> answered (Recv req env) resp'"
proof (cases req)
  case (RequestHeaders h)
  with assms show ?thesis
    by (auto simp: Server_handle_def Server_answer_def Server_HandleRequestHeaders_def kind_of_def mk_response_def)
next
  case (RequestBody b)
  with assms(1) obtain c' res where h: "Server_HandleRequestBody s codec env (sv_ctx st) (body_Body b) = Ret (c', res)"
    by (auto simp: Server_handle_def go_simps)
  show ?thesis
  proof (cases res)
    case (Inl err)
    with assms RequestBody h show ?thesis
      by (auto simp: Server_handle_def Server_answer_def dest: BuildErrResponse_kind split: sum.split_asm)
  next
    case (Inr r)
    with assms RequestBody h show ?thesis
      using Server_HandleRequestBody_kind by (auto simp: Server_handle_def Server_answer_def)
  qed
next
  case (ResponseHeaders h)
  with assms show ?thesis
    by (auto simp: Server_handle_def Server_HandleResponseHeaders_def Server_answer_def go_simps
        debug_header_response_def kind_of_def mk_response_def)
next
  case (ResponseBody b)
  obtain c' r where h: "Server_HandleResponseBody codec (sv_ctx st) b = (c', r)" by fastforce
  then have "kind_of x = KRespBody" if "r = Inr x" for x
    using that by (auto simp: Server_HandleResponseBody_def kind_of_def mk_response_def split: prod.split_asm option.split_asm)
  with h assms ResponseBody show ?thesis
    by (cases r) (auto simp: Server_handle_def Server_answer_def Let_def split: if_split_asm)
qed (use assms in \<open>auto simp: Server_handle_def\<close>)

lemma Server_unbuildable:
  \<comment> \<open>every error of the handler has an immediate response, except that the pool is not known\<close>
  assumes "Server_HandleRequestBody s codec env c body = Ret (c', Inl err)" "BuildErrResponse err = Inl e"
  shows "ds_pool (env_ds env) = None"
proof -
  have codes: "BuildErrResponse (EppError code msg) \<noteq> Inl e"
    if "code \<in> {BadRequest, BadConfiguration, Internal, InferencePoolResourceExhausted}" for code msg
    using that by (auto simp: BuildErrResponse_def Let_def)
  obtain rb jerr where u: "UnmarshalMap codec None body = (rb, jerr)" by fastforce
  with assms codes have j: "jerr = None" by (cases jerr) (auto simp: Server_HandleRequestBody_def)
  obtain x where x: "Server_llmReq (env_ds env) (env_model_draw env) rb = Ret x"
    using assms(1) u j by (cases "Server_llmReq (env_ds env) (env_model_draw env) rb") (auto simp: Server_HandleRequestBody_def)
  have "BuildErrResponse y \<noteq> Inl e" if "x = Inl y" for y
    using x that unfolding Server_llmReq_assembleRequest
    by (auto simp: assembleRequest_def go_simps codes split: option.split_asm if_split_asm)
  with assms u j x obtain llmReq where l: "x = Inr llmReq" by (cases x) (auto simp: Server_HandleRequestBody_def)
  with assms u j x codes obtain body' where b: "Server_requestBody codec llmReq rb body = Inr body'"
    by (cases "Server_requestBody codec llmReq rb body") (auto simp: Server_HandleRequestBody_def)
  let ?sch = "Schedule (env_config env) (env_ds env) (env_u env) (env_pod_draw env) llmReq"
  obtain y where y: "?sch = Ret y" using assms(1) u j x l b by (cases ?sch) (auto simp: Server_HandleRequestBody_def)
  with assms u j x l b codes obtain pm where "?sch = Ret (Inr pm)"
    by (cases y) (auto simp: Server_HandleRequestBody_def)
  with assms(1) u j x l b show ?thesis
    by (cases "PoolGet (env_ds env)") (auto simp: Server_HandleRequestBody_def Let_def PoolGet_None)
qed

fun stream_ended :: "sender \<Rightarrow> nat \<Rightarrow> recv \<Rightarrow> error option \<Rightarrow> bool" where
  \<comment> \<open>what may end a stream after \<open>n\<close> responses, and the error it is ended with\<close>
  "stream_ended send n (CtxDone e) err \<longleftrightarrow> err = Some e"
| "stream_ended send n RecvEOF err \<longleftrightarrow> err = None"
| "stream_ended send n (RecvError e) err \<longleftrightarrow> (err = None \<longleftrightarrow> status_Code e = Canceled)"
| "stream_ended send n (Recv req env) err \<longleftrightarrow> err \<noteq> None \<and>
     (req \<in> {RequestTrailers, ResponseTrailers, NoRequest} \<or> send n \<noteq> None \<or>
      (\<exists>b. req = RequestBody b) \<and> ds_pool (env_ds env) = None)"

fun answers_all :: "sender \<Rightarrow> nat \<Rightarrow> recv list \<Rightarrow> ProcessingResponse list \<Rightarrow> server_result \<Rightarrow> bool" where
  \<comment> \<open>a running stream has answered every message, one that returned every message before
     the one that ended it\<close>
  "answers_all send n rs new (ServerRunning st) \<longleftrightarrow> list_all2 answered rs new"
| "answers_all send n rs new (ServerReturned st err) \<longleftrightarrow>
     (\<exists>answered_msgs r rest. rs = answered_msgs @ r # rest \<and> list_all2 answered answered_msgs new \<and>
        stream_ended send (n + length new) r err)"

lemma answers_all_Cons:
  assumes "answers_all send (Suc n) rs new res" "answered r resp"
  shows "answers_all send n (r # rs) (resp # new) res"
proof (cases res)
  case (ServerReturned st err)
  with assms(1) obtain ms x rest where "rs = ms @ x # rest" "list_all2 answered ms new" "stream_ended send (Suc n + length new) x err"
    by auto
  with assms(2) ServerReturned show ?thesis by (auto intro!: exI [of _ "r # ms"])
qed (use assms in simp)

lemma Server_returns_at:
  assumes "sv_err st = None" "stream_ended send (length (sv_sent st)) r err" "sv_sent st' = sv_sent st"
  shows "\<exists>new. sv_sent (server_result_state (ServerReturned st' err)) = sv_sent st @ new \<and>
    answers_all send (length (sv_sent st)) (r # rs) new (ServerReturned st' err)"
  using assms by (intro exI [of _ "[]"]) auto

lemma Server_answer_fails:
  assumes "Server_handle s codec env req st = Ret (Inr (st1, resp))" "Server_answer st1 resp = Inl e" "sv_err st = None"
  shows "(\<exists>b. req = RequestBody b) \<and> ds_pool (env_ds env) = None"
proof (cases req)
  case (RequestBody b)
  with assms(1) obtain c' res where h: "Server_HandleRequestBody s codec env (sv_ctx st) (body_Body b) = Ret (c', res)"
    by (auto simp: Server_handle_def go_simps)
  with assms RequestBody Server_unbuildable show ?thesis
    by (cases res) (fastforce simp: Server_handle_def Server_answer_def split: sum.split_asm)+
next
  case (ResponseBody b)
  obtain c' r where "Server_HandleResponseBody codec (sv_ctx st) b = (c', r)" by fastforce
  with assms ResponseBody show ?thesis
    by (cases r) (auto simp: Server_handle_def Server_answer_def Let_def split: if_split_asm)
qed (use assms in \<open>auto simp: Server_handle_def Server_answer_def go_simps\<close>)

lemma Server_Process_answers:
  assumes "Server_Process s codec send rs st = Ret res" "sv_err st = None"
  shows "\<exists>new. sv_sent (server_result_state res) = sv_sent st @ new \<and> answers_all send (length (sv_sent st)) rs new res"
  using assms
proof (induction s codec send rs st rule: Server_Process.induct)
  case (2 s codec send e rs st)
  then have "res = ServerReturned (Server_deferred st) (Some e)" by simp
  with Server_returns_at [OF 2(2), of send "CtxDone e" "Some e" "Server_deferred st"] show ?case by simp
next
  case (3 s codec send rs st)
  then have "res = ServerReturned (Server_deferred st) None" by simp
  with Server_returns_at [OF 3(2), of send RecvEOF None "Server_deferred st"] show ?case by simp
next
  case (4 s codec send e rs st)
  then obtain err where "res = ServerReturned (Server_deferred st) err" "err = None \<longleftrightarrow> status_Code e = Canceled"
    by (auto split: if_split_asm)
  with Server_returns_at [OF 4(2), of send "RecvError e" err "Server_deferred st"] show ?case by simp
next
  case (5 s codec send req env rs st)
  from 5(2) obtain r where h: "Server_handle s codec env req st = Ret r" by (auto simp: go_simps)
  have ended: ?case if "res = ServerReturned st' err" "sv_sent st' = sv_sent st" "stream_ended send (length (sv_sent st)) (Recv req env) err" for st' err
    using Server_returns_at [OF 5(3) that(3,2), of rs] that(1) by simp
  show ?case
  proof (cases r)
    case (Inl e)
    with h have "req \<in> {RequestTrailers, ResponseTrailers, NoRequest}"
      by (cases req; auto simp: Server_handle_def go_simps split: sum.split_asm prod.split_asm) (metis sumE)
    with 5(2) h Inl show ?thesis by (intro ended [of "Server_deferred st" "Some e"]) auto
  next
    case (Inr x)
    then obtain st1 resp where x: "r = Inr (st1, resp)" by (cases x) auto
    have sent1: "sv_sent st1 = sv_sent st" using Server_handle_sent h x by blast
    show ?thesis
    proof (cases "Server_answer st1 resp")
      case (Inl e)
      with Server_answer_fails [OF h [unfolded x] Inl 5(3)] 5(2) h x sent1 show ?thesis
        by (intro ended [of "Server_deferred (st1\<lparr>sv_err := Some e\<rparr>)" "Some e"]) auto
    next
      case (Inr y)
      then obtain st2 resp' where y: "Server_answer st1 resp = Inr (st2, resp')" by (cases y) auto
      note step = Server_step [OF h [unfolded x] y 5(3)]
      show ?thesis
      proof (cases "send (length (sv_sent st2))")
        case (Some e)
        with 5(2) h x y step show ?thesis
          by (intro ended [of "Server_deferred st2" "Some (StatusError UnknownCode (''failed to send response back to Envoy: '' @ e))"]) auto
      next
        case None
        let ?st3 = "st2\<lparr>sv_sent := sv_sent st2 @ [resp']\<rparr>"
        have "Server_Process s codec send rs ?st3 = Ret res" "sv_err ?st3 = None"
          using 5(2) h x y None step by simp_all
        from 5(1) [OF y refl None this] step obtain new where
          "sv_sent (server_result_state res) = sv_sent st @ resp' # new" "answers_all send (Suc (length (sv_sent st))) rs new res"
          by auto
        with answers_all_Cons step show ?thesis by blast
      qed
    qed
  qed
qed (auto intro!: exI [of _ "[]"])

text \<open>
  C30. The buffering server answers in lockstep, one response for each message, in order and
  of the kind Envoy waits for (an immediate response where the request body is refused, an
  empty one where the response body cannot be read). While the stream is open every message
  received so far has its response. When the stream returns, every message before the one
  that ended it has its response, and it was ended, with the error that is returned, by the
  end or failure of the stream, by trailers or an unknown message, by a response that could
  not be sent, or by a request body when the pool is not known.
\<close>

theorem server_answers_each:
  assumes "Server_Process s codec send rs (initial_server mets) = Ret res"
  shows "case res of
      ServerRunning st \<Rightarrow> list_all2 answered rs (sv_sent st)
    | ServerReturned st err \<Rightarrow>
        \<exists>before r after. rs = before @ r # after \<and> list_all2 answered before (sv_sent st) \<and>
          stream_ended send (length (sv_sent st)) r err"
proof -
  have "sv_err (initial_server mets) = None" "sv_sent (initial_server mets) = []" by (simp_all add: initial_server_def)
  with Server_Process_answers [OF assms] show ?thesis by (cases res) auto
qed

theorem server_answers_each_witness:
  "\<exists>st. Server_Process example_server example_stream_codec (\<lambda>_. None)
      [Recv (RequestHeaders example_headers) example_env, Recv (ResponseHeaders example_headers) example_env] (initial_server no_metrics) =
      Ret (ServerRunning st) \<and>
    length (sv_sent st) = 2 \<and> kind_of (sv_sent st ! 0) = KReqHeaders \<and> kind_of (sv_sent st ! 1) = KRespHeaders"
proof -
  have r: "\<exists>st. Server_Process example_server example_stream_codec (\<lambda>_. None)
      [Recv (RequestHeaders example_headers) example_env, Recv (ResponseHeaders example_headers) example_env] (initial_server no_metrics) =
      Ret (ServerRunning st)"
    by (simp add: Server_handle_def Server_answer_def Server_HandleResponseHeaders_def initial_server_def)
  then obtain st where st: "Server_Process example_server example_stream_codec (\<lambda>_. None)
      [Recv (RequestHeaders example_headers) example_env, Recv (ResponseHeaders example_headers) example_env] (initial_server no_metrics) =
      Ret (ServerRunning st)" by blast
  from server_answers_each [OF st] st show ?thesis
    by (auto simp: list_all2_Cons1 simp del: Server_Process.simps)
qed

subsection \<open>What the buffering server records\<close>

lemma byte_string_single: "byte_string c \<noteq> ''200''"
  by (simp add: byte_string_def Let_def)

lemma Server_headers_status:
  assumes "\<forall>v\<in>set hs. hdr_Key v = ''status'' \<longrightarrow> hdr_RawValue v \<noteq> []"
    and "(\<exists>v\<in>set hs. hdr_Key v = ''status'') \<or> ResponseStatusCode c = ModelServerError"
  shows "\<exists>c'. Server_headers_loop hs c = Ret c' \<and> ResponseStatusCode c' = ModelServerError"
  using assms
proof (induction hs arbitrary: c)
  case (Cons v hs)
  show ?case
  proof (cases "hdr_Key v = ''status''")
    case True
    with Cons(2) obtain x xs where x: "hdr_RawValue v = x # xs" by (cases "hdr_RawValue v") auto
    have "\<exists>c'. Server_headers_loop hs (c\<lparr>ResponseStatusCode := ModelServerError\<rparr>) = Ret c' \<and> ResponseStatusCode c' = ModelServerError"
      by (rule Cons(1)) (use Cons(2) in auto)
    with True x show ?thesis by (simp add: byte_string_single)
  next
    case False
    let ?c = "if hdr_Key v = ''content-type'' \<and> Contains (hdr_RawValue v) ''text/event-stream'' then c\<lparr>modelServerStreaming := True\<rparr> else c"
    have "\<exists>c'. Server_headers_loop hs ?c = Ret c' \<and> ResponseStatusCode c' = ModelServerError"
      by (rule Cons(1)) (use Cons(2,3) False in auto)
    with False show ?thesis by (simp add: Let_def)
  qed
qed simp

text \<open>
  The buffering server takes every response with a \<open>status\<close> header for an error of the
  model server, whatever the status is: it compares the first byte of the value, as a
  string, with \<open>200\<close>.
\<close>

theorem server_status_always_error:
  assumes "\<forall>v\<in>set (Headers h). hdr_Key v = ''status'' \<longrightarrow> hdr_RawValue v \<noteq> []"
    and "\<exists>v\<in>set (Headers h). hdr_Key v = ''status''"
  shows "\<exists>c' resp. Server_HandleResponseHeaders c h = Ret (c', resp) \<and> ResponseStatusCode c' = ModelServerError"
  using Server_headers_status [of "Headers h" c] assms by (auto simp: Server_HandleResponseHeaders_def)

theorem server_status_always_error_witness:
  "\<exists>c' resp. Server_HandleResponseHeaders newRequestContext
      \<lparr>Headers = [\<lparr>hdr_Key = ''status'', hdr_RawValue = ''200''\<rparr>], headers_EndOfStream = False\<rparr> = Ret (c', resp) \<and>
    ResponseStatusCode c' = ModelServerError"
  using server_status_always_error [of "\<lparr>Headers = [\<lparr>hdr_Key = ''status'', hdr_RawValue = ''200''\<rparr>], headers_EndOfStream = False\<rparr>"
      newRequestContext] by simp

text \<open>
  The buffering server never counts a request it refuses: the variable the deferred
  function reads is overwritten by the construction of the error response, so a stream in
  which the body was refused and answered ends with the metrics it started with. (The
  streaming server counts it once.)
\<close>

theorem server_refusal_uncounted:
  assumes refused: "Server_HandleRequestBody s codec env (newRequestContext\<lparr>RequestReceivedTimestamp := env_now env0\<rparr>) (body_Body b) =
      Ret (newRequestContext\<lparr>RequestReceivedTimestamp := env_now env0\<rparr>, Inl err)"
    and resp: "BuildErrResponse err = Inr resp" and send: "send 0 = None" "send 1 = None"
  shows "\<exists>st. Server_Process s codec send [Recv (RequestHeaders h) env0, Recv (RequestBody b) env, RecvEOF] (initial_server mets) =
      Ret (ServerReturned st None) \<and> sv_sent st = [Server_HandleRequestHeaders, resp] \<and> sv_metrics st = mets"
  using assms by (simp add: Server_handle_def Server_answer_def initial_server_def Server_deferred_def newRequestContext_def)

theorem server_refusal_uncounted_witness:
  "\<exists>st. Server_Process example_server example_stream_codec (\<lambda>_. None)
      [Recv (RequestHeaders example_headers) example_env,
       Recv (RequestBody \<lparr>body_Body = ''not json'', body_EndOfStream = True\<rparr>) example_env, RecvEOF] (initial_server no_metrics) =
      Ret (ServerReturned st None) \<and> sv_metrics st = no_metrics"
proof -
  let ?b = "\<lparr>body_Body = ''not json'', body_EndOfStream = True\<rparr>"
  let ?e = "EppError BadRequest (''error unmarshaling request body: '' @ ''invalid character'')"
  have r: "Server_HandleRequestBody example_server example_stream_codec example_env
      (newRequestContext\<lparr>RequestReceivedTimestamp := env_now example_env\<rparr>) (body_Body ?b) =
      Ret (newRequestContext\<lparr>RequestReceivedTimestamp := env_now example_env\<rparr>, Inl ?e)"
  proof -
    have "checkValid ''not json'' = None" by code_simp
    then show ?thesis by (simp add: Server_HandleRequestBody_def example_stream_codec_def unmarshal_map_def)
  qed
  have e: "BuildErrResponse ?e = Inr (mk_response (ImmediateResponse 400))"
    by (simp add: BuildErrResponse_def Let_def error_codes StatusCode_BadRequest_def)
  from server_refusal_uncounted [where send = "\<lambda>_. None" and h = example_headers and mets = no_metrics, OF r e refl refl]
  show ?thesis by (auto simp del: Server_Process.simps)
qed

end
