(* ===== verification/Documents.thy ===== *)
theory Documents
  imports Server
begin

text \<open>
  The documents that pass through the streaming server. Every map a stream decodes is well
  formed and stays so, also when the model is replaced and when the call to the front end
  writes its annotation into it; so encoding never fails, and what the server sends on is
  decoded to the document it received, or the server panics on the usage of a response.
\<close>

subsection \<open>The bodies a stream holds\<close>

definition wf_body :: "json_map option \<Rightarrow> bool" where
  "wf_body m \<longleftrightarrow> (case m of None \<Rightarrow> True | Some es \<Rightarrow> wf_doc es)"

definition bodies_ok :: "stream_state \<Rightarrow> bool" where
  "bodies_ok st \<longleftrightarrow> wf_body (st_requestBody st) \<and> wf_body (st_responseBody st)"

definition names_ok :: "datastore \<Rightarrow> bool" where
  \<comment> \<open>the models of the datastore are objects the API server admits: valid target models, and
     names in UTF-8, as every string of an API object\<close>
  "names_ok ds \<longleftrightarrow> list_all (\<lambda>(name, obj). valid_TargetModels (TargetModels (model_Spec obj)) \<and>
     list_all (\<lambda>t. valid_utf8 (tm_Name t)) (TargetModels (model_Spec obj))) (ds_models ds)"

lemma wf_body_simps [simp]: "wf_body None" "wf_body (Some es) \<longleftrightarrow> wf_doc es"
  by (simp_all add: wf_body_def)

lemma unmarshal_wf_body: "wf_body m \<Longrightarrow> unmarshal_map errtext m s = (m', e) \<Longrightarrow> wf_body m'"
proof (cases m')
  case (Some es)
  assume "wf_body m" "unmarshal_map errtext m s = (m', e)"
  with Some unmarshal_map_wf [of errtext m s es e] show ?thesis by (cases m) auto
qed simp

lemma marshal_wf_body: "wf_body m \<Longrightarrow> \<exists>bytes. marshal_map errtext m = Inr bytes"
  using go.encodes [of _ errtext] by (cases m) (auto simp: marshal_nil)

lemma resolved_name_valid:
  assumes "names_ok ds" "wf_body m" "assembleRequest ds r m = Ret (Inr llmReq)"
  shows "valid_utf8 (ResolvedTargetModel llmReq)"
proof -
  from assms(3) obtain name obj where g: "as_string (json_get m ''model'') = Some name" "ModelGet ds name = Some obj"
    by (auto simp: assembleRequest_def split: option.splits)
  from g(1) obtain es where es: "m = Some es" "map_of es ''model'' = Some (JString name)"
    by (cases m; cases "json_get m ''model''" rule: as_string.cases) (auto simp: json_get_def)
  with assms(2) have "wf_members (maxNestingDepth - 1) es" by (simp add: wf_doc_iff)
  from wf_member [OF this es(2)] have name: "valid_utf8 name" by simp
  have obj: "valid_TargetModels (TargetModels (model_Spec obj))"
      "\<forall>t\<in>set (TargetModels (model_Spec obj)). valid_utf8 (tm_Name t)"
    using assms(1) map_of_SomeD [of "ds_models ds" name obj] g(2) by (auto simp: names_ok_def ModelGet_def list_all_iff)
  show ?thesis
  proof (cases "TargetModels (model_Spec obj) = []")
    case True
    with assms(3) g name show ?thesis by (auto simp: assembleRequest_def)
  next
    case False
    with RandomWeightedDraw_returns [of obj r] obj(1) obtain t where
      "t \<in> set (TargetModels (model_Spec obj))" "RandomWeightedDraw obj r = Ret (tm_Name t)" by auto
    with False assms(3) g obj(2) show ?thesis by (auto simp: assembleRequest_def split: if_splits)
  qed
qed

lemma replace_model_wf:
  "wf_body m \<Longrightarrow> valid_utf8 (ResolvedTargetModel llmReq) \<Longrightarrow> wf_body (replace_model llmReq m)"
  by (cases m) (auto simp: replace_model_def go.good_model)

lemma fe_body_wf_body: "wf_body m \<Longrightarrow> wf_body (snd (fe_body m))"
  using fe_body_wf(2) [of m] by (cases m; cases "snd (fe_body m)") auto

lemma ask_frontend_wf: "ask_frontend codec env c m = (c', m') \<Longrightarrow> wf_body m \<Longrightarrow> wf_body m'"
  using fe_body_wf_body [of m]
  by (auto simp: ask_frontend_def callFrontEndForWorker_def split: prod.splits sum.splits)

lemma HandleRequestBody_wf:
  assumes "HandleRequestBody s codec env c m = Ret ((c', m'), e)" "wf_body m" "names_ok (env_ds env)"
  shows "wf_body m'"
proof -
  from assms(1) obtain res where a: "assembleRequest (env_ds env) (env_model_draw env) m = Ret res"
    by (cases "assembleRequest (env_ds env) (env_model_draw env) m") (auto simp: HandleRequestBody_def)
  show ?thesis
  proof (cases res)
    case (Inl err)
    with assms a show ?thesis by (auto simp: HandleRequestBody_def)
  next
    case (Inr llmReq)
    have w: "wf_body (replace_model llmReq m)"
      using resolved_name_valid [OF assms(3,2)] a Inr assms(2) by (auto intro: replace_model_wf)
    obtain ctx1 body2 where fe: "ask_frontend codec env c (replace_model llmReq m) = (ctx1, body2)" by fastforce
    have "m' = replace_model llmReq m \<or> m' = body2"
      using assms(1) a Inr fe by (auto simp: HandleRequestBody_def Let_def go_simps split: sum.split_asm) (metis sum.exhaust)
    with w ask_frontend_wf [OF fe w] show ?thesis by auto
  qed
qed

subsection \<open>Every step keeps them well formed\<close>

definition same_bodies :: "stream_state \<Rightarrow> stream_state \<Rightarrow> bool" where
  "same_bodies st st' \<longleftrightarrow> st_requestBody st' = st_requestBody st \<and> st_responseBody st' = st_responseBody st"

lemma same_bodies_ok: "same_bodies st st' \<Longrightarrow> bodies_ok st \<Longrightarrow> bodies_ok st'"
  by (simp add: same_bodies_def bodies_ok_def)

lemma Send_bodies: "Send send resp st = (st', e) \<Longrightarrow> same_bodies st st'"
  by (auto simp: Send_def same_bodies_def split: option.splits)

lemma then_if_ok_bodies:
  "same_bodies st (fst r) \<Longrightarrow> (\<And>st1. same_bodies st1 (fst (f st1))) \<Longrightarrow> same_bodies st (fst (then_if_ok r f))"
  by (auto simp: then_if_ok_def same_bodies_def split: prod.splits option.splits)

lemma send_bodies:
  "same_bodies st (fst (send_request_header send st))" "same_bodies st (fst (send_request_body send st))"
  "same_bodies st (fst (send_request_trailer send st))" "same_bodies st (fst (send_response_header send st))"
  "same_bodies st (fst (send_response_trailer send st))"
  by (auto simp: send_request_header_def send_request_body_def send_request_trailer_def send_response_header_def
      send_response_trailer_def then_if_ok_def Send_def same_bodies_def split: option.splits)

lemma send_response_body_bodies: "send_response_body send st = Ret (st', e) \<Longrightarrow> same_bodies st st'"
  by (auto simp: send_response_body_def Send_def same_bodies_def go_simps split: option.splits if_splits)

lemma updateState_bodies:
  assumes "updateStateAndSendIfNeeded send st = Ret (st', e)"
  shows "same_bodies st st'"
proof -
  let ?r = "then_if_ok (then_if_ok (then_if_ok (send_request_header send st)
    (send_request_body send)) (send_request_trailer send)) (send_response_header send)"
  have r: "same_bodies st (fst ?r)" by (intro then_if_ok_bodies send_bodies)
  obtain st1 e1 where r1: "?r = (st1, e1)" by fastforce
  show ?thesis
  proof (cases e1)
    case (Some x)
    with assms r r1 show ?thesis by (simp add: updateStateAndSendIfNeeded_def go_if_ok_def)
  next
    case None
    with assms r1 obtain st2 e2 where b: "send_response_body send st1 = Ret (st2, e2)"
      by (auto simp: updateStateAndSendIfNeeded_def go_if_ok_def go_simps)
    have "same_bodies st2 (fst (send_response_trailer send st2))" by (rule send_bodies)
    with assms r r1 None b send_response_body_bodies [OF b] show ?thesis
      by (cases e2) (auto simp: updateStateAndSendIfNeeded_def go_if_ok_def same_bodies_def)
  qed
qed

lemma handle_message_bodies:
  assumes ok: "bodies_ok st" and names: "names_ok (env_ds env)"
    and h: "handle_message s (go_json errtext) conv env req st = Ret st'"
  shows "bodies_ok st'"
proof (cases req)
  case (RequestHeaders hs)
  with h ok show ?thesis by (auto simp: handle_message_def go_simps bodies_ok_def)
next
  case (RequestBody b)
  obtain rb jerr where u: "unmarshal_map errtext (st_requestBody st) (st_body st @ body_Body b) = (rb, jerr)" by fastforce
  have rb: "wf_body rb" using ok u unmarshal_wf_body by (auto simp: bodies_ok_def)
  show ?thesis
  proof (cases "body_EndOfStream b")
    case True
    with h RequestBody u obtain c' m' e where
      "HandleRequestBody s (go_json errtext) env (st_ctx st) rb = Ret ((c', m'), e)"
      "st_requestBody st' = m'" "st_responseBody st' = st_responseBody st"
      by (auto simp: handle_message_def on_request_body_def Let_def go_simps)
    with HandleRequestBody_wf [OF _ rb names] ok show ?thesis by (auto simp: bodies_ok_def)
  qed (use h RequestBody ok in \<open>auto simp: handle_message_def on_request_body_def Let_def bodies_ok_def\<close>)
next
  case (ResponseHeaders hs)
  with h ok show ?thesis by (auto simp: handle_message_def bodies_ok_def)
next
  case (ResponseBody b)
  obtain rb jerr where u: "unmarshal_map errtext (st_responseBody st) (st_body st @ body_Body b) = (rb, jerr)" by fastforce
  have rb: "wf_body rb" using ok u unmarshal_wf_body by (auto simp: bodies_ok_def)
  have "st_requestBody st' = st_requestBody st \<and> st_responseBody st' \<in> {st_responseBody st, rb}"
    using h ResponseBody u
    by (auto simp: handle_message_def on_streamed_response_def on_buffered_response_def Let_def go_simps split: if_splits)
  with ok rb show ?thesis by (auto simp: bodies_ok_def)
qed (use h ok in \<open>auto simp: handle_message_def bodies_ok_def\<close>)

lemma deferred_bodies: "same_bodies st (deferred st)"
  by (simp add: deferred_def same_bodies_def Let_def)

lemma fire_error_bodies: "fire_error send err st = (st', e) \<Longrightarrow> same_bodies st st'"
  by (auto simp: fire_error_def same_bodies_def Send_def split: sum.splits option.splits)

definition recv_names_ok :: "recv \<Rightarrow> bool" where
  "recv_names_ok r \<longleftrightarrow> (case r of Recv req env \<Rightarrow> names_ok (env_ds env) | _ \<Rightarrow> True)"

lemma Process_bodies:
  assumes "bodies_ok st" "\<forall>r\<in>set rs. recv_names_ok r" "Process s codec conv send rs st = Ret res" "codec = go_json errtext"
  shows "bodies_ok (result_state res)"
  using assms
proof (induction s codec conv send rs st rule: Process.induct)
  case (5 s codec conv send req env rs st)
  from 5(4) obtain st1 where h: "handle_message s codec conv env req st = Ret st1" by (auto simp: go_simps)
  have ok1: "bodies_ok st1" using handle_message_bodies [OF 5(2)] 5(3,5) h by (auto simp: recv_names_ok_def)
  show ?case
  proof (cases "st_err st1")
    case (Some err)
    obtain st2 e where f: "fire_error send err st1 = (st2, e)" by fastforce
    with 5(4) h Some have "res = Returned (deferred st2) e" by simp
    with same_bodies_ok [OF fire_error_bodies [OF f] ok1] deferred_bodies same_bodies_ok show ?thesis by auto
  next
    case None
    with 5(4) h obtain st2 e where u: "updateStateAndSendIfNeeded send st1 = Ret (st2, e)" by (auto simp: go_simps)
    note ok2 = same_bodies_ok [OF updateState_bodies [OF u] ok1]
    show ?thesis
    proof (cases e)
      case None
      with 5(1) [OF \<open>st_err st1 = None\<close> ok2] 5(3,4,5) h \<open>st_err st1 = None\<close> u show ?thesis by auto
    next
      case (Some err)
      with 5(4) h \<open>st_err st1 = None\<close> u have "res = Returned (deferred st2) (Some err)" by simp
      with same_bodies_ok [OF deferred_bodies ok2] show ?thesis by simp
    qed
  qed
qed (auto split: if_splits intro: same_bodies_ok [OF deferred_bodies])


text \<open>
  C10. The documents of a stream are well typed: whatever Envoy sends, in every state of a
  stream the decoded request and response bodies are well-formed documents, also after the
  model was replaced and the front end's annotation was added. So encoding them never fails:
  the branches for marshaling errors are dead.
\<close>

theorem bodies_well_formed:
  assumes "\<forall>r\<in>set rs. recv_names_ok r"
    and "Process s (go_json errtext) conv send rs (initial_stream mets) = Ret res"
  shows "bodies_ok (result_state res) \<and>
    (\<exists>bytes. MarshalMap (go_json errtext) (st_requestBody (result_state res)) = Inr bytes) \<and>
    (\<exists>bytes. MarshalMap (go_json errtext) (st_responseBody (result_state res)) = Inr bytes)"
proof -
  have "bodies_ok (initial_stream mets)" by (simp add: bodies_ok_def initial_stream_def)
  from Process_bodies [OF this assms refl] show ?thesis by (simp add: bodies_ok_def marshal_wf_body)
qed

lemma example_names: "recv_names_ok r" if "r \<in> set example_messages"
  using that by (auto simp: example_messages_def recv_names_ok_def names_ok_def example_env_def example_pool_ds_simps
      example_model_def valid_TargetModels_def)

theorem bodies_well_formed_witness:
  "\<exists>res. Process example_server (go_json (\<lambda>_ _. ''invalid character'')) (\<lambda>_. 0) (\<lambda>_. None) (example_messages @ [RecvEOF])
      (initial_stream no_metrics) = Ret res \<and> bodies_ok (result_state res)"
proof -
  obtain st where r: "Process example_server (go_json (\<lambda>_ _. ''invalid character'')) (\<lambda>_. 0) (\<lambda>_. None) (example_messages @ [RecvEOF])
      (initial_stream no_metrics) = Ret (Returned st None)"
    using example_process unfolding example_stream_codec_def by blast
  have "\<forall>x\<in>set (example_messages @ [RecvEOF]). recv_names_ok x"
    using example_names by (auto simp: recv_names_ok_def)
  from bodies_well_formed [OF this r] r show ?thesis by auto
qed

subsection \<open>Buffered responses\<close>

definition is_number :: "json option \<Rightarrow> bool" where
  "is_number v \<longleftrightarrow> (case v of Some (JNum x) \<Rightarrow> True | Some JNegZero \<Rightarrow> True | _ \<Rightarrow> False)"

definition usage_ok :: "json_map \<Rightarrow> bool" where
  \<comment> \<open>the response has no usage, or null, or an object with the three counts as numbers\<close>
  "usage_ok es \<longleftrightarrow>
     (case map_of es ''usage'' of
        None \<Rightarrow> True
      | Some JNull \<Rightarrow> True
      | Some (JObject usg) \<Rightarrow>
          list_all (\<lambda>k. is_number (map_of usg k)) [''prompt_tokens'', ''completion_tokens'', ''total_tokens'']
      | Some _ \<Rightarrow> False)"

lemma usage_field_number: "(\<exists>n. usage_field conv usg k = Ret n) \<longleftrightarrow> is_number (map_of usg k)"
  by (auto simp: usage_field_def is_number_def split: option.splits json.splits)

lemma parse_usage_shape:
  "(\<exists>x. parse_usage conv u = Ret x) \<longleftrightarrow>
     (\<exists>usg. u = JObject usg \<and> list_all (\<lambda>k. is_number (map_of usg k)) [''prompt_tokens'', ''completion_tokens'', ''total_tokens''])"
  by (cases u) (auto simp: parse_usage_def go_simps simp flip: usage_field_number [of conv])

lemma usage_ok_parses:
  "usage_ok es \<longleftrightarrow>
     (case map_of es ''usage'' of None \<Rightarrow> True | Some JNull \<Rightarrow> True | Some u \<Rightarrow> returns (parse_usage conv u))"
  unfolding usage_ok_def returns_iff parse_usage_shape by (simp split: option.splits json.splits)

lemma HandleResponseBody_usage_ok:
  assumes "usage_ok es" "MarshalMap codec (Some es) = Inr bytes"
  shows "\<exists>c'. HandleResponseBody codec conv c (Some es) = Ret (c', None) \<and>
    respBodyResp c' = Some (streamed_body bytes True) \<and> RequestState c' = RequestState c \<and> respTrailerResp c' = respTrailerResp c"
proof -
  have "\<exists>c1. (case json_get (Some es) ''usage'' of None \<Rightarrow> Ret c | Some JNull \<Rightarrow> Ret c
      | Some u \<Rightarrow> go_bind (parse_usage conv u) (\<lambda>usage. Ret (c\<lparr>ctx_Usage := usage\<rparr>))) = Ret c1 \<and>
      RequestState c1 = RequestState c \<and> respTrailerResp c1 = respTrailerResp c"
    using assms(1) by (auto simp: usage_ok_parses [of _ conv] json_get_def returns_iff split: option.splits json.splits)
  then obtain c1 where c1: "(case json_get (Some es) ''usage'' of None \<Rightarrow> Ret c | Some JNull \<Rightarrow> Ret c
      | Some u \<Rightarrow> go_bind (parse_usage conv u) (\<lambda>usage. Ret (c\<lparr>ctx_Usage := usage\<rparr>))) = Ret c1"
      "RequestState c1 = RequestState c" "respTrailerResp c1 = respTrailerResp c"
    by blast
  show ?thesis unfolding HandleResponseBody_def assms(2) sum.case c1(1) using c1(2,3) by simp
qed

lemma HandleResponseBody_panics:
  assumes "\<not> usage_ok es" "MarshalMap codec (Some es) = Inr bytes"
  shows "\<exists>msg. HandleResponseBody codec conv c (Some es) = Panic msg"
proof -
  obtain u where u: "map_of es ''usage'' = Some u" "u \<noteq> JNull" "\<not> returns (parse_usage conv u)"
    using assms(1) by (auto simp: usage_ok_parses [of _ conv] split: option.splits json.splits)
  then obtain msg where "parse_usage conv u = Panic msg" by (cases "parse_usage conv u") auto
  with u(1,2) have "(case json_get (Some es) ''usage'' of None \<Rightarrow> Ret c | Some JNull \<Rightarrow> Ret c
      | Some u \<Rightarrow> go_bind (parse_usage conv u) (\<lambda>usage. Ret (c\<lparr>ctx_Usage := usage\<rparr>))) = Panic msg"
    by (cases u) (simp_all add: json_get_def)
  then show ?thesis unfolding HandleResponseBody_def assms(2) sum.case by simp
qed

definition buffering :: "stream_state \<Rightarrow> bool" where
  \<comment> \<open>the response headers are out and the body is collected\<close>
  "buffering st \<longleftrightarrow> \<not> modelServerStreaming (st_ctx st) \<and> in_state st HeaderResponseResponseComplete \<and> st_err st = None \<and>
     respTrailerResp (st_ctx st) = None \<and> respBodyResp (st_ctx st) = None \<and> st_responseBody st = None"

lemma update_buffering:
  assumes "in_state st HeaderResponseResponseComplete" "respBodyResp (st_ctx st) = None"
  shows "updateStateAndSendIfNeeded send st = Ret (st, None)"
  using assms by (simp add: updateStateAndSendIfNeeded_def go_if_ok_def then_if_ok_def send_request_header_def
      send_request_body_def send_request_trailer_def send_response_header_def send_response_body_def
      send_response_trailer_def split: option.splits)

lemma chunks_buffered:
  assumes "buffering st" "\<forall>x\<in>set chunks. \<not> body_EndOfStream (fst x)"
  shows "Process s codec conv send (map (\<lambda>(b, env). Recv (ResponseBody b) env) chunks @ rs) st =
    Process s codec conv send rs (st\<lparr>st_body := st_body st @ concat (map (body_Body \<circ> fst) chunks)\<rparr>)"
  using assms
proof (induction chunks arbitrary: st)
  case (Cons x chunks)
  obtain b env where x: "x = (b, env)" by fastforce
  let ?st1 = "st\<lparr>st_body := st_body st @ body_Body b\<rparr>"
  have "handle_message s codec conv env (ResponseBody b) st = Ret ?st1"
    using Cons.prems x by (simp add: handle_message_def buffering_def on_buffered_response_def Let_def)
  moreover have b1: "buffering ?st1" using Cons.prems(1) by (simp add: buffering_def)
  moreover from b1 have "updateStateAndSendIfNeeded send ?st1 = Ret (?st1, None)" by (intro update_buffering) (simp_all add: buffering_def)
  ultimately show ?case using Cons.IH [OF b1] Cons.prems x by (simp add: buffering_def)
qed simp

lemma last_chunk_buffered:
  assumes b: "buffering st" and fin: "body_EndOfStream fin" and send: "\<And>n. send n = None"
    and doc: "fst (unmarshal_map errtext None (st_body st @ body_Body fin)) = Some es"
  shows "if usage_ok es
    then \<exists>bytes st'. unmarshal_map errtext None bytes = (Some (canon_map es), None) \<and>
      Process s (go_json errtext) conv send [Recv (ResponseBody fin) env] st = Ret (Running st') \<and>
      st_sent st' = st_sent st @ [streamed_body bytes True]
    else \<exists>msg. Process s (go_json errtext) conv send [Recv (ResponseBody fin) env] st = Panic msg"
proof -
  obtain e where u: "unmarshal_map errtext None (st_body st @ body_Body fin) = (Some es, e)"
    using doc by (metis prod.collapse)
  then obtain bytes where bytes: "marshal_map errtext (Some es) = Inr bytes"
    "unmarshal_map errtext None bytes = (Some (canon_map es), None)"
    using go.read_back [OF go.decoded_good] by fastforce
  have h: "handle_message s (go_json errtext) conv env (ResponseBody fin) st = on_buffered_response (go_json errtext) conv env fin st"
    using b by (simp add: handle_message_def buffering_def)
  show ?thesis
  proof (cases "usage_ok es")
    case True
    obtain c' where c': "HandleResponseBody (go_json errtext) conv (st_ctx st) (Some es) = Ret (c', None)"
      "respBodyResp c' = Some (streamed_body bytes True)" "RequestState c' = RequestState (st_ctx st)" "respTrailerResp c' = respTrailerResp (st_ctx st)"
      using HandleResponseBody_usage_ok [OF True, of "go_json errtext" bytes conv "st_ctx st"] bytes(1) by auto
    obtain st1 where st1: "on_buffered_response (go_json errtext) conv env fin st = Ret st1"
      "in_state st1 HeaderResponseResponseComplete" "respBodyResp (st_ctx st1) = Some (streamed_body bytes True)"
      "respTrailerResp (st_ctx st1) = None" "st_sent st1 = st_sent st" "st_err st1 = None"
      using fin b u c' by (auto simp: on_buffered_response_def Let_def buffering_def)
    with update_response_body [where send = send, OF st1(2-4) send] h bytes(2) True show ?thesis by auto
  next
    case False
    then obtain msg where "HandleResponseBody (go_json errtext) conv (st_ctx st) (Some es) = Panic msg"
      using HandleResponseBody_panics [where codec = "go_json errtext"] bytes(1) by fastforce
    then have "on_buffered_response (go_json errtext) conv env fin st = Panic msg"
      using fin b u by (simp add: on_buffered_response_def Let_def buffering_def)
    with h False show ?thesis by simp
  qed
qed

lemma header_steps_plain:
  "\<not> (\<exists>v\<in>set vs. hdr_Key v = ''content-type'' \<and> Contains (hdr_RawValue v) ''text/event-stream'') \<Longrightarrow>
   modelServerStreaming (foldl header_step c vs) = modelServerStreaming c"
  by (induction vs arbitrary: c) (auto simp: header_step_def)

text \<open>
  C12. A response the model server does not stream reaches the client as the same document:
  however its bytes are split into chunks, nothing but the response headers is sent until
  the last one is there, and then one body that is decoded to the document the bytes of the
  model server are decoded to. The response has no usage, or null, or an object in which
  prompt_tokens, completion_tokens and total_tokens are numbers: with any other usage (an
  embedding without completion_tokens) the stream panics instead.
\<close>

theorem buffered_response_same_document:
  assumes sends: "\<And>n. send n = None"
    and request: "Process s (go_json errtext) conv send rs (initial_stream mets) = Ret (Running st)" "respBodyResp (st_ctx st) = None"
      "\<not> modelServerStreaming (st_ctx st)" "st_body st = []" "st_responseBody st = None"
    and headers: "\<not> streams h"
    and chunks: "\<forall>x\<in>set chunks. \<not> body_EndOfStream (fst x)" and fin: "body_EndOfStream fin"
    and doc: "fst (unmarshal_map errtext None (concat (map (body_Body \<circ> fst) chunks) @ body_Body fin)) = Some es"
  shows "if usage_ok es
    then \<exists>bytes st'. unmarshal_map errtext None bytes = (Some (canon_map es), None) \<and>
      Process s (go_json errtext) conv send
        (rs @ Recv (ResponseHeaders h) env # map (\<lambda>(b, env). Recv (ResponseBody b) env) chunks @ [Recv (ResponseBody fin) env'])
        (initial_stream mets) = Ret (Running st') \<and>
      st_sent st' = st_sent st @ [debug_header_response, streamed_body bytes True]
    else \<exists>msg. Process s (go_json errtext) conv send
        (rs @ Recv (ResponseHeaders h) env # map (\<lambda>(b, env). Recv (ResponseBody b) env) chunks @ [Recv (ResponseBody fin) env'])
        (initial_stream mets) = Panic msg"
proof -
  let ?codec = "go_json errtext"
  have "st_err (initial_stream mets) = None" by (simp add: initial_stream_def)
  with Process_running [OF request(1) initial_ok] have ok: "stream_ok st" "st_err st = None" by auto
  let ?c = "response_headers (st_ctx st) h"
  let ?st1 = "st\<lparr>st_ctx := ?c\<rparr>"
  have c: "RequestState ?c = ResponseRecieved" "respHeaderResp ?c = Some debug_header_response"
    "respBodyResp ?c = None" "\<not> modelServerStreaming ?c"
    using request(2,3) header_steps_frame(1) [of "st_ctx st" "Headers h"] header_steps_plain [of "Headers h" "st_ctx st"] headers
    by (simp_all add: response_headers_def streams_def)
  let ?st2 = "?st1\<lparr>st_sent := st_sent st @ [debug_header_response], st_ctx := ?c\<lparr>RequestState := HeaderResponseResponseComplete\<rparr>\<rparr>"
  have h: "handle_message s ?codec conv env (ResponseHeaders h) st = Ret ?st1" by (simp add: handle_message_def)
  have u: "updateStateAndSendIfNeeded send ?st1 = Ret (?st2, None)"
    using update_response_header [of ?st1 debug_header_response send] c sends by simp
  have "ctx_ok (st_ctx ?st1)" using handle_message_ok [OF ok(1) h] by (rule stream_okD(1))
  then have b: "buffering ?st2" using c ok(2) request(5) by (simp add: buffering_def ctx_ok_def)
  let ?st3 = "?st2\<lparr>st_body := concat (map (body_Body \<circ> fst) chunks)\<rparr>"
  have b3: "buffering ?st3" using b by (simp add: buffering_def)
  have d3: "fst (unmarshal_map errtext None (st_body ?st3 @ body_Body fin)) = Some es" using doc by simp
  have "Process s ?codec conv send (rs @ Recv (ResponseHeaders h) env # map (\<lambda>(b, env). Recv (ResponseBody b) env) chunks @
      [Recv (ResponseBody fin) env']) (initial_stream mets) =
      Process s ?codec conv send (map (\<lambda>(b, env). Recv (ResponseBody b) env) chunks @ [Recv (ResponseBody fin) env']) ?st2"
    using ok(2) by (simp add: Process_append [OF request(1)] h u)
  also have "\<dots> = Process s ?codec conv send [Recv (ResponseBody fin) env'] ?st3"
    unfolding chunks_buffered [OF b chunks] using request(4) by (simp del: Process.simps)
  finally show ?thesis using last_chunk_buffered [where send = send, OF b3 fin sends d3, of s conv env']
    by (simp del: Process.simps split: if_splits)
qed

theorem buffered_response_same_document_witness:
  "\<exists>bytes st'. unmarshal_map (\<lambda>_ _. []) None bytes = (Some (canon_map example_doc), None) \<and>
    Process example_server (go_json (\<lambda>_ _. [])) (\<lambda>_. 0) (\<lambda>_. None)
      [Recv (ResponseHeaders example_headers) example_env,
       Recv (ResponseBody \<lparr>body_Body = take 5 example_text, body_EndOfStream = False\<rparr>) example_env,
       Recv (ResponseBody \<lparr>body_Body = drop 5 example_text, body_EndOfStream = True\<rparr>) example_env] (initial_stream no_metrics) =
      Ret (Running st') \<and>
    st_sent st' = [debug_header_response, streamed_body bytes True]"
proof -
  let ?st = "initial_stream no_metrics" and ?p = "\<lparr>body_Body = take 5 example_text, body_EndOfStream = False\<rparr>"
  let ?q = "\<lparr>body_Body = drop 5 example_text, body_EndOfStream = True\<rparr>"
  have r: "Process example_server (go_json (\<lambda>_ _. [])) (\<lambda>_. 0) (\<lambda>_. None) [] ?st = Ret (Running ?st)" by simp
  have i: "respBodyResp (st_ctx ?st) = None" "\<not> modelServerStreaming (st_ctx ?st)" "st_body ?st = []" "st_responseBody ?st = None"
    "st_sent ?st = []" by (simp_all add: initial_stream_def newRequestContext_def)
  have h: "\<not> streams example_headers" by (simp add: streams_def)
  have d: "fst (unmarshal_map (\<lambda>_ _. []) None (concat (map (body_Body \<circ> fst) [(?p, example_env)]) @ body_Body ?q)) = Some example_doc"
    by (simp add: example_unmarshal)
  have "usage_ok example_doc" by (simp add: usage_ok_def)
  with buffered_response_same_document [where send = "\<lambda>_. None" and env = example_env and env' = example_env,
      OF refl r i(1-4) h _ _ d] show ?thesis
    unfolding i(5) append.simps list.map prod.case by simp
qed

end
