(* ===== verification/BBR.thy ===== *)
theory BBR
  imports Ext_Proc Epp_Metrics Json_Roundtrip
begin

text \<open>
  pkg/body-based-routing: the external processing server that copies the model of a request
  into a header, and its metrics.

  \<open>streaming\<close> is the flag of the server; an empty \<open>HeadersResponse\<close> or \<open>BodyResponse\<close> is
  one with the default \<open>CommonResponse\<close>. \<open>fmt_v\<close> prints a decoded value as the verb
  \<open>%v\<close> does; it only occurs in the text of an error.
\<close>

subsection \<open>Metrics\<close>

record bbr_metrics =
  successCounter :: nat
  modelNotInBodyCounter :: nat
  modelNotParsedCounter :: nat

definition no_bbr_metrics :: bbr_metrics where
  "no_bbr_metrics = \<lparr>successCounter = 0, modelNotInBodyCounter = 0, modelNotParsedCounter = 0\<rparr>"

definition bbr_collector_names :: "string list" where
  "bbr_collector_names = [''bbr_success_total'', ''bbr_model_not_in_body_total'', ''bbr_model_not_parsed_total'']"

definition BBR_Register :: "bool \<times> string list \<Rightarrow> (bool \<times> string list) go" where
  "BBR_Register st =
     (case st of (done_once, reg) \<Rightarrow>
        if done_once then Ret st
        else go_bind (MustRegister reg bbr_collector_names) (\<lambda>reg'. Ret (True, reg')))"

definition RecordSuccessCounter :: "bbr_metrics \<Rightarrow> bbr_metrics" where
  "RecordSuccessCounter m = m\<lparr>successCounter := successCounter m + 1\<rparr>"

definition RecordModelNotInBodyCounter :: "bbr_metrics \<Rightarrow> bbr_metrics" where
  "RecordModelNotInBodyCounter m = m\<lparr>modelNotInBodyCounter := modelNotInBodyCounter m + 1\<rparr>"

definition RecordModelNotParsedCounter :: "bbr_metrics \<Rightarrow> bbr_metrics" where
  "RecordModelNotParsedCounter m = m\<lparr>modelNotParsedCounter := modelNotParsedCounter m + 1\<rparr>"

subsection \<open>Handlers\<close>

definition modelHeader :: string where "modelHeader = ''X-Gateway-Model-Name''"

definition addStreamedBodyResponse :: "ProcessingResponse list \<Rightarrow> string \<Rightarrow> ProcessingResponse list" where
  "addStreamedBodyResponse responses requestBodyBytes =
     responses @ [mk_response (RespRequestBody (noCommon\<lparr>BodyMutation_field := Some (StreamedResponse requestBodyBytes True)\<rparr>))]"

definition model_header_mutation :: "string \<Rightarrow> CommonResponse" where
  "model_header_mutation modelStr =
     noCommon\<lparr>ClearRouteCache := True, SetHeaders := [\<lparr>hdr_Key = modelHeader, hdr_RawValue = modelStr\<rparr>]\<rparr>"

definition BBR_HandleRequestBody ::
  "bool \<Rightarrow> json_codec \<Rightarrow> (json \<Rightarrow> string) \<Rightarrow> json_map option \<Rightarrow> bbr_metrics \<Rightarrow>
   bbr_metrics \<times> (error + ProcessingResponse list)" where
  "BBR_HandleRequestBody streaming codec fmt_v data mets =
     (case MarshalMap codec data of
        Inl e \<Rightarrow> (mets, Inl (PlainError e))
      | Inr requestBodyBytes \<Rightarrow>
          (case json_get data ''model'' of
             None \<Rightarrow>
               (RecordModelNotInBodyCounter mets,
                Inr (if streaming
                     then addStreamedBodyResponse [mk_response (RespRequestHeaders noCommon)] requestBodyBytes
                     else [mk_response (RespRequestBody noCommon)]))
           | Some modelVal \<Rightarrow>
               (case as_string (Some modelVal) of
                  None \<Rightarrow> (RecordModelNotParsedCounter mets,
                    Inl (PlainError (''the model parameter value '' @ fmt_v modelVal @ '' is not a string'')))
                | Some modelStr \<Rightarrow>
                    (RecordSuccessCounter mets,
                     Inr (if streaming
                          then addStreamedBodyResponse
                                 [mk_response (RespRequestHeaders (model_header_mutation modelStr))] requestBodyBytes
                          else [mk_response (RespRequestBody (model_header_mutation modelStr))])))))"

definition BBR_HandleRequestHeaders :: "ProcessingResponse list" where
  "BBR_HandleRequestHeaders = [mk_response (RespRequestHeaders noCommon)]"

definition BBR_HandleRequestTrailers :: "ProcessingResponse list" where
  "BBR_HandleRequestTrailers = [mk_response RespRequestTrailers]"

definition BBR_HandleResponseHeaders :: "ProcessingResponse list" where
  "BBR_HandleResponseHeaders = [mk_response (RespResponseHeaders noCommon)]"

definition BBR_HandleResponseBody :: "ProcessingResponse list" where
  "BBR_HandleResponseBody = [mk_response (RespResponseBody noCommon)]"

definition BBR_HandleResponseTrailers :: "ProcessingResponse list" where
  \<comment> \<open>no case of \<open>Process\<close> calls it\<close>
  "BBR_HandleResponseTrailers = [mk_response RespResponseTrailers]"

definition processRequestBody ::
  "bool \<Rightarrow> json_codec \<Rightarrow> (json \<Rightarrow> string) \<Rightarrow> HttpBody \<Rightarrow> string \<Rightarrow> bbr_metrics \<Rightarrow>
   (string \<times> bbr_metrics) \<times> (error + ProcessingResponse list)" where
  \<comment> \<open>\<open>streamedBody\<close> is the buffer of the stream\<close>
  "processRequestBody streaming codec fmt_v b streamedBody mets =
     (if streaming then
        (if \<not> body_EndOfStream b then ((streamedBody @ body_Body b, mets), Inr [])
         else case BBR_HandleRequestBody streaming codec fmt_v (fst (UnmarshalMap codec None streamedBody)) mets of
           (mets', r) \<Rightarrow> ((streamedBody, mets'), r))
      else
        (case UnmarshalMap codec None (body_Body b) of
           (requestBody, Some e) \<Rightarrow> ((streamedBody, mets), Inl (PlainError e))
         | (requestBody, None) \<Rightarrow>
             (case BBR_HandleRequestBody streaming codec fmt_v requestBody mets of
                (mets', r) \<Rightarrow> ((streamedBody, mets'), r))))"

subsection \<open>The loop\<close>

datatype bbr_recv = BRecv ProcessingRequest | BRecvEOF | BRecvError error | BCtxDone error

record bbr_state =
  bbr_body :: string
  bbr_sent :: "ProcessingResponse list"
  bbr_mets :: bbr_metrics

datatype bbr_result = BRunning bbr_state | BReturned bbr_state "error option"

definition initial_bbr :: "bbr_metrics \<Rightarrow> bbr_state" where
  "initial_bbr mets = \<lparr>bbr_body = [], bbr_sent = [], bbr_mets = mets\<rparr>"

definition BBR_handle ::
  "bool \<Rightarrow> json_codec \<Rightarrow> (json \<Rightarrow> string) \<Rightarrow> ProcessingRequest \<Rightarrow> bbr_state \<Rightarrow> (bbr_state \<times> (error + ProcessingResponse list)) option" where
  \<comment> \<open>the switch of \<open>Process\<close>; \<open>None\<close> for a request of unknown type\<close>
  "BBR_handle streaming codec fmt_v req st =
     (case req of
        RequestHeaders h \<Rightarrow>
          Some (st, Inr (if streaming \<and> \<not> headers_EndOfStream h then [] else BBR_HandleRequestHeaders))
      | RequestBody b \<Rightarrow>
          (case processRequestBody streaming codec fmt_v b (bbr_body st) (bbr_mets st) of
             ((buf, mets), r) \<Rightarrow> Some (st\<lparr>bbr_body := buf, bbr_mets := mets\<rparr>, r))
      | RequestTrailers \<Rightarrow> Some (st, Inr BBR_HandleRequestTrailers)
      | ResponseHeaders h \<Rightarrow> Some (st, Inr BBR_HandleResponseHeaders)
      | ResponseBody b \<Rightarrow> Some (st, Inr BBR_HandleResponseBody)
      | _ \<Rightarrow> None)"

fun BBR_send_all :: "(nat \<Rightarrow> string option) \<Rightarrow> ProcessingResponse list \<Rightarrow> bbr_state \<Rightarrow> bbr_state \<times> error option" where
  "BBR_send_all send [] st = (st, None)"
| "BBR_send_all send (resp # resps) st =
     (case send (length (bbr_sent st)) of
        Some e \<Rightarrow> (st, Some (StatusError UnknownCode (''failed to send response back to Envoy: '' @ e)))
      | None \<Rightarrow> BBR_send_all send resps (st\<lparr>bbr_sent := bbr_sent st @ [resp]\<rparr>))"

fun BBR_Process ::
  "bool \<Rightarrow> json_codec \<Rightarrow> (json \<Rightarrow> string) \<Rightarrow> (nat \<Rightarrow> string option) \<Rightarrow> bbr_recv list \<Rightarrow> bbr_state \<Rightarrow> bbr_result" where
  "BBR_Process streaming codec fmt_v send [] st = BRunning st"
| "BBR_Process streaming codec fmt_v send (BCtxDone e # rs) st = BReturned st (Some e)"
| "BBR_Process streaming codec fmt_v send (BRecvEOF # rs) st = BReturned st None"
| "BBR_Process streaming codec fmt_v send (BRecvError e # rs) st =
     BReturned st (if e = ContextCanceled then None
       else Some (StatusError UnknownCode (''cannot receive stream request: '' @ error_Error e)))"
| "BBR_Process streaming codec fmt_v send (BRecv req # rs) st =
     (case BBR_handle streaming codec fmt_v req st of
        None \<Rightarrow> BReturned st (Some (StatusError UnknownCode ''unknown request type''))
      | Some (st1, Inl err) \<Rightarrow>
          BReturned st1 (Some (StatusError (status_Code err) (''failed to handle request: '' @ error_Error err)))
      | Some (st1, Inr responses) \<Rightarrow>
          (case BBR_send_all send responses st1 of
             (st2, Some e) \<Rightarrow> BReturned st2 (Some e)
           | (st2, None) \<Rightarrow> BBR_Process streaming codec fmt_v send rs st2))"

subsection \<open>Properties\<close>

lemma BBR_send_all_ok: "(\<And>n. send n = None) \<Longrightarrow> BBR_send_all send resps st = (st\<lparr>bbr_sent := bbr_sent st @ resps\<rparr>, None)"
  by (induction resps arbitrary: st) simp_all

lemma BBR_chunks:
  assumes "\<forall>b\<in>set bs. \<not> body_EndOfStream b"
  shows "BBR_Process True codec fmt_v send (map (\<lambda>b. BRecv (RequestBody b)) bs @ rs) st =
    BBR_Process True codec fmt_v send rs (st\<lparr>bbr_body := bbr_body st @ concat (map body_Body bs)\<rparr>)"
  using assms
  by (induction bs arbitrary: st) (simp_all add: BBR_handle_def processRequestBody_def)

text \<open>
  C36. A streamed request whose document is complete before the chunk that ends the body: in
  however many chunks without end mark the document comes, the server stays silent until the
  chunk with the end mark and then sends two responses, the headers with the document's
  model in \<open>X-Gateway-Model-Name\<close> and bytes that are decoded to the same document, and counts
  one success. Only the chunks without end mark are decoded: whatever bytes the chunk that
  ends the body carries are lost, so a document that reaches into it is not covered.
\<close>

theorem bbr_streamed_request:
  assumes chunks: "\<forall>b\<in>set bs. \<not> body_EndOfStream b" and fin: "body_EndOfStream fin" and h: "\<not> headers_EndOfStream h"
    and doc: "fst (unmarshal_map errtext None (concat (map body_Body bs))) = Some es" "map_of es ''model'' = Some (JString model)"
    and sends: "\<And>n. send n = None"
  shows "\<exists>bytes st. unmarshal_map errtext None bytes = (Some (canon_map es), None) \<and>
    BBR_Process True (go_json errtext) fmt_v send
      (BRecv (RequestHeaders h) # map (\<lambda>b. BRecv (RequestBody b)) bs @ [BRecv (RequestBody fin)]) (initial_bbr mets) = BRunning st \<and>
    bbr_sent st = [mk_response (RespRequestHeaders \<lparr>ClearRouteCache = True,
                      SetHeaders = [\<lparr>hdr_Key = ''X-Gateway-Model-Name'', hdr_RawValue = model\<rparr>], BodyMutation_field = None\<rparr>),
                   mk_response (RespRequestBody \<lparr>ClearRouteCache = False, SetHeaders = [],
                      BodyMutation_field = Some (StreamedResponse bytes True)\<rparr>)] \<and>
    bbr_mets st = mets\<lparr>successCounter := successCounter mets + 1\<rparr>"
proof -
  obtain bytes where "marshal_map errtext (Some es) = Inr bytes" "unmarshal_map errtext None bytes = (Some (canon_map es), None)"
    using go.read_back [OF go.decoded] doc(1) by fastforce
  with assms show ?thesis
    by (intro exI [of _ bytes]) (simp add: BBR_chunks BBR_handle_def processRequestBody_def BBR_HandleRequestBody_def
      json_get_def BBR_send_all_ok initial_bbr_def addStreamedBodyResponse_def model_header_mutation_def modelHeader_def
      noCommon_def RecordSuccessCounter_def)
qed

theorem bbr_streamed_request_witness:
  "\<exists>st. BBR_Process True (go_json (\<lambda>_ _. [])) (\<lambda>_. []) (\<lambda>_. None)
      [BRecv (RequestHeaders \<lparr>Headers = [], headers_EndOfStream = False\<rparr>),
       BRecv (RequestBody \<lparr>body_Body = take 5 example_text, body_EndOfStream = False\<rparr>),
       BRecv (RequestBody \<lparr>body_Body = drop 5 example_text, body_EndOfStream = False\<rparr>),
       BRecv (RequestBody \<lparr>body_Body = [], body_EndOfStream = True\<rparr>)] (initial_bbr no_bbr_metrics) = BRunning st \<and>
    length (bbr_sent st) = 2"
  using bbr_streamed_request [where send = "\<lambda>_. None" and errtext = "\<lambda>_ _. []" and fmt_v = "\<lambda>_. []" and
      bs = "[\<lparr>body_Body = take 5 example_text, body_EndOfStream = False\<rparr>, \<lparr>body_Body = drop 5 example_text, body_EndOfStream = False\<rparr>]" and
      fin = "\<lparr>body_Body = [], body_EndOfStream = True\<rparr>" and h = "\<lparr>Headers = [], headers_EndOfStream = False\<rparr>" and
      mets = no_bbr_metrics and es = "[(''model'', JString ''m'')]" and model = "''m''"]
  by (auto simp del: BBR_Process.simps simp: example_unmarshal)

text \<open>
  C40. A streamed body that comes in one chunk is destroyed: when the chunk that carries the
  document also ends the body, the buffer is empty, decoding it fails, and Envoy is told to
  replace the body by \<^verbatim>\<open>null\<close>, the encoding of a nil map, without the header.
\<close>

theorem bbr_single_chunk_lost:
  assumes fin: "body_EndOfStream fin" and h: "\<not> headers_EndOfStream h" and sends: "\<And>n. send n = None"
  shows "\<exists>st. BBR_Process True (go_json errtext) fmt_v send [BRecv (RequestHeaders h), BRecv (RequestBody fin)] (initial_bbr mets) = BRunning st \<and>
    bbr_sent st = [mk_response (RespRequestHeaders noCommon),
                   mk_response (RespRequestBody (noCommon\<lparr>BodyMutation_field := Some (StreamedResponse ''null'' True)\<rparr>))]"
  using assms
  by (simp add: BBR_handle_def processRequestBody_def BBR_HandleRequestBody_def json_get_def BBR_send_all_ok
      initial_bbr_def addStreamedBodyResponse_def unmarshal_empty marshal_nil)

theorem bbr_single_chunk_lost_witness:
  "\<exists>st. BBR_Process True (go_json (\<lambda>_ _. [])) (\<lambda>_. []) (\<lambda>_. None)
      [BRecv (RequestHeaders \<lparr>Headers = [], headers_EndOfStream = False\<rparr>),
       BRecv (RequestBody \<lparr>body_Body = example_text, body_EndOfStream = True\<rparr>)] (initial_bbr no_bbr_metrics) = BRunning st \<and>
    bbr_sent st = [mk_response (RespRequestHeaders noCommon),
                   mk_response (RespRequestBody (noCommon\<lparr>BodyMutation_field := Some (StreamedResponse ''null'' True)\<rparr>))]"
  by (rule bbr_single_chunk_lost) simp_all

text \<open>
  A buffered request with a model is answered with one response that only adds the
  header: the body goes on untouched.
\<close>

theorem bbr_buffered_request:
  assumes doc: "unmarshal_map errtext None (body_Body b) = (Some es, None)" "map_of es ''model'' = Some (JString model)"
    and sends: "\<And>n. send n = None"
  shows "\<exists>st. BBR_Process False (go_json errtext) fmt_v send [BRecv (RequestHeaders h), BRecv (RequestBody b)] (initial_bbr mets) = BRunning st \<and>
    bbr_sent st = [mk_response (RespRequestHeaders noCommon),
                   mk_response (RespRequestBody \<lparr>ClearRouteCache = True,
                      SetHeaders = [\<lparr>hdr_Key = ''X-Gateway-Model-Name'', hdr_RawValue = model\<rparr>], BodyMutation_field = None\<rparr>)] \<and>
    bbr_mets st = mets\<lparr>successCounter := successCounter mets + 1\<rparr>"
proof -
  obtain bytes where "marshal_map errtext (Some es) = Inr bytes"
    using go.encodes [OF go.decoded_good] doc(1) by fastforce
  with assms show ?thesis
    by (simp add: BBR_handle_def processRequestBody_def BBR_HandleRequestBody_def json_get_def BBR_send_all_ok
      initial_bbr_def BBR_HandleRequestHeaders_def model_header_mutation_def modelHeader_def noCommon_def RecordSuccessCounter_def)
qed

theorem bbr_buffered_request_witness:
  "\<exists>st. BBR_Process False (go_json (\<lambda>_ _. [])) (\<lambda>_. []) (\<lambda>_. None)
      [BRecv (RequestHeaders \<lparr>Headers = [], headers_EndOfStream = False\<rparr>),
       BRecv (RequestBody \<lparr>body_Body = example_text, body_EndOfStream = True\<rparr>)] (initial_bbr no_bbr_metrics) = BRunning st \<and>
    length (bbr_sent st) = 2"
  using bbr_buffered_request [where send = "\<lambda>_. None" and errtext = "\<lambda>_ _. []" and fmt_v = "\<lambda>_. []" and
      b = "\<lparr>body_Body = example_text, body_EndOfStream = True\<rparr>" and h = "\<lparr>Headers = [], headers_EndOfStream = False\<rparr>" and
      mets = no_bbr_metrics and es = "[(''model'', JString ''m'')]" and model = "''m''"]
  by (auto simp del: BBR_Process.simps simp: example_unmarshal)

end
