(* ===== verification/Controllers.thy ===== *)
theory Controllers
  imports Examples
begin

text \<open>
  pkg/epp/controller: the reconcilers that keep the datastore in step with the cluster.
  The API client is a parameter: the outcome of \<open>Get\<close> is a value of \<open>get_result\<close>, \<open>List\<close> is
  the function the datastore takes. A reconciler returns the new store and the error it
  reports (\<open>None\<close> for nil); it may panic.

  \<open>ctrl_step\<close> puts the reconcilers and the refresh loops of the pods together as the steps
  the store makes, a reconciliation at a time (see Pod_Races for overlapping operations on
  pods); the invariant of the store is proved for all its runs. Then: what a
  deleted pool leaves behind, and where the reconcilers panic.
\<close>

datatype 'a get_result = Found 'a | NotFound | GetError string

subsection \<open>pod_reconciler.go\<close>

definition Pod_updateDatastore ::
  "(labels \<Rightarrow> labels \<Rightarrow> bool) \<Rightarrow> datastore \<Rightarrow> corePod \<Rightarrow> datastore go" where
  "Pod_updateDatastore matches ds pod =
     (if \<not> time_IsZero (DeletionTimestamp (pod_meta pod)) then PodDelete ds (pod_nn pod)
      else go_bind (PoolLabelsMatch matches ds (Labels (pod_meta pod))) (\<lambda>match.
             if \<not> match \<or> \<not> podIsReady pod then PodDelete ds (pod_nn pod)
             else Ret (fst (PodUpdateOrAddIfNotExist ds pod))))"

definition Pod_Reconcile ::
  "(labels \<Rightarrow> labels \<Rightarrow> bool) \<Rightarrow> datastore \<Rightarrow> NamespacedName \<Rightarrow> corePod get_result \<Rightarrow>
   (datastore \<times> error option) go" where
  "Pod_Reconcile matches ds nn got =
     (case PoolGet ds of
        Inl err \<Rightarrow> Ret (ds, None)
      | Inr pool \<Rightarrow>
          (case got of
             NotFound \<Rightarrow> go_bind (PodDelete ds nn) (\<lambda>ds'. Ret (ds', None))
           | GetError e \<Rightarrow> Ret (ds, Some (PlainError e))
           | Found pod \<Rightarrow> go_bind (Pod_updateDatastore matches ds pod) (\<lambda>ds'. Ret (ds', None))))"

subsection \<open>inferencepool_reconciler.go\<close>

definition DeepEqual_labels :: "labels \<Rightarrow> labels \<Rightarrow> bool" where
  \<comment> \<open>\<open>reflect.DeepEqual\<close> on two selectors, a nil map taken for an empty one\<close>
  "DeepEqual_labels a b \<longleftrightarrow> list_all (\<lambda>k. map_of a k = map_of b k) (keys a @ keys b)"

definition Pool_updateDatastore ::
  "(labels \<Rightarrow> string \<Rightarrow> string + corePod list) \<Rightarrow> datastore \<Rightarrow> InferencePool \<Rightarrow> datastore go" where
  "Pool_updateDatastore listPods ds newPool =
     (let old = PoolGet ds; ds1 = PoolSet ds (Some newPool) in
      case old of
        Inl err \<Rightarrow> PodResyncAll listPods ds1 newPool
      | Inr oldPool \<Rightarrow>
          if \<not> DeepEqual_labels (Selector (pool_Spec newPool)) (Selector (pool_Spec oldPool))
          then PodResyncAll listPods ds1 newPool else Ret ds1)"

definition Pool_Reconcile ::
  "(labels \<Rightarrow> string \<Rightarrow> string + corePod list) \<Rightarrow> datastore \<Rightarrow> InferencePool get_result \<Rightarrow>
   (datastore \<times> error option) go" where
  "Pool_Reconcile listPods ds got =
     (case got of
        NotFound \<Rightarrow> Ret (Clear ds, None)
      | GetError e \<Rightarrow> Ret (ds, Some (PlainError e))
      | Found infPool \<Rightarrow>
          if \<not> time_IsZero (DeletionTimestamp (pool_meta infPool)) then Ret (Clear ds, None)
          else go_bind (Pool_updateDatastore listPods ds infPool) (\<lambda>ds'. Ret (ds', None)))"

subsection \<open>inferencemodel_reconciler.go\<close>

definition handleModelDeleted ::
  "(string \<Rightarrow> string \<Rightarrow> string + InferenceModel list) \<Rightarrow> datastore \<Rightarrow> NamespacedName \<Rightarrow>
   (datastore \<times> error option) go" where
  "handleModelDeleted listModels ds nn =
     (case ModelDelete ds nn of
        (ds1, None) \<Rightarrow> Ret (ds1, None)
      | (ds1, Some existing) \<Rightarrow>
          go_bind (ModelResync listModels ds1 (ModelName (model_Spec existing))) (\<lambda>(ds2, res).
            case res of Inl err \<Rightarrow> Ret (ds2, Some err) | Inr updated \<Rightarrow> Ret (ds2, None)))"

definition Model_Reconcile ::
  "(string \<Rightarrow> string \<Rightarrow> string + InferenceModel list) \<Rightarrow> string \<Rightarrow> datastore \<Rightarrow> NamespacedName \<Rightarrow>
   InferenceModel get_result \<Rightarrow> (datastore \<times> error option) go" where
  \<comment> \<open>\<open>poolName\<close> is the name in the reconciler's \<open>PoolNamespacedName\<close>\<close>
  "Model_Reconcile listModels poolName ds nn got =
     (case got of
        GetError e \<Rightarrow> Ret (ds, Some (PlainError e))
      | NotFound \<Rightarrow> handleModelDeleted listModels ds nn
      | Found infModel \<Rightarrow>
          if \<not> time_IsZero (DeletionTimestamp (model_meta infModel)) \<or>
             ref_Name (PoolRef (model_Spec infModel)) \<noteq> poolName
          then handleModelDeleted listModels ds nn
          else Ret (fst (ModelSetIfOlder ds infModel), None))"

definition indexInferenceModelsByModelName :: "InferenceModel option \<Rightarrow> string list" where
  \<comment> \<open>\<open>None\<close> stands for an object of another type\<close>
  "indexInferenceModelsByModelName obj = (case obj of None \<Rightarrow> [] | Some m \<Rightarrow> [ModelName (model_Spec m)])"

definition eventPredicate :: "string \<Rightarrow> InferenceModel \<Rightarrow> bool" where
  "eventPredicate poolName m \<longleftrightarrow> ref_Name (PoolRef (model_Spec m)) = poolName"

datatype model_event =
    CreateEvent InferenceModel
  | UpdateEvent InferenceModel InferenceModel
  | DeleteEvent InferenceModel
  | GenericEvent InferenceModel

fun event_filter :: "string \<Rightarrow> model_event \<Rightarrow> bool" where
  \<comment> \<open>the predicates of \<open>SetupWithManager\<close>\<close>
  "event_filter poolName (CreateEvent m) = eventPredicate poolName m"
| "event_filter poolName (UpdateEvent old new) = (eventPredicate poolName old \<or> eventPredicate poolName new)"
| "event_filter poolName (DeleteEvent m) = eventPredicate poolName m"
| "event_filter poolName (GenericEvent m) = eventPredicate poolName m"

subsection \<open>What a reconciliation does to the pods\<close>

definition in_pool :: "(labels \<Rightarrow> labels \<Rightarrow> bool) \<Rightarrow> InferencePool \<Rightarrow> corePod \<Rightarrow> bool" where
  \<comment> \<open>the pod should be in the datastore\<close>
  "in_pool matches pool pod \<longleftrightarrow> time_IsZero (DeletionTimestamp (pod_meta pod)) \<and>
     selectorFromInferencePoolSelector matches (Selector (pool_Spec pool)) (Labels (pod_meta pod)) \<and> podIsReady pod"

lemma Pod_updateDatastore_cases:
  assumes "ds_pool ds = Some pool"
  shows "Pod_updateDatastore matches ds pod =
    (if in_pool matches pool pod then Ret (fst (PodUpdateOrAddIfNotExist ds pod)) else PodDelete ds (pod_nn pod))"
  using assms by (auto simp: Pod_updateDatastore_def PoolLabelsMatch_def in_pool_def)

lemma PodDelete_frame:
  "PodDelete ds nn = Ret ds' \<Longrightarrow> ds_pool ds' = ds_pool ds \<and> ds_models ds' = ds_models ds"
  by (auto simp: PodDelete_def Let_def go_simps split: option.splits)

lemma Pod_updateDatastore_spec:
  assumes wf: "wf_pods ds" and pool: "ds_pool ds = Some pool"
  shows "\<exists>ds'. Pod_updateDatastore matches ds pod = Ret ds' \<and> wf_pods ds' \<and>
    (loops_tracked ds \<longrightarrow> loops_tracked ds') \<and> ds_pool ds' = ds_pool ds \<and> ds_models ds' = ds_models ds \<and>
    PodLookup ds' = (PodLookup ds)(pod_nn pod :=
      if in_pool matches pool pod then Some (pod_upsert (PodLookup ds (pod_nn pod)) pod) else None)"
proof (cases "in_pool matches pool pod")
  case True
  let ?u = "PodUpdateOrAddIfNotExist ds pod"
  have r: "Pod_updateDatastore matches ds pod = Ret (fst ?u)"
    using True Pod_updateDatastore_cases [OF pool] by simp
  note spec = PodUpdateOrAdd_spec [OF wf prod.collapse [symmetric], of pod]
  show ?thesis
    using r spec(1,2,3) PodUpdate_frame [of ds pod] True by (intro exI [of _ "fst ?u"]) simp
next
  case False
  then have "Pod_updateDatastore matches ds pod = PodDelete ds (pod_nn pod)"
    using Pod_updateDatastore_cases [OF pool] by simp
  with PodDelete_spec [OF wf, of "pod_nn pod"] False show ?thesis by auto
qed

lemma PodLookup_PoolSet [simp]: "PodLookup (PoolSet ds p) = PodLookup ds"
  by (simp add: PodLookup_def PoolSet_def fun_eq_iff)

lemma PoolSet_simps [simp]:
  "wf_pods (PoolSet ds p) \<longleftrightarrow> wf_pods ds" "loops_tracked (PoolSet ds p) \<longleftrightarrow> loops_tracked ds"
  "ds_pool (PoolSet ds p) = p" "ds_models (PoolSet ds p) = ds_models ds"
  by (simp_all add: PoolSet_def wf_pods_def loops_tracked_def)

lemma PodResyncAll_total:
  assumes "wf_pods ds"
  shows "\<exists>ds'. PodResyncAll listPods ds p = Ret ds' \<and> wf_pods ds' \<and> (loops_tracked ds \<longrightarrow> loops_tracked ds') \<and>
    ds_pool ds' = ds_pool ds \<and> ds_models ds' = ds_models ds"
proof (cases "selectorFromInferencePoolSelector listPods (Selector (pool_Spec p)) (Namespace (pool_meta p))")
  case (Inl e)
  with assms show ?thesis by (simp add: PodResyncAll_def)
next
  case (Inr items)
  from PodResyncAll_spec [OF assms Inr] show ?thesis by blast
qed

lemma Pool_updateDatastore_total:
  assumes "wf_pods ds"
  shows "\<exists>ds'. Pool_updateDatastore listPods ds p = Ret ds' \<and> wf_pods ds' \<and> (loops_tracked ds \<longrightarrow> loops_tracked ds') \<and>
    ds_pool ds' = Some p \<and> ds_models ds' = ds_models ds"
proof -
  from PodResyncAll_total [of "PoolSet ds (Some p)" listPods p] assms
  obtain ds' where "PodResyncAll listPods (PoolSet ds (Some p)) p = Ret ds'" "wf_pods ds'"
    "loops_tracked ds \<longrightarrow> loops_tracked ds'" "ds_pool ds' = Some p" "ds_models ds' = ds_models ds" by auto
  with assms show ?thesis by (auto simp: Pool_updateDatastore_def Let_def split: sum.splits)
qed

lemma Clear_wf: "wf_ds (Clear ds)"
  by (simp add: Clear_def wf_defs)

subsection \<open>What a reconciliation does to the models\<close>

lemma ModelResync_result:
  assumes "ModelResync listModels ds name = Ret (ds', r)"
  obtains (same) "ds' = ds" | (stored) m p where "ds' = ds\<lparr>ds_models := AList.update name m (ds_models ds)\<rparr>"
    "ds_pool ds = Some p" "eligible p name m" "r = Inr True"
proof -
  from assms obtain p where p: "ds_pool ds = Some p" by (auto simp: ModelResync_def split: option.splits)
  show thesis
  proof (cases "listModels name (Namespace (pool_meta p))")
    case (Inl e)
    with assms p same show ?thesis by (auto simp: ModelResync_def)
  next
    case (Inr items)
    show ?thesis
    proof (cases "oldest_loop p name items None")
      case None
      with assms p Inr same show ?thesis by (auto simp: ModelResync_def split: if_splits)
    next
      case (Some m)
      with oldest_loop_spec [where p = p and n = name and ms = items and old = None] have "eligible p name m" by auto
      with assms p Inr Some same stored show ?thesis by (auto simp: ModelResync_def split: if_splits)
    qed
  qed
qed

lemma handleModelDeleted_wf:
  assumes "wf_models ds" "handleModelDeleted listModels ds nn = Ret (ds', e)"
  shows "wf_models ds' \<and> ds_pods ds' = ds_pods ds \<and> ds_heap ds' = ds_heap ds \<and> ds_pool ds' = ds_pool ds"
proof -
  obtain ds1 r where d: "ModelDelete ds nn = (ds1, r)" by fastforce
  then have ds1: "wf_models ds1 \<and> ds_pods ds1 = ds_pods ds \<and> ds_heap ds1 = ds_heap ds \<and> ds_pool ds1 = ds_pool ds"
    using assms(1) by (cases rule: ModelDelete_cases) (auto intro: wf_models_delete)
  show ?thesis
  proof (cases r)
    case None
    with assms(2) d ds1 show ?thesis by (simp add: handleModelDeleted_def)
  next
    case (Some m)
    with assms(2) d obtain ds2 res where res: "ModelResync listModels ds1 (ModelName (model_Spec m)) = Ret (ds2, res)"
      by (auto simp: handleModelDeleted_def go_simps)
    with Some assms(2) d have "ds2 = ds'" by (auto simp: handleModelDeleted_def split: sum.splits)
    with res have "ModelResync listModels ds1 (ModelName (model_Spec m)) = Ret (ds', res)" by simp
    then show ?thesis
      using ds1 by (cases rule: ModelResync_result) (auto simp: eligible_def intro: wf_models_update)
  qed
qed

lemma Model_Reconcile_wf:
  assumes "wf_models ds" "Model_Reconcile listModels poolName ds nn got = Ret (ds', e)"
  shows "wf_models ds' \<and> ds_pods ds' = ds_pods ds \<and> ds_heap ds' = ds_heap ds \<and> ds_pool ds' = ds_pool ds"
proof (cases "\<exists>m. got = Found m \<and> ds' = fst (ModelSetIfOlder ds m)")
  case True
  then obtain m where m: "ds' = fst (ModelSetIfOlder ds m)" by blast
  obtain ds1 ok where u: "ModelSetIfOlder ds m = (ds1, ok)" by fastforce
  then show ?thesis
    using m ds_models.set_inv [OF assms(1), of m] by (cases rule: ModelSetIfOlder_cases) (simp_all add: u)
next
  case False
  with assms handleModelDeleted_wf show ?thesis
    by (auto simp: Model_Reconcile_def split: get_result.splits if_splits)
qed

subsection \<open>Runs of the controllers\<close>

datatype ctrl_event =
    PodEvent NamespacedName "corePod get_result"
  | PoolEvent "InferencePool get_result"
  | ModelEvent NamespacedName "InferenceModel get_result"
  | RefreshEvent nat

fun deletes_pool :: "ctrl_event \<Rightarrow> bool" where
  "deletes_pool (PoolEvent NotFound) = True"
| "deletes_pool (PoolEvent (Found p)) = (\<not> time_IsZero (DeletionTimestamp (pool_meta p)))"
| "deletes_pool _ = False"

inductive ctrl_step ::
  "(Pod \<Rightarrow> Metrics \<Rightarrow> 32 word \<Rightarrow> Metrics option \<times> metric_error list) \<Rightarrow> (labels \<Rightarrow> labels \<Rightarrow> bool) \<Rightarrow> string \<Rightarrow>
   ctrl_event \<Rightarrow> datastore \<Rightarrow> datastore \<Rightarrow> bool" for fetch matches poolName where
  pod: "Pod_Reconcile matches ds nn got = Ret (ds', e) \<Longrightarrow> ctrl_step fetch matches poolName (PodEvent nn got) ds ds'"
| pool: "Pool_Reconcile listPods ds got = Ret (ds', e) \<Longrightarrow> ctrl_step fetch matches poolName (PoolEvent got) ds ds'"
| model: "Model_Reconcile listModels poolName ds nn got = Ret (ds', e) \<Longrightarrow>
    ctrl_step fetch matches poolName (ModelEvent nn got) ds ds'"
| refresh: "a < length (ds_heap ds) \<Longrightarrow> \<not> pm_done (ds_heap ds ! a) \<Longrightarrow>
    ctrl_step fetch matches poolName (RefreshEvent a) ds
      (ds\<lparr>ds_heap := (ds_heap ds)[a := fst (refreshMetrics fetch (PoolGet ds) now (ds_heap ds ! a))]\<rparr>)"

inductive_cases ctrl_step_cases: "ctrl_step fetch matches poolName ev ds ds'"

lemma heap_frame:
  assumes "a < length (ds_heap ds)" "pm_pod pm = pm_pod (ds_heap ds ! a)"
    "pm_started pm = pm_started (ds_heap ds ! a)" "pm_done pm = pm_done (ds_heap ds ! a)"
  shows "wf_pods (ds\<lparr>ds_heap := (ds_heap ds)[a := pm]\<rparr>) \<longleftrightarrow> wf_pods ds"
    "loops_tracked (ds\<lparr>ds_heap := (ds_heap ds)[a := pm]\<rparr>) \<longleftrightarrow> loops_tracked ds"
proof -
  have same: "pm_nn ((ds_heap ds)[a := pm] ! b) = pm_nn (ds_heap ds ! b)"
    "pm_started ((ds_heap ds)[a := pm] ! b) = pm_started (ds_heap ds ! b)"
    "pm_done ((ds_heap ds)[a := pm] ! b) = pm_done (ds_heap ds ! b)" for b
    using assms by (cases "b = a"; simp)+
  show "wf_pods (ds\<lparr>ds_heap := (ds_heap ds)[a := pm]\<rparr>) \<longleftrightarrow> wf_pods ds"
    "loops_tracked (ds\<lparr>ds_heap := (ds_heap ds)[a := pm]\<rparr>) \<longleftrightarrow> loops_tracked ds"
    by (simp_all add: wf_pods_def loops_tracked_def same)
qed

lemma Pod_Reconcile_total:
  assumes "wf_pods ds"
  shows "\<exists>ds' e. Pod_Reconcile matches ds nn got = Ret (ds', e) \<and> wf_pods ds' \<and>
    (loops_tracked ds \<longrightarrow> loops_tracked ds') \<and> ds_pool ds' = ds_pool ds \<and> ds_models ds' = ds_models ds"
proof (cases "ds_pool ds")
  case None
  then have "PoolGet ds = Inl errPoolNotSynced" by (simp add: PoolGet_None)
  with assms show ?thesis by (simp add: Pod_Reconcile_def)
next
  case (Some pool)
  then have p: "PoolGet ds = Inr pool" by (simp add: PoolGet_Some)
  show ?thesis
  proof (cases got)
    case (Found pod)
    with p Pod_updateDatastore_spec [OF assms Some, of matches pod] show ?thesis
      by (auto simp: Pod_Reconcile_def)
  next
    case NotFound
    with p PodDelete_spec [OF assms, of nn] show ?thesis by (auto simp: Pod_Reconcile_def)
  qed (use p assms in \<open>simp add: Pod_Reconcile_def\<close>)
qed

lemma Pool_Reconcile_total:
  assumes "wf_ds ds"
  shows "\<exists>ds' e. Pool_Reconcile listPods ds got = Ret (ds', e) \<and> wf_ds ds' \<and>
    (\<not> deletes_pool (PoolEvent got) \<and> loops_tracked ds \<longrightarrow> loops_tracked ds')"
proof (cases got)
  case (Found p)
  show ?thesis
  proof (cases "time_IsZero (DeletionTimestamp (pool_meta p))")
    case True
    from Pool_updateDatastore_total [of ds listPods p] assms obtain ds' where
      "Pool_updateDatastore listPods ds p = Ret ds'" "wf_pods ds'" "loops_tracked ds \<longrightarrow> loops_tracked ds'"
      "ds_models ds' = ds_models ds" by (auto simp: wf_ds_def)
    with Found True assms show ?thesis by (simp add: Pool_Reconcile_def wf_ds_def wf_models_def)
  qed (use Found in \<open>simp add: Pool_Reconcile_def Clear_wf\<close>)
qed (use assms in \<open>simp_all add: Pool_Reconcile_def Clear_wf\<close>)

lemma ctrl_step_wf:
  assumes "wf_ds ds" "ctrl_step fetch matches poolName ev ds ds'"
  shows "wf_ds ds' \<and> (\<not> deletes_pool ev \<and> loops_tracked ds \<longrightarrow> loops_tracked ds')"
  using assms(2)
proof (cases rule: ctrl_step.cases)
  case (pod nn got e)
  with assms(1) Pod_Reconcile_total [of ds matches nn got] show ?thesis
    by (auto simp: wf_ds_def wf_models_def)
next
  case (pool listPods got e)
  with Pool_Reconcile_total [OF assms(1), of listPods got] show ?thesis by auto
next
  case (model listModels nn got e)
  with assms(1) Model_Reconcile_wf [of ds listModels poolName nn got ds' e] show ?thesis
    by (auto simp: wf_ds_def wf_pods_def loops_tracked_def)
next
  case (refresh a now)
  note f = heap_frame [OF refresh(3) refreshMetrics_frame(1-3) [of fetch "PoolGet ds" now]]
  show ?thesis using assms(1) unfolding refresh(2) wf_ds_def f wf_models_def by simp
qed

interpretation store_invariant: step_invariant "ctrl_step fetch matches poolName" wf_ds "\<lambda>_. True"
  for fetch matches poolName
  using ctrl_step_wf by unfold_locales blast

interpretation loop_invariant: step_invariant "ctrl_step fetch matches poolName"
  "\<lambda>ds. wf_ds ds \<and> loops_tracked ds" "\<lambda>ev. \<not> deletes_pool ev" for fetch matches poolName
  using ctrl_step_wf by unfold_locales blast

subsection \<open>Properties\<close>

text \<open>
  C8. Whatever the reconcilers and the refresh loops do, in any order, from the empty store:
  every model is stored under its own model name, and every pod under its own name, in an
  object of its own whose refresh loop was started and not stopped.
\<close>

theorem controllers_keep_store:
  assumes "run (ctrl_step fetch matches poolName) NewDatastore evs ds"
  shows "wf_ds ds"
  using store_invariant.run_keeps [OF assms] wf_NewDatastore by simp

definition example_matches :: "labels \<Rightarrow> labels \<Rightarrow> bool" where
  "example_matches sel ls \<longleftrightarrow> set sel \<subseteq> set ls"

definition example_synced :: datastore where
  "example_synced = fst (PodUpdateOrAddIfNotExist (PoolSet NewDatastore (Some example_pool)) (example_pod ''a'' ''10.0.0.1''))"

lemma example_run:
  "run (ctrl_step fetch example_matches ''pool'') NewDatastore [PoolEvent (Found example_pool)] example_synced"
proof -
  have "Pool_Reconcile (\<lambda>_ _. Inr [example_pod ''a'' ''10.0.0.1'']) NewDatastore (Found example_pool) =
      Ret (example_synced, None)"
    by (simp add: Pool_Reconcile_def example_pool_def Pool_updateDatastore_def PoolGet_def PoolHasSynced_def
        NewDatastore_def PodResyncAll_def PoolSet_def selectorFromInferencePoolSelector_def time_IsZero_def
        example_pod_def example_synced_def podIsReady_def PodUpdateOrAddIfNotExist_def)
  then have "ctrl_step fetch example_matches ''pool'' (PoolEvent (Found example_pool)) NewDatastore example_synced"
    by (rule ctrl_step.pool)
  then show ?thesis by (rule run_cons) (rule run_nil)
qed

lemma example_synced_simps:
  "ds_heap example_synced = [NewPodMetrics (example_pod ''a'' ''10.0.0.1'')]"
  "ds_pods example_synced = [(pod_nn (example_pod ''a'' ''10.0.0.1''), 0)]"
  by (simp_all add: example_synced_def PodUpdateOrAddIfNotExist_def PoolSet_def NewDatastore_def)

theorem controllers_keep_store_witness: "wf_ds example_synced"
  by (rule controllers_keep_store [OF example_run])

text \<open>
  As long as the pool is not deleted and one reconciler runs at a time, no refresh loop is
  leaked: every loop that was started and not stopped belongs to a stored pod. (Pod_Races
  shows what is left of this when the operations on the pods overlap.)
\<close>

lemma controllers_keep_loops:
  assumes "run (ctrl_step fetch matches poolName) NewDatastore evs ds" "\<forall>ev\<in>set evs. \<not> deletes_pool ev"
    and "a < length (ds_heap ds)" "pm_started (ds_heap ds ! a)" "\<not> pm_done (ds_heap ds ! a)"
  shows "\<exists>nn. (nn, a) \<in> set (ds_pods ds)"
proof -
  have "loops_tracked ds" using loop_invariant.run_keeps [OF assms(1) _ assms(2)] wf_NewDatastore by blast
  with assms(3-5) show ?thesis by (fastforce simp: loops_tracked_def)
qed

subsection \<open>Loops nobody can stop\<close>

definition abandoned :: "nat \<Rightarrow> datastore \<Rightarrow> bool" where
  \<comment> \<open>the refresh loop of the object runs, and the store has no entry for the object\<close>
  "abandoned a ds \<longleftrightarrow> a < length (ds_heap ds) \<and> pm_started (ds_heap ds ! a) \<and> \<not> pm_done (ds_heap ds ! a) \<and>
     a \<notin> snd ` set (ds_pods ds)"

lemma abandoned_add:
  assumes "abandoned a ds"
  shows "abandoned a (fst (PodUpdateOrAddIfNotExist ds p))"
proof (cases "map_of (ds_pods ds) (pod_nn p)")
  case None
  then have "pod_nn p \<notin> fst ` set (ds_pods ds)" by (simp add: map_of_eq_None_iff)
  with assms None show ?thesis
    by (auto simp: abandoned_def PodUpdateOrAddIfNotExist_def Let_def nth_append nth_list_update update_new)
next
  case (Some b)
  then have "b \<in> snd ` set (ds_pods ds)" by (force dest: map_of_SomeD)
  with assms have "b \<noteq> a" by (auto simp: abandoned_def)
  with assms Some show ?thesis by (simp add: abandoned_def PodUpdateOrAddIfNotExist_def)
qed

lemma abandoned_delete:
  assumes "abandoned a ds" "PodDelete ds nn = Ret ds'"
  shows "abandoned a ds'"
proof (cases "map_of (ds_pods ds) nn")
  case (Some b)
  then have "b \<in> snd ` set (ds_pods ds)" by (force dest: map_of_SomeD)
  with assms(1) have "b \<noteq> a" by (auto simp: abandoned_def)
  moreover have "a \<notin> snd ` set (AList.delete nn (ds_pods ds))" using assms(1) by (force simp: abandoned_def set_delete)
  ultimately show ?thesis using assms Some
    by (force simp: abandoned_def PodDelete_def Let_def StopRefreshLoop_def split: if_split_asm)
qed (use assms in \<open>simp add: PodDelete_def\<close>)

lemma abandoned_resync_add: "abandoned a ds \<Longrightarrow> abandoned a (fst (resync_add ps ds act))"
  by (induction ps ds act rule: resync_add.induct) (simp_all add: abandoned_add)

lemma abandoned_resync_delete: "abandoned a ds \<Longrightarrow> resync_delete as ds act = Ret ds' \<Longrightarrow> abandoned a ds'"
proof (induction as ds act rule: resync_delete.induct)
  case (2 b as ds act)
  then show ?case by (auto simp: go_simps dest: abandoned_delete split: if_split_asm)
qed simp

lemma abandoned_PodResyncAll:
  assumes "abandoned a ds" "PodResyncAll listPods ds p = Ret ds'"
  shows "abandoned a ds'"
proof (cases "selectorFromInferencePoolSelector listPods (Selector (pool_Spec p)) (Namespace (pool_meta p))")
  case (Inr items)
  obtain ds1 act where r: "resync_add items ds [] = (ds1, act)" by fastforce
  have "abandoned a ds1" using abandoned_resync_add [OF assms(1), of items "[]"] r by simp
  with assms(2) Inr r show ?thesis by (auto simp: PodResyncAll_def intro: abandoned_resync_delete)
qed (use assms in \<open>simp add: PodResyncAll_def\<close>)

lemma abandoned_pool:
  assumes "abandoned a ds" "Pool_Reconcile listPods ds got = Ret (ds', e)"
  shows "abandoned a ds'"
proof -
  have set: "abandoned a (PoolSet ds x)" for x using assms(1) by (simp add: PoolSet_def abandoned_def)
  have clear: "abandoned a (Clear ds)" using assms(1) by (simp add: Clear_def abandoned_def)
  have "abandoned a ds1" if "Pool_updateDatastore listPods ds p = Ret ds1" for p ds1
    using that set [of "Some p"]
    by (auto simp: Pool_updateDatastore_def Let_def split: sum.split_asm if_split_asm dest: abandoned_PodResyncAll)
  with assms clear show ?thesis by (auto simp: Pool_Reconcile_def go_simps split: get_result.split_asm if_split_asm)
qed

lemma abandoned_step:
  assumes "wf_ds ds \<and> abandoned a ds" "ctrl_step fetch matches poolName ev ds ds'"
  shows "wf_ds ds' \<and> abandoned a ds'"
proof -
  have "abandoned a ds'" using assms(2)
  proof (cases rule: ctrl_step.cases)
    case (pod nn got e)
    with assms(1) show ?thesis
      by (auto simp: Pod_Reconcile_def Pod_updateDatastore_def go_simps abandoned_add
          split: sum.split_asm get_result.split_asm if_split_asm dest: abandoned_delete)
  next
    case (pool listPods got e)
    with assms(1) abandoned_pool show ?thesis by blast
  next
    case (model listModels nn got e)
    with assms(1) Model_Reconcile_wf [of ds listModels poolName nn got ds' e] show ?thesis
      by (auto simp: wf_ds_def abandoned_def)
  next
    case (refresh b now)
    then show ?thesis using assms(1) refreshMetrics_frame(2,3) [of fetch "PoolGet ds" now "ds_heap ds ! b"]
      by (cases "b = a") (auto simp: abandoned_def)
  qed
  with ctrl_step_wf assms show ?thesis by blast
qed

interpretation abandoned_invariant: step_invariant "ctrl_step fetch matches poolName"
  "\<lambda>ds. wf_ds ds \<and> abandoned a ds" "\<lambda>_. True" for fetch matches poolName a
  using abandoned_step by unfold_locales blast

lemma abandoned_for_ever:
  assumes "wf_ds ds" "abandoned a ds" "run (ctrl_step fetch matches poolName) ds evs ds'"
  shows "abandoned a ds' \<and> (\<exists>ds''. ctrl_step fetch matches poolName (RefreshEvent a) ds' ds'')"
proof -
  from abandoned_invariant.run_keeps [OF assms(3)] assms(1,2) have "abandoned a ds'" by simp
  moreover from this have "a < length (ds_heap ds')" "\<not> pm_done (ds_heap ds' ! a)" by (simp_all add: abandoned_def)
  ultimately show ?thesis using ctrl_step.refresh [of a ds' fetch matches poolName] by blast
qed

text \<open>
  C39. Deleting the pool leaks: \<open>Clear\<close> empties the pod map without stopping the loops. After
  the deletion is reconciled the store has no pod, and the loop of every pod it had goes on
  for ever (until the process ends): in every later state, whatever is reconciled, also when
  the pool and the pod come back, no entry of the store leads to its object, so that nothing
  stops it, and it can do another round.
\<close>

theorem pool_deletion_leaks:
  assumes "wf_ds ds" "(nn, a) \<in> set (ds_pods ds)"
  shows "\<exists>ds'. Pool_Reconcile listPods ds NotFound = Ret (ds', None) \<and> PodGetAll ds' = [] \<and>
    (\<forall>evs ds''. run (ctrl_step fetch matches poolName) ds' evs ds'' \<longrightarrow>
      a < length (ds_heap ds'') \<and> pm_started (ds_heap ds'' ! a) \<and> \<not> pm_done (ds_heap ds'' ! a) \<and>
      a \<notin> snd ` set (ds_pods ds'') \<and> (\<exists>ds3. ctrl_step fetch matches poolName (RefreshEvent a) ds'' ds3))"
proof -
  have a: "abandoned a (Clear ds)"
    using wf_pods_entry [of ds nn a] assms by (simp add: wf_ds_def Clear_def abandoned_def)
  show ?thesis
    using abandoned_for_ever [OF Clear_wf a, of fetch matches poolName] unfolding abandoned_def
    by (intro exI [of _ "Clear ds"]) (auto simp: Pool_Reconcile_def Clear_def PodGetAll_def PodList_def)
qed

theorem pool_deletion_leaks_witness:
  "\<exists>ds' ds''. Pool_Reconcile (\<lambda>_ _. Inr []) example_pool_ds NotFound = Ret (ds', None) \<and>
     run (ctrl_step (\<lambda>_ m _. (Some m, [])) example_matches ''pool'') ds' [PoolEvent (Found example_pool)] ds'' \<and>
     pm_started (ds_heap ds'' ! 0) \<and> \<not> pm_done (ds_heap ds'' ! 0) \<and> 0 \<notin> snd ` set (ds_pods ds'')"
proof -
  have e: "(pod_nn (example_pod ''a'' ''10.0.0.1''), 0) \<in> set (ds_pods example_pool_ds)" by (simp add: example_pool_ds_simps)
  have wf: "wf_ds (Clear example_pool_ds)" by (rule Clear_wf)
  from Pool_Reconcile_total [OF wf, of "\<lambda>_ _. Inr [example_pod ''a'' ''10.0.0.1'']" "Found example_pool"] obtain ds'' err where
    "Pool_Reconcile (\<lambda>_ _. Inr [example_pod ''a'' ''10.0.0.1'']) (Clear example_pool_ds) (Found example_pool) = Ret (ds'', err)" by blast
  then have r: "run (ctrl_step (\<lambda>_ m _. (Some m, [])) example_matches ''pool'') (Clear example_pool_ds) [PoolEvent (Found example_pool)] ds''"
    by (blast intro: run_cons run_nil ctrl_step.pool)
  have c: "Pool_Reconcile (\<lambda>_ _. Inr []) example_pool_ds NotFound = Ret (Clear example_pool_ds, None)" by (simp add: Pool_Reconcile_def)
  with pool_deletion_leaks [OF example_wf(2) e, where fetch = "\<lambda>_ m _. (Some m, [])" and matches = example_matches and
      poolName = "''pool''" and listPods = "\<lambda>_ _. Inr []"] r
  have "pm_started (ds_heap ds'' ! 0) \<and> \<not> pm_done (ds_heap ds'' ! 0) \<and> 0 \<notin> snd ` set (ds_pods ds'')" by auto
  with c r show ?thesis by blast
qed

lemma Pod_Reconcile_lookup:
  assumes "wf_pods ds" "ds_pool ds = Some pool" "\<And>pod. got = Found pod \<Longrightarrow> pod_nn pod = nn" "\<And>e. got \<noteq> GetError e"
  shows "\<exists>ds'. Pod_Reconcile matches ds nn got = Ret (ds', None) \<and> wf_pods ds' \<and>
    ds_pool ds' = ds_pool ds \<and> ds_models ds' = ds_models ds \<and>
    PodLookup ds' = (PodLookup ds)(nn :=
      (case got of
         Found pod \<Rightarrow> if in_pool matches pool pod then Some (pod_upsert (PodLookup ds nn) pod) else None
       | _ \<Rightarrow> None))"
proof -
  have p: "PoolGet ds = Inr pool" using assms(2) by (simp add: PoolGet_Some)
  show ?thesis
  proof (cases got)
    case (Found pod)
    with p assms(3) Pod_updateDatastore_spec [OF assms(1,2), of matches pod] show ?thesis
      by (auto simp: Pod_Reconcile_def)
  next
    case NotFound
    with p PodDelete_spec [OF assms(1), of nn] show ?thesis by (auto simp: Pod_Reconcile_def)
  qed (use assms(4) in simp)
qed

text \<open>
  C17. The pod reconciler: with a pool, the outcome of reconciling a pod is that it is stored
  exactly when it exists, is not being deleted, carries the labels of the pool and is
  ready; then it has the address of the reconciled object and keeps the metrics it had. No
  other pod changes, and nothing panics.
\<close>

theorem Pod_Reconcile_syncs:
  assumes "wf_pods ds" "ds_pool ds = Some pool" "\<And>pod. got = Found pod \<Longrightarrow> pod_nn pod = nn" "\<And>e. got \<noteq> GetError e"
  shows "\<exists>ds'. Pod_Reconcile matches ds nn got = Ret (ds', None) \<and> wf_pods ds' \<and>
    PodLookup ds' = (PodLookup ds)(nn :=
      (case got of
         Found pod \<Rightarrow> if in_pool matches pool pod then Some (pod_upsert (PodLookup ds nn) pod) else None
       | _ \<Rightarrow> None))"
  using Pod_Reconcile_lookup [OF assms] by blast

theorem Pod_Reconcile_syncs_witness:
  "\<exists>ds'. Pod_Reconcile example_matches example_pool_ds (pod_nn (example_pod ''a'' ''10.0.0.9''))
       (Found (example_pod ''a'' ''10.0.0.9'')) = Ret (ds', None) \<and>
     PodLookup ds' (pod_nn (example_pod ''a'' ''10.0.0.9'')) \<noteq> None"
proof -
  let ?p = "example_pod ''a'' ''10.0.0.9''"
  have "in_pool example_matches example_pool ?p"
    by (simp add: in_pool_def example_pod_def example_pool_def example_matches_def podIsReady_def
        selectorFromInferencePoolSelector_def time_IsZero_def)
  moreover have "wf_pods example_pool_ds" using example_wf by (simp add: wf_ds_def)
  ultimately show ?thesis
    using Pod_Reconcile_syncs [of example_pool_ds example_pool "Found ?p" "pod_nn ?p" example_matches]
    by (auto simp: example_pool_ds_simps)
qed

text \<open>
  The pool reconciler, when the pool appears or its selector changes: afterwards the
  stored pods are exactly the ready ones among those the API server lists for the selector
  (all pods being of the pool's namespace), and the pool is the new one.
\<close>

theorem Pool_Reconcile_resyncs:
  assumes wf: "wf_pods ds" and live: "time_IsZero (DeletionTimestamp (pool_meta p))"
    and new: "case ds_pool ds of None \<Rightarrow> True
      | Some old \<Rightarrow> \<not> DeepEqual_labels (Selector (pool_Spec p)) (Selector (pool_Spec old))"
    and listed: "selectorFromInferencePoolSelector listPods (Selector (pool_Spec p)) (Namespace (pool_meta p)) = Inr items"
    and ns: "\<forall>q\<in>set items. Namespace (pod_meta q) = Namespace (pool_meta p)"
      "\<And>k. PodLookup ds k \<noteq> None \<Longrightarrow> nn_Namespace k = Namespace (pool_meta p)"
  shows "\<exists>ds'. Pool_Reconcile listPods ds (Found p) = Ret (ds', None) \<and> wf_pods ds' \<and> ds_pool ds' = Some p \<and>
    (\<forall>k. PodLookup ds' k \<noteq> None \<longleftrightarrow> (\<exists>q\<in>set items. podIsReady q \<and> pod_nn q = k))"
proof -
  have "Pool_updateDatastore listPods ds p = PodResyncAll listPods (PoolSet ds (Some p)) p"
    using new by (auto simp: Pool_updateDatastore_def PoolGet_def PoolHasSynced_def Let_def split: option.splits)
  with PodResyncAll_spec [of "PoolSet ds (Some p)" listPods p items] wf listed obtain ds' where ds':
    "Pool_updateDatastore listPods ds p = Ret ds'" "wf_pods ds'" "ds_pool ds' = Some p"
    "\<forall>k. PodLookup ds' k \<noteq> None \<longleftrightarrow> (\<exists>q\<in>set items. podIsReady q \<and> pod_nn q = k) \<or>
       PodLookup ds k \<noteq> None \<and> (\<exists>q\<in>set items. podIsReady q \<and> Name (pod_meta q) = nn_Name k)" by auto
  have "PodLookup ds' k \<noteq> None \<longleftrightarrow> (\<exists>q\<in>set items. podIsReady q \<and> pod_nn q = k)" for k
  proof -
    have "\<exists>q\<in>set items. podIsReady q \<and> pod_nn q = k"
      if "PodLookup ds k \<noteq> None" "\<exists>q\<in>set items. podIsReady q \<and> Name (pod_meta q) = nn_Name k"
      using that ns(1) ns(2) [of k] by (cases k) auto
    with ds'(4) show ?thesis by blast
  qed
  with ds' live show ?thesis by (auto simp: Pool_Reconcile_def)
qed

theorem Pool_Reconcile_resyncs_witness:
  "\<exists>ds'. Pool_Reconcile (\<lambda>_ _. Inr [example_pod ''a'' ''10.0.0.1'']) NewDatastore (Found example_pool) = Ret (ds', None) \<and>
     PodLookup ds' (pod_nn (example_pod ''a'' ''10.0.0.1'')) \<noteq> None"
proof -
  have "podIsReady (example_pod ''a'' ''10.0.0.1'')" by (simp add: podIsReady_def example_pod_def)
  moreover have "wf_pods NewDatastore" using wf_NewDatastore by (simp add: wf_ds_def)
  moreover have "time_IsZero (DeletionTimestamp (pool_meta example_pool))" "ds_pool NewDatastore = None"
    "Namespace (pod_meta (example_pod ''a'' ''10.0.0.1'')) = Namespace (pool_meta example_pool)"
    by (simp_all add: example_pool_def example_pod_def time_IsZero_def NewDatastore_def)
  ultimately show ?thesis
    using Pool_Reconcile_resyncs [of NewDatastore example_pool "\<lambda>_ _. Inr [example_pod ''a'' ''10.0.0.1'']"
      "[example_pod ''a'' ''10.0.0.1'']"]
    by (auto simp: PodLookup_def NewDatastore_def selectorFromInferencePoolSelector_def)
qed

fun reconcile_models :: "string \<Rightarrow> datastore \<Rightarrow> InferenceModel list \<Rightarrow> datastore go" where
  \<comment> \<open>the reconciler run once for each object, found as it is\<close>
  "reconcile_models poolName ds [] = Ret ds"
| "reconcile_models poolName ds (m # ms) =
     go_bind (Model_Reconcile (\<lambda>_ _. Inr []) poolName ds (model_nn m) (Found m))
       (\<lambda>(ds', e). reconcile_models poolName ds' ms)"

lemma reconcile_models_set_all:
  assumes "\<forall>m\<in>set ms. time_IsZero (DeletionTimestamp (model_meta m)) \<and> ref_Name (PoolRef (model_Spec m)) = poolName"
  shows "reconcile_models poolName ds ms = Ret (ds_models.set_all ds ms)"
  using assms by (induction ms arbitrary: ds) (auto simp: Model_Reconcile_def)

text \<open>
  The oldest model wins: after the reconciler has stored objects that all claim model
  names in the pool, in any order, the object under a name is one of those that claim it,
  and none of them is older.
\<close>

theorem oldest_model_wins:
  assumes ms: "\<forall>m\<in>set ms. time_IsZero (DeletionTimestamp (model_meta m)) \<and> ref_Name (PoolRef (model_Spec m)) = poolName"
    and dist: "distinct (map model_nn ms)" and wf: "wf_models ds" and empty: "ModelGet ds n = None"
  shows "\<exists>ds'. reconcile_models poolName ds ms = Ret ds' \<and>
    (case ModelGet ds' n of
       None \<Rightarrow> \<not> (\<exists>m\<in>set ms. ModelName (model_Spec m) = n)
     | Some r \<Rightarrow> r \<in> set ms \<and> ModelName (model_Spec r) = n \<and>
         (\<forall>m\<in>set ms. ModelName (model_Spec m) = n \<longrightarrow> CreationTimestamp (model_meta r) \<le> CreationTimestamp (model_meta m)))"
  using ds_models.set_all_oldest [OF wf dist, of n] empty reconcile_models_set_all [OF ms, of ds]
  by (auto split: option.splits)

theorem oldest_model_wins_witness:
  "\<exists>ds'. reconcile_models ''pool'' NewDatastore [example_model ''new'' 5 [], example_model ''old'' 3 []] = Ret ds' \<and>
     ModelGet ds' ''m'' = Some (example_model ''old'' 3 [])"
proof -
  let ?ms = "[example_model ''new'' 5 [], example_model ''old'' 3 []]"
  have "\<exists>ds'. reconcile_models ''pool'' NewDatastore ?ms = Ret ds' \<and>
    (case ModelGet ds' ''m'' of
       None \<Rightarrow> \<not> (\<exists>m\<in>set ?ms. ModelName (model_Spec m) = ''m'')
     | Some r \<Rightarrow> r \<in> set ?ms \<and> ModelName (model_Spec r) = ''m'' \<and>
         (\<forall>m\<in>set ?ms. ModelName (model_Spec m) = ''m'' \<longrightarrow> CreationTimestamp (model_meta r) \<le> CreationTimestamp (model_meta m)))"
    by (rule oldest_model_wins) (simp_all add: example_model_def time_IsZero_def wf_models_def NewDatastore_def ModelGet_def)
  then show ?thesis by (auto simp: example_model_def split: option.splits)
qed

text \<open>
  When the object behind a model name goes away, the oldest of the remaining objects of
  the pool takes its place (none, if there is no other), and other names are untouched.
\<close>

theorem deleted_model_replaced:
  assumes wf: "wf_models ds" and pool: "ds_pool ds = Some p" and m: "snd (ModelDelete ds nn) = Some m"
    and listed: "listModels (ModelName (model_Spec m)) (Namespace (pool_meta p)) = Inr items"
  shows "\<exists>ds'. Model_Reconcile listModels poolName ds nn NotFound = Ret (ds', None) \<and>
    (case ModelGet ds' (ModelName (model_Spec m)) of
       None \<Rightarrow> \<not> (\<exists>q\<in>set items. eligible p (ModelName (model_Spec m)) q)
     | Some r \<Rightarrow> r \<in> set items \<and> eligible p (ModelName (model_Spec m)) r \<and>
         (\<forall>q\<in>set items. eligible p (ModelName (model_Spec m)) q \<longrightarrow>
            CreationTimestamp (model_meta r) \<le> CreationTimestamp (model_meta q))) \<and>
    (\<forall>n. n \<noteq> ModelName (model_Spec m) \<longrightarrow> ModelGet ds' n = ModelGet ds n)"
proof -
  let ?n = "ModelName (model_Spec m)"
  obtain ds1 where d: "ModelDelete ds nn = (ds1, Some m)" using m by (cases "ModelDelete ds nn") auto
  from ds_models.delete_get [OF wf m] d have g: "ModelGet ds1 = (ModelGet ds)(?n := None)" by simp
  from d have p1: "ds_pool ds1 = Some p" by (cases rule: ModelDelete_cases) (auto simp: pool)
  note spec = oldest_loop_spec [where p = p and n = ?n and ms = items and old = None]
  show ?thesis
  proof (cases "oldest_loop p ?n items None")
    case None
    then have "ModelResync listModels ds1 ?n = Ret (ds1, Inr False)"
      using p1 listed by (simp add: ModelResync_def)
    with d g spec None show ?thesis by (simp add: Model_Reconcile_def handleModelDeleted_def)
  next
    case (Some r)
    then have "items \<noteq> []" by auto
    with Some have "ModelResync listModels ds1 ?n =
        Ret (ds1\<lparr>ds_models := AList.update ?n r (ds_models ds1)\<rparr>, Inr True)"
      using p1 listed by (simp add: ModelResync_def)
    moreover have "ModelGet (ds1\<lparr>ds_models := AList.update ?n r (ds_models ds1)\<rparr>) = (ModelGet ds)(?n \<mapsto> r)"
      using g by (auto simp: ModelGet_def store_simps fun_eq_iff)
    ultimately show ?thesis using d spec Some by (simp add: Model_Reconcile_def handleModelDeleted_def)
  qed
qed

lemma example_delete:
  "ModelDelete example_pool_ds \<lparr>nn_Namespace = ''ns'', nn_Name = ''m1''\<rparr> =
     (example_pool_ds\<lparr>ds_models := []\<rparr>, Some (example_model ''m1'' 1 []))"
  by (simp add: ModelDelete_def example_pool_ds_simps example_model_def)

theorem deleted_model_replaced_witness:
  "\<exists>ds'. Model_Reconcile (\<lambda>_ _. Inr [example_model ''m2'' 7 []]) ''pool'' example_pool_ds
       \<lparr>nn_Namespace = ''ns'', nn_Name = ''m1''\<rparr> NotFound = Ret (ds', None) \<and>
     ModelGet ds' ''m'' = Some (example_model ''m2'' 7 [])"
proof -
  have "wf_models example_pool_ds" using example_wf by (simp add: wf_ds_def)
  from deleted_model_replaced [OF this example_pool_ds_simps(1), of "\<lparr>nn_Namespace = ''ns'', nn_Name = ''m1''\<rparr>"
      "example_model ''m1'' 1 []" "\<lambda>_ _. Inr [example_model ''m2'' 7 []]" "[example_model ''m2'' 7 []]" "''pool''"]
  show ?thesis
    by (auto simp: example_delete example_model_def eligible_def example_pool_def time_IsZero_def split: option.splits)
qed

text \<open>
  A model that goes away while no pool is in the store (it was reconciled before the pool
  was synced) makes the reconciler panic: the resync reads the namespace of the nil pool.
\<close>

theorem deleted_model_before_pool_panics:
  assumes "ds_pool ds = None" "snd (ModelDelete ds nn) = Some m"
  shows "Model_Reconcile listModels poolName ds nn NotFound = Panic ''nil pointer dereference''"
proof -
  obtain ds1 where d: "ModelDelete ds nn = (ds1, Some m)" using assms(2) by (cases "ModelDelete ds nn") auto
  then have "ds_pool ds1 = None" by (cases rule: ModelDelete_cases) (auto simp: assms(1))
  with d show ?thesis by (simp add: Model_Reconcile_def handleModelDeleted_def ModelResync_def)
qed

theorem deleted_model_before_pool_panics_witness:
  "Model_Reconcile (\<lambda>_ _. Inr []) ''pool'' (fst (ModelSetIfOlder NewDatastore (example_model ''m1'' 1 [])))
     \<lparr>nn_Namespace = ''ns'', nn_Name = ''m1''\<rparr> NotFound = Panic ''nil pointer dereference''"
  by (rule deleted_model_before_pool_panics [where m = "example_model ''m1'' 1 []"])
    (simp_all add: ModelSetIfOlder_def NewDatastore_def ModelDelete_def example_model_def)

text \<open>
  The pod reconciler reads the pool once and matches the labels against the store a
  second time: when the pool is cleared between the two, it panics.
\<close>

theorem pod_reconcile_race_panics:
  assumes "time_IsZero (DeletionTimestamp (pod_meta pod))"
  shows "Pod_updateDatastore matches (Clear ds) pod = Panic ''nil pointer dereference''"
  using assms by (simp add: Pod_updateDatastore_def PoolLabelsMatch_def Clear_def)

theorem pod_reconcile_race_panics_witness:
  "Pod_updateDatastore example_matches (Clear example_pool_ds) (example_pod ''a'' ''10.0.0.1'') =
     Panic ''nil pointer dereference''"
  by (rule pod_reconcile_race_panics) (simp add: example_pod_def time_IsZero_def)

text \<open>
  When a deleted pool comes back, its pods are listed again but its models are not: no
  model is known until an event for it arrives.
\<close>

theorem recreated_pool_has_no_models:
  assumes "Pool_Reconcile listPods ds NotFound = Ret (ds1, e1)" "Pool_Reconcile listPods ds1 (Found p) = Ret (ds2, e2)"
  shows "ModelGetAll ds2 = []"
proof -
  have ds1: "ds1 = Clear ds" using assms(1) by (simp add: Pool_Reconcile_def)
  show ?thesis
  proof (cases "time_IsZero (DeletionTimestamp (pool_meta p))")
    case True
    from Pool_updateDatastore_total [of ds1 listPods p] obtain ds' where
      "Pool_updateDatastore listPods ds1 p = Ret ds'" "ds_models ds' = ds_models ds1"
      using Clear_wf by (auto simp: wf_ds_def ds1)
    with assms(2) True ds1 show ?thesis
      by (simp add: Pool_Reconcile_def Clear_def ModelGetAll_def)
  next
    case False
    with assms(2) show ?thesis by (auto simp: Pool_Reconcile_def Clear_def ModelGetAll_def)
  qed
qed

theorem recreated_pool_has_no_models_witness:
  "\<exists>ds1 ds2. Pool_Reconcile (\<lambda>_ _. Inr []) example_pool_ds NotFound = Ret (ds1, None) \<and>
     Pool_Reconcile (\<lambda>_ _. Inr []) ds1 (Found example_pool) = Ret (ds2, None) \<and>
     ModelGetAll example_pool_ds \<noteq> [] \<and> ModelGetAll ds2 = []"
proof -
  let ?c = "Clear example_pool_ds"
  have 1: "Pool_Reconcile (\<lambda>_ _. Inr []) example_pool_ds NotFound = Ret (?c, None)"
    by (simp add: Pool_Reconcile_def)
  have 2: "Pool_Reconcile (\<lambda>_ _. Inr []) ?c (Found example_pool) = Ret (PoolSet ?c (Some example_pool), None)"
    by (simp add: Pool_Reconcile_def example_pool_def Pool_updateDatastore_def PoolGet_def PoolHasSynced_def
        Clear_def PodResyncAll_def PoolSet_def selectorFromInferencePoolSelector_def time_IsZero_def)
  have "ModelGetAll example_pool_ds \<noteq> []" by (simp add: ModelGetAll_def example_pool_ds_simps)
  with 1 2 recreated_pool_has_no_models [OF 1 2] show ?thesis by blast
qed

end
