(* ===== verification/Metrics_Logger.thy ===== *)
theory Metrics_Logger
  imports Examples Epp_Metrics Filters
begin

text \<open>
  pkg/epp/backend/metrics/logger.go: the goroutines that export the averages of the pool to
  Prometheus and log which pods have fresh metrics. One iteration of each loop is a
  function; times are in nanoseconds.
\<close>

definition metricsValidityPeriod :: int where
  "metricsValidityPeriod = 5 * 1000000000"

fun flush_totals :: "podMetrics list \<Rightarrow> f64 \<Rightarrow> int \<Rightarrow> f64 \<times> int" where
  "flush_totals [] kvCacheTotal queueTotal = (kvCacheTotal, queueTotal)"
| "flush_totals (pod # pods) kvCacheTotal queueTotal =
     flush_totals pods (f64_add kvCacheTotal (kv_usage pod)) (wrap64 (queueTotal + queue_size pod))"

definition flushPrometheusMetricsOnce :: "datastore \<Rightarrow> epp_metrics \<Rightarrow> epp_metrics" where
  "flushPrometheusMetricsOnce ds s =
     (case PoolGet ds of
        Inl err \<Rightarrow> s
      | Inr pool \<Rightarrow>
          let pods = PodGetAll ds in
          if length pods = 0 then s
          else (case flush_totals pods (Fin 0) 0 of
                  (kvCacheTotal, queueTotal) \<Rightarrow>
                    let podTotalCount = length pods; name = Name (pool_meta pool) in
                    RecordinferencePoolReadyPods name (float64_of_int (int podTotalCount))
                      (RecordInferencePoolAvgQueueSize name
                         (float64_of_int (go_div queueTotal (int podTotalCount)))
                         (RecordInferencePoolAvgKVCache name (f64_div_len kvCacheTotal podTotalCount) s))))"

definition flush_loop_step :: "bool \<Rightarrow> datastore \<Rightarrow> epp_metrics \<Rightarrow> epp_metrics option" where
  \<comment> \<open>one round of the first goroutine of \<open>StartMetricsLogger\<close>; \<open>None\<close> when it returns\<close>
  "flush_loop_step ctxDone ds s = (if ctxDone then None else Some (flushPrometheusMetricsOnce ds s))"

definition fresh_and_stale :: "datastore \<Rightarrow> int \<Rightarrow> podMetrics list \<times> podMetrics list" where
  \<comment> \<open>one round of the debug goroutine at the time \<open>now\<close>\<close>
  "fresh_and_stale ds now =
     (PodList ds (\<lambda>pm. time_Sub now (UpdateTime (pm_metrics pm)) \<le> metricsValidityPeriod),
      PodList ds (\<lambda>pm. time_Sub now (UpdateTime (pm_metrics pm)) > metricsValidityPeriod))"

lemma queue_total_bounds:
  assumes "\<forall>p\<in>set pods. 0 \<le> queue_size p" "0 \<le> q" "q + (\<Sum>p\<leftarrow>pods. queue_size p) \<le> MaxInt"
  shows "snd (flush_totals pods kv q) = q + (\<Sum>p\<leftarrow>pods. queue_size p)"
  using assms
proof (induction pods kv q rule: flush_totals.induct)
  case (2 pod pods kv q)
  have "0 \<le> (\<Sum>p\<leftarrow>pods. queue_size p)" using 2(2) by (intro sum_list_nonneg) auto
  then have "is_int64 (q + queue_size pod)"
    using 2 by (auto simp: is_int64_def MinInt_def MaxInt_def)
  with 2 show ?case by simp
qed simp

text \<open>
  The exported averages: with a pool and at least one pod, the ready-pods gauge is the
  number of pods and the queue gauge the sum of the queue sizes divided by it, rounded
  down; the gauges of other pools and the request metrics are untouched.
\<close>

theorem flush_averages:
  assumes pool: "PoolGet ds = Inr pool" and pods: "PodGetAll ds \<noteq> []"
    and sizes: "\<forall>p\<in>set (PodGetAll ds). 0 \<le> queue_size p" "(\<Sum>p\<leftarrow>PodGetAll ds. queue_size p) \<le> MaxInt"
  shows "inferencePoolReadyPods (flushPrometheusMetricsOnce ds s) =
      (inferencePoolReadyPods s)(Name (pool_meta pool) \<mapsto> float64_of_int (int (length (PodGetAll ds)))) \<and>
    inferencePoolAvgQueueSize (flushPrometheusMetricsOnce ds s) =
      (inferencePoolAvgQueueSize s)(Name (pool_meta pool) \<mapsto>
         float64_of_int ((\<Sum>p\<leftarrow>PodGetAll ds. queue_size p) div int (length (PodGetAll ds)))) \<and>
    runningRequests (flushPrometheusMetricsOnce ds s) = runningRequests s \<and>
    requestCounter (flushPrometheusMetricsOnce ds s) = requestCounter s"
proof -
  obtain kv q where t: "flush_totals (PodGetAll ds) (Fin 0) 0 = (kv, q)" by fastforce
  with queue_total_bounds [of "PodGetAll ds" 0 "Fin 0"] sizes
  have q: "q = (\<Sum>p\<leftarrow>PodGetAll ds. queue_size p)" by simp
  have "0 \<le> q" unfolding q using sizes(1) by (intro sum_list_nonneg) auto
  moreover have "0 < int (length (PodGetAll ds))" using pods by simp
  ultimately have "go_div q (int (length (PodGetAll ds))) = q div int (length (PodGetAll ds))"
    by (rule go_div_pos)
  with pool pods t q show ?thesis
    by (simp add: flushPrometheusMetricsOnce_def Let_def RecordinferencePoolReadyPods_def
        RecordInferencePoolAvgQueueSize_def RecordInferencePoolAvgKVCache_def)
qed

theorem flush_averages_witness:
  "inferencePoolAvgQueueSize (flushPrometheusMetricsOnce example_pool_ds no_metrics) ''pool'' = Some (float64_of_int 100)"
proof -
  have "PoolGet example_pool_ds = Inr example_pool" by (simp add: PoolGet_Some example_pool_ds_simps)
  moreover have "(\<Sum>p\<leftarrow>PodGetAll example_pool_ds. queue_size p) = 200" "length (PodGetAll example_pool_ds) = 2"
    "\<forall>p\<in>set (PodGetAll example_pool_ds). 0 \<le> queue_size p" "PodGetAll example_pool_ds \<noteq> []"
    by (simp_all add: example_pool_pods example_pods newMetrics_def)
  ultimately show ?thesis
    using flush_averages [of example_pool_ds example_pool no_metrics] by (simp add: MaxInt_def example_pool_def)
qed

lemma fresh_stale_partition:
  "set (fst (fresh_and_stale ds now)) \<union> set (snd (fresh_and_stale ds now)) = set (PodGetAll ds)"
  "set (fst (fresh_and_stale ds now)) \<inter> set (snd (fresh_and_stale ds now)) = {}"
  by (auto simp: fresh_and_stale_def PodList_def PodGetAll_def)

end
