(* ===== verification/Wiring.thy ===== *)
theory Wiring
  imports Documents BBR Controllers Metrics_Logger
begin

text \<open>
  How the processes are put together: cmd/epp, cmd/body-based-routing, the server runners
  (pkg/epp/server, pkg/body-based-routing/server), internal/runnable and internal/tls. What
  the libraries answer (controller-runtime, gRPC, crypto, the flag package) is a field of a
  record, an error text or nil; the state is what the code hands to the manager and to the
  metrics registry.
\<close>

subsection \<open>internal/runnable\<close>

datatype serve_end = ServeNil | ErrServerStopped | ServeError string

datatype grpc_event =
    CtxClosed              \<comment> \<open>the context is done\<close>
  | ServeReturns serve_end \<comment> \<open>\<open>srv.Serve(lis)\<close> returns\<close>

fun grpc_serve :: "bool \<Rightarrow> grpc_event list \<Rightarrow> (bool \<times> string option) option" where
  \<comment> \<open>the goroutine calls \<open>GracefulStop\<close> (the first component) when the context is done before \<open>Serve\<close>
     returned; \<open>None\<close>: the server is still serving\<close>
  "grpc_serve stopping [] = None"
| "grpc_serve stopping (CtxClosed # es) = grpc_serve True es"
| "grpc_serve stopping (ServeReturns r # es) =
     Some (stopping, case r of ServeError e \<Rightarrow> Some e | _ \<Rightarrow> None)"

definition GRPCServer :: "(string \<Rightarrow> string option) \<Rightarrow> int \<Rightarrow> grpc_event list \<Rightarrow> (bool \<times> string option) option" where
  \<comment> \<open>\<open>Start\<close> of the runnable; \<open>listen\<close> is \<open>net.Listen("tcp", _)\<close>\<close>
  "GRPCServer listen port es =
     (case listen (CHR '':'' # Itoa port) of Some e \<Rightarrow> Some (False, Some e) | None \<Rightarrow> grpc_serve False es)"

record 'a leaderElection =
  le_Runnable :: 'a
  needsLeaderElection :: bool

definition LeaderElection :: "'a \<Rightarrow> bool \<Rightarrow> 'a leaderElection" where
  "LeaderElection r needs = \<lparr>le_Runnable = r, needsLeaderElection = needs\<rparr>"

definition RequireLeaderElection :: "'a \<Rightarrow> 'a leaderElection" where
  "RequireLeaderElection r = LeaderElection r True"

definition NoLeaderElection :: "'a \<Rightarrow> 'a leaderElection" where
  "NoLeaderElection r = LeaderElection r False"

definition NeedLeaderElection :: "'a leaderElection \<Rightarrow> bool" where
  "NeedLeaderElection r = needsLeaderElection r"

subsection \<open>internal/tls\<close>

record cert_template =
  SerialNumber :: int
  Organization :: "string list"
  NotBefore :: int
  NotAfter :: int
  KeyUsage :: "string list"
  ExtKeyUsage :: "string list"
  BasicConstraintsValid :: bool

record ('key, 'cert) crypto =
  rand_Int :: "int \<Rightarrow> string + int"
  rsa_GenerateKey :: "int \<Rightarrow> string + 'key"
  x509_CreateCertificate :: "cert_template \<Rightarrow> 'key \<Rightarrow> string + string"
  x509_MarshalPKCS8PrivateKey :: "'key \<Rightarrow> string + string"
  pem_EncodeToMemory :: "string \<Rightarrow> string \<Rightarrow> string"
  tls_X509KeyPair :: "string \<Rightarrow> string \<Rightarrow> string + 'cert"

definition CreateSelfSignedTLSCertificate :: "('key, 'cert) crypto \<Rightarrow> int \<Rightarrow> string + 'cert" where
  \<comment> \<open>\<open>now\<close> is the time in nanoseconds\<close>
  "CreateSelfSignedTLSCertificate c now =
     (case rand_Int c (2 ^ 128) of
        Inl e \<Rightarrow> Inl (''error creating serial number: '' @ e)
      | Inr serialNumber \<Rightarrow>
     (let template = \<lparr>SerialNumber = serialNumber, Organization = [''Inference Ext''], NotBefore = now,
            NotAfter = now + 3600000000000 * 24 * 365 * 10, KeyUsage = [''KeyEncipherment'', ''DigitalSignature''],
            ExtKeyUsage = [''ServerAuth''], BasicConstraintsValid = True\<rparr> in
      case rsa_GenerateKey c 4096 of
        Inl e \<Rightarrow> Inl (''error generating key: '' @ e)
      | Inr priv \<Rightarrow>
     (case x509_CreateCertificate c template priv of
        Inl e \<Rightarrow> Inl (''error creating certificate: '' @ e)
      | Inr derBytes \<Rightarrow>
     (case x509_MarshalPKCS8PrivateKey c priv of
        Inl e \<Rightarrow> Inl (''error marshalling private key: '' @ e)
      | Inr privBytes \<Rightarrow>
          tls_X509KeyPair c (pem_EncodeToMemory c ''CERTIFICATE'' derBytes)
            (pem_EncodeToMemory c ''PRIVATE KEY'' privBytes)))))"

subsection \<open>The manager\<close>

datatype runner_controller =
    PoolController NamespacedName
  | ModelController NamespacedName
  | PodController

record cache_options =
  \<comment> \<open>which objects the client of the manager sees\<close>
  pods_in :: string
  pools_in :: string
  pool_named :: string
  models_in :: string

definition DefaultManagerOptions :: "string \<Rightarrow> string \<Rightarrow> cache_options" where
  "DefaultManagerOptions namespace name =
     \<lparr>pods_in = namespace, pools_in = namespace, pool_named = name, models_in = namespace\<rparr>"

subsection \<open>pkg/epp/server/runserver.go\<close>

record ExtProcServerRunner =
  \<comment> \<open>the datastore is the one of the process\<close>
  GrpcPort :: int
  DestinationEndpointHintMetadataNamespace :: string
  DestinationEndpointHintKey :: string
  runner_PoolName :: string
  runner_PoolNamespace :: string
  SecureServing :: bool
  CertPath :: string
  UseStreaming :: bool
  RefreshPrometheusMetricsInterval :: int

definition DefaultGrpcPort :: int where "DefaultGrpcPort = 9002"
definition DefaultDestinationEndpointHintMetadataNamespace :: string where
  "DefaultDestinationEndpointHintMetadataNamespace = ''envoy.lb''"
definition DefaultDestinationEndpointHintKey :: string where
  "DefaultDestinationEndpointHintKey = ''x-gateway-destination-endpoint''"
definition DefaultPoolName :: string where "DefaultPoolName = []"
definition DefaultPoolNamespace :: string where "DefaultPoolNamespace = ''default''"
definition DefaultRefreshMetricsInterval :: int where "DefaultRefreshMetricsInterval = 50 * 1000000"
definition DefaultRefreshPrometheusMetricsInterval :: int where
  "DefaultRefreshPrometheusMetricsInterval = 5 * 1000000000"
definition DefaultSecureServing :: bool where "DefaultSecureServing = True"

lemmas defaults = DefaultGrpcPort_def DefaultDestinationEndpointHintMetadataNamespace_def
  DefaultDestinationEndpointHintKey_def DefaultPoolName_def DefaultPoolNamespace_def
  DefaultRefreshMetricsInterval_def DefaultRefreshPrometheusMetricsInterval_def DefaultSecureServing_def

definition NewDefaultExtProcServerRunner :: ExtProcServerRunner where
  \<comment> \<open>fields that are not set have their zero values\<close>
  "NewDefaultExtProcServerRunner =
     \<lparr>GrpcPort = DefaultGrpcPort,
      DestinationEndpointHintMetadataNamespace = DefaultDestinationEndpointHintMetadataNamespace,
      DestinationEndpointHintKey = DefaultDestinationEndpointHintKey,
      runner_PoolName = DefaultPoolName, runner_PoolNamespace = DefaultPoolNamespace,
      SecureServing = DefaultSecureServing, CertPath = [], UseStreaming = False,
      RefreshPrometheusMetricsInterval = 0\<rparr>"

definition runner_cert ::
  "ExtProcServerRunner \<Rightarrow> (string \<Rightarrow> string \<Rightarrow> string + 'cert) \<Rightarrow> ('key, 'cert) crypto \<Rightarrow> int \<Rightarrow> string + 'cert option" where
  \<comment> \<open>the credentials of the server, none for an insecure one; \<open>load\<close> is \<open>tls.LoadX509KeyPair\<close>\<close>
  "runner_cert r load c now =
     (if SecureServing r then
        (case (if CertPath r \<noteq> [] then load (CertPath r @ ''/tls.crt'') (CertPath r @ ''/tls.key'')
               else CreateSelfSignedTLSCertificate c now) of
           Inl e \<Rightarrow> Inl e | Inr cert \<Rightarrow> Inr (Some cert))
      else Inr None)"

datatype ext_server = UseStreamingServer StreamingServer | UseStandardServer Server

definition runner_server :: "ExtProcServerRunner \<Rightarrow> ext_server" where
  "runner_server r =
     (let s = \<lparr>destinationEndpointHintKey = DestinationEndpointHintKey r,
               destinationEndpointHintMetadataNamespace = DestinationEndpointHintMetadataNamespace r\<rparr>
      in if UseStreaming r then UseStreamingServer s else UseStandardServer s)"

record 'cert runner_start =
  logger_interval :: int  \<comment> \<open>the metrics logger runs with this interval\<close>
  started_server :: "('cert option \<times> ext_server) option"  \<comment> \<open>the server that was created, if it got that far\<close>
  serve_result :: "(bool \<times> string option) option"  \<comment> \<open>how serving ended, if it did\<close>

definition AsRunnable ::
  "ExtProcServerRunner \<Rightarrow> (string \<Rightarrow> string \<Rightarrow> string + 'cert) \<Rightarrow> ('key, 'cert) crypto \<Rightarrow> int \<Rightarrow>
   (string \<Rightarrow> string option) \<Rightarrow> grpc_event list \<Rightarrow> 'cert runner_start" where
  \<comment> \<open>\<open>Start\<close> of the runnable\<close>
  "AsRunnable r load c now listen es =
     (case runner_cert r load c now of
        Inl e \<Rightarrow> \<lparr>logger_interval = RefreshPrometheusMetricsInterval r, started_server = None, serve_result = Some (False, Some e)\<rparr>
      | Inr cert \<Rightarrow> \<lparr>logger_interval = RefreshPrometheusMetricsInterval r, started_server = Some (cert, runner_server r),
          serve_result = GRPCServer listen (GrpcPort r) es\<rparr>)"

subsection \<open>The process\<close>

record bbr_ExtProcServerRunner =
  bbr_GrpcPort :: int
  bbr_SecureServing :: bool
  bbr_Streaming :: bool

datatype grpc_runnable =
    HealthRunnable int
  | ExtProcRunnable ExtProcServerRunner
  | BBRRunnable bbr_ExtProcServerRunner

datatype mgr_runnable =
    Grpc "grpc_runnable leaderElection"
  | HttpServer string string string  \<comment> \<open>name, address and path\<close>

record process =
  mgr_options :: "cache_options option"
  mgr_indexes :: "string list"
  mgr_controllers :: "runner_controller list"
  mgr_runnables :: "mgr_runnable list"
  registry :: "bool \<times> string list"
  mgr_started :: bool
  proc_pmf :: "(MetricMapping \<times> int) option"  \<comment> \<open>the factory of pod metrics: mapping and refresh interval\<close>

record world =
  \<comment> \<open>what the environment and the libraries answer: \<open>None\<close> for nil\<close>
  w_Getenv :: "string \<Rightarrow> string"
  w_GetConfig :: "string option"
  w_NewManager :: "string option"
  w_IndexField :: "string option"
  w_Complete :: "runner_controller \<Rightarrow> string option"
  w_Add :: "mgr_runnable \<Rightarrow> string option"
  w_HTTPClientFor :: "string option"
  w_AuthFilter :: "string option"
  w_AuthHandler :: "string option"
  w_Start :: "string option"

datatype run_error = RunError string | MappingError mapping_error

type_synonym proc_result = "(process \<times> run_error option) go"

definition fails_with :: "string option \<Rightarrow> process \<Rightarrow> proc_result" where
  "fails_with e p = Ret (p, map_option RunError e)"

definition andThen :: "proc_result \<Rightarrow> (process \<Rightarrow> proc_result) \<Rightarrow> proc_result" where
  \<comment> \<open>\<^verbatim>\<open>if err != nil { return err }\<close>\<close>
  "andThen m f = go_bind m (\<lambda>(p, e). case e of Some x \<Rightarrow> Ret (p, Some x) | None \<Rightarrow> f p)"

definition NewDefaultManager :: "world \<Rightarrow> string \<Rightarrow> string \<Rightarrow> process \<Rightarrow> proc_result" where
  "NewDefaultManager w namespace name p =
     (case w_NewManager w of
        Some e \<Rightarrow> fails_with (Some (''failed to create controller manager: '' @ e)) p
      | None \<Rightarrow> fails_with None (p\<lparr>mgr_options := Some (DefaultManagerOptions namespace name)\<rparr>))"

definition NewManagerWithOptions :: "world \<Rightarrow> cache_options \<Rightarrow> process \<Rightarrow> proc_result" where
  "NewManagerWithOptions w opts p =
     (case w_NewManager w of
        Some e \<Rightarrow> fails_with (Some (''failed to create controller manager: '' @ e)) p
      | None \<Rightarrow> fails_with None (p\<lparr>mgr_options := Some opts\<rparr>))"

definition mgr_Add :: "world \<Rightarrow> mgr_runnable \<Rightarrow> process \<Rightarrow> proc_result" where
  "mgr_Add w r p =
     (case w_Add w r of
        Some e \<Rightarrow> fails_with (Some e) p
      | None \<Rightarrow> fails_with None (p\<lparr>mgr_runnables := mgr_runnables p @ [r]\<rparr>))"

definition Complete :: "world \<Rightarrow> runner_controller \<Rightarrow> process \<Rightarrow> proc_result" where
  \<comment> \<open>\<open>NewControllerManagedBy(mgr).For(..).Complete(c)\<close>\<close>
  "Complete w c p =
     (case w_Complete w c of
        Some e \<Rightarrow> fails_with (Some e) p
      | None \<Rightarrow> fails_with None (p\<lparr>mgr_controllers := mgr_controllers p @ [c]\<rparr>))"

definition Pool_SetupWithManager :: "world \<Rightarrow> NamespacedName \<Rightarrow> process \<Rightarrow> proc_result" where
  "Pool_SetupWithManager w nn = Complete w (PoolController nn)"

definition Model_SetupWithManager :: "world \<Rightarrow> NamespacedName \<Rightarrow> process \<Rightarrow> proc_result" where
  "Model_SetupWithManager w nn p =
     (case w_IndexField w of
        Some e \<Rightarrow> fails_with (Some (''setting index on ModelName for InferenceModel: '' @ e)) p
      | None \<Rightarrow> Complete w (ModelController nn) (p\<lparr>mgr_indexes := mgr_indexes p @ [''spec.modelName'']\<rparr>))"

definition Pod_SetupWithManager :: "world \<Rightarrow> process \<Rightarrow> proc_result" where
  "Pod_SetupWithManager w = Complete w PodController"

definition wrap_error :: "string \<Rightarrow> proc_result \<Rightarrow> proc_result" where
  \<comment> \<open>\<open>fmt.Errorf\<close> with a text in front of the error\<close>
  "wrap_error pre m =
     go_bind m (\<lambda>(p, e). Ret (p, case e of Some (RunError t) \<Rightarrow> Some (RunError (pre @ t)) | x \<Rightarrow> x))"

definition SetupWithManager :: "world \<Rightarrow> ExtProcServerRunner \<Rightarrow> process \<Rightarrow> proc_result" where
  "SetupWithManager w r p =
     (let nn = \<lparr>nn_Namespace = runner_PoolNamespace r, nn_Name = runner_PoolName r\<rparr> in
      andThen (wrap_error ''failed setting up InferencePoolReconciler: '' (Pool_SetupWithManager w nn p)) (\<lambda>p.
      andThen (wrap_error ''failed setting up InferenceModelReconciler: '' (Model_SetupWithManager w nn p)) (\<lambda>p.
      wrap_error ''failed setting up EndpointSliceReconciler: '' (Pod_SetupWithManager w p))))"

subsection \<open>The health servers\<close>

datatype health_status = SERVING | NOT_SERVING

definition Check :: "datastore \<Rightarrow> health_status" where
  "Check ds = (if \<not> PoolHasSynced ds then NOT_SERVING else SERVING)"

definition Watch :: "string \<times> string" where
  \<comment> \<open>the code and the message of the status error\<close>
  "Watch = (''Unimplemented'', ''Watch is not implemented'')"

definition BBR_Check :: health_status where
  "BBR_Check = SERVING"

subsection \<open>cmd/epp/main.go\<close>

definition log_DEFAULT :: int where "log_DEFAULT = 2"

record epp_flags =
  f_grpcPort :: int
  f_grpcHealthPort :: int
  f_metricsPort :: int
  f_destinationEndpointHintKey :: string
  f_destinationEndpointHintMetadataNamespace :: string
  f_poolName :: string
  f_poolNamespace :: string
  f_refreshMetricsInterval :: int
  f_refreshPrometheusMetricsInterval :: int
  f_logVerbosity :: int
  f_secureServing :: bool
  f_certPath :: string
  f_totalQueuedRequestsMetric :: string
  f_kvCacheUsagePercentageMetric :: string
  f_loraInfoMetric :: string

definition default_flags :: epp_flags where
  "default_flags =
     \<lparr>f_grpcPort = DefaultGrpcPort, f_grpcHealthPort = 9003, f_metricsPort = 9090,
      f_destinationEndpointHintKey = DefaultDestinationEndpointHintKey,
      f_destinationEndpointHintMetadataNamespace = DefaultDestinationEndpointHintMetadataNamespace,
      f_poolName = DefaultPoolName, f_poolNamespace = DefaultPoolNamespace,
      f_refreshMetricsInterval = DefaultRefreshMetricsInterval,
      f_refreshPrometheusMetricsInterval = DefaultRefreshPrometheusMetricsInterval,
      f_logVerbosity = log_DEFAULT, f_secureServing = DefaultSecureServing, f_certPath = [],
      f_totalQueuedRequestsMetric = ''vllm:num_requests_waiting'',
      f_kvCacheUsagePercentageMetric = ''vllm:gpu_cache_usage_perc'',
      f_loraInfoMetric = ''vllm:lora_requests_info''\<rparr>"

definition validateFlags :: "epp_flags \<Rightarrow> string option" where
  "validateFlags fl = (if f_poolName fl = [] then Some ''required \"poolName\" flag not set'' else None)"

definition ParseBool :: "string \<Rightarrow> bool \<times> bool" where
  \<comment> \<open>\<open>strconv.ParseBool\<close>: the value, false on an error, and whether there was none\<close>
  "ParseBool s =
     (if s \<in> set [''1'', ''t'', ''T'', ''true'', ''TRUE'', ''True''] then (True, True)
      else if s \<in> set [''0'', ''f'', ''F'', ''false'', ''FALSE'', ''False''] then (False, True)
      else (False, False))"

definition int8 :: "int \<Rightarrow> int" where
  "int8 x = (x + 128) mod 256 - 128"

definition initLogging :: "string list \<Rightarrow> int \<Rightarrow> int option" where
  \<comment> \<open>the level it sets in the options, if any: the flags given on the command line and \<open>-v\<close>\<close>
  "initLogging visited logVerbosity =
     (if ''zap-log-level'' \<in> set visited then None else Some (int8 (wrap64 (- 1 * logVerbosity))))"

definition registerHealthServer :: "world \<Rightarrow> int \<Rightarrow> process \<Rightarrow> proc_result" where
  "registerHealthServer w port = mgr_Add w (Grpc (NoLeaderElection (HealthRunnable port)))"

definition metricsHandlerWithAuthenticationAndAuthorization :: "world \<Rightarrow> string option" where
  "metricsHandlerWithAuthenticationAndAuthorization w =
     (case w_HTTPClientFor w of Some e \<Rightarrow> Some e
      | None \<Rightarrow> (case w_AuthFilter w of Some e \<Rightarrow> Some e | None \<Rightarrow> w_AuthHandler w))"

definition registerMetricsHandler :: "world \<Rightarrow> int \<Rightarrow> process \<Rightarrow> proc_result" where
  "registerMetricsHandler w port p =
     go_bind (Register (registry p)) (\<lambda>reg.
       let p1 = p\<lparr>registry := reg\<rparr> in
       case metricsHandlerWithAuthenticationAndAuthorization w of
         Some e \<Rightarrow> fails_with (Some e) p1
       | None \<Rightarrow> mgr_Add w (HttpServer ''metrics'' (CHR '':'' # Itoa port) ''/metrics'') p1)"

definition mgr_Start :: "world \<Rightarrow> process \<Rightarrow> proc_result" where
  "mgr_Start w p = fails_with (w_Start w) (p\<lparr>mgr_started := True\<rparr>)"

definition new_runner :: "epp_flags \<Rightarrow> bool \<Rightarrow> ExtProcServerRunner" where
  "new_runner fl useStreamingServer =
     \<lparr>GrpcPort = f_grpcPort fl,
      DestinationEndpointHintMetadataNamespace = f_destinationEndpointHintMetadataNamespace fl,
      DestinationEndpointHintKey = f_destinationEndpointHintKey fl,
      runner_PoolName = f_poolName fl, runner_PoolNamespace = f_poolNamespace fl,
      SecureServing = f_secureServing fl, CertPath = f_certPath fl, UseStreaming = useStreamingServer,
      RefreshPrometheusMetricsInterval = f_refreshPrometheusMetricsInterval fl\<rparr>"

definition epp_run :: "world \<Rightarrow> epp_flags \<Rightarrow> process \<Rightarrow> proc_result" where
  \<comment> \<open>\<open>run\<close>: every step returns the first error\<close>
  "epp_run w fl p =
     (let useStreamingServer = fst (ParseBool (w_Getenv w ''USE_STREAMING'')) in
      andThen (fails_with (validateFlags fl) p) (\<lambda>p.
      andThen (fails_with (w_GetConfig w) p) (\<lambda>p.
      andThen (NewDefaultManager w (f_poolNamespace fl) (f_poolName fl) p) (\<lambda>p.
      case NewMetricMapping (f_totalQueuedRequestsMetric fl) (f_kvCacheUsagePercentageMetric fl) (f_loraInfoMetric fl) of
        Inl e \<Rightarrow> Ret (p, Some (MappingError e))
      | Inr mapping \<Rightarrow>
          let p = p\<lparr>proc_pmf := Some (mapping, f_refreshMetricsInterval fl)\<rparr>; serverRunner = new_runner fl useStreamingServer in
          andThen (SetupWithManager w serverRunner p) (\<lambda>p.
          andThen (registerHealthServer w (f_grpcHealthPort fl) p) (\<lambda>p.
          andThen (mgr_Add w (Grpc (NoLeaderElection (ExtProcRunnable serverRunner))) p) (\<lambda>p.
          andThen (registerMetricsHandler w (f_metricsPort fl) p) (\<lambda>p.
          mgr_Start w p))))))))"

definition exit_code :: "proc_result \<Rightarrow> int" where
  \<comment> \<open>\<open>main\<close>: the exit status of the process (2 is that of a panic)\<close>
  "exit_code r = (case r of Ret (p, None) \<Rightarrow> 0 | Ret (p, Some e) \<Rightarrow> 1 | Panic m \<Rightarrow> 2)"

definition new_process :: "string list \<Rightarrow> process" where
  \<comment> \<open>a fresh process; \<open>reg\<close> is what the libraries have registered\<close>
  "new_process reg = \<lparr>mgr_options = None, mgr_indexes = [], mgr_controllers = [], mgr_runnables = [],
     registry = (False, reg), mgr_started = False, proc_pmf = None\<rparr>"

subsection \<open>cmd/body-based-routing and its runner\<close>

record bbr_flags =
  b_grpcPort :: int
  b_grpcHealthPort :: int
  b_metricsPort :: int
  b_streaming :: bool
  b_logVerbosity :: int

definition default_bbr_flags :: bbr_flags where
  "default_bbr_flags = \<lparr>b_grpcPort = 9004, b_grpcHealthPort = 9005, b_metricsPort = 9090, b_streaming = False, b_logVerbosity = log_DEFAULT\<rparr>"

definition BBR_NewDefaultExtProcServerRunner :: "int \<Rightarrow> bool \<Rightarrow> bbr_ExtProcServerRunner" where
  "BBR_NewDefaultExtProcServerRunner port streaming =
     \<lparr>bbr_GrpcPort = port, bbr_SecureServing = True, bbr_Streaming = streaming\<rparr>"

definition BBR_AsRunnable ::
  "bbr_ExtProcServerRunner \<Rightarrow> ('key, 'cert) crypto \<Rightarrow> int \<Rightarrow> (string \<Rightarrow> string option) \<Rightarrow> grpc_event list \<Rightarrow>
   ('cert option \<times> bool) option \<times> (bool \<times> string option) option" where
  \<comment> \<open>as \<open>AsRunnable\<close>; the server is given by its streaming mode\<close>
  "BBR_AsRunnable r c now listen es =
     (case (if bbr_SecureServing r then
              (case CreateSelfSignedTLSCertificate c now of Inl e \<Rightarrow> Inl e | Inr cert \<Rightarrow> Inr (Some cert))
            else Inr None) of
        Inl e \<Rightarrow> (None, Some (False, Some e))
      | Inr cert \<Rightarrow> (Some (cert, bbr_Streaming r), GRPCServer listen (bbr_GrpcPort r) es))"

definition BBR_initLogging :: "string list \<Rightarrow> int \<Rightarrow> int option" where
  "BBR_initLogging visited logVerbosity =
     (if ''zap-log-level'' \<in> set visited then None else Some (int8 (wrap64 (- 1 * logVerbosity))))"

definition BBR_registerHealthServer :: "world \<Rightarrow> int \<Rightarrow> process \<Rightarrow> proc_result" where
  "BBR_registerHealthServer w port = mgr_Add w (Grpc (NoLeaderElection (HealthRunnable port)))"

definition BBR_metricsHandlerWithAuthenticationAndAuthorization :: "world \<Rightarrow> string option" where
  "BBR_metricsHandlerWithAuthenticationAndAuthorization w =
     (case w_HTTPClientFor w of Some e \<Rightarrow> Some e
      | None \<Rightarrow> (case w_AuthFilter w of Some e \<Rightarrow> Some e | None \<Rightarrow> w_AuthHandler w))"

definition BBR_registerMetricsHandler :: "world \<Rightarrow> int \<Rightarrow> process \<Rightarrow> proc_result" where
  \<comment> \<open>\<open>metrics.Register()\<close> is that of pkg/epp/metrics: main.go imports no other metrics package\<close>
  "BBR_registerMetricsHandler w port p =
     go_bind (Register (registry p)) (\<lambda>reg.
       let p1 = p\<lparr>registry := reg\<rparr> in
       case BBR_metricsHandlerWithAuthenticationAndAuthorization w of
         Some e \<Rightarrow> fails_with (Some e) p1
       | None \<Rightarrow> mgr_Add w (HttpServer ''metrics'' (CHR '':'' # Itoa port) ''/metrics'') p1)"

definition bbr_run :: "world \<Rightarrow> bbr_flags \<Rightarrow> process \<Rightarrow> proc_result" where
  "bbr_run w fl p =
     andThen (fails_with (w_GetConfig w) p) (\<lambda>p.
     andThen (fails_with (w_NewManager w) p) (\<lambda>p.
     let serverRunner = BBR_NewDefaultExtProcServerRunner (b_grpcPort fl) (b_streaming fl) in
     andThen (BBR_registerHealthServer w (b_grpcHealthPort fl) p) (\<lambda>p.
     andThen (mgr_Add w (Grpc (NoLeaderElection (BBRRunnable serverRunner))) p) (\<lambda>p.
     andThen (BBR_registerMetricsHandler w (b_metricsPort fl) p) (\<lambda>p.
     mgr_Start w p)))))"

subsection \<open>What a started process consists of\<close>

lemma andThen_simps [simp]:
  "andThen (Ret (p, None)) f = f p" "andThen (Ret (p, Some e)) f = Ret (p, Some e)" "andThen (Panic m) f = Panic m"
  by (simp_all add: andThen_def)

lemma wrap_error_simps [simp]:
  "wrap_error pre (Ret (p, None)) = Ret (p, None)"
  "wrap_error pre (Ret (p, Some (RunError t))) = Ret (p, Some (RunError (pre @ t)))"
  by (simp_all add: wrap_error_def)

lemma fails_with_simps [simp]:
  "fails_with None p = Ret (p, None)" "fails_with (Some e) p = Ret (p, Some (RunError e))"
  by (simp_all add: fails_with_def)

lemma Register_fresh:
  assumes "set collector_names \<inter> set reg = {}"
  shows "Register (False, reg) = Ret (True, reg @ collector_names)"
proof -
  have "distinct collector_names" by (simp add: collector_names_def)
  with MustRegister_distinct [of collector_names reg] assms show ?thesis by (simp add: Register_def)
qed

abbreviation flags_pool :: "epp_flags \<Rightarrow> NamespacedName" where
  "flags_pool fl \<equiv> \<lparr>nn_Namespace = f_poolNamespace fl, nn_Name = f_poolName fl\<rparr>"

definition flags_controllers :: "epp_flags \<Rightarrow> runner_controller list" where
  "flags_controllers fl = [PoolController (flags_pool fl), ModelController (flags_pool fl), PodController]"

definition flags_runnables :: "world \<Rightarrow> epp_flags \<Rightarrow> mgr_runnable list" where
  \<comment> \<open>none of them waits for a leader to be elected\<close>
  "flags_runnables w fl =
     [Grpc (NoLeaderElection (HealthRunnable (f_grpcHealthPort fl))),
      Grpc (NoLeaderElection (ExtProcRunnable (new_runner fl (fst (ParseBool (w_Getenv w ''USE_STREAMING'')))))),
      HttpServer ''metrics'' (CHR '':'' # Itoa (f_metricsPort fl)) ''/metrics'']"

definition flags_mapping :: "epp_flags \<Rightarrow> mapping_error + MetricMapping" where
  "flags_mapping fl = NewMetricMapping (f_totalQueuedRequestsMetric fl) (f_kvCacheUsagePercentageMetric fl) (f_loraInfoMetric fl)"

definition startable :: "world \<Rightarrow> epp_flags \<Rightarrow> bool" where
  \<comment> \<open>the flags are valid and no library call fails\<close>
  "startable w fl \<longleftrightarrow> f_poolName fl \<noteq> [] \<and>
     \<not> isl (flags_mapping fl) \<and>
     w_GetConfig w = None \<and> w_NewManager w = None \<and> w_IndexField w = None \<and>
     list_all (\<lambda>c. w_Complete w c = None) (flags_controllers fl) \<and>
     list_all (\<lambda>r. w_Add w r = None) (flags_runnables w fl) \<and>
     w_HTTPClientFor w = None \<and> w_AuthFilter w = None \<and> w_AuthHandler w = None"

definition wired :: "world \<Rightarrow> epp_flags \<Rightarrow> string list \<Rightarrow> process" where
  "wired w fl reg =
     \<lparr>mgr_options = Some (DefaultManagerOptions (f_poolNamespace fl) (f_poolName fl)), mgr_indexes = [''spec.modelName''],
      mgr_controllers = flags_controllers fl, mgr_runnables = flags_runnables w fl,
      registry = (True, reg @ collector_names), mgr_started = True, proc_pmf = Some (projr (flags_mapping fl), f_refreshMetricsInterval fl)\<rparr>"

definition outcome :: "proc_result \<Rightarrow> bool \<Rightarrow> proc_result \<Rightarrow> bool" where
  \<comment> \<open>the call has the result \<open>r\<close> when \<open>ok\<close>, and otherwise fails with the manager not started\<close>
  "outcome m ok r \<longleftrightarrow> (if ok then m = r else \<exists>p e. m = Ret (p, Some e) \<and> \<not> mgr_started p)"

lemma outcome_andThen: "outcome m ok (Ret (p, None)) \<Longrightarrow> outcome (f p) ok' r \<Longrightarrow> outcome (andThen m f) (ok \<and> ok') r"
  by (auto simp: outcome_def split: if_splits)

lemma outcome_fails: "\<not> mgr_started p \<Longrightarrow> outcome (fails_with e p) (e = None) (Ret (p, None))"
  by (cases e) (simp_all add: outcome_def)

lemma outcome_Add:
  "\<not> mgr_started p \<Longrightarrow> outcome (mgr_Add w r p) (w_Add w r = None) (Ret (p\<lparr>mgr_runnables := mgr_runnables p @ [r]\<rparr>, None))"
  by (auto simp: outcome_def mgr_Add_def)

lemma outcome_NewDefaultManager:
  "\<not> mgr_started p \<Longrightarrow> outcome (NewDefaultManager w ns name p) (w_NewManager w = None)
     (Ret (p\<lparr>mgr_options := Some (DefaultManagerOptions ns name)\<rparr>, None))"
  by (auto simp: outcome_def NewDefaultManager_def)

lemma outcome_mapping:
  assumes "\<not> mgr_started p" "outcome (f (projr x)) ok r"
  shows "outcome (case x of Inl e \<Rightarrow> Ret (p, Some (MappingError e)) | Inr mapping \<Rightarrow> f mapping) (\<not> isl x \<and> ok) r"
  using assms by (cases x) (auto simp: outcome_def)

lemma outcome_Setup:
  assumes "\<not> mgr_started p"
  shows "outcome (SetupWithManager w (new_runner fl b) p)
    (w_IndexField w = None \<and> list_all (\<lambda>c. w_Complete w c = None) (flags_controllers fl))
    (Ret (p\<lparr>mgr_indexes := mgr_indexes p @ [''spec.modelName''],
            mgr_controllers := mgr_controllers p @ flags_controllers fl\<rparr>, None))"
  using assms
  by (auto simp: SetupWithManager_def Pool_SetupWithManager_def Model_SetupWithManager_def Pod_SetupWithManager_def
      Complete_def flags_controllers_def new_runner_def outcome_def Let_def split: option.splits)

lemma outcome_metrics:
  assumes "\<not> mgr_started p" "registry p = (False, reg)" "set collector_names \<inter> set reg = {}"
  shows "outcome (registerMetricsHandler w port p)
    (w_HTTPClientFor w = None \<and> w_AuthFilter w = None \<and> w_AuthHandler w = None \<and>
     w_Add w (HttpServer ''metrics'' (CHR '':'' # Itoa port) ''/metrics'') = None)
    (Ret (p\<lparr>registry := (True, reg @ collector_names),
       mgr_runnables := mgr_runnables p @ [HttpServer ''metrics'' (CHR '':'' # Itoa port) ''/metrics'']\<rparr>, None))"
  using assms Register_fresh [OF assms(3)]
  by (auto simp: registerMetricsHandler_def metricsHandlerWithAuthenticationAndAuthorization_def mgr_Add_def outcome_def Let_def
      split: option.splits)

lemma outcome_Start: "outcome (mgr_Start w p) True (Ret (p\<lparr>mgr_started := True\<rparr>, map_option RunError (w_Start w)))"
  by (simp add: outcome_def mgr_Start_def fails_with_def)

lemma outcome_cong: "outcome m ok r \<Longrightarrow> ok = ok' \<Longrightarrow> r = r' \<Longrightarrow> outcome m ok' r'"
  by simp

lemma epp_run_outcome:
  assumes "set collector_names \<inter> set reg = {}"
  shows "outcome (epp_run w fl (new_process reg)) (startable w fl) (Ret (wired w fl reg, map_option RunError (w_Start w)))"
  unfolding epp_run_def Let_def registerHealthServer_def flags_mapping_def [symmetric]
  apply (rule outcome_cong)
    apply (rule outcome_andThen [OF outcome_fails] outcome_andThen [OF outcome_NewDefaultManager] outcome_mapping
      outcome_andThen [OF outcome_Setup] outcome_andThen [OF outcome_Add]
      outcome_andThen [OF outcome_metrics [OF _ _ assms]] outcome_Start; (simp add: new_process_def; fail)?)+
   apply (auto simp: startable_def validateFlags_def flags_runnables_def) [1]
  apply (simp add: wired_def new_process_def flags_runnables_def)
  done

lemma epp_run_startable:
  assumes "set collector_names \<inter> set reg = {}" "startable w fl"
  shows "epp_run w fl (new_process reg) = Ret (wired w fl reg, map_option RunError (w_Start w))"
  using epp_run_outcome [OF assms(1), of w fl] assms(2) by (simp add: outcome_def)

lemma epp_run_fails:
  assumes "set collector_names \<inter> set reg = {}" "\<not> startable w fl"
  shows "\<exists>p e. epp_run w fl (new_process reg) = Ret (p, Some e) \<and> \<not> mgr_started p"
  using epp_run_outcome [OF assms(1), of w fl] assms(2) by (simp add: outcome_def)

text \<open>
  C38. The endpoint picker starts whole or not at all. In a fresh process \<open>run\<close> never panics. When
  the flags are valid and no library call fails, the manager is started with the cache
  restricted to the pool, the three reconcilers for that pool, the index on the model name
  and the health, external processing and metrics servers, all metrics registered, pods
  scraped for the metrics of the flags, and \<open>run\<close> returns what \<open>Start\<close> returns. Otherwise it returns an error and the manager is never started.
\<close>

theorem epp_starts_whole_or_not:
  assumes "set collector_names \<inter> set reg = {}"
  shows "\<exists>p e. epp_run w fl (new_process reg) = Ret (p, e) \<and>
    (if startable w fl then p = wired w fl reg \<and> e = map_option RunError (w_Start w)
     else \<not> mgr_started p \<and> e \<noteq> None)"
proof (cases "startable w fl")
  case True
  with epp_run_startable [OF assms] show ?thesis by simp
next
  case False
  with epp_run_fails [OF assms] show ?thesis by fastforce
qed

definition quiet_world :: world where
  \<comment> \<open>nothing fails, the streaming server is asked for\<close>
  "quiet_world = \<lparr>w_Getenv = (\<lambda>_. ''true''), w_GetConfig = None, w_NewManager = None, w_IndexField = None,
     w_Complete = (\<lambda>_. None), w_Add = (\<lambda>_. None), w_HTTPClientFor = None, w_AuthFilter = None,
     w_AuthHandler = None, w_Start = None\<rparr>"

lemma default_mapping:
  "\<not> isl (NewMetricMapping ''vllm:num_requests_waiting'' ''vllm:gpu_cache_usage_perc'' ''vllm:lora_requests_info'')"
  by code_simp

theorem epp_starts_whole_or_not_witness:
  "epp_run quiet_world (default_flags\<lparr>f_poolName := ''pool''\<rparr>) (new_process []) =
     Ret (wired quiet_world (default_flags\<lparr>f_poolName := ''pool''\<rparr>) [], None)"
proof -
  have "startable quiet_world (default_flags\<lparr>f_poolName := ''pool''\<rparr>)"
    using default_mapping by (simp add: startable_def quiet_world_def default_flags_def flags_mapping_def flags_controllers_def flags_runnables_def)
  with epp_starts_whole_or_not [of "[]" quiet_world "default_flags\<lparr>f_poolName := ''pool''\<rparr>"] show ?thesis
    by (simp add: quiet_world_def)
qed

lemma flag_defaults_need_pool: "\<not> startable w default_flags"
  by (simp add: startable_def default_flags_def DefaultPoolName_def)

definition ends :: "(process \<Rightarrow> bool) \<Rightarrow> (process \<Rightarrow> bool) \<Rightarrow> proc_result \<Rightarrow> bool" where
  \<comment> \<open>the call returns, in a state with \<open>Q\<close> if without error and in one with \<open>P\<close> in any case\<close>
  "ends P Q m \<longleftrightarrow> (\<exists>p e. m = Ret (p, e) \<and> P p \<and> (e = None \<longrightarrow> Q p))"

lemma ends_andThen: "ends P Q m \<Longrightarrow> (\<And>p. Q p \<Longrightarrow> ends P R (f p)) \<Longrightarrow> ends P R (andThen m f)"
  by (fastforce simp: ends_def andThen_def split: option.splits)

lemma ends_fails: "P p \<Longrightarrow> Q p \<Longrightarrow> ends P Q (fails_with e p)"
  by (simp add: ends_def fails_with_def)

lemma ends_Add:
  "P p \<Longrightarrow> P (p\<lparr>mgr_runnables := mgr_runnables p @ [r]\<rparr>) \<Longrightarrow> Q (p\<lparr>mgr_runnables := mgr_runnables p @ [r]\<rparr>) \<Longrightarrow> ends P Q (mgr_Add w r p)"
  by (auto simp: ends_def mgr_Add_def split: option.splits)

definition registers :: "string list \<Rightarrow> string list \<Rightarrow> process \<Rightarrow> bool" where
  "registers reg names p \<longleftrightarrow> snd (registry p) \<in> {reg, reg @ names} \<and> (mgr_started p \<longrightarrow> snd (registry p) = reg @ names)"

lemma bbr_run_registry:
  assumes "set collector_names \<inter> set reg = {}"
  shows "ends (registers reg collector_names) (\<lambda>_. True) (bbr_run w fl (new_process reg))"
proof -
  let ?P = "registers reg collector_names"
  let ?Q = "\<lambda>p. registry p = (False, reg) \<and> \<not> mgr_started p" and ?R = "\<lambda>p. registry p = (True, reg @ collector_names)"
  have q: "?P p" if "?Q p" for p using that by (auto simp: registers_def)
  have m: "ends ?P ?R (BBR_registerMetricsHandler w port p)" if "?Q p" for port p
    using that Register_fresh [OF assms]
    by (auto simp: BBR_registerMetricsHandler_def Let_def registers_def ends_def mgr_Add_def split: option.split)
  have st: "ends ?P (\<lambda>_. True) (mgr_Start w p)" if "?R p" for p
    using that by (auto simp: mgr_Start_def ends_def fails_with_def registers_def)
  show ?thesis
    unfolding bbr_run_def Let_def BBR_registerHealthServer_def
    by (rule ends_andThen [where Q = ?Q] ends_andThen [where Q = ?R] ends_fails ends_Add m st q; (simp add: new_process_def registers_def)?)+
qed

text \<open>
  Body-based routing does not export its own counters: its main registers the metrics of
  the endpoint picker, so after \<open>run\<close>, whatever fails, no counter of body-based routing is
  in the registry; registering them would have been possible.
\<close>

theorem bbr_counters_not_registered:
  assumes "set (collector_names @ bbr_collector_names) \<inter> set reg = {}"
  shows "\<exists>p e. bbr_run w fl (new_process reg) = Ret (p, e) \<and> set bbr_collector_names \<inter> set (snd (registry p)) = {} \<and>
    (mgr_started p \<longrightarrow> snd (registry p) = reg @ collector_names) \<and>
    BBR_Register (False, snd (registry p)) = Ret (True, snd (registry p) @ bbr_collector_names)"
proof -
  have d: "set bbr_collector_names \<inter> set reg = {}" "set bbr_collector_names \<inter> set (reg @ collector_names) = {}"
    using assms by (auto simp: collector_names_def bbr_collector_names_def)
  have "distinct bbr_collector_names" by (simp add: bbr_collector_names_def)
  with d have r: "BBR_Register (False, reg) = Ret (True, reg @ bbr_collector_names)"
    "BBR_Register (False, reg @ collector_names) = Ret (True, (reg @ collector_names) @ bbr_collector_names)"
    using MustRegister_distinct [of bbr_collector_names] by (simp_all add: BBR_Register_def)
  have "set collector_names \<inter> set reg = {}" using assms by auto
  from bbr_run_registry [OF this, of w fl] obtain p e where
    "bbr_run w fl (new_process reg) = Ret (p, e)" "snd (registry p) \<in> {reg, reg @ collector_names}"
    "mgr_started p \<longrightarrow> snd (registry p) = reg @ collector_names" by (auto simp: ends_def registers_def)
  with d r show ?thesis by (auto simp del: append_assoc)
qed

theorem bbr_counters_not_registered_witness:
  "\<exists>p e. bbr_run quiet_world default_bbr_flags (new_process []) = Ret (p, e) \<and>
     ''bbr_success_total'' \<notin> set (snd (registry p))"
proof -
  have "set (collector_names @ bbr_collector_names) \<inter> set [] = {}" by simp
  from bbr_counters_not_registered [OF this, of quiet_world default_bbr_flags] show ?thesis
    by (auto simp: bbr_collector_names_def)
qed

subsection \<open>The servers a process runs\<close>

lemma NoLeaderElection_needs [simp]: "\<not> NeedLeaderElection (NoLeaderElection r)" "NeedLeaderElection (RequireLeaderElection r)"
  by (simp_all add: NeedLeaderElection_def NoLeaderElection_def RequireLeaderElection_def LeaderElection_def)

lemma runnables_without_election:
  "Grpc r \<in> set (flags_runnables w fl) \<Longrightarrow> \<not> NeedLeaderElection r"
  by (auto simp: flags_runnables_def)

lemma streaming_by_environment:
  \<comment> \<open>an unset or malformed USE_STREAMING gives the buffering server\<close>
  "runner_server (new_runner fl (fst (ParseBool v))) =
     (if v \<in> {''1'', ''t'', ''T'', ''true'', ''TRUE'', ''True''} then UseStreamingServer else UseStandardServer)
       \<lparr>destinationEndpointHintKey = f_destinationEndpointHintKey fl,
        destinationEndpointHintMetadataNamespace = f_destinationEndpointHintMetadataNamespace fl\<rparr>"
  by (simp add: runner_server_def new_runner_def ParseBool_def Let_def)

lemma grpc_serve_stops:
  \<comment> \<open>the server is stopped gracefully exactly when the context was done before \<open>Serve\<close> returned\<close>
  "(\<forall>e\<in>set es. e = CtxClosed) \<Longrightarrow>
     grpc_serve b (es @ ServeReturns r # es') = Some (b \<or> es \<noteq> [], case r of ServeError e \<Rightarrow> Some e | _ \<Rightarrow> None)"
  by (induction es arbitrary: b) auto

lemma insecure_needs_no_cert:
  "\<not> SecureServing r \<Longrightarrow> started_server (AsRunnable r load c now listen es) = Some (None, runner_server r) \<and>
     serve_result (AsRunnable r load c now listen es) = GRPCServer listen (GrpcPort r) es"
  by (simp add: AsRunnable_def runner_cert_def)

lemma secure_never_plain:
  \<comment> \<open>a server that is to be secure is never created without a certificate\<close>
  "SecureServing r \<Longrightarrow> started_server (AsRunnable r load c now listen es) = Some (cert, s) \<Longrightarrow> cert \<noteq> None"
  by (auto simp: AsRunnable_def runner_cert_def split: sum.splits if_splits)

lemma self_signed_ten_years:
  assumes "CreateSelfSignedTLSCertificate c now = Inr cert"
  obtains serial key der priv where "rand_Int c (2 ^ 128) = Inr serial" "rsa_GenerateKey c 4096 = Inr key"
    "x509_CreateCertificate c \<lparr>SerialNumber = serial, Organization = [''Inference Ext''], NotBefore = now,
       NotAfter = now + 315360000 * 1000000000, KeyUsage = [''KeyEncipherment'', ''DigitalSignature''],
       ExtKeyUsage = [''ServerAuth''], BasicConstraintsValid = True\<rparr> key = Inr der"
    "x509_MarshalPKCS8PrivateKey c key = Inr priv"
    "tls_X509KeyPair c (pem_EncodeToMemory c ''CERTIFICATE'' der) (pem_EncodeToMemory c ''PRIVATE KEY'' priv) = Inr cert"
  using assms by (auto simp: CreateSelfSignedTLSCertificate_def Let_def split: sum.splits)

lemma verbosity_level:
  \<comment> \<open>the level is the negated verbosity only up to 128; beyond, the conversion to \<open>int8\<close> wraps around\<close>
  "-127 \<le> v \<Longrightarrow> v \<le> 128 \<Longrightarrow> initLogging [] v = Some (- v)"
  "129 \<le> v \<Longrightarrow> v \<le> 255 \<Longrightarrow> initLogging [] v = Some (256 - v)"
proof -
  have w: "wrap64 (- 1 * v) = - v" if "-127 \<le> v" "v \<le> 255" for v :: int
    using that by (subst wrap64_id) (simp_all add: is_int64_def MinInt_def MaxInt_def)
  show "-127 \<le> v \<Longrightarrow> v \<le> 128 \<Longrightarrow> initLogging [] v = Some (- v)"
    using w [of v] by (simp add: initLogging_def int8_def)
  assume v: "129 \<le> v" "v \<le> 255"
  have "(- v + 128) mod 256 = - v + 128 + 256"
    using v by (intro int_mod_pos_eq [where q = "-1"]) auto
  with v w [of v] show "initLogging [] v = Some (256 - v)" by (simp add: initLogging_def int8_def)
qed

lemma Check_routable: "Check ds = SERVING \<longleftrightarrow> (\<exists>pool. PoolGet ds = Inr pool)"
  by (cases "ds_pool ds") (auto simp: Check_def PoolGet_def PoolHasSynced_def)

end
