(* ===== verification/Cluster.thy ===== *)
theory Cluster
  imports Wiring
begin

text \<open>
  The endpoint picker in its cluster. The API server holds pods, pools and models; the
  client of the manager sees those its cache options admit (\<open>DefaultManagerOptions\<close>), and
  every change of such an object puts its key on the work queue of its controller. A
  controller takes a key off its queue and reconciles it with what the client reads then; a
  key whose reconciliation reports an error stays on the queue. \<open>sys_step\<close> interleaves the
  changes of the cluster, the reconciliations and the refresh loops in any order.

  The invariant \<open>sys_ok\<close> says that the datastore differs from the cluster only where a key is
  on the queue. So when the queue is empty the datastore has converged, and reconciling
  each pending key once is enough to get there.
\<close>

subsection \<open>The cluster and the client of the manager\<close>

record cluster =
  cl_pods :: "(NamespacedName, corePod) gomap"
  cl_pools :: "(NamespacedName, InferencePool) gomap"
  cl_models :: "(NamespacedName, InferenceModel) gomap"

abbreviation pool_nn :: "InferencePool \<Rightarrow> NamespacedName" where
  "pool_nn p \<equiv> \<lparr>nn_Namespace = Namespace (pool_meta p), nn_Name = Name (pool_meta p)\<rparr>"

definition cached_pod :: "cache_options \<Rightarrow> NamespacedName \<Rightarrow> bool" where
  "cached_pod opts nn \<longleftrightarrow> nn_Namespace nn = pods_in opts"

definition cached_pool :: "cache_options \<Rightarrow> NamespacedName \<Rightarrow> bool" where
  "cached_pool opts nn \<longleftrightarrow> nn_Namespace nn = pools_in opts \<and> nn_Name nn = pool_named opts"

definition cached_model :: "cache_options \<Rightarrow> NamespacedName \<Rightarrow> bool" where
  "cached_model opts nn \<longleftrightarrow> nn_Namespace nn = models_in opts"

definition client_get :: "(NamespacedName \<Rightarrow> bool) \<Rightarrow> (NamespacedName, 'a) gomap \<Rightarrow> NamespacedName \<Rightarrow> 'a get_result" where
  "client_get cached m nn =
     (if cached nn then (case map_of m nn of None \<Rightarrow> NotFound | Some x \<Rightarrow> Found x) else NotFound)"

definition client_objects :: "(NamespacedName \<Rightarrow> bool) \<Rightarrow> (NamespacedName, 'a) gomap \<Rightarrow> 'a list" where
  "client_objects cached m = map snd (filter (cached \<circ> fst) m)"

definition list_pods :: "(labels \<Rightarrow> labels \<Rightarrow> bool) \<Rightarrow> cache_options \<Rightarrow> cluster \<Rightarrow> labels \<Rightarrow> string \<Rightarrow> string + corePod list" where
  \<comment> \<open>\<open>List\<close> with a label selector, in a namespace; it reads the cache and does not fail\<close>
  "list_pods matches opts cl sel ns =
     Inr (filter (\<lambda>p. Namespace (pod_meta p) = ns \<and> matches sel (Labels (pod_meta p)))
            (client_objects (cached_pod opts) (cl_pods cl)))"

definition list_models :: "cache_options \<Rightarrow> cluster \<Rightarrow> string \<Rightarrow> string \<Rightarrow> string + InferenceModel list" where
  \<comment> \<open>\<open>List\<close> by the index on the model name\<close>
  "list_models opts cl modelName ns =
     Inr (filter (\<lambda>m. Namespace (model_meta m) = ns \<and> modelName \<in> set (indexInferenceModelsByModelName (Some m)))
            (client_objects (cached_model opts) (cl_models cl)))"

subsection \<open>Work queues and steps\<close>

datatype key = PodKey NamespacedName | PoolKey NamespacedName | ModelKey NamespacedName

record system =
  sys_cluster :: cluster
  sys_ds :: datastore
  sys_queue :: "key list"

definition set_entry :: "(NamespacedName, 'a) gomap \<Rightarrow> NamespacedName \<Rightarrow> 'a option \<Rightarrow> (NamespacedName, 'a) gomap" where
  "set_entry m k v = (case v of None \<Rightarrow> AList.delete k m | Some x \<Rightarrow> AList.update k x m)"

definition enqueue_if :: "bool \<Rightarrow> key \<Rightarrow> key list \<Rightarrow> key list" where
  \<comment> \<open>a work queue holds a key once\<close>
  "enqueue_if b k q = (if b then List.insert k q else q)"

definition model_filter :: "string \<Rightarrow> InferenceModel option \<Rightarrow> InferenceModel option \<Rightarrow> bool" where
  \<comment> \<open>whether the event of a change passes the event filter of the model controller\<close>
  "model_filter poolName old new =
     (case (old, new) of
        (None, Some m) \<Rightarrow> event_filter poolName (CreateEvent m)
      | (Some m, Some m') \<Rightarrow> event_filter poolName (UpdateEvent m m')
      | (Some m, None) \<Rightarrow> event_filter poolName (DeleteEvent m)
      | (None, None) \<Rightarrow> False)"

datatype sys_event =
    ApplyPod NamespacedName "corePod option"
  | ApplyPool NamespacedName "InferencePool option"
  | ApplyModel NamespacedName "InferenceModel option"
  | Reconcile key
  | Refresh nat

definition requeue :: "error option \<Rightarrow> key \<Rightarrow> key list \<Rightarrow> key list" where
  \<comment> \<open>a key is done when its reconciliation reports no error\<close>
  "requeue e k q = (if e = None then removeAll k q else q)"

inductive sys_step ::
  "(Pod \<Rightarrow> Metrics \<Rightarrow> 32 word \<Rightarrow> Metrics option \<times> metric_error list) \<Rightarrow> (labels \<Rightarrow> labels \<Rightarrow> bool) \<Rightarrow> cache_options \<Rightarrow>
   sys_event \<Rightarrow> system \<Rightarrow> system \<Rightarrow> bool" for fetch matches opts where
  apply_pod: "(\<And>p. v = Some p \<Longrightarrow> pod_nn p = k) \<Longrightarrow>
    sys_step fetch matches opts (ApplyPod k v) s
      (s\<lparr>sys_cluster := (sys_cluster s)\<lparr>cl_pods := set_entry (cl_pods (sys_cluster s)) k v\<rparr>,
         sys_queue := enqueue_if (cached_pod opts k) (PodKey k) (sys_queue s)\<rparr>)"
| apply_pool: "(\<And>p. v = Some p \<Longrightarrow> pool_nn p = k \<and> is_map (Selector (pool_Spec p))) \<Longrightarrow>
    sys_step fetch matches opts (ApplyPool k v) s
      (s\<lparr>sys_cluster := (sys_cluster s)\<lparr>cl_pools := set_entry (cl_pools (sys_cluster s)) k v\<rparr>,
         sys_queue := enqueue_if (cached_pool opts k) (PoolKey k) (sys_queue s)\<rparr>)"
| apply_model: "(\<And>m. v = Some m \<Longrightarrow> model_nn m = k) \<Longrightarrow>
    sys_step fetch matches opts (ApplyModel k v) s
      (s\<lparr>sys_cluster := (sys_cluster s)\<lparr>cl_models := set_entry (cl_models (sys_cluster s)) k v\<rparr>,
         sys_queue := enqueue_if (cached_model opts k \<and> model_filter (pool_named opts) (map_of (cl_models (sys_cluster s)) k) v)
           (ModelKey k) (sys_queue s)\<rparr>)"
| reconcile_pod: "PodKey k \<in> set (sys_queue s) \<Longrightarrow>
    got = client_get (cached_pod opts) (cl_pods (sys_cluster s)) k \<or> got = GetError err \<Longrightarrow>
    Pod_Reconcile matches (sys_ds s) k got = Ret (ds', e) \<Longrightarrow>
    sys_step fetch matches opts (Reconcile (PodKey k)) s (s\<lparr>sys_ds := ds', sys_queue := requeue e (PodKey k) (sys_queue s)\<rparr>)"
| reconcile_pool: "PoolKey k \<in> set (sys_queue s) \<Longrightarrow>
    got = client_get (cached_pool opts) (cl_pools (sys_cluster s)) k \<or> got = GetError err \<Longrightarrow>
    Pool_Reconcile (list_pods matches opts (sys_cluster s)) (sys_ds s) got = Ret (ds', e) \<Longrightarrow>
    sys_step fetch matches opts (Reconcile (PoolKey k)) s (s\<lparr>sys_ds := ds', sys_queue := requeue e (PoolKey k) (sys_queue s)\<rparr>)"
| reconcile_model: "ModelKey k \<in> set (sys_queue s) \<Longrightarrow>
    got = client_get (cached_model opts) (cl_models (sys_cluster s)) k \<or> got = GetError err \<Longrightarrow>
    Model_Reconcile (list_models opts (sys_cluster s)) (pool_named opts) (sys_ds s) k got = Ret (ds', e) \<Longrightarrow>
    sys_step fetch matches opts (Reconcile (ModelKey k)) s (s\<lparr>sys_ds := ds', sys_queue := requeue e (ModelKey k) (sys_queue s)\<rparr>)"
| refresh: "a < length (ds_heap (sys_ds s)) \<Longrightarrow> \<not> pm_done (ds_heap (sys_ds s) ! a) \<Longrightarrow>
    sys_step fetch matches opts (Refresh a) s
      (s\<lparr>sys_ds := (sys_ds s)\<lparr>ds_heap := (ds_heap (sys_ds s))[a :=
         fst (refreshMetrics fetch (PoolGet (sys_ds s)) now (ds_heap (sys_ds s) ! a))]\<rparr>\<rparr>)"

inductive_cases sys_stepE: "sys_step fetch matches opts ev s s'"

definition initial_system :: "cache_options \<Rightarrow> cluster \<Rightarrow> system" where
  \<comment> \<open>the informers report every object they find when they start\<close>
  "initial_system opts cl =
     \<lparr>sys_cluster = cl, sys_ds = NewDatastore,
      sys_queue = map PodKey (filter (cached_pod opts) (keys (cl_pods cl))) @
                  map PoolKey (filter (cached_pool opts) (keys (cl_pools cl))) @
                  map ModelKey (filter (\<lambda>k. cached_model opts k \<and> model_filter (pool_named opts) None (map_of (cl_models cl) k))
                    (keys (cl_models cl)))\<rparr>"

subsection \<open>What the datastore should hold\<close>

definition wf_cluster :: "cluster \<Rightarrow> bool" where
  \<comment> \<open>objects are stored under their names; selectors are proper maps\<close>
  "wf_cluster cl \<longleftrightarrow> is_map (cl_pods cl) \<and> is_map (cl_pools cl) \<and>
     list_all (\<lambda>(k, p). pod_nn p = k) (cl_pods cl) \<and>
     list_all (\<lambda>(k, p). pool_nn p = k \<and> is_map (Selector (pool_Spec p))) (cl_pools cl)"

definition flag_pool :: "cache_options \<Rightarrow> NamespacedName" where
  "flag_pool opts = \<lparr>nn_Namespace = pools_in opts, nn_Name = pool_named opts\<rparr>"

definition live_pool :: "cache_options \<Rightarrow> cluster \<Rightarrow> InferencePool option" where
  \<comment> \<open>the pool of the flags, unless it is missing or being deleted\<close>
  "live_pool opts cl =
     (case map_of (cl_pools cl) (flag_pool opts) of
        None \<Rightarrow> None
      | Some p \<Rightarrow> if time_IsZero (DeletionTimestamp (pool_meta p)) then Some p else None)"

abbreviation selected :: "(labels \<Rightarrow> labels \<Rightarrow> bool) \<Rightarrow> InferencePool \<Rightarrow> corePod \<Rightarrow> bool" where
  "selected matches pool pod \<equiv>
     selectorFromInferencePoolSelector matches (Selector (pool_Spec pool)) (Labels (pod_meta pod))"

fun agrees :: "(labels \<Rightarrow> labels \<Rightarrow> bool) \<Rightarrow> InferencePool option \<Rightarrow> corePod get_result \<Rightarrow> podMetrics option \<Rightarrow> bool" where
  \<comment> \<open>what is stored agrees with the pod of the cluster: a pod of the pool is stored; one that is stored
     carries the labels, is ready and has the address of the cluster\<close>
  "agrees matches (Some pool) (Found pod) (Some pm) \<longleftrightarrow>
     selected matches pool pod \<and> podIsReady pod \<and> pm_pod pm = toInternalPod pod"
| "agrees matches (Some pool) (Found pod) None \<longleftrightarrow> \<not> in_pool matches pool pod"
| "agrees matches _ _ stored \<longleftrightarrow> stored = None"

abbreviation cl_pod :: "cache_options \<Rightarrow> cluster \<Rightarrow> NamespacedName \<Rightarrow> corePod get_result" where
  "cl_pod opts cl k \<equiv> client_get (cached_pod opts) (cl_pods cl) k"

definition pod_synced :: "(labels \<Rightarrow> labels \<Rightarrow> bool) \<Rightarrow> cache_options \<Rightarrow> cluster \<Rightarrow> datastore \<Rightarrow> NamespacedName \<Rightarrow> bool" where
  "pod_synced matches opts cl ds k \<longleftrightarrow> agrees matches (ds_pool ds) (cl_pod opts cl k) (PodLookup ds k)"

definition selector_of_map :: "(labels \<Rightarrow> labels \<Rightarrow> bool) \<Rightarrow> bool" where
  \<comment> \<open>\<open>labels.SelectorFromSet\<close> depends on its set as a map\<close>
  "selector_of_map matches \<longleftrightarrow> (\<forall>a b. is_map a \<longrightarrow> is_map b \<longrightarrow> map_of a = map_of b \<longrightarrow> matches a = matches b)"

definition sys_ok :: "(labels \<Rightarrow> labels \<Rightarrow> bool) \<Rightarrow> cache_options \<Rightarrow> system \<Rightarrow> bool" where
  "sys_ok matches opts s \<longleftrightarrow> wf_cluster (sys_cluster s) \<and> wf_ds (sys_ds s) \<and>
     (\<forall>k. PoolKey k \<in> set (sys_queue s) \<longrightarrow> k = flag_pool opts) \<and>
     (PoolKey (flag_pool opts) \<in> set (sys_queue s) \<or> ds_pool (sys_ds s) = live_pool opts (sys_cluster s)) \<and>
     (\<forall>p. ds_pool (sys_ds s) = Some p \<longrightarrow> is_map (Selector (pool_Spec p))) \<and>
     (ds_pool (sys_ds s) = None \<longrightarrow> PodLookup (sys_ds s) = Map.empty) \<and>
     (\<forall>k. PodLookup (sys_ds s) k \<noteq> None \<longrightarrow> cached_pod opts k) \<and>
     (\<forall>k. PodKey k \<in> set (sys_queue s) \<or> pod_synced matches opts (sys_cluster s) (sys_ds s) k)"

lemma client_get_set_entry:
  "client_get c (set_entry m k v) k' =
     (if k' = k then (if c k then (case v of None \<Rightarrow> NotFound | Some x \<Rightarrow> Found x) else NotFound) else client_get c m k')"
  by (auto simp: client_get_def set_entry_def store_simps split: option.splits)

lemma wf_cluster_apply:
  "wf_cluster cl \<Longrightarrow> (\<And>p. v = Some p \<Longrightarrow> pod_nn p = k) \<Longrightarrow> wf_cluster (cl\<lparr>cl_pods := set_entry (cl_pods cl) k v\<rparr>)"
  "wf_cluster cl \<Longrightarrow> (\<And>p. u = Some p \<Longrightarrow> pool_nn p = k \<and> is_map (Selector (pool_Spec p))) \<Longrightarrow>
     wf_cluster (cl\<lparr>cl_pools := set_entry (cl_pools cl) k u\<rparr>)"
  "wf_cluster cl \<Longrightarrow> wf_cluster (cl\<lparr>cl_models := ms\<rparr>)"
  by (auto simp: wf_cluster_def set_entry_def list_all_iff set_update_is_map set_delete split: option.splits)

lemma set_enqueue_if [simp]: "x \<in> set (enqueue_if b k q) \<longleftrightarrow> x \<in> set q \<or> b \<and> x = k"
  by (auto simp: enqueue_if_def)

lemma set_requeue [simp]: "x \<in> set (requeue e k q) \<longleftrightarrow> x \<in> set q \<and> (e \<noteq> None \<or> x \<noteq> k)"
  by (auto simp: requeue_def)

lemma cached_pool_iff: "cached_pool opts k \<longleftrightarrow> k = flag_pool opts"
  by (cases k) (auto simp: cached_pool_def flag_pool_def)

lemma sys_okD:
  assumes "sys_ok matches opts s"
  shows "wf_cluster (sys_cluster s)" "wf_ds (sys_ds s)" "PoolKey k \<in> set (sys_queue s) \<Longrightarrow> k = flag_pool opts"
    "PoolKey (flag_pool opts) \<in> set (sys_queue s) \<or> ds_pool (sys_ds s) = live_pool opts (sys_cluster s)"
    "ds_pool (sys_ds s) = Some p \<Longrightarrow> is_map (Selector (pool_Spec p))"
    "ds_pool (sys_ds s) = None \<Longrightarrow> PodLookup (sys_ds s) = Map.empty"
    "PodLookup (sys_ds s) k = Some pm \<Longrightarrow> cached_pod opts k"
    "PodKey k \<in> set (sys_queue s) \<or> pod_synced matches opts (sys_cluster s) (sys_ds s) k"
  using assms by (auto simp: sys_ok_def)

subsection \<open>Every step keeps the invariant\<close>

lemma ok_apply_pod:
  assumes ok: "sys_ok matches opts s" and v: "\<And>p. v = Some p \<Longrightarrow> pod_nn p = k"
  shows "sys_ok matches opts (s\<lparr>sys_cluster := (sys_cluster s)\<lparr>cl_pods := set_entry (cl_pods (sys_cluster s)) k v\<rparr>,
    sys_queue := enqueue_if (cached_pod opts k) (PodKey k) (sys_queue s)\<rparr>)"
proof -
  let ?cl = "(sys_cluster s)\<lparr>cl_pods := set_entry (cl_pods (sys_cluster s)) k v\<rparr>"
  have "live_pool opts ?cl = live_pool opts (sys_cluster s)" by (simp add: live_pool_def)
  moreover have "pod_synced matches opts ?cl (sys_ds s) k' = pod_synced matches opts (sys_cluster s) (sys_ds s) k'"
    if "k' = k \<Longrightarrow> \<not> cached_pod opts k" for k'
  proof -
    have "client_get (cached_pod opts) (cl_pods ?cl) k' = client_get (cached_pod opts) (cl_pods (sys_cluster s)) k'"
      using that by (auto simp: client_get_set_entry) (simp add: client_get_def)
    then show ?thesis by (simp add: pod_synced_def)
  qed
  moreover have "wf_cluster ?cl" using wf_cluster_apply(1) [OF sys_okD(1) [OF ok] v] .
  ultimately show ?thesis using ok by (simp add: sys_ok_def) metis
qed

lemma ok_apply_pool:
  assumes ok: "sys_ok matches opts s" and v: "\<And>p. v = Some p \<Longrightarrow> pool_nn p = k \<and> is_map (Selector (pool_Spec p))"
  shows "sys_ok matches opts (s\<lparr>sys_cluster := (sys_cluster s)\<lparr>cl_pools := set_entry (cl_pools (sys_cluster s)) k v\<rparr>,
    sys_queue := enqueue_if (cached_pool opts k) (PoolKey k) (sys_queue s)\<rparr>)"
proof -
  let ?cl = "(sys_cluster s)\<lparr>cl_pools := set_entry (cl_pools (sys_cluster s)) k v\<rparr>"
  have "live_pool opts ?cl = live_pool opts (sys_cluster s)" if "k \<noteq> flag_pool opts"
    using that by (auto simp: live_pool_def set_entry_def store_simps split: option.splits)
  moreover have "pod_synced matches opts ?cl = pod_synced matches opts (sys_cluster s)"
    by (simp add: pod_synced_def fun_eq_iff)
  moreover have "wf_cluster ?cl" using wf_cluster_apply(2) [OF sys_okD(1) [OF ok] v] .
  ultimately show ?thesis using ok by (cases "k = flag_pool opts") (auto simp: sys_ok_def cached_pool_iff)
qed

lemma client_get_pod: "wf_cluster cl \<Longrightarrow> client_get (cached_pod opts) (cl_pods cl) k = Found pod \<Longrightarrow> pod_nn pod = k \<and> cached_pod opts k"
  by (auto simp: client_get_def wf_cluster_def list_all_iff dest!: map_of_SomeD split: if_splits option.splits)

lemma reconcile_pod_result:
  assumes ok: "sys_ok matches opts s"
    and got: "got = client_get (cached_pod opts) (cl_pods (sys_cluster s)) k"
    and pool: "ds_pool (sys_ds s) = Some pool"
    and r: "Pod_Reconcile matches (sys_ds s) k got = Ret (ds', e)"
  shows "e = None \<and> wf_ds ds' \<and> ds_pool ds' = Some pool \<and>
    (\<forall>k'. k' \<noteq> k \<longrightarrow> PodLookup ds' k' = PodLookup (sys_ds s) k') \<and>
    (PodLookup ds' k \<noteq> None \<longrightarrow> cached_pod opts k) \<and> pod_synced matches opts (sys_cluster s) ds' k"
proof -
  have wf: "wf_pods (sys_ds s)" using sys_okD(2) [OF ok] by (simp add: wf_ds_def)
  have nn: "pod_nn pod = k \<and> cached_pod opts k" if "got = Found pod" for pod
    using client_get_pod [OF sys_okD(1) [OF ok]] that got by simp
  have "got \<noteq> GetError err" for err by (simp add: got client_get_def split: option.splits)
  from Pod_Reconcile_lookup [OF wf pool, of got k matches] this nn r have l:
    "e = None" "wf_pods ds'" "ds_pool ds' = Some pool" "ds_models ds' = ds_models (sys_ds s)"
    "PodLookup ds' = (PodLookup (sys_ds s))(k :=
      (case got of Found pod \<Rightarrow> if in_pool matches pool pod then Some (pod_upsert (PodLookup (sys_ds s) k) pod) else None
       | _ \<Rightarrow> None))" using pool by auto
  have "wf_ds ds'" using l(2,4) sys_okD(2) [OF ok] by (simp add: wf_ds_def wf_models_def)
  moreover have "pod_synced matches opts (sys_cluster s) ds' k"
    using l(3,5) by (cases got) (auto simp: pod_synced_def got [symmetric] in_pool_def)
  moreover have "PodLookup ds' k \<noteq> None \<longrightarrow> cached_pod opts k"
    using l(5) nn by (auto split: get_result.splits)
  ultimately show ?thesis using l by simp
qed

lemma ok_reconcile_pod:
  assumes ok: "sys_ok matches opts s"
    and got: "got = client_get (cached_pod opts) (cl_pods (sys_cluster s)) k \<or> got = GetError err"
    and r: "Pod_Reconcile matches (sys_ds s) k got = Ret (ds', e)"
  shows "sys_ok matches opts (s\<lparr>sys_ds := ds', sys_queue := requeue e (PodKey k) (sys_queue s)\<rparr>)"
proof (cases "ds_pool (sys_ds s)")
  case None
  then have "ds' = sys_ds s" "e = None" using r by (auto simp: Pod_Reconcile_def PoolGet_def PoolHasSynced_def)
  moreover have "pod_synced matches opts (sys_cluster s) (sys_ds s) k"
    using None sys_okD(6) [OF ok None] by (simp add: pod_synced_def)
  ultimately show ?thesis using ok by (auto simp: sys_ok_def)
next
  case (Some pool)
  show ?thesis
  proof (cases "got = GetError err")
    case True
    with Some r have "ds' = sys_ds s" "e \<noteq> None" by (auto simp: Pod_Reconcile_def PoolGet_def PoolHasSynced_def)
    with ok show ?thesis by (simp add: sys_ok_def)
  next
    case False
    with got have "got = client_get (cached_pod opts) (cl_pods (sys_cluster s)) k" by simp
    note l = reconcile_pod_result [OF ok this Some r]
    have "pod_synced matches opts (sys_cluster s) ds' k' = pod_synced matches opts (sys_cluster s) (sys_ds s) k'" if "k' \<noteq> k" for k'
      using l that Some by (simp add: pod_synced_def)
    with l ok Some show ?thesis by (simp add: sys_ok_def) metis
  qed
qed

lemma client_objects_set:
  "is_map m \<Longrightarrow> x \<in> set (client_objects c m) \<longleftrightarrow> (\<exists>k. client_get c m k = Found x)"
proof -
  assume m: "is_map m"
  have "client_get c m k = Found x \<longleftrightarrow> c k \<and> (k, x) \<in> set m" for k
    using is_map_map_of [OF m, of k x] by (auto simp: client_get_def split: option.splits)
  then show ?thesis by (auto simp: client_objects_def image_iff)
qed

lemma listed_pods:
  assumes wf: "wf_cluster cl" and ns: "pods_in opts = ns"
    and items: "list_pods matches opts cl sel ns = Inr items"
  shows "distinct (map pod_nn items)" "\<forall>q\<in>set items. Namespace (pod_meta q) = ns"
    "q \<in> set items \<longleftrightarrow> cl_pod opts cl (pod_nn q) = Found q \<and> matches sel (Labels (pod_meta q))"
proof -
  let ?ps = "client_objects (cached_pod opts) (cl_pods cl)"
  have map: "map pod_nn ?ps = filter (cached_pod opts) (keys (cl_pods cl))"
    using wf by (induction "cl_pods cl" arbitrary: cl)
      (auto simp: client_objects_def wf_cluster_def list_all_iff filter_map comp_def intro!: map_cong)
  have "distinct (map pod_nn ?ps)" unfolding map using wf by (simp add: wf_cluster_def is_map_def)
  with items show "distinct (map pod_nn items)" by (auto simp: list_pods_def distinct_map inj_on_def)
  show "\<forall>q\<in>set items. Namespace (pod_meta q) = ns" using items by (auto simp: list_pods_def)
  have "q \<in> set ?ps \<longleftrightarrow> cl_pod opts cl (pod_nn q) = Found q"
    using wf client_objects_set [of "cl_pods cl" q "cached_pod opts"] client_get_pod [OF wf, of opts _ q]
    by (auto simp: wf_cluster_def)
  then show "q \<in> set items \<longleftrightarrow> cl_pod opts cl (pod_nn q) = Found q \<and> matches sel (Labels (pod_meta q))"
    using items client_get_pod [OF wf, of opts "pod_nn q" q] ns by (auto simp: list_pods_def cached_pod_def)
qed

lemma DeepEqual_map: "DeepEqual_labels a b \<Longrightarrow> map_of a = map_of b"
proof
  fix k assume "DeepEqual_labels a b"
  then show "map_of a k = map_of b k"
    by (cases "k \<in> set (keys a @ keys b)") (auto simp: DeepEqual_labels_def list_all_iff map_of_eq_None_iff [symmetric])
qed

lemma agrees_same_selector:
  assumes "selector_of_map matches" "DeepEqual_labels (Selector (pool_Spec p)) (Selector (pool_Spec q))"
    "is_map (Selector (pool_Spec p))" "is_map (Selector (pool_Spec q))"
  shows "agrees matches (Some p) got pm = agrees matches (Some q) got pm"
proof -
  have "matches (Selector (pool_Spec p)) = matches (Selector (pool_Spec q))"
    using assms(1) DeepEqual_map [OF assms(2)] assms(3,4) unfolding selector_of_map_def by blast
  then have "selected matches p pod = selected matches q pod" for pod
    using assms(3,4) by (simp add: selectorFromInferencePoolSelector_def)
  then show ?thesis by (cases got; cases pm) (simp_all add: in_pool_def)
qed

lemma Pool_updateDatastore_synced:
  assumes sel: "selector_of_map matches" and ok: "sys_ok matches opts s" and same_ns: "pods_in opts = pools_in opts"
    and p: "client_get (cached_pool opts) (cl_pools (sys_cluster s)) k = Found p"
    and r: "Pool_updateDatastore (list_pods matches opts (sys_cluster s)) (sys_ds s) p = Ret ds'"
    and settled: "PodKey j \<notin> set (sys_queue s)"
  shows "pod_synced matches opts (sys_cluster s) ds' j"
proof -
  have "pool_nn p = k \<and> cached_pool opts k \<and> is_map (Selector (pool_Spec p))"
    using p sys_okD(1) [OF ok]
    by (auto simp: client_get_def wf_cluster_def list_all_iff dest!: map_of_SomeD split: if_splits option.splits)
  then have ns: "Namespace (pool_meta p) = pods_in opts" and m: "is_map (Selector (pool_Spec p))"
    using same_ns by (auto simp: cached_pool_def)
  have wf: "wf_pods (sys_ds s)" using sys_okD(2) [OF ok] by (simp add: wf_ds_def)
  then have pool: "ds_pool ds' = Some p" using Pool_updateDatastore_total [OF wf, of "list_pods matches opts (sys_cluster s)" p] r by auto
  show ?thesis
  proof (cases "\<exists>q. ds_pool (sys_ds s) = Some q \<and> DeepEqual_labels (Selector (pool_Spec p)) (Selector (pool_Spec q))")
    case True
    then obtain q where q: "ds_pool (sys_ds s) = Some q" "DeepEqual_labels (Selector (pool_Spec p)) (Selector (pool_Spec q))" by blast
    then have "ds' = PoolSet (sys_ds s) (Some p)"
      using r by (simp add: Pool_updateDatastore_def PoolGet_def PoolHasSynced_def Let_def)
    with q sys_okD(8) [OF ok, of j] settled agrees_same_selector [OF sel q(2) m sys_okD(5) [OF ok q(1)]] show ?thesis
      by (simp add: pod_synced_def)
  next
    case False
    let ?ds = "PoolSet (sys_ds s) (Some p)"
    obtain items where ls: "selectorFromInferencePoolSelector (list_pods matches opts (sys_cluster s)) (Selector (pool_Spec p))
        (Namespace (pool_meta p)) = Inr items"
      by (simp add: selectorFromInferencePoolSelector_def list_pods_def)
    note li = listed_pods [OF sys_okD(1) [OF ok] ns [symmetric] ls [unfolded selectorFromInferencePoolSelector_def]]
    have res: "PodResyncAll (list_pods matches opts (sys_cluster s)) ?ds p = Ret ds'"
      using r False by (auto simp: Pool_updateDatastore_def PoolGet_def PoolHasSynced_def Let_def split: option.splits)
    have cached: "nn_Namespace k = Namespace (pool_meta p)" if "PodLookup ?ds k \<noteq> None" for k
      using that sys_okD(7) [OF ok, of k] ns by (auto simp: cached_pod_def)
    have l: "PodLookup ds' j = map_option (pod_upsert (PodLookup (sys_ds s) j)) (find (\<lambda>q. podIsReady q \<and> pod_nn q = j) items)"
      using PodResyncAll_lookup [OF _ ls li(1,2) cached res, of j] wf by simp
    show ?thesis
    proof (cases "find (\<lambda>q. podIsReady q \<and> pod_nn q = j) items")
      case None
      have "\<not> in_pool matches p pod" if "cl_pod opts (sys_cluster s) j = Found pod" for pod
        using None li(3) [of pod] client_get_pod [OF sys_okD(1) [OF ok] that] that
        by (auto simp: find_None_iff in_pool_def selectorFromInferencePoolSelector_def)
      with None l pool show ?thesis by (cases "cl_pod opts (sys_cluster s) j") (auto simp: pod_synced_def)
    next
      case (Some q)
      then have "q \<in> set items" "podIsReady q" "pod_nn q = j" by (auto simp: find_Some_iff)
      with Some l pool li(3) [of q] show ?thesis
        by (auto simp: pod_synced_def selectorFromInferencePoolSelector_def)
    qed
  qed
qed

lemma Pool_updateDatastore_cached:
  assumes ok: "sys_ok matches opts s" and same_ns: "pods_in opts = pools_in opts"
    and p: "client_get (cached_pool opts) (cl_pools (sys_cluster s)) k = Found p"
    and r: "Pool_updateDatastore (list_pods matches opts (sys_cluster s)) (sys_ds s) p = Ret ds'"
    and j: "PodLookup ds' j \<noteq> None"
  shows "cached_pod opts j"
proof -
  have ns: "Namespace (pool_meta p) = pods_in opts"
    using p sys_okD(1) [OF ok] same_ns
    by (auto simp: client_get_def wf_cluster_def cached_pool_def list_all_iff dest!: map_of_SomeD split: if_splits option.splits)
  have wf: "wf_pods (sys_ds s)" using sys_okD(2) [OF ok] by (simp add: wf_ds_def)
  let ?ds = "PoolSet (sys_ds s) (Some p)"
  obtain items where ls: "selectorFromInferencePoolSelector (list_pods matches opts (sys_cluster s)) (Selector (pool_Spec p))
      (Namespace (pool_meta p)) = Inr items"
    by (simp add: selectorFromInferencePoolSelector_def list_pods_def)
  note li = listed_pods [OF sys_okD(1) [OF ok] ns [symmetric] ls [unfolded selectorFromInferencePoolSelector_def]]
  have "ds' = ?ds \<or> PodResyncAll (list_pods matches opts (sys_cluster s)) ?ds p = Ret ds'"
    using r by (auto simp: Pool_updateDatastore_def Let_def split: sum.splits if_splits)
  then show ?thesis
  proof
    assume "ds' = ?ds"
    with j sys_okD(7) [OF ok, of j] show ?thesis by auto
  next
    assume "PodResyncAll (list_pods matches opts (sys_cluster s)) ?ds p = Ret ds'"
    with PodResyncAll_spec [OF _ ls, of ?ds] wf j have
      "(\<exists>q\<in>set items. pod_nn q = j) \<or> PodLookup (sys_ds s) j \<noteq> None" by auto
    with li(2) ns sys_okD(7) [OF ok, of j] show ?thesis by (auto simp: cached_pod_def)
  qed
qed

lemma ok_reconcile_pool:
  assumes sel: "selector_of_map matches" and ok: "sys_ok matches opts s" and same_ns: "pods_in opts = pools_in opts"
    and k: "PoolKey k \<in> set (sys_queue s)"
    and got: "got = client_get (cached_pool opts) (cl_pools (sys_cluster s)) k \<or> got = GetError err"
    and r: "Pool_Reconcile (list_pods matches opts (sys_cluster s)) (sys_ds s) got = Ret (ds', e)"
  shows "sys_ok matches opts (s\<lparr>sys_ds := ds', sys_queue := requeue e (PoolKey k) (sys_queue s)\<rparr>)"
proof (cases "got = GetError err")
  case True
  with r have "ds' = sys_ds s" "e \<noteq> None" by (auto simp: Pool_Reconcile_def)
  with ok show ?thesis by (simp add: sys_ok_def)
next
  case False
  with got have got: "got = client_get (cached_pool opts) (cl_pools (sys_cluster s)) k" by simp
  have kk: "k = flag_pool opts" using sys_okD(3) [OF ok k] .
  have wf': "wf_ds ds'" using Pool_Reconcile_total [OF sys_okD(2) [OF ok], of "list_pods matches opts (sys_cluster s)" got] r by auto
  show ?thesis
  proof (cases "\<exists>p. got = Found p \<and> time_IsZero (DeletionTimestamp (pool_meta p))")
    case True
    then obtain p where p: "got = Found p" "time_IsZero (DeletionTimestamp (pool_meta p))" by blast
    with r have u: "Pool_updateDatastore (list_pods matches opts (sys_cluster s)) (sys_ds s) p = Ret ds'" "e = None"
      by (auto simp: Pool_Reconcile_def go_simps)
    have wf: "wf_pods (sys_ds s)" using sys_okD(2) [OF ok] by (simp add: wf_ds_def)
    have pool: "ds_pool ds' = Some p"
      using Pool_updateDatastore_total [OF wf, of "list_pods matches opts (sys_cluster s)" p] u(1) by auto
    have "map_of (cl_pools (sys_cluster s)) (flag_pool opts) = Some p"
      using p(1) got kk by (auto simp: client_get_def split: if_splits option.splits)
    then have live: "live_pool opts (sys_cluster s) = Some p" and m: "is_map (Selector (pool_Spec p))"
      using p(2) sys_okD(1) [OF ok] by (auto simp: live_pool_def wf_cluster_def list_all_iff dest!: map_of_SomeD)
    have f: "client_get (cached_pool opts) (cl_pools (sys_cluster s)) k = Found p" using p(1) got by simp
    have synced: "PodKey j \<in> set (sys_queue s) \<or> pod_synced matches opts (sys_cluster s) ds' j" for j
      using Pool_updateDatastore_synced [OF sel ok same_ns f u(1)] by blast
    have "cached_pod opts j" if "PodLookup ds' j \<noteq> None" for j
      using Pool_updateDatastore_cached [OF ok same_ns f u(1) that] .
    with synced pool live m wf' u(2) kk ok show ?thesis by (auto simp: sys_ok_def)
  next
    case False
    then have ds': "ds' = Clear (sys_ds s)" "e = None"
      using r got by (auto simp: Pool_Reconcile_def client_get_def split: get_result.splits if_splits option.splits)
    have "live_pool opts (sys_cluster s) = None"
      using False got kk cached_pool_iff [of opts k] by (auto simp: live_pool_def client_get_def split: option.splits)
    moreover have "ds_pool ds' = None" "PodLookup ds' = Map.empty"
      by (simp_all add: ds' Clear_def PodLookup_def fun_eq_iff)
    moreover have "pod_synced matches opts (sys_cluster s) ds' j" for j
      using \<open>ds_pool ds' = None\<close> \<open>PodLookup ds' = Map.empty\<close> by (simp add: pod_synced_def)
    ultimately show ?thesis using ds'(2) ok wf' kk by (auto simp: sys_ok_def)
  qed
qed

lemma PodLookup_cong: "ds_pods ds' = ds_pods ds \<Longrightarrow> ds_heap ds' = ds_heap ds \<Longrightarrow> PodLookup ds' = PodLookup ds"
  by (simp add: PodLookup_def fun_eq_iff)

lemma ok_reconcile_model:
  assumes ok: "sys_ok matches opts s"
    and r: "Model_Reconcile listModels poolName (sys_ds s) k got = Ret (ds', e)"
  shows "sys_ok matches opts (s\<lparr>sys_ds := ds', sys_queue := requeue e (ModelKey k) (sys_queue s)\<rparr>)"
proof -
  have m: "wf_models ds'" "ds_pods ds' = ds_pods (sys_ds s)" "ds_heap ds' = ds_heap (sys_ds s)" "ds_pool ds' = ds_pool (sys_ds s)"
    using Model_Reconcile_wf [OF _ r] sys_okD(2) [OF ok] by (auto simp: wf_ds_def)
  then have "wf_ds ds'" using sys_okD(2) [OF ok] by (simp add: wf_ds_def wf_pods_def)
  moreover have "PodLookup ds' = PodLookup (sys_ds s)" using PodLookup_cong [OF m(2,3)] .
  ultimately show ?thesis using m(4) ok by (auto simp: sys_ok_def pod_synced_def)
qed

lemma agrees_pod: "map_option pm_pod x = map_option pm_pod y \<Longrightarrow> agrees matches pool got x = agrees matches pool got y"
  by (cases pool; cases got; cases x; cases y) auto

lemma ok_refresh:
  assumes ok: "sys_ok matches opts s" and a: "a < length (ds_heap (sys_ds s))"
  shows "sys_ok matches opts (s\<lparr>sys_ds := (sys_ds s)\<lparr>ds_heap := (ds_heap (sys_ds s))[a :=
    fst (refreshMetrics fetch (PoolGet (sys_ds s)) now (ds_heap (sys_ds s) ! a))]\<rparr>\<rparr>)"
proof -
  let ?ds = "(sys_ds s)\<lparr>ds_heap := (ds_heap (sys_ds s))[a := fst (refreshMetrics fetch (PoolGet (sys_ds s)) now (ds_heap (sys_ds s) ! a))]\<rparr>"
  have wf: "wf_ds ?ds"
    using heap_frame [OF a refreshMetrics_frame(1-3) [of fetch "PoolGet (sys_ds s)" now]] sys_okD(2) [OF ok]
    by (simp add: wf_ds_def wf_models_def)
  have l: "map_option pm_pod (PodLookup ?ds k) = map_option pm_pod (PodLookup (sys_ds s) k)" for k
    using a refreshMetrics_frame(1) [of fetch "PoolGet (sys_ds s)" now]
    by (cases "map_of (ds_pods (sys_ds s)) k") (auto simp: PodLookup_def nth_list_update)
  then have "PodLookup ?ds k = None \<longleftrightarrow> PodLookup (sys_ds s) k = None" for k
    by (metis option.map_disc_iff)
  moreover have "pod_synced matches opts (sys_cluster s) ?ds k = pod_synced matches opts (sys_cluster s) (sys_ds s) k" for k
    using agrees_pod [OF l] by (simp add: pod_synced_def)
  ultimately show ?thesis using ok wf by (auto simp: sys_ok_def fun_eq_iff)
qed

lemma sys_step_ok:
  assumes "selector_of_map matches" "pods_in opts = pools_in opts" "sys_ok matches opts s" "sys_step fetch matches opts ev s s'"
  shows "sys_ok matches opts s'"
  using assms(4)
proof (cases rule: sys_step.cases)
  case (apply_model v k)
  have "wf_cluster ((sys_cluster s)\<lparr>cl_models := set_entry (cl_models (sys_cluster s)) k v\<rparr>)"
    using wf_cluster_apply(3) [OF sys_okD(1) [OF assms(3)]] .
  with assms(3) show ?thesis unfolding apply_model(2) by (simp add: sys_ok_def live_pool_def pod_synced_def)
next
  case (reconcile_pool k got err ds' e)
  then show ?thesis using ok_reconcile_pool [OF assms(1,3,2)] by simp
qed (use assms(3) in \<open>simp_all add: ok_apply_pod ok_apply_pool ok_reconcile_model ok_refresh ok_reconcile_pod\<close>)

lemma initial_system_ok:
  assumes "wf_cluster cl"
  shows "sys_ok matches opts (initial_system opts cl)"
proof -
  have l: "PodLookup NewDatastore = Map.empty" by (simp add: PodLookup_def NewDatastore_def fun_eq_iff)
  have "PodKey k \<in> set (sys_queue (initial_system opts cl)) \<or> pod_synced matches opts cl NewDatastore k" for k
    by (simp add: pod_synced_def l) (simp add: NewDatastore_def)
  moreover have "PoolKey (flag_pool opts) \<in> set (sys_queue (initial_system opts cl)) \<or> None = live_pool opts cl"
    by (auto simp: initial_system_def live_pool_def cached_pool_iff image_iff split: option.splits dest: map_of_SomeD)
      (metis fst_conv map_of_SomeD)
  ultimately show ?thesis
    using assms wf_NewDatastore l by (auto simp: sys_ok_def initial_system_def cached_pool_iff NewDatastore_def)
qed

interpretation sys_invariant: step_invariant "sys_step fetch matches opts" "\<lambda>s. selector_of_map matches \<and> pods_in opts = pools_in opts \<and> sys_ok matches opts s" "\<lambda>_. True"
  for fetch matches opts
  by unfold_locales (use sys_step_ok in blast)

subsection \<open>Convergence\<close>

definition consistent :: "(labels \<Rightarrow> labels \<Rightarrow> bool) \<Rightarrow> cache_options \<Rightarrow> cluster \<Rightarrow> datastore \<Rightarrow> bool" where
  \<comment> \<open>the datastore has the pool, and agrees with the cluster on every pod\<close>
  "consistent matches opts cl ds \<longleftrightarrow> ds_pool ds = live_pool opts cl \<and> (\<forall>k. pod_synced matches opts cl ds k)"

fun serving_key :: "key \<Rightarrow> bool" where
  \<comment> \<open>a key of the pool or of a pod\<close>
  "serving_key (ModelKey k) = False"
| "serving_key _ = True"

definition pending :: "system \<Rightarrow> key list" where
  "pending s = filter serving_key (sys_queue s)"

lemma consistent_if_settled: "sys_ok matches opts s \<Longrightarrow> pending s = [] \<Longrightarrow> consistent matches opts (sys_cluster s) (sys_ds s)"
proof -
  assume ok: "sys_ok matches opts s" and "pending s = []"
  then have n: "PodKey k \<notin> set (sys_queue s)" "PoolKey k \<notin> set (sys_queue s)" for k
    by (force simp: pending_def filter_empty_conv)+
  show ?thesis
    using n sys_okD(4) [OF ok] sys_okD(8) [OF ok] unfolding consistent_def by blast
qed

lemma consistent_pods:
  assumes "consistent matches opts cl ds"
  shows "PodLookup ds k = Some pm \<Longrightarrow> \<exists>pool pod. live_pool opts cl = Some pool \<and> cl_pod opts cl k = Found pod \<and>
      selected matches pool pod \<and> podIsReady pod \<and> pm_pod pm = toInternalPod pod"
    and "live_pool opts cl = Some pool \<Longrightarrow> cl_pod opts cl k = Found pod \<Longrightarrow> in_pool matches pool pod \<Longrightarrow>
      \<exists>pm. PodLookup ds k = Some pm \<and> pm_pod pm = toInternalPod pod"
proof -
  have s: "agrees matches (live_pool opts cl) (cl_pod opts cl k) (PodLookup ds k)" for k
    using assms unfolding consistent_def pod_synced_def by metis
  show "PodLookup ds k = Some pm \<Longrightarrow> \<exists>pool pod. live_pool opts cl = Some pool \<and> cl_pod opts cl k = Found pod \<and>
      selected matches pool pod \<and> podIsReady pod \<and> pm_pod pm = toInternalPod pod"
    using s [of k] by (cases "live_pool opts cl"; cases "cl_pod opts cl k") auto
  show "live_pool opts cl = Some pool \<Longrightarrow> cl_pod opts cl k = Found pod \<Longrightarrow> in_pool matches pool pod \<Longrightarrow>
      \<exists>pm. PodLookup ds k = Some pm \<and> pm_pod pm = toInternalPod pod"
    using s [of k] by (cases "PodLookup ds k") auto
qed

lemma reconcile_enabled:
  assumes ok: "sys_ok matches opts s" and k: "k \<in> set (pending s)"
  shows "\<exists>s'. sys_step fetch matches opts (Reconcile k) s s' \<and> sys_cluster s' = sys_cluster s \<and> sys_queue s' = removeAll k (sys_queue s)"
proof (cases k)
  case (PodKey nn)
  let ?got = "cl_pod opts (sys_cluster s) nn"
  have q: "PodKey nn \<in> set (sys_queue s)" using k PodKey by (simp add: pending_def)
  from Pod_Reconcile_total [of "sys_ds s" matches nn ?got] sys_okD(2) [OF ok] obtain ds' e where
    r: "Pod_Reconcile matches (sys_ds s) nn ?got = Ret (ds', e)" by (auto simp: wf_ds_def)
  have "e = None"
  proof (cases "ds_pool (sys_ds s)")
    case None
    with r show ?thesis by (auto simp: Pod_Reconcile_def PoolGet_def PoolHasSynced_def)
  next
    case (Some pool)
    from reconcile_pod_result [OF ok refl Some r] show ?thesis by simp
  qed
  with sys_step.reconcile_pod [OF q disjI1 [OF refl] r, of fetch] PodKey show ?thesis
    by (intro exI [of _ "s\<lparr>sys_ds := ds', sys_queue := removeAll k (sys_queue s)\<rparr>"]) (simp add: requeue_def)
next
  case (PoolKey nn)
  let ?got = "client_get (cached_pool opts) (cl_pools (sys_cluster s)) nn"
  have q: "PoolKey nn \<in> set (sys_queue s)" using k PoolKey by (simp add: pending_def)
  from Pool_Reconcile_total [OF sys_okD(2) [OF ok], of "list_pods matches opts (sys_cluster s)" ?got] obtain ds' e where
    r: "Pool_Reconcile (list_pods matches opts (sys_cluster s)) (sys_ds s) ?got = Ret (ds', e)" by auto
  then have "e = None"
    by (auto simp: Pool_Reconcile_def client_get_def go_simps split: option.splits if_splits)
  with sys_step.reconcile_pool [OF q disjI1 [OF refl] r, of fetch] PoolKey show ?thesis
    by (intro exI [of _ "s\<lparr>sys_ds := ds', sys_queue := removeAll k (sys_queue s)\<rparr>"]) (simp add: requeue_def)
qed (use k in \<open>simp add: pending_def\<close>)

lemma serving_key_handled:
  assumes inv: "selector_of_map matches" "pods_in opts = pools_in opts" "sys_ok matches opts s" and k: "k \<in> set (pending s)"
  shows "\<exists>s'. sys_step fetch matches opts (Reconcile k) s s' \<and> sys_ok matches opts s' \<and>
    pending s' = removeAll k (pending s) \<and> sys_cluster s' = sys_cluster s"
proof -
  from reconcile_enabled [OF inv(3) k, of fetch] obtain s' where s':
    "sys_step fetch matches opts (Reconcile k) s s'" "sys_cluster s' = sys_cluster s" "sys_queue s' = removeAll k (sys_queue s)" by blast
  then have "pending s' = removeAll k (pending s)"
    by (simp add: pending_def removeAll_filter_not_eq conj_commute)
  with s' sys_step_ok [OF inv s'(1)] show ?thesis by blast
qed

interpretation serving_queue: work_queue "sys_step fetch matches opts"
    "\<lambda>s. selector_of_map matches \<and> pods_in opts = pools_in opts \<and> sys_ok matches opts s" pending Reconcile sys_cluster
  for fetch matches opts
  by unfold_locales (use serving_key_handled in blast)

lemma drain:
  assumes "selector_of_map matches" "pods_in opts = pools_in opts" "sys_ok matches opts s"
  shows "\<exists>ks s'. run (sys_step fetch matches opts) s (map Reconcile ks) s' \<and> length ks \<le> length (pending s) \<and>
    set ks \<subseteq> set (pending s) \<and> sys_cluster s' = sys_cluster s \<and> pending s' = [] \<and> sys_ok matches opts s'"
  using serving_queue.drained [of matches opts s fetch] assms by blast

lemma reachable_ok:
  assumes "selector_of_map matches" "wf_cluster cl"
    "run (sys_step fetch matches (DefaultManagerOptions ns name)) (initial_system (DefaultManagerOptions ns name) cl) evs s"
  shows "sys_ok matches (DefaultManagerOptions ns name) s"
  using sys_invariant.run_keeps [OF assms(3)] initial_system_ok [OF assms(2)] assms(1) by (simp add: DefaultManagerOptions_def)

text \<open>
  C15. The datastore follows the cluster. Whatever happens to the objects of the cluster, in
  whatever order the controllers and the refresh loops run, one reconciliation at a time, and
  whichever reads of single objects fail (lists are read from the cache and do not), when no
  key of the pool or of a pod is on the work queues: the stored pool is that of the
  cluster; every stored pod is a ready pod of the cluster with the labels of the pool, with
  its current address; every ready pod of the pool that is not being deleted is stored; and
  the health check says SERVING exactly when there is a pool.
\<close>

theorem settled_store_follows_cluster:
  assumes sel: "selector_of_map matches" and cl: "wf_cluster cl"
    and run: "run (sys_step fetch matches (DefaultManagerOptions ns name)) (initial_system (DefaultManagerOptions ns name) cl) evs s"
    and settled: "pending s = []"
  shows "let opts = DefaultManagerOptions ns name; ds = sys_ds s; pool = live_pool opts (sys_cluster s) in
    ds_pool ds = pool \<and> (Check ds = SERVING \<longleftrightarrow> pool \<noteq> None) \<and>
    (\<forall>pm\<in>set (PodGetAll ds). \<exists>p pod. pool = Some p \<and> cl_pod opts (sys_cluster s) (pm_nn pm) = Found pod \<and>
       selected matches p pod \<and> podIsReady pod \<and> pm_pod pm = toInternalPod pod) \<and>
    (\<forall>p k pod. pool = Some p \<longrightarrow> cl_pod opts (sys_cluster s) k = Found pod \<longrightarrow> in_pool matches p pod \<longrightarrow>
       (\<exists>pm\<in>set (PodGetAll ds). pm_pod pm = toInternalPod pod))"
proof -
  let ?opts = "DefaultManagerOptions ns name" and ?ds = "sys_ds s"
  note ok = reachable_ok [OF sel cl run]
  have c: "consistent matches ?opts (sys_cluster s) ?ds" by (rule consistent_if_settled [OF ok settled])
  then have pool: "ds_pool ?ds = live_pool ?opts (sys_cluster s)" by (simp add: consistent_def)
  have wf: "wf_pods ?ds" using sys_okD(2) [OF ok] by (simp add: wf_ds_def)
  have "\<exists>p pod. live_pool ?opts (sys_cluster s) = Some p \<and> cl_pod ?opts (sys_cluster s) (pm_nn pm) = Found pod \<and>
       selected matches p pod \<and> podIsReady pod \<and> pm_pod pm = toInternalPod pod" if "pm \<in> set (PodGetAll ?ds)" for pm
  proof -
    from that obtain k where k: "PodLookup ?ds k = Some pm" using PodGetAll_iff [OF wf] by blast
    with PodLookup_nn [OF wf] consistent_pods(1) [OF c k] show ?thesis by auto
  qed
  moreover have "\<exists>pm\<in>set (PodGetAll ?ds). pm_pod pm = toInternalPod pod"
    if "live_pool ?opts (sys_cluster s) = Some p" "cl_pod ?opts (sys_cluster s) k = Found pod" "in_pool matches p pod" for p k pod
    using consistent_pods(2) [OF c that] PodGetAll_iff [OF wf] by blast
  moreover have "Check ?ds = SERVING \<longleftrightarrow> live_pool ?opts (sys_cluster s) \<noteq> None"
    using pool by (auto simp: Check_def PoolHasSynced_def)
  ultimately show ?thesis using pool by (simp add: Let_def)
qed

definition example_cluster :: cluster where
  "example_cluster = \<lparr>cl_pods = [(pod_nn (example_pod ''a'' ''10.0.0.1''), example_pod ''a'' ''10.0.0.1'')],
     cl_pools = [(pool_nn example_pool, example_pool)], cl_models = []\<rparr>"

abbreviation example_opts :: cache_options where
  "example_opts \<equiv> DefaultManagerOptions ''ns'' ''pool''"

lemma example_matches_map: "selector_of_map example_matches"
proof -
  have "example_matches a = example_matches b" if "is_map a" "is_map b" "map_of a = map_of b" for a b :: labels
  proof -
    have "e \<in> set a \<longleftrightarrow> e \<in> set b" for e
      using is_map_map_of [OF that(1), of "fst e" "snd e"] is_map_map_of [OF that(2), of "fst e" "snd e"] that(3) by simp
    then show ?thesis by (auto simp: example_matches_def fun_eq_iff)
  qed
  then show ?thesis unfolding selector_of_map_def by blast
qed

lemma example_cluster_facts:
  "wf_cluster example_cluster" "live_pool example_opts example_cluster = Some example_pool"
  "cl_pod example_opts example_cluster (pod_nn (example_pod ''a'' ''10.0.0.1'')) = Found (example_pod ''a'' ''10.0.0.1'')"
  "in_pool example_matches example_pool (example_pod ''a'' ''10.0.0.1'')"
  by (simp_all add: wf_cluster_def example_cluster_def live_pool_def flag_pool_def DefaultManagerOptions_def client_get_def
      cached_pod_def in_pool_def example_pool_def example_pod_def example_matches_def podIsReady_def
      selectorFromInferencePoolSelector_def time_IsZero_def is_map_def)

theorem settled_store_follows_cluster_witness:
  "\<exists>evs s. run (sys_step (\<lambda>_ _ _. (None, [])) example_matches example_opts) (initial_system example_opts example_cluster) evs s \<and>
     pending s = [] \<and> Check (sys_ds s) = SERVING \<and>
     (\<exists>pm\<in>set (PodGetAll (sys_ds s)). Address (pm_pod pm) = ''10.0.0.1'')"
proof -
  have "pods_in example_opts = pools_in example_opts" by (simp add: DefaultManagerOptions_def)
  from drain [OF example_matches_map this initial_system_ok [OF example_cluster_facts(1)], of "\<lambda>_ _ _. (None, [])"] obtain ks s where
    r: "run (sys_step (\<lambda>_ _ _. (None, [])) example_matches example_opts) (initial_system example_opts example_cluster) (map Reconcile ks) s"
      "pending s = []" and cl: "sys_cluster s = example_cluster" by (auto simp: initial_system_def)
  note t = settled_store_follows_cluster [OF example_matches_map example_cluster_facts(1) r, unfolded cl Let_def]
  from t example_cluster_facts(2-4) obtain pm where
    "pm \<in> set (PodGetAll (sys_ds s))" "pm_pod pm = toInternalPod (example_pod ''a'' ''10.0.0.1'')" by blast
  moreover have "Address (toInternalPod (example_pod ''a'' ''10.0.0.1'')) = ''10.0.0.1''"
    by (simp add: toInternalPod_def example_pod_def)
  ultimately have "\<exists>pm\<in>set (PodGetAll (sys_ds s)). Address (pm_pod pm) = ''10.0.0.1''" by (intro bexI [of _ pm]) simp_all
  moreover have "Check (sys_ds s) = SERVING" using t example_cluster_facts(2) by simp
  ultimately show ?thesis using r by blast
qed

text \<open>
  C16. The datastore catches up. From every state the system can reach, reconciling keys that
  are on the work queues, at most as many as are pending, without any further change of the
  cluster, gives a state in which the datastore is consistent with the cluster. No
  reconciliation of a pending key of the pool or a pod panics.
\<close>

theorem store_catches_up:
  assumes sel: "selector_of_map matches" and cl: "wf_cluster cl"
    and run: "run (sys_step fetch matches (DefaultManagerOptions ns name)) (initial_system (DefaultManagerOptions ns name) cl) evs s"
  shows "\<exists>ks s'. run (sys_step fetch matches (DefaultManagerOptions ns name)) s (map Reconcile ks) s' \<and>
    length ks \<le> length (pending s) \<and> set ks \<subseteq> set (pending s) \<and> sys_cluster s' = sys_cluster s \<and> pending s' = [] \<and>
    consistent matches (DefaultManagerOptions ns name) (sys_cluster s) (sys_ds s')"
proof -
  have "pods_in (DefaultManagerOptions ns name) = pools_in (DefaultManagerOptions ns name)" by (simp add: DefaultManagerOptions_def)
  from drain [OF sel this reachable_ok [OF sel cl run], of fetch] obtain ks s' where d:
    "run (sys_step fetch matches (DefaultManagerOptions ns name)) s (map Reconcile ks) s'" "length ks \<le> length (pending s)"
    "set ks \<subseteq> set (pending s)" "sys_cluster s' = sys_cluster s" "pending s' = []" "sys_ok matches (DefaultManagerOptions ns name) s'" by blast
  from consistent_if_settled [OF d(6,5)] d show ?thesis by (intro exI [of _ ks] exI [of _ s']) simp
qed

theorem store_catches_up_witness:
  "\<exists>ks s. run (sys_step (\<lambda>_ _ _. (None, [])) example_matches example_opts) (initial_system example_opts example_cluster)
     (map Reconcile ks) s \<and> length ks \<le> 2 \<and> consistent example_matches example_opts example_cluster (sys_ds s)"
proof -
  have "length (pending (initial_system example_opts example_cluster)) \<le> 2"
    by (simp add: pending_def initial_system_def example_cluster_def)
  with store_catches_up [OF example_matches_map example_cluster_facts(1) run_nil, of "\<lambda>_ _ _. (None, [])"] show ?thesis
    by (fastforce simp: initial_system_def)
qed

subsection \<open>Where the datastore does not follow\<close>

text \<open>
  A failing \<open>List\<close> of the pods is lost: the pool is stored, the reconciler reports no error, so its key is
  done, and no pod is found until an event for it comes. (In \<open>sys_step\<close> the list is read
  from the cache and does not fail.)
\<close>

lemma failed_list_is_lost:
  assumes "time_IsZero (DeletionTimestamp (pool_meta p))"
  shows "Pool_Reconcile (\<lambda>_ _. Inl err) NewDatastore (Found p) = Ret (PoolSet NewDatastore (Some p), None)"
  using assms by (simp add: Pool_Reconcile_def Pool_updateDatastore_def PoolGet_def PoolHasSynced_def PodResyncAll_def
      NewDatastore_def selectorFromInferencePoolSelector_def)

text \<open>
  A resynchronisation stores a ready pod that is being deleted; the pod reconciler removes it.
\<close>

definition leaving_pod :: corePod where
  "leaving_pod = (let p = example_pod ''a'' ''10.0.0.1'' in p\<lparr>pod_meta := (pod_meta p)\<lparr>DeletionTimestamp := Some 1\<rparr>\<rparr>)"

lemma resync_stores_leaving_pod:
  "\<exists>ds. Pool_Reconcile (\<lambda>_ _. Inr [leaving_pod]) NewDatastore (Found example_pool) = Ret (ds, None) \<and>
     PodLookup ds (pod_nn leaving_pod) \<noteq> None \<and>
     (\<exists>ds'. Pod_Reconcile example_matches ds (pod_nn leaving_pod) (Found leaving_pod) = Ret (ds', None) \<and>
        PodLookup ds' (pod_nn leaving_pod) = None)"
proof -
  let ?list = "\<lambda>_ _. Inr [leaving_pod] :: string + corePod list"
  have ls: "selectorFromInferencePoolSelector ?list (Selector (pool_Spec example_pool)) (Namespace (pool_meta example_pool)) = Inr [leaving_pod]"
    by (simp add: selectorFromInferencePoolSelector_def)
  have wf: "wf_pods (PoolSet NewDatastore (Some example_pool))" using wf_NewDatastore by (simp add: wf_ds_def)
  have ready: "podIsReady leaving_pod" "\<not> time_IsZero (DeletionTimestamp (pod_meta leaving_pod))"
    by (simp_all add: leaving_pod_def example_pod_def podIsReady_def time_IsZero_def Let_def)
  from PodResyncAll_spec [OF wf ls] ready(1) obtain ds where ds: "PodResyncAll ?list (PoolSet NewDatastore (Some example_pool)) example_pool = Ret ds"
    "wf_pods ds" "ds_pool ds = Some example_pool" "PodLookup ds (pod_nn leaving_pod) \<noteq> None" by auto
  then have "Pool_Reconcile ?list NewDatastore (Found example_pool) = Ret (ds, None)"
    by (simp add: Pool_Reconcile_def Pool_updateDatastore_def PoolGet_def PoolHasSynced_def NewDatastore_def example_pool_def time_IsZero_def)
  moreover from Pod_Reconcile_lookup [OF ds(2,3), of "Found leaving_pod" "pod_nn leaving_pod" example_matches] ready(2)
  have "\<exists>ds'. Pod_Reconcile example_matches ds (pod_nn leaving_pod) (Found leaving_pod) = Ret (ds', None) \<and>
      PodLookup ds' (pod_nn leaving_pod) = None" by (auto simp: in_pool_def)
  ultimately show ?thesis using ds(4) by blast
qed

end
