(* ===== verification/Cluster_Models.thy ===== *)
theory Cluster_Models
  imports Cluster
begin

text \<open>
  The models of the datastore in a run of the system of theory \<open>Cluster\<close>. Two things break the
  rule that the oldest object of a model name is the one in use: a pool that is deleted
  (\<open>Clear\<close> drops the models, and nothing lists them again), and an object that is deleted
  and created again under its name with another model name or creation time while its key
  is on the queue. In runs without either (\<open>steady\<close>) the rule holds whenever no model key is
  pending; the second is shown to break it at the end.
\<close>

definition for_pool :: "cache_options \<Rightarrow> InferenceModel \<Rightarrow> bool" where
  "for_pool opts m \<longleftrightarrow> time_IsZero (DeletionTimestamp (model_meta m)) \<and> ref_Name (PoolRef (model_Spec m)) = pool_named opts"

abbreviation cl_model :: "cache_options \<Rightarrow> cluster \<Rightarrow> NamespacedName \<Rightarrow> InferenceModel get_result" where
  "cl_model opts cl k \<equiv> client_get (cached_model opts) (cl_models cl) k"

type_synonym identity = "NamespacedName \<Rightarrow> string \<times> int"

definition has_identity :: "identity \<Rightarrow> InferenceModel \<Rightarrow> bool" where
  \<comment> \<open>the model name and the creation time of the objects that bear a name\<close>
  "has_identity ident m \<longleftrightarrow> ident (model_nn m) = (ModelName (model_Spec m), created m)"

fun steady :: "identity \<Rightarrow> cache_options \<Rightarrow> sys_event \<Rightarrow> bool" where
  "steady ident opts (ApplyModel k (Some m)) \<longleftrightarrow> has_identity ident m"
| "steady ident opts (ApplyPool k None) \<longleftrightarrow> k \<noteq> flag_pool opts"
| "steady ident opts (ApplyPool k (Some p)) \<longleftrightarrow> k \<noteq> flag_pool opts \<or> time_IsZero (DeletionTimestamp (pool_meta p))"
| "steady ident opts _ \<longleftrightarrow> True"

definition model_entry_ok :: "identity \<Rightarrow> cache_options \<Rightarrow> system \<Rightarrow> InferenceModel \<Rightarrow> bool" where
  \<comment> \<open>a stored object is that of the cluster, unless its key is pending\<close>
  "model_entry_ok ident opts s m \<longleftrightarrow> has_identity ident m \<and> cached_model opts (model_nn m) \<and>
     (ModelKey (model_nn m) \<in> set (sys_queue s) \<or>
      cl_model opts (sys_cluster s) (model_nn m) = Found m \<and> for_pool opts m)"

definition model_served :: "system \<Rightarrow> InferenceModel \<Rightarrow> bool" where
  \<comment> \<open>the object, or one that is not younger, is stored, unless its key is pending\<close>
  "model_served s m \<longleftrightarrow> ModelKey (model_nn m) \<in> set (sys_queue s) \<or>
     (\<exists>m'. ModelGet (sys_ds s) (ModelName (model_Spec m)) = Some m' \<and> created m' \<le> created m)"

definition pool_steady :: "cache_options \<Rightarrow> system \<Rightarrow> bool" where
  "pool_steady opts s \<longleftrightarrow>
     (\<forall>p. map_of (cl_pools (sys_cluster s)) (flag_pool opts) = Some p \<longrightarrow>
        pool_nn p = flag_pool opts \<and> time_IsZero (DeletionTimestamp (pool_meta p))) \<and>
     (\<forall>k. PoolKey k \<in> set (sys_queue s) \<longrightarrow>
        k = flag_pool opts \<and> map_of (cl_pools (sys_cluster s)) (flag_pool opts) \<noteq> None) \<and>
     (\<forall>p. ds_pool (sys_ds s) = Some p \<longrightarrow> pool_nn p = flag_pool opts)"

definition wf_cl_models :: "identity \<Rightarrow> (NamespacedName, InferenceModel) gomap \<Rightarrow> bool" where
  "wf_cl_models ident ms \<longleftrightarrow> is_map ms \<and> list_all (\<lambda>(k, m). model_nn m = k \<and> has_identity ident m) ms"

definition models_ok :: "identity \<Rightarrow> cache_options \<Rightarrow> system \<Rightarrow> bool" where
  "models_ok ident opts s \<longleftrightarrow> wf_ds (sys_ds s) \<and> wf_cl_models ident (cl_models (sys_cluster s)) \<and> pool_steady opts s \<and>
     (\<forall>n m. ModelGet (sys_ds s) n = Some m \<longrightarrow> model_entry_ok ident opts s m) \<and>
     (\<forall>k m. cl_model opts (sys_cluster s) k = Found m \<longrightarrow> for_pool opts m \<longrightarrow> model_served s m)"

lemma models_okD:
  assumes "models_ok ident opts s"
  shows "wf_ds (sys_ds s)" "wf_models (sys_ds s)" "wf_cl_models ident (cl_models (sys_cluster s))" "pool_steady opts s"
    "ModelGet (sys_ds s) n = Some m \<Longrightarrow> model_entry_ok ident opts s m"
    "cl_model opts (sys_cluster s) k = Found m \<Longrightarrow> for_pool opts m \<Longrightarrow> model_served s m"
  using assms by (auto simp: models_ok_def wf_ds_def)

lemma cl_model_found:
  assumes "wf_cl_models ident (cl_models cl)" "cl_model opts cl k = Found m"
  shows "model_nn m = k" "cached_model opts k" "has_identity ident m"
  using assms by (auto simp: wf_cl_models_def list_all_iff client_get_def dest!: map_of_SomeD split: if_splits option.splits)

subsection \<open>Changes of the cluster\<close>

lemma models_apply_model:
  assumes ok: "models_ok ident opts s" and v: "\<And>m. v = Some m \<Longrightarrow> model_nn m = k \<and> has_identity ident m"
  shows "models_ok ident opts (s\<lparr>sys_cluster := (sys_cluster s)\<lparr>cl_models := set_entry (cl_models (sys_cluster s)) k v\<rparr>,
    sys_queue := enqueue_if (cached_model opts k \<and> model_filter (pool_named opts) (map_of (cl_models (sys_cluster s)) k) v)
      (ModelKey k) (sys_queue s)\<rparr>)" (is "models_ok ident opts ?s")
proof -
  have wf: "wf_cl_models ident (cl_models (sys_cluster ?s))"
    using models_okD(3) [OF ok] v
    by (auto simp: wf_cl_models_def set_entry_def list_all_iff set_update_is_map set_delete split: option.splits)
  have quiet: "\<not> cached_model opts k \<or>
      \<not> (\<exists>m. map_of (cl_models (sys_cluster s)) k = Some m \<and> for_pool opts m) \<and> \<not> (\<exists>m. v = Some m \<and> for_pool opts m)"
    if "ModelKey k \<notin> set (sys_queue ?s)"
    using that by (auto simp: model_filter_def for_pool_def eventPredicate_def split: option.splits)
  have same: "cl_model opts (sys_cluster ?s) j = cl_model opts (sys_cluster s) j" if "j \<noteq> k" for j
    using that by (simp add: client_get_set_entry)
  have "model_entry_ok ident opts ?s m" if "ModelGet (sys_ds ?s) n = Some m" for n m
  proof -
    have e: "model_entry_ok ident opts s m" using models_okD(5) [OF ok] that by simp
    define k' where "k' = model_nn m"
    show ?thesis
    proof (cases "k' = k")
      case True
      with e quiet show ?thesis unfolding model_entry_ok_def k'_def [symmetric]
        by (auto simp: client_get_def split: if_splits option.splits)
    next
      case False
      with e same [of k'] show ?thesis unfolding model_entry_ok_def k'_def [symmetric] by auto
    qed
  qed
  moreover have "model_served ?s m" if "cl_model opts (sys_cluster ?s) j = Found m" "for_pool opts m" for j m
  proof (cases "j = k")
    case True
    with that quiet v show ?thesis
      by (auto simp: model_served_def client_get_set_entry split: if_splits option.splits)
  next
    case False
    with that same models_okD(6) [OF ok, of j m] show ?thesis by (auto simp: model_served_def)
  qed
  moreover have "pool_steady opts ?s" using models_okD(4) [OF ok] by (auto simp: pool_steady_def)
  ultimately show ?thesis using wf models_okD(1) [OF ok] by (simp add: models_ok_def)
qed

lemma models_frame:
  \<comment> \<open>steps that leave the models of store and cluster and the model keys alone\<close>
  assumes ok: "models_ok ident opts s" and "wf_ds (sys_ds s')" "pool_steady opts s'" "ds_models (sys_ds s') = ds_models (sys_ds s)"
    "cl_models (sys_cluster s') = cl_models (sys_cluster s)" "\<And>k. ModelKey k \<in> set (sys_queue s') \<longleftrightarrow> ModelKey k \<in> set (sys_queue s)"
  shows "models_ok ident opts s'"
  using assms by (simp add: models_ok_def model_entry_ok_def model_served_def ModelGet_def)

subsection \<open>Reconciling a model\<close>

lemma same_name_same_identity:
  "has_identity ident m \<Longrightarrow> has_identity ident m' \<Longrightarrow> model_nn m = model_nn m' \<Longrightarrow>
     ModelName (model_Spec m) = ModelName (model_Spec m') \<and> created m = created m'"
  by (simp add: has_identity_def)

lemma entry_other_key:
  assumes "model_entry_ok ident opts s m" "model_nn m \<noteq> k"
  shows "model_entry_ok ident opts (s\<lparr>sys_ds := ds', sys_queue := removeAll (ModelKey k) (sys_queue s)\<rparr>) m"
  using assms by (auto simp: model_entry_ok_def)

lemma models_set:
  assumes ok: "models_ok ident opts s" and m: "cl_model opts (sys_cluster s) k = Found m" "for_pool opts m"
    and wf: "wf_ds ds'" and pool: "pool_steady opts (s\<lparr>sys_ds := ds', sys_queue := removeAll (ModelKey k) (sys_queue s)\<rparr>)"
    and set: "ModelSetIfOlder (sys_ds s) m = (ds', b)"
  shows "models_ok ident opts (s\<lparr>sys_ds := ds', sys_queue := removeAll (ModelKey k) (sys_queue s)\<rparr>)" (is "models_ok ident opts ?s")
proof -
  let ?n = "ModelName (model_Spec m)"
  note found = cl_model_found [OF models_okD(3) [OF ok]]
  have other: "model_nn x \<noteq> k" if "ModelGet (sys_ds s) n = Some x" "n \<noteq> ?n \<or> model_nn x \<noteq> model_nn m" for n x
  proof
    assume "model_nn x = k"
    moreover have "has_identity ident x" using models_okD(5) [OF ok that(1)] by (simp add: model_entry_ok_def)
    ultimately have "ModelName (model_Spec x) = ?n" using same_name_same_identity [OF _ found(3) [OF m(1)]] found(1) [OF m(1)] by simp
    with wf_models_get [OF models_okD(2) [OF ok] that(1)] that(2) \<open>model_nn x = k\<close> found(1) [OF m(1)] show False by simp
  qed
  have served: "ModelKey j \<in> set (sys_queue ?s) \<or>
      (\<exists>m'. ModelGet (sys_ds s) (ModelName (model_Spec x)) = Some m' \<and> created m' \<le> created x)"
    if "cl_model opts (sys_cluster s) j = Found x" "for_pool opts x" "j \<noteq> k" for j x
    using models_okD(6) [OF ok that(1,2)] found(1) [OF that(1)] that(3) by (auto simp: model_served_def)
  from set show ?thesis
  proof (cases rule: ModelSetIfOlder_cases)
    case (rejected old)
    have "model_entry_ok ident opts ?s x" if "ModelGet (sys_ds ?s) n = Some x" for n x
    proof -
      from that rejected(2) have x: "ModelGet (sys_ds s) n = Some x" by simp
      have "model_nn x \<noteq> k" using other [OF x] x rejected wf_models_get [OF models_okD(2) [OF ok] x] found(1) [OF m(1)]
        by (cases "n = ?n") auto
      then show ?thesis by (rule entry_other_key [OF models_okD(5) [OF ok x]])
    qed
    moreover have "model_served ?s x" if "cl_model opts (sys_cluster ?s) j = Found x" "for_pool opts x" for j x
    proof (cases "j = k")
      case True
      with that m(1) rejected show ?thesis by (auto simp: model_served_def intro: less_imp_le)
    next
      case False
      with served [of j x] that found(1) [of opts j x] rejected(2) show ?thesis by (auto simp: model_served_def)
    qed
    ultimately show ?thesis using wf pool models_okD(3) [OF ok] by (simp add: models_ok_def)
  next
    case stored
    have get: "ModelGet ds' n = (if n = ?n then Some m else ModelGet (sys_ds s) n)" for n
      by (simp add: stored(2) ModelGet_def store_simps)
    have "model_entry_ok ident opts ?s x" if "ModelGet (sys_ds ?s) n = Some x" for n x
    proof (cases "n = ?n")
      case True
      with that get have "x = m" by simp
      with m found [OF m(1)] show ?thesis by (simp add: model_entry_ok_def)
    next
      case False
      with that get have x: "ModelGet (sys_ds s) n = Some x" by simp
      with other False entry_other_key [OF models_okD(5) [OF ok x]] show ?thesis by blast
    qed
    moreover have "model_served ?s x" if x: "cl_model opts (sys_cluster ?s) j = Found x" "for_pool opts x" for j x
    proof (cases "j = k")
      case True
      with x m(1) show ?thesis by (auto simp: model_served_def get)
    next
      case False
      with x have "ModelKey (model_nn x) \<in> set (sys_queue ?s) \<or>
          (\<exists>m'. ModelGet (sys_ds s) (ModelName (model_Spec x)) = Some m' \<and> created m' \<le> created x)"
        using served [of j x] found(1) [of opts j x] by auto
      then show ?thesis
      proof (elim disjE exE conjE)
        fix m' assume m': "ModelGet (sys_ds s) (ModelName (model_Spec x)) = Some m'" "created m' \<le> created x"
        show ?thesis
        proof (cases "ModelName (model_Spec x) = ?n")
          case True
          with m'(1) have g: "ModelGet (sys_ds s) ?n = Some m'" by simp
          have "has_identity ident m'" using models_okD(5) [OF ok g] by (simp add: model_entry_ok_def)
          with stored(3) g same_name_same_identity [OF _ found(3) [OF m(1)]] have "created m \<le> created m'" by force
          with m'(2) True show ?thesis by (auto simp: model_served_def get)
        qed (use m' in \<open>auto simp: model_served_def get\<close>)
      qed (simp add: model_served_def)
    qed
    ultimately show ?thesis using wf pool models_okD(3) [OF ok] by (simp add: models_ok_def)
  qed
qed

lemma listed_models:
  assumes "wf_cl_models ident (cl_models cl)" "models_in opts = ns" "list_models opts cl n ns = Inr items"
  shows "x \<in> set items \<longleftrightarrow> cl_model opts cl (model_nn x) = Found x \<and> ModelName (model_Spec x) = n"
proof -
  have "x \<in> set (client_objects (cached_model opts) (cl_models cl)) \<longleftrightarrow> cl_model opts cl (model_nn x) = Found x"
    using client_objects_set [of "cl_models cl" x "cached_model opts"] assms(1) cl_model_found(1) [OF assms(1), of opts _ x]
    by (auto simp: wf_cl_models_def)
  moreover have "Namespace (model_meta x) = ns" if "cl_model opts cl (model_nn x) = Found x"
    using cl_model_found(2) [OF assms(1) that] assms(2) by (simp add: cached_model_def)
  ultimately show ?thesis using assms(3) by (auto simp: list_models_def indexInferenceModelsByModelName_def)
qed

lemma ModelResync_get:
  assumes r: "ModelResync (list_models opts cl) ds n = Ret (ds', res)" and wf: "wf_cl_models ident (cl_models cl)"
    and pool: "\<forall>p. ds_pool ds = Some p \<longrightarrow> Namespace (pool_meta p) = models_in opts \<and> Name (pool_meta p) = pool_named opts"
  shows "\<exists>b. res = Inr b" "j \<noteq> n \<Longrightarrow> ModelGet ds' j = ModelGet ds j"
    "ModelGet ds n = None \<Longrightarrow> case ModelGet ds' n of
       None \<Rightarrow> \<forall>k x. cl_model opts cl k = Found x \<longrightarrow> for_pool opts x \<longrightarrow> ModelName (model_Spec x) \<noteq> n
     | Some m \<Rightarrow> cl_model opts cl (model_nn m) = Found m \<and> for_pool opts m \<and>
         (\<forall>k x. cl_model opts cl k = Found x \<longrightarrow> for_pool opts x \<longrightarrow> ModelName (model_Spec x) = n \<longrightarrow> created m \<le> created x)"
proof -
  from r obtain p where p: "ds_pool ds = Some p" by (auto simp: ModelResync_def split: option.splits)
  obtain items where items: "list_models opts cl n (Namespace (pool_meta p)) = Inr items" by (simp add: list_models_def)
  have set: "x \<in> set items \<longleftrightarrow> cl_model opts cl (model_nn x) = Found x \<and> ModelName (model_Spec x) = n" for x
    using listed_models [OF wf _ items, of x] pool p by simp
  have el: "eligible p n x \<longleftrightarrow> ModelName (model_Spec x) = n \<and> for_pool opts x" for x
    using pool p by (auto simp: eligible_def for_pool_def)
  have mem: "x \<in> set items" if "cl_model opts cl k = Found x" "ModelName (model_Spec x) = n" for k x
    using set that cl_model_found(1) [OF wf that(1)] by simp
  have res: "ds' = (case oldest_loop p n items None of None \<Rightarrow> ds | Some m \<Rightarrow> ds\<lparr>ds_models := AList.update n m (ds_models ds)\<rparr>)"
      "\<exists>b. res = Inr b"
    using r p items by (auto simp: ModelResync_def split: if_splits option.splits)
  show "\<exists>b. res = Inr b" by (rule res(2))
  show "j \<noteq> n \<Longrightarrow> ModelGet ds' j = ModelGet ds j"
    by (auto simp: res(1) ModelGet_def store_simps split: option.splits)
  note spec = oldest_loop_spec [where p = p and n = n and ms = items and old = None]
  assume none: "ModelGet ds n = None"
  show "case ModelGet ds' n of
       None \<Rightarrow> \<forall>k x. cl_model opts cl k = Found x \<longrightarrow> for_pool opts x \<longrightarrow> ModelName (model_Spec x) \<noteq> n
     | Some m \<Rightarrow> cl_model opts cl (model_nn m) = Found m \<and> for_pool opts m \<and>
         (\<forall>k x. cl_model opts cl k = Found x \<longrightarrow> for_pool opts x \<longrightarrow> ModelName (model_Spec x) = n \<longrightarrow> created m \<le> created x)"
  proof (cases "oldest_loop p n items None")
    case None
    then have "ModelGet ds' n = None" using none by (simp add: res(1))
    moreover have "\<forall>x\<in>set items. \<not> eligible p n x" using spec None by simp
    ultimately show ?thesis using mem el by auto
  next
    case (Some m)
    then have "ModelGet ds' n = Some m" by (simp add: res(1) ModelGet_def store_simps)
    moreover have "m \<in> set items" "eligible p n m" "\<forall>x\<in>set items. eligible p n x \<longrightarrow> created m \<le> created x"
      using spec Some by auto
    ultimately show ?thesis using mem set [of m] el by auto
  qed
qed

lemma models_delete:
  assumes ok: "models_ok ident opts s" and same: "models_in opts = pools_in opts"
    and gone: "\<And>m. cl_model opts (sys_cluster s) k = Found m \<Longrightarrow> \<not> for_pool opts m"
    and r: "handleModelDeleted (list_models opts (sys_cluster s)) (sys_ds s) k = Ret (ds', e)"
    and wf: "wf_ds ds'" and pool: "pool_steady opts (s\<lparr>sys_ds := ds', sys_queue := removeAll (ModelKey k) (sys_queue s)\<rparr>)"
  shows "e = None \<and> models_ok ident opts (s\<lparr>sys_ds := ds', sys_queue := removeAll (ModelKey k) (sys_queue s)\<rparr>)"
    (is "_ \<and> models_ok ident opts ?s")
proof -
  note found = cl_model_found [OF models_okD(3) [OF ok]]
  have served: "j \<noteq> k \<and> (ModelKey j \<in> set (sys_queue ?s) \<or>
      (\<exists>m'. ModelGet (sys_ds s) (ModelName (model_Spec x)) = Some m' \<and> created m' \<le> created x))"
    if "cl_model opts (sys_cluster s) j = Found x" "for_pool opts x" for j x
    using models_okD(6) [OF ok that] found(1) [OF that(1)] gone that by (auto simp: model_served_def)
  obtain ds1 r1 where d: "ModelDelete (sys_ds s) k = (ds1, r1)" by fastforce
  then show ?thesis
  proof (cases rule: ModelDelete_cases)
    case absent
    with r d have ds': "ds' = sys_ds s" "e = None" by (simp_all add: handleModelDeleted_def)
    have "model_entry_ok ident opts ?s x" if "ModelGet (sys_ds ?s) n = Some x" for n x
    proof -
      from that ds'(1) have x: "ModelGet (sys_ds s) n = Some x" by simp
      then have "model_nn x \<noteq> k" using absent(3) by (auto simp: ModelGet_def dest!: map_of_SomeD)
      then show ?thesis by (rule entry_other_key [OF models_okD(5) [OF ok x]])
    qed
    moreover have "model_served ?s x" if "cl_model opts (sys_cluster ?s) j = Found x" "for_pool opts x" for j x
      using served [of j x] that found(1) [of opts j x] ds'(1) by (auto simp: model_served_def)
    ultimately show ?thesis using ds' wf pool models_okD(3) [OF ok] by (simp add: models_ok_def)
  next
    case (deleted n0 m0)
    have g0: "ModelGet (sys_ds s) n0 = Some m0"
      using deleted(3) models_okD(2) [OF ok] by (auto simp: ModelGet_def wf_models_def is_map_map_of)
    then have n0: "ModelName (model_Spec m0) = n0" using wf_models_get [OF models_okD(2) [OF ok]] by simp
    have id0: "has_identity ident m0" using models_okD(5) [OF ok g0] by (simp add: model_entry_ok_def)
    have get1: "ModelGet ds1 n = (if n = n0 then None else ModelGet (sys_ds s) n)" for n
      by (simp add: deleted(4) ModelGet_def store_simps n0)
    from r d deleted(1) n0 obtain res where rs: "ModelResync (list_models opts (sys_cluster s)) ds1 n0 = Ret (ds', res)"
      "e = (case res of Inl err \<Rightarrow> Some err | Inr _ \<Rightarrow> None)"
      by (cases "ModelResync (list_models opts (sys_cluster s)) ds1 n0") (auto simp: handleModelDeleted_def go_simps split: sum.split_asm)
    have p1: "\<forall>p. ds_pool ds1 = Some p \<longrightarrow> Namespace (pool_meta p) = models_in opts \<and> Name (pool_meta p) = pool_named opts"
      using models_okD(4) [OF ok] same by (auto simp: deleted(4) pool_steady_def flag_pool_def)
    note rg = ModelResync_get [OF rs(1) models_okD(3) [OF ok] p1]
    have new: "case ModelGet ds' n0 of
         None \<Rightarrow> \<forall>k x. cl_model opts (sys_cluster s) k = Found x \<longrightarrow> for_pool opts x \<longrightarrow> ModelName (model_Spec x) \<noteq> n0
       | Some m \<Rightarrow> cl_model opts (sys_cluster s) (model_nn m) = Found m \<and> for_pool opts m \<and>
           (\<forall>k x. cl_model opts (sys_cluster s) k = Found x \<longrightarrow> for_pool opts x \<longrightarrow> ModelName (model_Spec x) = n0 \<longrightarrow> created m \<le> created x)"
      using rg(3) get1 by simp
    have old: "ModelGet ds' n = ModelGet (sys_ds s) n" if "n \<noteq> n0" for n using rg(2) [OF that] get1 that by simp
    have "model_entry_ok ident opts ?s x" if x: "ModelGet (sys_ds ?s) n = Some x" for n x
    proof (cases "n = n0")
      case True
      with x new have f: "cl_model opts (sys_cluster s) (model_nn x) = Found x" "for_pool opts x" by auto
      with found [OF f(1)] show ?thesis by (simp add: model_entry_ok_def)
    next
      case False
      with x old have g: "ModelGet (sys_ds s) n = Some x" by simp
      have "model_nn x \<noteq> k"
        using same_name_same_identity [of ident x m0] models_okD(5) [OF ok g] id0 deleted(2) n0 False
          wf_models_get [OF models_okD(2) [OF ok] g] by (auto simp: model_entry_ok_def)
      with entry_other_key [OF models_okD(5) [OF ok g]] show ?thesis by blast
    qed
    moreover have "model_served ?s x" if x: "cl_model opts (sys_cluster ?s) j = Found x" "for_pool opts x" for j x
    proof (cases "ModelName (model_Spec x) = n0")
      case True
      with new x show ?thesis by (auto simp: model_served_def split: option.splits)
    next
      case False
      with served [of j x] x found(1) [of opts j x] old show ?thesis by (auto simp: model_served_def)
    qed
    moreover have "e = None" using rg(1) rs(2) by auto
    ultimately show ?thesis using wf pool models_okD(3) [OF ok] by (simp add: models_ok_def)
  qed
qed

lemma models_reconcile_model:
  assumes ok: "models_ok ident opts s" and same: "models_in opts = pools_in opts"
    and got: "got = cl_model opts (sys_cluster s) k \<or> got = GetError err"
    and r: "Model_Reconcile (list_models opts (sys_cluster s)) (pool_named opts) (sys_ds s) k got = Ret (ds', e)"
  shows "models_ok ident opts (s\<lparr>sys_ds := ds', sys_queue := requeue e (ModelKey k) (sys_queue s)\<rparr>)"
proof -
  have m: "wf_models ds'" "ds_pods ds' = ds_pods (sys_ds s)" "ds_heap ds' = ds_heap (sys_ds s)" "ds_pool ds' = ds_pool (sys_ds s)"
    using Model_Reconcile_wf [OF models_okD(2) [OF ok] r] by auto
  then have wf: "wf_ds ds'" using models_okD(1) [OF ok] by (simp add: wf_ds_def wf_pods_def)
  let ?s = "s\<lparr>sys_ds := ds', sys_queue := removeAll (ModelKey k) (sys_queue s)\<rparr>"
  have pool: "pool_steady opts ?s" using models_okD(4) [OF ok] m(4) by (auto simp: pool_steady_def)
  show ?thesis
  proof (cases "\<exists>err. got = GetError err")
    case True
    with r have "ds' = sys_ds s" "e \<noteq> None" by (auto simp: Model_Reconcile_def)
    with ok show ?thesis by (auto simp: requeue_def)
  next
    case False
    with got have got: "got = cl_model opts (sys_cluster s) k" by auto
    show ?thesis
    proof (cases "\<exists>x. got = Found x \<and> for_pool opts x")
      case True
      then obtain x where x: "cl_model opts (sys_cluster s) k = Found x" "for_pool opts x" using got by auto
      with r got have "e = None" "ds' = fst (ModelSetIfOlder (sys_ds s) x)" by (auto simp: Model_Reconcile_def for_pool_def)
      with models_set [OF ok x wf pool, of "snd (ModelSetIfOlder (sys_ds s) x)"] show ?thesis by (simp add: requeue_def)
    next
      case False
      with r \<open>\<not> (\<exists>err. got = GetError err)\<close> have d: "handleModelDeleted (list_models opts (sys_cluster s)) (sys_ds s) k = Ret (ds', e)"
        by (cases got) (auto simp: Model_Reconcile_def for_pool_def split: if_splits)
      have "\<not> for_pool opts x" if "cl_model opts (sys_cluster s) k = Found x" for x using False got that by auto
      from models_delete [OF ok same this d wf pool] show ?thesis by (simp add: requeue_def)
    qed
  qed
qed

lemma models_reconcile_pool:
  assumes ok: "models_ok ident opts s" and k: "PoolKey k \<in> set (sys_queue s)"
    and got: "got = client_get (cached_pool opts) (cl_pools (sys_cluster s)) k \<or> got = GetError err"
    and r: "Pool_Reconcile (list_pods matches opts (sys_cluster s)) (sys_ds s) got = Ret (ds', e)"
  shows "models_ok ident opts (s\<lparr>sys_ds := ds', sys_queue := requeue e (PoolKey k) (sys_queue s)\<rparr>)"
proof (cases "\<exists>err. got = GetError err")
  case True
  with r have "ds' = sys_ds s" "e \<noteq> None" by (auto simp: Pool_Reconcile_def)
  with ok show ?thesis by (auto simp: requeue_def)
next
  case False
  note st = models_okD(4) [OF ok, unfolded pool_steady_def]
  from st k obtain p where p: "k = flag_pool opts" "map_of (cl_pools (sys_cluster s)) (flag_pool opts) = Some p" by auto
  with st have pp: "pool_nn p = flag_pool opts" "time_IsZero (DeletionTimestamp (pool_meta p))" by auto
  have "got = Found p" using False got p by (auto simp: client_get_def cached_pool_iff)
  with pp(2) r have u: "Pool_updateDatastore (list_pods matches opts (sys_cluster s)) (sys_ds s) p = Ret ds'" "e = None"
    by (auto simp: Pool_Reconcile_def go_simps)
  have wf: "wf_pods (sys_ds s)" using models_okD(1) [OF ok] by (simp add: wf_ds_def)
  have ds': "wf_pods ds'" "ds_pool ds' = Some p" "ds_models ds' = ds_models (sys_ds s)"
    using Pool_updateDatastore_total [OF wf, of "list_pods matches opts (sys_cluster s)" p] u(1) by auto
  then have "wf_ds ds'" using models_okD(2) [OF ok] by (simp add: wf_ds_def wf_models_def)
  moreover have "pool_steady opts (s\<lparr>sys_ds := ds', sys_queue := requeue e (PoolKey k) (sys_queue s)\<rparr>)"
    using st pp(1) ds'(2) by (auto simp: pool_steady_def)
  ultimately show ?thesis using ds'(3) by (intro models_frame [OF ok]) simp_all
qed

lemma models_step:
  assumes same: "models_in opts = pools_in opts" and ok: "models_ok ident opts s" and steady: "steady ident opts ev"
    and step: "sys_step fetch matches opts ev s s'"
  shows "models_ok ident opts s'"
  using step
proof (cases rule: sys_step.cases)
  case (apply_pod v k)
  show ?thesis unfolding apply_pod(2)
    by (rule models_frame [OF ok]) (use models_okD(1,4) [OF ok] in \<open>auto simp: pool_steady_def\<close>)
next
  case (apply_pool v k)
  have "pool_steady opts s'"
    using models_okD(4) [OF ok] steady apply_pool(1,3) unfolding apply_pool(2) pool_steady_def
    by (cases v) (auto simp: set_entry_def store_simps cached_pool_iff)
  then show ?thesis unfolding apply_pool(2)
    by (intro models_frame [OF ok]) (use models_okD(1) [OF ok] in auto)
next
  case (apply_model v k)
  have "has_identity ident m" if "v = Some m" for m using steady apply_model(1) that by simp
  with apply_model models_apply_model [OF ok] show ?thesis by simp
next
  case (reconcile_pod k got err ds' e)
  have "wf_ds ds' \<and> ds_pool ds' = ds_pool (sys_ds s) \<and> ds_models ds' = ds_models (sys_ds s)"
    using Pod_Reconcile_total [of "sys_ds s" matches k got] reconcile_pod(5) models_okD(1) [OF ok]
    by (auto simp: wf_ds_def wf_models_def)
  then show ?thesis unfolding reconcile_pod(2)
    by (intro models_frame [OF ok]) (use models_okD(4) [OF ok] in \<open>auto simp: pool_steady_def\<close>)
next
  case (reconcile_pool k got err ds' e)
  then show ?thesis using models_reconcile_pool [OF ok] by simp
next
  case (reconcile_model k got err ds' e)
  then show ?thesis using models_reconcile_model [OF ok same] by simp
next
  case (refresh a now)
  have "wf_ds (sys_ds s')"
    using heap_frame [OF refresh(3) refreshMetrics_frame(1-3) [of fetch "PoolGet (sys_ds s)" now]] models_okD(1) [OF ok]
    unfolding refresh(2) by (simp add: wf_ds_def wf_models_def)
  then show ?thesis unfolding refresh(2)
    by (intro models_frame [OF ok]) (use models_okD(4) [OF ok] in \<open>auto simp: pool_steady_def\<close>)
qed

interpretation model_invariant: step_invariant "sys_step fetch matches opts" "\<lambda>s. models_in opts = pools_in opts \<and> models_ok ident opts s"
    "steady ident opts"
  for fetch matches opts ident
  by unfold_locales (use models_step in blast)

definition steady_cluster :: "identity \<Rightarrow> cache_options \<Rightarrow> cluster \<Rightarrow> bool" where
  \<comment> \<open>where a steady run may start\<close>
  "steady_cluster ident opts cl \<longleftrightarrow> wf_cluster cl \<and> wf_cl_models ident (cl_models cl) \<and>
     live_pool opts cl = map_of (cl_pools cl) (flag_pool opts)"

lemma models_initial:
  assumes "steady_cluster ident opts cl"
  shows "models_ok ident opts (initial_system opts cl)"
proof -
  let ?s = "initial_system opts cl"
  have wf: "wf_cluster cl" "wf_cl_models ident (cl_models cl)" and live: "live_pool opts cl = map_of (cl_pools cl) (flag_pool opts)"
    using assms by (auto simp: steady_cluster_def)
  have "pool_steady opts ?s"
    using wf(1) live
    by (auto simp: pool_steady_def initial_system_def NewDatastore_def cached_pool_iff live_pool_def wf_cluster_def list_all_iff
        map_of_eq_None_iff dest!: map_of_SomeD split: option.splits if_splits)
  moreover have "model_served ?s m" if "cl_model opts cl k = Found m" "for_pool opts m" for k m
  proof -
    have "map_of (cl_models cl) k = Some m" using that(1) by (auto simp: client_get_def split: if_splits option.splits)
    moreover from this have "k \<in> set (keys (cl_models cl))" by (auto simp: image_iff dest!: map_of_SomeD intro: bexI [of _ "(k, m)"])
    ultimately have "ModelKey k \<in> set (sys_queue ?s)"
      using that cl_model_found(2) [OF wf(2) that(1)]
      by (simp add: initial_system_def model_filter_def for_pool_def eventPredicate_def image_iff)
    then show ?thesis unfolding model_served_def cl_model_found(1) [OF wf(2) that(1)] by simp
  qed
  ultimately show ?thesis using wf wf_NewDatastore by (auto simp: models_ok_def initial_system_def ModelGet_def NewDatastore_def)
qed

subsection \<open>The oldest object is in use\<close>

definition claims :: "cache_options \<Rightarrow> cluster \<Rightarrow> string \<Rightarrow> InferenceModel set" where
  \<comment> \<open>the objects of the pool with a model name\<close>
  "claims opts cl n = {m. for_pool opts m \<and> ModelName (model_Spec m) = n \<and> (\<exists>k. cl_model opts cl k = Found m)}"

definition oldest_in_use :: "cache_options \<Rightarrow> cluster \<Rightarrow> datastore \<Rightarrow> string \<Rightarrow> bool" where
  "oldest_in_use opts cl ds n \<longleftrightarrow>
     (case ModelGet ds n of
        None \<Rightarrow> claims opts cl n = {}
      | Some m \<Rightarrow> m \<in> claims opts cl n \<and> (\<forall>x\<in>claims opts cl n. CreationTimestamp (model_meta m) \<le> CreationTimestamp (model_meta x)))"

definition model_keys :: "system \<Rightarrow> key list" where
  "model_keys s = filter (\<lambda>k. \<not> serving_key k) (sys_queue s)"

lemma oldest_if_settled:
  assumes ok: "models_ok ident opts s" and settled: "model_keys s = []"
  shows "oldest_in_use opts (sys_cluster s) (sys_ds s) n"
proof -
  have q: "ModelKey k \<notin> set (sys_queue s)" for k using settled by (force simp: model_keys_def filter_empty_conv)
  have served: "\<exists>m'. ModelGet (sys_ds s) (ModelName (model_Spec x)) = Some m' \<and> created m' \<le> created x"
    if "cl_model opts (sys_cluster s) k = Found x" "for_pool opts x" for k x
    using models_okD(6) [OF ok that] q by (simp add: model_served_def)
  show ?thesis
  proof (cases "ModelGet (sys_ds s) n")
    case None
    with served show ?thesis by (fastforce simp: oldest_in_use_def claims_def)
  next
    case (Some m)
    have "cl_model opts (sys_cluster s) (model_nn m) = Found m" "for_pool opts m"
      using models_okD(5) [OF ok Some] q by (simp_all add: model_entry_ok_def)
    moreover have "ModelName (model_Spec m) = n" by (rule wf_models_get [OF models_okD(2) [OF ok] Some])
    moreover have "created m \<le> created x" if "cl_model opts (sys_cluster s) k = Found x" "for_pool opts x" "ModelName (model_Spec x) = n" for k x
      using served [OF that(1,2)] Some that(3) by auto
    ultimately show ?thesis using Some by (auto simp: oldest_in_use_def claims_def)
  qed
qed

lemma ModelResync_total: "ds_pool ds \<noteq> None \<Longrightarrow> \<exists>r. ModelResync listModels ds n = Ret r"
  by (auto simp: ModelResync_def split: option.splits sum.splits)

lemma handleModelDeleted_total:
  assumes "ds_pool ds \<noteq> None"
  shows "\<exists>r. handleModelDeleted listModels ds k = Ret r"
proof -
  obtain ds1 r1 where d: "ModelDelete ds k = (ds1, r1)" by fastforce
  then have "ds_pool ds1 \<noteq> None" using assms by (cases rule: ModelDelete_cases) simp_all
  show ?thesis
  proof (cases r1)
    case (Some m)
    from ModelResync_total [OF \<open>ds_pool ds1 \<noteq> None\<close>] obtain ds2 res where
      "ModelResync listModels ds1 (ModelName (model_Spec m)) = Ret (ds2, res)" by fastforce
    with d Some show ?thesis by (cases res) (simp_all add: handleModelDeleted_def)
  qed (use d in \<open>simp add: handleModelDeleted_def\<close>)
qed

lemma Model_Reconcile_total: "ds_pool ds \<noteq> None \<Longrightarrow> \<exists>r. Model_Reconcile listModels poolName ds k got = Ret r"
  using handleModelDeleted_total by (auto simp: Model_Reconcile_def split: get_result.split)

lemma model_key_handled:
  assumes same: "models_in opts = pools_in opts" and ok: "models_ok ident opts s" and pool: "ds_pool (sys_ds s) \<noteq> None"
    and k: "key \<in> set (model_keys s)"
  shows "\<exists>s'. sys_step fetch matches opts (Reconcile key) s s' \<and> models_ok ident opts s' \<and> ds_pool (sys_ds s') \<noteq> None \<and>
    model_keys s' = removeAll key (model_keys s) \<and> sys_cluster s' = sys_cluster s"
proof -
  from k obtain k where key: "key = ModelKey k" "ModelKey k \<in> set (sys_queue s)" by (cases key rule: key.exhaust) (auto simp: model_keys_def)
  let ?cl = "sys_cluster s" and ?got = "cl_model opts (sys_cluster s) k"
  have "?got \<noteq> GetError err" for err by (simp add: client_get_def split: option.splits)
  then have e: "e = None" if "Model_Reconcile (list_models opts ?cl) (pool_named opts) (sys_ds s) k ?got = Ret (ds', e)" for ds' e
    using that by (auto simp: Model_Reconcile_def handleModelDeleted_def ModelResync_def list_models_def go_simps
        split: get_result.splits if_splits option.splits prod.splits)
  obtain ds' where r: "Model_Reconcile (list_models opts ?cl) (pool_named opts) (sys_ds s) k ?got = Ret (ds', None)"
    using Model_Reconcile_total [OF pool, of "list_models opts ?cl" "pool_named opts" k ?got] e by fastforce
  let ?s = "s\<lparr>sys_ds := ds', sys_queue := requeue None (ModelKey k) (sys_queue s)\<rparr>"
  have "sys_step fetch matches opts (Reconcile key) s ?s"
    unfolding key(1) by (rule sys_step.reconcile_model [OF key(2) disjI1 [OF refl] r])
  moreover have "models_ok ident opts ?s" by (rule models_reconcile_model [OF ok same disjI1 [OF refl] r])
  moreover have "ds_pool ds' \<noteq> None" using Model_Reconcile_wf [OF models_okD(2) [OF ok] r] pool by simp
  moreover have "model_keys ?s = removeAll key (model_keys s)"
    by (simp add: model_keys_def requeue_def key(1) removeAll_filter_not_eq conj_commute)
  ultimately show ?thesis by (intro exI [of _ ?s]) simp
qed

interpretation model_queue: work_queue "sys_step fetch matches opts"
    "\<lambda>s. models_in opts = pools_in opts \<and> models_ok ident opts s \<and> ds_pool (sys_ds s) \<noteq> None" model_keys Reconcile sys_cluster
  for fetch matches opts ident
  by unfold_locales (use model_key_handled in blast)

lemma reachable_models_ok:
  assumes "steady_cluster ident (DefaultManagerOptions ns name) cl"
    "run (sys_step fetch matches (DefaultManagerOptions ns name)) (initial_system (DefaultManagerOptions ns name) cl) evs s"
    "\<forall>ev\<in>set evs. steady ident (DefaultManagerOptions ns name) ev"
  shows "models_ok ident (DefaultManagerOptions ns name) s"
  using model_invariant.run_keeps [OF assms(2) _ assms(3)] models_initial [OF assms(1)] by (simp add: DefaultManagerOptions_def)

text \<open>
  C18. The oldest object of a model name is the one in use. In every run in which the pool is
  not deleted and an object that is deleted and created again comes back with the model name
  and the creation time it had, whatever the order of the controllers and whichever reads of
  single objects fail (the list of the objects of a model name is read from the cache and
  does not fail): when no model key is on the queue, the object stored under a model name is
  the current object of the cluster, it belongs to the pool, and no object of the pool with
  that model name is older; a name that no object of the pool claims is not stored. Without
  these conditions it does not hold: \<open>recreated_model_stays\<close> and \<open>recreated_model_wins\<close> (an object
  that comes back younger), \<open>failed_model_list_is_lost\<close> (a list that fails).
\<close>

theorem settled_models_oldest:
  assumes cl: "steady_cluster ident (DefaultManagerOptions ns name) cl"
    and run: "run (sys_step fetch matches (DefaultManagerOptions ns name)) (initial_system (DefaultManagerOptions ns name) cl) evs s"
    and steady: "\<forall>ev\<in>set evs. steady ident (DefaultManagerOptions ns name) ev"
    and settled: "model_keys s = []"
  shows "oldest_in_use (DefaultManagerOptions ns name) (sys_cluster s) (sys_ds s) n"
  by (rule oldest_if_settled [OF reachable_models_ok [OF cl run steady] settled])

text \<open>
  Models catch up: once the pool is stored, reconciling the model keys that are on the queue,
  each at most once, puts the oldest object of every model name in use, and does not panic.
\<close>

theorem models_catch_up:
  assumes cl: "steady_cluster ident (DefaultManagerOptions ns name) cl"
    and run: "run (sys_step fetch matches (DefaultManagerOptions ns name)) (initial_system (DefaultManagerOptions ns name) cl) evs s"
    and steady: "\<forall>ev\<in>set evs. steady ident (DefaultManagerOptions ns name) ev" and pool: "ds_pool (sys_ds s) \<noteq> None"
  shows "\<exists>ks s'. run (sys_step fetch matches (DefaultManagerOptions ns name)) s (map Reconcile ks) s' \<and>
    length ks \<le> length (model_keys s) \<and> set ks \<subseteq> set (model_keys s) \<and> sys_cluster s' = sys_cluster s \<and> model_keys s' = [] \<and>
    (\<forall>n. oldest_in_use (DefaultManagerOptions ns name) (sys_cluster s) (sys_ds s') n)"
proof -
  let ?opts = "DefaultManagerOptions ns name"
  have "models_in ?opts = pools_in ?opts" by (simp add: DefaultManagerOptions_def)
  with model_queue.drained [of ?opts ident s fetch matches] reachable_models_ok [OF cl run steady] pool obtain ks s' where d:
    "run (sys_step fetch matches ?opts) s (map Reconcile ks) s'" "length ks \<le> length (model_keys s)"
    "set ks \<subseteq> set (model_keys s)" "model_keys s' = []" "sys_cluster s' = sys_cluster s" "models_ok ident ?opts s'" by blast
  from oldest_if_settled [OF d(6,4)] d show ?thesis by (intro exI [of _ ks] exI [of _ s']) simp
qed

definition two_model_cluster :: cluster where
  \<comment> \<open>the same pod and pool with two objects for the model \<open>m\<close>\<close>
  "two_model_cluster = example_cluster\<lparr>cl_models :=
     map (\<lambda>m. (model_nn m, m)) [example_model ''new'' 5 [], example_model ''old'' 3 []]\<rparr>"

definition example_identity :: identity where
  "example_identity k = (''m'', if nn_Name k = ''old'' then 3 else 5)"

lemma two_models:
  "steady_cluster example_identity example_opts two_model_cluster" "live_pool example_opts two_model_cluster = Some example_pool"
  "claims example_opts two_model_cluster ''m'' = {example_model ''new'' 5 [], example_model ''old'' 3 []}"
proof -
  have wf: "wf_cluster two_model_cluster" using example_cluster_facts(1) by (simp add: two_model_cluster_def wf_cluster_def)
  show live: "live_pool example_opts two_model_cluster = Some example_pool"
    using example_cluster_facts(2) by (simp add: two_model_cluster_def live_pool_def)
  have ms: "wf_cl_models example_identity (cl_models two_model_cluster)"
    by (simp add: wf_cl_models_def two_model_cluster_def has_identity_def example_identity_def example_model_def is_map_def)
  show "steady_cluster example_identity example_opts two_model_cluster"
    using wf ms live by (auto simp: steady_cluster_def live_pool_def split: option.splits if_splits)
  show "claims example_opts two_model_cluster ''m'' = {example_model ''new'' 5 [], example_model ''old'' 3 []}"
    using client_objects_set [of "cl_models two_model_cluster" _ "cached_model example_opts"] ms
    by (auto simp: claims_def wf_cl_models_def client_objects_def two_model_cluster_def cached_model_def DefaultManagerOptions_def
        example_model_def for_pool_def time_IsZero_def)
qed

theorem settled_models_oldest_witness:
  "\<exists>evs s. run (sys_step (\<lambda>_ _ _. (None, [])) example_matches example_opts) (initial_system example_opts two_model_cluster) evs s \<and>
     ModelGet (sys_ds s) ''m'' = Some (example_model ''old'' 3 [])"
proof -
  let ?step = "sys_step (\<lambda>_ _ _. (None, [])) example_matches example_opts"
  have wf: "wf_cluster two_model_cluster" using two_models(1) by (simp add: steady_cluster_def)
  have "pods_in example_opts = pools_in example_opts" by (simp add: DefaultManagerOptions_def)
  from drain [OF example_matches_map this initial_system_ok [OF wf], of "\<lambda>_ _ _. (None, [])"] obtain ks s where
    r: "run ?step (initial_system example_opts two_model_cluster) (map Reconcile ks) s" "pending s = []"
    and cl: "sys_cluster s = two_model_cluster" by (auto simp: initial_system_def)
  have "ds_pool (sys_ds s) \<noteq> None"
    using consistent_if_settled [OF reachable_ok [OF example_matches_map wf r(1)] r(2)] two_models(2) by (simp add: consistent_def cl)
  moreover have "\<forall>ev\<in>set (map Reconcile ks). steady example_identity example_opts ev" by simp
  ultimately obtain ks' s' where r': "run ?step s (map Reconcile ks') s'" "sys_cluster s' = two_model_cluster" "model_keys s' = []"
    using models_catch_up [OF two_models(1) r(1)] cl by metis
  have all: "run ?step (initial_system example_opts two_model_cluster) (map Reconcile ks @ map Reconcile ks') s'"
    using run_append [OF r(1) r'(1)] .
  have st: "\<forall>ev\<in>set (map Reconcile ks @ map Reconcile ks'). steady example_identity example_opts ev" by auto
  have "oldest_in_use example_opts two_model_cluster (sys_ds s') ''m''"
    using settled_models_oldest [OF two_models(1) all st r'(3), of "''m''"] r'(2) by simp
  then have "ModelGet (sys_ds s') ''m'' = Some (example_model ''old'' 3 [])"
    by (auto simp: oldest_in_use_def two_models(3) example_model_def split: option.splits)
  with all show ?thesis by blast
qed

subsection \<open>A name that stays\<close>

text \<open>
  An object that is deleted and created again with another model name before its key is
  handled is reconciled once, as it is then: the new name is stored, and the entry of the
  old name stays, with the object that is gone. Deleting the object removes one of the two
  entries only. So \<open>steady\<close> cannot be dropped.
\<close>

lemma recreated_model_stays:
  assumes "ModelGet ds n = Some m" "model_nn m' = model_nn m" "ModelName (model_Spec m') \<noteq> n" "for_pool opts m'"
  shows "\<exists>ds'. Model_Reconcile listModels (pool_named opts) ds (model_nn m') (Found m') = Ret (ds', None) \<and> ModelGet ds' n = Some m"
proof -
  obtain ds' b where s: "ModelSetIfOlder ds m' = (ds', b)" by fastforce
  then have "ModelGet ds' n = Some m"
    by (cases rule: ModelSetIfOlder_cases) (use assms in \<open>simp_all add: ModelGet_def store_simps\<close>)
  with s assms(4) show ?thesis by (simp add: Model_Reconcile_def for_pool_def)
qed

text \<open>
  An object that is in use and comes back with a later creation time before its key is handled
  stays in use, whatever other object was skipped as younger before: \<open>ModelSetIfOlder\<close> compares
  the creation times of different objects only.
\<close>

lemma recreated_model_wins:
  assumes "ModelGet ds (ModelName (model_Spec m')) = Some m" "model_nn m' = model_nn m" "for_pool opts m'"
  shows "\<exists>ds'. Model_Reconcile listModels (pool_named opts) ds (model_nn m') (Found m') = Ret (ds', None) \<and>
    ModelGet ds' (ModelName (model_Spec m')) = Some m'"
  using assms by (simp add: Model_Reconcile_def for_pool_def ModelSetIfOlder_def ModelGet_def Let_def store_simps)

subsection \<open>A list that fails\<close>

text \<open>
  When an object is gone and the list of the other objects of its model name fails, the name
  is lost: the entry is deleted already, the error makes the controller try again, but the
  second attempt finds no entry, returns without error and does not list.
\<close>

lemma failed_model_list_is_lost:
  assumes "ds_models ds = [(ModelName (model_Spec m), m)]" "ds_pool ds = Some p"
  shows "\<exists>ds' e. Model_Reconcile (\<lambda>_ _. Inl err) poolName ds (model_nn m) NotFound = Ret (ds', Some e) \<and>
    ModelGet ds' (ModelName (model_Spec m)) = None \<and>
    (\<forall>listModels. Model_Reconcile listModels poolName ds' (model_nn m) NotFound = Ret (ds', None))"
  using assms by (simp add: Model_Reconcile_def handleModelDeleted_def ModelDelete_def ModelResync_def ModelGet_def)

end
