(* ===== verification/Pod_Races.thy ===== *)
theory Pod_Races
  imports Controllers
begin

text \<open>
  pkg/epp/datastore/datastore.go, the operations on pods as goroutines run them. The pods
  are in a \<open>sync.Map\<close> that no lock protects: \<open>Load\<close>, \<open>Store\<close> and \<open>LoadAndDelete\<close> are atomic, but
  \<open>PodUpdateOrAddIfNotExist\<close> loads, creates and stores in three steps and \<open>PodDelete\<close> takes an
  entry out and stops its loop in two. The pod reconciler and the resync of the pool
  reconciler call them from different goroutines. Here a goroutine is the list of the
  instructions it has still to run, and the steps of the goroutines interleave: alone, the
  instructions have the effect of the operations of Datastore; no loop is lost as long as no
  two goroutines add the same pod; when two do, one of the loops is. (The refresh loops only
  replace the metrics of their object, which no instruction reads.)
\<close>

subsection \<open>Instructions\<close>

datatype pod_instr =
    AddLoad corePod \<comment> \<open>\<open>ds.pods.Load\<close> in \<open>PodUpdateOrAddIfNotExist\<close>\<close>
  | AddNew corePod \<comment> \<open>\<open>NewPodMetrics\<close>, which starts the loop\<close>
  | AddStore corePod nat \<comment> \<open>\<open>ds.pods.Store\<close>\<close>
  | AddUpdate corePod nat \<comment> \<open>\<open>pm.UpdatePod\<close>\<close>
  | DelLoad NamespacedName \<comment> \<open>\<open>ds.pods.LoadAndDelete\<close> in \<open>PodDelete\<close>\<close>
  | DelStop nat \<comment> \<open>\<open>StopRefreshLoop\<close>\<close>

fun pod_exec :: "pod_instr \<Rightarrow> datastore \<Rightarrow> (datastore \<times> pod_instr list) go" where
  \<comment> \<open>one instruction: the store, and the instructions of the operation that are left\<close>
  "pod_exec (AddLoad p) ds =
     Ret (ds, case map_of (ds_pods ds) (pod_nn p) of None \<Rightarrow> [AddNew p] | Some a \<Rightarrow> [AddUpdate p a])"
| "pod_exec (AddNew p) ds =
     Ret (ds\<lparr>ds_heap := ds_heap ds @ [NewPodMetrics p]\<rparr>, [AddStore p (length (ds_heap ds))])"
| "pod_exec (AddStore p a) ds = Ret (ds\<lparr>ds_pods := AList.update (pod_nn p) a (ds_pods ds)\<rparr>, [AddUpdate p a])"
| "pod_exec (AddUpdate p a) ds = Ret (ds\<lparr>ds_heap := (ds_heap ds)[a := UpdatePod (ds_heap ds ! a) p]\<rparr>, [])"
| "pod_exec (DelLoad nn) ds =
     (case map_of (ds_pods ds) nn of
        None \<Rightarrow> Ret (ds, [])
      | Some a \<Rightarrow> Ret (ds\<lparr>ds_pods := AList.delete nn (ds_pods ds)\<rparr>, [DelStop a]))"
| "pod_exec (DelStop a) ds =
     go_bind (StopRefreshLoop (ds_heap ds ! a)) (\<lambda>pm. Ret (ds\<lparr>ds_heap := (ds_heap ds)[a := pm]\<rparr>, []))"

type_synonym pod_sys = "datastore \<times> pod_instr list list"

inductive pod_go :: "nat \<Rightarrow> pod_sys \<Rightarrow> pod_sys \<Rightarrow> bool" where
  \<comment> \<open>goroutine \<open>i\<close> runs its next instruction\<close>
  exec: "i < length gs \<Longrightarrow> gs ! i = ins # rest \<Longrightarrow> pod_exec ins ds = Ret (ds', new) \<Longrightarrow>
    pod_go i (ds, gs) (ds', gs[i := new @ rest])"

lemmas pod_run = run_cons [where step = pod_go] run_nil [where step = pod_go]

fun call :: "pod_instr \<Rightarrow> bool" where
  \<comment> \<open>an operation that has not begun\<close>
  "call (AddLoad p) = True"
| "call (DelLoad nn) = True"
| "call _ = False"

subsection \<open>A goroutine alone\<close>

lemma alone:
  assumes "run pod_go (ds1, [g]) sched s" "pod_exec ins ds = Ret (ds1, new)" "g = new @ rest"
  shows "run pod_go (ds, [ins # rest]) (0 # sched) s"
proof (rule run_cons)
  show "pod_go 0 (ds, [ins # rest]) (ds1, [g])"
    using pod_go.exec [of 0 "[ins # rest]" ins rest ds ds1 new] assms(2,3) by simp
qed (rule assms(1))

lemma alone_updates:
  "run pod_go (ds, [AddUpdate p a # rest]) [0] (ds\<lparr>ds_heap := (ds_heap ds)[a := UpdatePod (ds_heap ds ! a) p]\<rparr>, [rest])"
  by (rule alone [OF run_nil]) simp_all

text \<open>
  A goroutine that runs alone has the effect of the operation of the datastore.
\<close>

lemma alone_adds:
  "\<exists>sched. run pod_go (ds, [AddLoad p # rest]) sched (fst (PodUpdateOrAddIfNotExist ds p), [rest])"
proof (cases "map_of (ds_pods ds) (pod_nn p)")
  case None
  let ?a = "length (ds_heap ds)" and ?h = "ds_heap ds @ [NewPodMetrics p]"
  let ?ds = "ds\<lparr>ds_heap := ?h, ds_pods := AList.update (pod_nn p) ?a (ds_pods ds)\<rparr>"
  have "fst (PodUpdateOrAddIfNotExist ds p) = ?ds\<lparr>ds_heap := (ds_heap ?ds)[?a := UpdatePod (ds_heap ?ds ! ?a) p]\<rparr>"
    using None by (simp add: PodUpdateOrAddIfNotExist_def Let_def)
  with alone_updates [of ?ds p ?a rest] have
    "run pod_go (?ds, [AddUpdate p ?a # rest]) [0] (fst (PodUpdateOrAddIfNotExist ds p), [rest])" by simp
  from alone [OF this, of "AddStore p ?a" "ds\<lparr>ds_heap := ?h\<rparr>" "[AddUpdate p ?a]" rest] have
    "run pod_go (ds\<lparr>ds_heap := ?h\<rparr>, [AddStore p ?a # rest]) [0, 0] (fst (PodUpdateOrAddIfNotExist ds p), [rest])" by simp
  from alone [OF this, of "AddNew p" ds "[AddStore p ?a]" rest] have
    "run pod_go (ds, [AddNew p # rest]) [0, 0, 0] (fst (PodUpdateOrAddIfNotExist ds p), [rest])" by simp
  from alone [OF this, of "AddLoad p" ds "[AddNew p]" rest] None show ?thesis by auto
next
  case (Some a)
  have "fst (PodUpdateOrAddIfNotExist ds p) = ds\<lparr>ds_heap := (ds_heap ds)[a := UpdatePod (ds_heap ds ! a) p]\<rparr>"
    using Some by (simp add: PodUpdateOrAddIfNotExist_def)
  with alone_updates [of ds p a rest] have
    "run pod_go (ds, [AddUpdate p a # rest]) [0] (fst (PodUpdateOrAddIfNotExist ds p), [rest])" by simp
  from alone [OF this, of "AddLoad p" ds "[AddUpdate p a]" rest] Some show ?thesis by auto
qed

lemma alone_deletes:
  assumes "PodDelete ds nn = Ret ds'"
  shows "\<exists>sched. run pod_go (ds, [DelLoad nn # rest]) sched (ds', [rest])"
proof (cases "map_of (ds_pods ds) nn")
  case None
  with assms alone [OF run_nil, of "DelLoad nn" ds ds' "[]" rest rest] show ?thesis by (auto simp: PodDelete_def)
next
  case (Some a)
  with assms obtain pm where pm: "StopRefreshLoop (ds_heap ds ! a) = Ret pm"
    "ds' = ds\<lparr>ds_pods := AList.delete nn (ds_pods ds), ds_heap := (ds_heap ds)[a := pm]\<rparr>"
    by (auto simp: PodDelete_def Let_def go_simps)
  let ?ds = "ds\<lparr>ds_pods := AList.delete nn (ds_pods ds)\<rparr>"
  from alone [OF run_nil, of "DelStop a" ?ds ds' "[]" rest rest] pm have
    "run pod_go (?ds, [DelStop a # rest]) [0] (ds', [rest])" by simp
  from alone [OF this, of "DelLoad nn" ds "[DelStop a]" rest] Some show ?thesis by auto
qed

subsection \<open>No loop is lost while no two goroutines add the same pod\<close>

fun adds :: "pod_instr \<Rightarrow> NamespacedName set" where
  \<comment> \<open>the pod the goroutine is adding\<close>
  "adds (AddLoad p) = {pod_nn p}"
| "adds (AddNew p) = {pod_nn p}"
| "adds (AddStore p a) = {pod_nn p}"
| "adds _ = {}"

fun holds :: "pod_instr \<Rightarrow> nat set" where
  \<comment> \<open>the object only this goroutine knows\<close>
  "holds (AddStore p a) = {a}"
| "holds (DelStop a) = {a}"
| "holds _ = {}"

definition added :: "pod_instr list \<Rightarrow> NamespacedName set" where
  "added g = \<Union> (adds ` set g)"

definition one_adder :: "pod_instr list list \<Rightarrow> bool" where
  \<comment> \<open>no pod is added by two goroutines\<close>
  "one_adder gs \<longleftrightarrow> (\<forall>i<length gs. \<forall>j<length gs. i \<noteq> j \<longrightarrow> added (gs ! i) \<inter> added (gs ! j) = {})"

lemma one_adder_update:
  assumes "one_adder gs" "added g \<subseteq> added (gs ! i)"
  shows "one_adder (gs[i := g])"
  unfolding one_adder_def
proof (intro allI impI)
  fix j k assume "j < length (gs[i := g])" "k < length (gs[i := g])" "j \<noteq> k"
  then have "added (gs ! j) \<inter> added (gs ! k) = {}" "j < length gs" "k < length gs" using assms(1) by (auto simp: one_adder_def)
  with assms(2) \<open>j \<noteq> k\<close> show "added (gs[i := g] ! j) \<inter> added (gs[i := g] ! k) = {}"
    by (cases "j = i"; cases "k = i") auto
qed

definition live :: "datastore \<Rightarrow> nat \<Rightarrow> bool" where
  "live ds a \<longleftrightarrow> a < length (ds_heap ds) \<and> pm_started (ds_heap ds ! a) \<and> \<not> pm_done (ds_heap ds ! a)"

fun instr_ok :: "datastore \<Rightarrow> pod_instr \<Rightarrow> bool" where
  "instr_ok ds (AddNew p) \<longleftrightarrow> pod_nn p \<notin> fst ` set (ds_pods ds)"
| "instr_ok ds (AddStore p a) \<longleftrightarrow> pod_nn p \<notin> fst ` set (ds_pods ds) \<and> live ds a \<and> a \<notin> snd ` set (ds_pods ds) \<and>
     pm_nn (ds_heap ds ! a) = pod_nn p"
| "instr_ok ds (AddUpdate p a) \<longleftrightarrow> a < length (ds_heap ds) \<and> pm_nn (ds_heap ds ! a) = pod_nn p"
| "instr_ok ds (DelStop a) \<longleftrightarrow> live ds a \<and> a \<notin> snd ` set (ds_pods ds)"
| "instr_ok ds _ \<longleftrightarrow> True"

lemma call_ok: "call ins \<Longrightarrow> instr_ok ds ins \<and> holds ins = {}"
  by (cases ins) simp_all

lemma held_unstored: "instr_ok ds ins \<Longrightarrow> a \<in> holds ins \<Longrightarrow> live ds a \<and> a \<notin> snd ` set (ds_pods ds)"
  by (cases ins) auto

lemma wf_pods_iff:
  "wf_pods ds \<longleftrightarrow> is_map (ds_pods ds) \<and> distinct (map snd (ds_pods ds)) \<and>
     (\<forall>k a. (k, a) \<in> set (ds_pods ds) \<longrightarrow> live ds a \<and> pm_nn (ds_heap ds ! a) = k)"
  by (auto simp: wf_pods_def live_def)

lemma stored_live: "wf_pods ds \<Longrightarrow> a \<in> snd ` set (ds_pods ds) \<Longrightarrow> live ds a"
  by (auto simp: wf_pods_iff)

lemma live_new: "live (ds\<lparr>ds_heap := ds_heap ds @ [NewPodMetrics p]\<rparr>) a \<longleftrightarrow> live ds a \<or> a = length (ds_heap ds)"
  by (auto simp: live_def nth_append)

lemma UpdatePod_flags:
  assumes "a < length h" "pm_nn (h ! a) = pod_nn p"
  shows "pm_nn (h[a := UpdatePod (h ! a) p] ! b) = pm_nn (h ! b)"
    "pm_started (h[a := UpdatePod (h ! a) p] ! b) = pm_started (h ! b)"
    "pm_done (h[a := UpdatePod (h ! a) p] ! b) = pm_done (h ! b)"
  using assms by (cases "b = a"; simp add: UpdatePod_def toInternalPod_def)+

lemma exec_others:
  \<comment> \<open>what the other goroutines rely on\<close>
  assumes "pod_exec ins ds = Ret (ds', new)" "instr_ok ds ins" "instr_ok ds x"
    "adds ins \<inter> adds x = {}" "holds ins \<inter> holds x = {}"
  shows "instr_ok ds' x"
proof (cases ins)
  case (AddLoad p)
  with assms show ?thesis by simp
next
  case (AddNew p)
  with assms show ?thesis by (cases x) (auto simp: live_def nth_append)
next
  case (AddStore p a)
  with assms have d: "ds_pods ds' = ds_pods ds @ [(pod_nn p, a)]" "ds_heap ds' = ds_heap ds" by (auto simp: update_new)
  have "pod_nn q \<noteq> pod_nn p" if "adds x = {pod_nn q}" for q using assms(4) AddStore that by simp
  with assms(3,5) AddStore show ?thesis by (cases x) (simp_all add: live_def d)
next
  case (AddUpdate p a)
  with assms show ?thesis by (cases x) (auto simp: live_def UpdatePod_flags)
next
  case (DelLoad nn)
  show ?thesis
  proof (cases "map_of (ds_pods ds) nn")
    case (Some b)
    have sub: "set (AList.delete nn (ds_pods ds)) \<subseteq> set (ds_pods ds)" by (auto simp: set_delete)
    with image_mono [OF sub, of fst] image_mono [OF sub, of snd] Some DelLoad assms show ?thesis
      by (cases x) (auto simp: live_def simp del: image_subset_iff)
  qed (use DelLoad assms in simp)
next
  case (DelStop a)
  with assms show ?thesis
    by (cases x) (auto simp: live_def StopRefreshLoop_def nth_list_update split: if_split_asm)
qed

lemma exec_own:
  \<comment> \<open>what a goroutine has left to do, and what it holds then\<close>
  assumes "wf_pods ds" "pod_exec ins ds = Ret (ds', new)" "instr_ok ds ins"
  shows "new = [] \<or> (\<exists>y. new = [y] \<and> instr_ok ds' y \<and> adds y \<subseteq> adds ins \<and>
    (\<forall>a\<in>holds y. \<not> live ds a \<or> a \<in> snd ` set (ds_pods ds)))"
proof (cases ins)
  case (AddLoad p)
  with assms show ?thesis by (auto simp: map_of_eq_None_iff dest: wf_podsD split: option.split_asm)
next
  case (AddNew p)
  have "length (ds_heap ds) \<notin> snd ` set (ds_pods ds)" using stored_live [OF assms(1)] by (auto simp: live_def)
  with AddNew assms show ?thesis by (auto simp: live_def toInternalPod_def)
next
  case (AddStore p a)
  with assms show ?thesis by (auto simp: live_def)
next
  case (DelLoad nn)
  show ?thesis
  proof (cases "map_of (ds_pods ds) nn")
    case (Some a)
    have "a \<notin> snd ` set (AList.delete nn (ds_pods ds))"
      using assms(1) wf_podsD(5) [OF assms(1) Some] by (auto simp: set_delete dest: wf_pods_addr_inj)
    with Some DelLoad assms wf_podsD [OF assms(1) Some] show ?thesis by (force simp: live_def)
  qed (use DelLoad assms in simp)
qed (use assms in \<open>auto simp: go_simps\<close>)

lemma exec_wf:
  assumes "wf_pods ds" "pod_exec ins ds = Ret (ds', new)" "instr_ok ds ins"
  shows "wf_pods ds'"
proof (cases ins)
  case (AddLoad p)
  with assms show ?thesis by simp
next
  case (AddNew p)
  have "pm_nn ((ds_heap ds @ [NewPodMetrics p]) ! a) = pm_nn (ds_heap ds ! a)" if "live ds a" for a
    using that by (simp add: live_def nth_append)
  with AddNew assms show ?thesis by (auto simp: wf_pods_iff live_new)
next
  case (AddStore p a)
  with assms show ?thesis by (auto simp: wf_pods_def update_new live_def is_map_def)
next
  case (AddUpdate p a)
  with assms show ?thesis by (auto simp: wf_pods_def UpdatePod_flags)
next
  case (DelLoad nn)
  have "distinct (map snd (AList.delete nn (ds_pods ds)))" using assms(1)
    by (auto simp: wf_pods_def AList.delete_eq intro: distinct_map_filter)
  with DelLoad assms show ?thesis by (auto simp: wf_pods_def set_delete split: option.split_asm)
next
  case (DelStop a)
  with assms obtain pm where ds': "ds' = ds\<lparr>ds_heap := (ds_heap ds)[a := pm]\<rparr>" by (auto simp: go_simps)
  have "live ds' b \<and> pm_nn (ds_heap ds' ! b) = k" if "(k, b) \<in> set (ds_pods ds)" for k b
  proof -
    have "b \<noteq> a" using that DelStop assms(3) by force
    with that assms(1) show ?thesis by (simp add: wf_pods_iff live_def ds')
  qed
  with assms(1) show ?thesis by (simp add: wf_pods_iff ds')
qed

lemma exec_tracked:
  \<comment> \<open>a loop that runs afterwards\<close>
  assumes wf: "wf_pods ds" and "pod_exec ins ds = Ret (ds', new)" "live ds' a" "instr_ok ds ins"
  shows "a \<in> snd ` set (ds_pods ds') \<or> a \<in> \<Union> (holds ` set new) \<or>
    live ds a \<and> a \<notin> snd ` set (ds_pods ds) \<and> a \<notin> holds ins"
proof (cases ins)
  case (AddNew p)
  with assms show ?thesis by (auto simp: live_new)
next
  case (AddStore p b)
  with assms show ?thesis by (cases "a = b") (auto simp: live_def update_new)
next
  case (AddUpdate p b)
  with assms show ?thesis by (auto simp: live_def UpdatePod_flags)
next
  case (DelLoad nn)
  show ?thesis
  proof (cases "map_of (ds_pods ds) nn")
    case (Some b)
    with DelLoad assms have d: "ds_pods ds' = AList.delete nn (ds_pods ds)" "new = [DelStop b]" "live ds a"
      by (auto simp: live_def)
    have "k = nn \<Longrightarrow> a = b" if "(k, a) \<in> set (ds_pods ds)" for k
      using that Some wf by (auto simp: wf_pods_iff is_map_def dest: map_of_is_SomeI)
    then have "a \<in> snd ` set (ds_pods ds) \<Longrightarrow> a \<in> snd ` set (AList.delete nn (ds_pods ds)) \<or> a = b"
      by (force simp: set_delete)
    with d DelLoad show ?thesis by auto
  qed (use DelLoad assms in auto)
next
  case (DelStop b)
  with assms show ?thesis
    by (cases "a = b") (auto simp: live_def StopRefreshLoop_def split: if_split_asm)
qed (use assms in auto)

definition held :: "pod_instr list \<Rightarrow> nat set" where
  "held g = \<Union> (holds ` set g)"

definition go_ok :: "datastore \<Rightarrow> pod_instr list \<Rightarrow> bool" where
  \<comment> \<open>a goroutine is in the middle of at most one operation, the first\<close>
  "go_ok ds g \<longleftrightarrow> list_all (instr_ok ds) g \<and> list_all call (tl g)"

definition race_inv :: "pod_sys \<Rightarrow> bool" where
  "race_inv s \<longleftrightarrow> (case s of (ds, gs) \<Rightarrow>
     wf_pods ds \<and> one_adder gs \<and> (\<forall>i<length gs. go_ok ds (gs ! i)) \<and>
     (\<forall>i<length gs. \<forall>j<length gs. i \<noteq> j \<longrightarrow> held (gs ! i) \<inter> held (gs ! j) = {}) \<and>
     (\<forall>a. live ds a \<longrightarrow> a \<in> snd ` set (ds_pods ds) \<or> (\<exists>i<length gs. a \<in> held (gs ! i))))"

lemma calls_hold_nothing: "list_all call g \<Longrightarrow> held g = {} \<and> list_all (instr_ok ds) g"
  by (auto simp: held_def list_all_iff call_ok)

lemma race_step:
  assumes "race_inv s" "pod_go i s s'"
  shows "race_inv s'"
  using assms(2)
proof (cases rule: pod_go.cases)
  case (exec gs ins rest ds ds' new)
  from assms(1) exec(1) have wf: "wf_pods ds" and one: "one_adder gs" and ok: "\<And>j. j < length gs \<Longrightarrow> go_ok ds (gs ! j)"
    and disj: "\<And>j k. j < length gs \<Longrightarrow> k < length gs \<Longrightarrow> j \<noteq> k \<Longrightarrow> held (gs ! j) \<inter> held (gs ! k) = {}"
    and tracked: "\<And>a. live ds a \<Longrightarrow> a \<in> snd ` set (ds_pods ds) \<or> (\<exists>j<length gs. a \<in> held (gs ! j))"
    unfolding race_inv_def by auto
  from ok [OF exec(3)] exec(4) have ins: "instr_ok ds ins" and rest: "list_all call rest" by (simp_all add: go_ok_def)
  have mine: "held (gs ! i) = holds ins" using calls_hold_nothing [OF rest] exec(4) by (auto simp: held_def)
  have left: "held (new @ rest) = \<Union> (holds ` set new)" using calls_hold_nothing [OF rest] by (auto simp: held_def)
  note own = exec_own [OF wf exec(5) ins]
  have apart: "adds ins \<inter> adds x = {}" "holds ins \<inter> holds x = {}" if "j < length gs" "j \<noteq> i" "x \<in> set (gs ! j)" for j x
  proof -
    from one exec(3) that(1,2) have "added (gs ! i) \<inter> added (gs ! j) = {}" by (auto simp: one_adder_def)
    with that(3) exec(4) show "adds ins \<inter> adds x = {}" by (auto simp: added_def)
    from disj [OF exec(3) that(1)] that(2,3) mine show "holds ins \<inter> holds x = {}" by (auto simp: held_def)
  qed
  have others: "go_ok ds' (gs ! j)" if "j < length gs" "j \<noteq> i" for j
    using ok [OF that(1)] exec_others [OF exec(5) ins _ apart [OF that]] by (auto simp: go_ok_def list_all_iff)
  have self: "go_ok ds' (new @ rest)"
    using own rest calls_hold_nothing [OF rest, of ds'] by (cases rest) (auto simp: go_ok_def)
  have fresh: "\<Union> (holds ` set new) \<inter> held (gs ! j) = {}" if "j < length gs" "j \<noteq> i" for j
  proof -
    have "live ds a \<and> a \<notin> snd ` set (ds_pods ds)" if "a \<in> held (gs ! j)" for a
      using ok [OF \<open>j < length gs\<close>] held_unstored that by (auto simp: held_def go_ok_def list_all_iff)
    with own show ?thesis by (auto; blast)
  qed
  have "added (new @ rest) \<subseteq> added (gs ! i)" using own exec(4) by (auto simp: added_def)
  note one' = one_adder_update [OF one this]
  have disj': "held (gs[i := new @ rest] ! j) \<inter> held (gs[i := new @ rest] ! k) = {}"
    if "j < length gs" "k < length gs" "j \<noteq> k" for j k
    using that disj [OF that] fresh [of j] fresh [of k] left by (cases "j = i"; cases "k = i") (simp_all add: Int_commute)
  have tracked': "a \<in> snd ` set (ds_pods ds') \<or> (\<exists>j<length gs. a \<in> held (gs[i := new @ rest] ! j))" if "live ds' a" for a
  proof -
    from exec_tracked [OF wf exec(5) that ins] consider "a \<in> snd ` set (ds_pods ds')" | "a \<in> \<Union> (holds ` set new)"
      | "live ds a" "a \<notin> snd ` set (ds_pods ds)" "a \<notin> holds ins" by blast
    then show ?thesis
    proof cases
      case 2
      with left exec(3) show ?thesis by (intro disjI2 exI [of _ i]) simp
    next
      case 3
      with tracked mine obtain j where "j < length gs" "j \<noteq> i" "a \<in> held (gs ! j)" by blast
      then show ?thesis by (intro disjI2 exI [of _ j]) simp
    qed simp
  qed
  have ok': "go_ok ds' (gs[i := new @ rest] ! j)" if "j < length gs" for j
    using that self others by (cases "j = i") simp_all
  show ?thesis
    unfolding exec(2) race_inv_def using exec_wf [OF wf exec(5) ins] one' ok' disj' tracked' by simp
qed

interpretation race: step_invariant pod_go race_inv "\<lambda>_. True"
  using race_step by unfold_locales blast

lemma race_start:
  assumes "wf_pods ds" "loops_tracked ds" "\<forall>g\<in>set gs. list_all call g" "one_adder gs"
  shows "race_inv (ds, gs)"
proof -
  have "go_ok ds (gs ! i) \<and> held (gs ! i) = {}" if "i < length gs" for i
    using bspec [OF assms(3) nth_mem [OF that]] calls_hold_nothing [of "gs ! i" ds] by (cases "gs ! i") (simp_all add: go_ok_def)
  with assms show ?thesis by (auto simp: race_inv_def loops_tracked_def live_def)
qed

lemma goroutine_moves:
  \<comment> \<open>nothing panics: whoever is not done can run its next instruction\<close>
  assumes "race_inv (ds, gs)" "i < length gs" "gs ! i \<noteq> []"
  shows "\<exists>s'. pod_go i (ds, gs) s'"
proof -
  from assms(3) obtain ins rest where g: "gs ! i = ins # rest" by (cases "gs ! i") auto
  with assms have "instr_ok ds ins" by (auto simp: race_inv_def go_ok_def)
  then have "returns (pod_exec ins ds)" by (cases ins) (auto simp: live_def StopRefreshLoop_def split: option.split)
  then obtain ds' new where "pod_exec ins ds = Ret (ds', new)" by (auto simp: returns_iff)
  with assms(2) g show ?thesis by (blast intro: pod_go.exec)
qed

fun weight :: "pod_instr \<Rightarrow> nat" where
  \<comment> \<open>how many instructions the operation has left at most\<close>
  "weight (AddLoad p) = 4"
| "weight (AddNew p) = 3"
| "weight (AddStore p a) = 2"
| "weight (AddUpdate p a) = 1"
| "weight (DelLoad nn) = 2"
| "weight (DelStop a) = 1"

definition work :: "pod_instr list list \<Rightarrow> nat" where
  "work gs = sum_list (map (\<lambda>g. sum_list (map weight g)) gs)"

lemma exec_weight: "pod_exec ins ds = Ret (ds', new) \<Longrightarrow> sum_list (map weight new) < weight ins"
  by (cases ins) (auto simp: go_simps split: option.split_asm)

lemma work_step:
  assumes "pod_go i (ds, gs) (ds', gs')"
  shows "work gs' < work gs \<and> length gs' = length gs"
  using assms
proof (cases rule: pod_go.cases)
  case (exec ins rest new)
  let ?w = "\<lambda>g. sum_list (map weight g)"
  have "map ?w gs ! i = weight ins + ?w rest" "i < length (map ?w gs)" using exec(2,3) by simp_all
  then have "weight ins + ?w rest \<le> work gs" unfolding work_def by (metis elem_le_sum_list)
  with exec_weight [OF exec(4)] exec(1-3) show ?thesis
    by (simp add: work_def map_update sum_list_update)
qed

lemma work_bounds:
  "run pod_go s sched s' \<Longrightarrow> length sched + work (snd s') \<le> work (snd s) \<and> length (snd s') = length (snd s)"
proof (induction rule: run.induct)
  case (run_cons i s s1 sched s')
  from work_step [of i "fst s" "snd s" "fst s1" "snd s1"] run_cons(1,3) show ?case by simp
qed simp

lemma calls_weight: "list_all call g \<Longrightarrow> sum_list (map weight g) \<le> 4 * length g"
  by (induction g) (auto elim: call.elims)

lemma calls_work: "\<forall>g\<in>set gs. list_all call g \<Longrightarrow> work gs \<le> 4 * sum_list (map length gs)"
  by (induction gs) (auto simp: work_def dest: calls_weight)

lemma goroutines_finish:
  assumes "race_inv (ds, gs)"
  shows "\<exists>sched ds'. run pod_go (ds, gs) sched (ds', replicate (length gs) [])"
  using assms
proof (induction "work gs" arbitrary: ds gs rule: less_induct)
  case less
  show ?case
  proof (cases "\<exists>i<length gs. gs ! i \<noteq> []")
    case True
    then obtain i ds1 gs1 where step: "pod_go i (ds, gs) (ds1, gs1)" using goroutine_moves [OF less(2)] by (metis surj_pair)
    from less(1) [OF conjunct1 [OF work_step [OF step]] race_step [OF less(2) step]] work_step [OF step] step
    show ?thesis by (auto intro: run_cons)
  next
    case False
    then have "gs = replicate (length gs) []" by (auto intro: nth_equalityI)
    then show ?thesis by (metis run_nil)
  qed
qed

text \<open>
  C27. No refresh loop is leaked as long as no two goroutines add the same pod. Let any number
  of goroutines add and delete pods, their instructions interleaved in any way, such that no
  pod is added by two of them (what they delete is not restricted). Then every run is
  bounded by four instructions per call, nothing panics and nothing blocks, so that from
  every state the goroutines can be run to their ends; and once they have returned every
  stored pod has its running loop and every running loop belongs to a stored pod.
\<close>

theorem one_adder_keeps_loops:
  assumes "wf_pods ds" "loops_tracked ds" "\<forall>g\<in>set gs. list_all call g" "one_adder gs" "run pod_go (ds, gs) sched (ds', gs')"
  shows "length sched \<le> 4 * sum_list (map length gs) \<and>
    (\<exists>js ds''. run pod_go (ds', gs') js (ds'', replicate (length gs) [])) \<and>
    (gs' = replicate (length gs) [] \<longrightarrow> wf_pods ds' \<and> loops_tracked ds')"
proof -
  have inv: "race_inv (ds', gs')" using race.run_keeps [OF assms(5) race_start [OF assms(1-4)]] by simp
  have len: "length gs' = length gs" "length sched \<le> work gs" using work_bounds [OF assms(5)] by simp_all
  have "wf_pods ds' \<and> loops_tracked ds'" if "gs' = replicate (length gs) []"
    using inv that by (auto simp: race_inv_def loops_tracked_def live_def held_def)
  with goroutines_finish [OF inv] len calls_work [OF assms(3)] show ?thesis by auto
qed

lemma example_two_goroutines:
  "run pod_go (NewDatastore, [[AddLoad (example_pod ''a'' ''10.0.0.1'')], [DelLoad (pod_nn (example_pod ''a'' ''10.0.0.1''))]])
     [0, 1] (NewDatastore, [[AddNew (example_pod ''a'' ''10.0.0.1'')], []])"
proof -
  let ?p = "example_pod ''a'' ''10.0.0.1''"
  have 1: "pod_go 0 (NewDatastore, [[AddLoad ?p], [DelLoad (pod_nn ?p)]]) (NewDatastore, [[AddNew ?p], [DelLoad (pod_nn ?p)]])"
    using pod_go.exec [of 0 "[[AddLoad ?p], [DelLoad (pod_nn ?p)]]" "AddLoad ?p" "[]" NewDatastore NewDatastore "[AddNew ?p]"]
    by (simp add: NewDatastore_def)
  have 2: "pod_go 1 (NewDatastore, [[AddNew ?p], [DelLoad (pod_nn ?p)]]) (NewDatastore, [[AddNew ?p], []])"
    using pod_go.exec [of 1 "[[AddNew ?p], [DelLoad (pod_nn ?p)]]" "DelLoad (pod_nn ?p)" "[]" NewDatastore NewDatastore "[]"]
    by (simp add: NewDatastore_def)
  show ?thesis by (rule pod_run(1) [OF 1], rule pod_run(1) [OF 2], rule pod_run(2))
qed

theorem one_adder_keeps_loops_witness:
  "\<exists>js ds''. run pod_go (NewDatastore, [[AddNew (example_pod ''a'' ''10.0.0.1'')], []]) js (ds'', [[], []])"
proof -
  have "wf_pods NewDatastore" "loops_tracked NewDatastore" using wf_NewDatastore by (simp_all add: wf_ds_def)
  moreover have "one_adder [[AddLoad p], [DelLoad nn]]" for p nn by (auto simp: one_adder_def added_def less_Suc_eq)
  ultimately show ?thesis using one_adder_keeps_loops [OF _ _ _ _ example_two_goroutines] by (auto simp: numeral_2_eq_2)
qed

subsection \<open>Two goroutines that add the same pod\<close>

text \<open>
  When the pod reconciler and the resync of the pool reconciler add the same pod at the same
  time, both miss it in the map, both create an object and start its loop, and the entry of
  the first is overwritten by that of the second: the first loop runs for ever.
\<close>

lemma update_last: "k \<notin> fst ` set ls \<Longrightarrow> AList.update k v (ls @ [(k, w)]) = ls @ [(k, v)]"
  by (induction ls) auto

lemma UpdatePod_same: "UpdatePod (NewPodMetrics p) p = NewPodMetrics p"
  by (simp add: UpdatePod_def NewPodMetrics_def startRefreshLoop_def)

lemma go_pair:
  assumes "pod_exec ins ds = Ret (ds', new)"
  shows "pod_go 0 (ds, [ins # rest, g]) (ds', [new @ rest, g])" "pod_go 1 (ds, [g, ins # rest]) (ds', [g, new @ rest])"
  using assms pod_go.exec [of 0 "[ins # rest, g]" ins rest ds ds' new] pod_go.exec [of 1 "[g, ins # rest]" ins rest ds ds' new]
  by simp_all

lemma concurrent_adds:
  assumes new: "map_of (ds_pods ds) (pod_nn p) = None"
  shows "run pod_go (ds, [[AddLoad p], [AddLoad p]]) [0, 1, 0, 1, 0, 1, 0, 1]
    (ds\<lparr>ds_heap := ds_heap ds @ [NewPodMetrics p, NewPodMetrics p],
        ds_pods := ds_pods ds @ [(pod_nn p, Suc (length (ds_heap ds)))]\<rparr>, [[], []])"
proof -
  let ?a = "length (ds_heap ds)" and ?N = "NewPodMetrics p"
  let ?d1 = "ds\<lparr>ds_heap := ds_heap ds @ [?N]\<rparr>" and ?d2 = "ds\<lparr>ds_heap := ds_heap ds @ [?N, ?N]\<rparr>"
  let ?d3 = "?d2\<lparr>ds_pods := ds_pods ds @ [(pod_nn p, ?a)]\<rparr>" and ?d4 = "?d2\<lparr>ds_pods := ds_pods ds @ [(pod_nn p, Suc ?a)]\<rparr>"
  have k: "pod_nn p \<notin> fst ` set (ds_pods ds)" using new by (simp add: map_of_eq_None_iff)
  have 1: "pod_exec (AddLoad p) ds = Ret (ds, [AddNew p])" using new by simp
  have 2: "pod_exec (AddNew p) ds = Ret (?d1, [AddStore p ?a])" "pod_exec (AddNew p) ?d1 = Ret (?d2, [AddStore p (Suc ?a)])" by simp_all
  have 3: "pod_exec (AddStore p ?a) ?d2 = Ret (?d3, [AddUpdate p ?a])"
    "pod_exec (AddStore p (Suc ?a)) ?d3 = Ret (?d4, [AddUpdate p (Suc ?a)])" using k by (simp_all add: update_new update_last)
  have 4: "pod_exec (AddUpdate p ?a) ?d4 = Ret (?d4, [])" "pod_exec (AddUpdate p (Suc ?a)) ?d4 = Ret (?d4, [])"
    by (simp_all add: nth_append UpdatePod_same list_update_append)
  note steps = go_pair(1) [OF 1] go_pair(2) [OF 1] go_pair(1) [OF 2(1)] go_pair(2) [OF 2(2)] go_pair(1) [OF 3(1)] go_pair(2) [OF 3(2)]
    go_pair(1) [OF 4(1)] go_pair(2) [OF 4(2)]
  show ?thesis
    by (rule pod_run(1) [OF steps(1)], unfold append.simps, rule pod_run(1) [OF steps(2)], unfold append.simps,
        rule pod_run(1) [OF steps(3)], unfold append.simps, rule pod_run(1) [OF steps(4)], unfold append.simps,
        rule pod_run(1) [OF steps(5)], unfold append.simps, rule pod_run(1) [OF steps(6)], unfold append.simps,
        rule pod_run(1) [OF steps(7)], unfold append.simps, rule pod_run(1) [OF steps(8)], unfold append.simps, rule pod_run(2))
qed

theorem concurrent_adds_leak:
  assumes "wf_ds ds" "map_of (ds_pods ds) (pod_nn p) = None"
  shows "\<exists>ds'. run pod_go (ds, [[AddLoad p], [AddLoad p]]) [0, 1, 0, 1, 0, 1, 0, 1] (ds', [[], []]) \<and> wf_ds ds' \<and>
    (\<forall>evs ds''. run (ctrl_step fetch matches poolName) ds' evs ds'' \<longrightarrow> abandoned (length (ds_heap ds)) ds'')"
proof -
  let ?ds = "ds\<lparr>ds_heap := ds_heap ds @ [NewPodMetrics p, NewPodMetrics p],
    ds_pods := ds_pods ds @ [(pod_nn p, Suc (length (ds_heap ds)))]\<rparr>"
  have entry: "live ?ds a \<and> pm_nn (ds_heap ?ds ! a) = k \<and> a < length (ds_heap ds)" if "(k, a) \<in> set (ds_pods ds)" for k a
    using wf_pods_entry [OF _ that] assms(1) by (simp add: wf_ds_def live_def nth_append)
  then have "wf_pods ?ds \<and> length (ds_heap ds) \<notin> snd ` set (ds_pods ?ds)"
    using assms by (fastforce simp: wf_ds_def wf_pods_iff is_map_def map_of_eq_None_iff live_def nth_append toInternalPod_def)
  then have "wf_ds ?ds \<and> abandoned (length (ds_heap ds)) ?ds"
    using assms(1) by (auto simp: wf_ds_def wf_models_def abandoned_def nth_append)
  with concurrent_adds [OF assms(2)] abandoned_for_ever [of ?ds _ fetch matches poolName] show ?thesis by blast
qed

theorem concurrent_adds_leak_witness:
  "\<exists>ds'. run pod_go (NewDatastore, [[AddLoad (example_pod ''a'' ''10.0.0.1'')], [AddLoad (example_pod ''a'' ''10.0.0.1'')]])
     [0, 1, 0, 1, 0, 1, 0, 1] (ds', [[], []]) \<and> abandoned 0 ds'"
proof -
  have none: "map_of (ds_pods NewDatastore) nn = None" "ds_heap NewDatastore = []" for nn by (simp_all add: NewDatastore_def)
  from concurrent_adds_leak [where fetch = "\<lambda>_ m _. (Some m, [])" and matches = example_matches and poolName = "''pool''",
      OF wf_NewDatastore(1) none(1), unfolded none(2) list.size]
  show ?thesis using run_nil [of "ctrl_step (\<lambda>_ m _. (Some m, [])) example_matches ''pool''"] by blast
qed

end
