(* ===== verification/Fake_Metrics.thy ===== *)
theory Fake_Metrics
  imports Pod_Metrics
begin

text \<open>
  pkg/epp/backend/metrics/fake.go: the pod metrics and the metrics client without a network,
  which the runner accepts in place of the Prometheus client. Maps from pods to results and
  to (non-nil) errors are its state. It keeps the contract of a \<open>PodMetricsClient\<close>, so the
  refresh loop works on it as on the real one.
\<close>

record FakePodMetrics =
  fpm_Pod :: Pod
  fpm_Metrics :: Metrics

definition Fake_UpdatePod :: "FakePodMetrics \<Rightarrow> corePod \<Rightarrow> FakePodMetrics" where
  "Fake_UpdatePod fpm pod = fpm\<lparr>fpm_Pod := toInternalPod pod\<rparr>"

record FakePodMetricsClient =
  fake_Err :: "(NamespacedName, string) gomap"
  fake_Res :: "(NamespacedName, Metrics) gomap"

definition Fake_FetchMetrics ::
  "FakePodMetricsClient \<Rightarrow> Pod \<Rightarrow> Metrics \<Rightarrow> 32 word \<Rightarrow> Metrics option \<times> metric_error list" where
  "Fake_FetchMetrics f pod existing port =
     (case map_of (fake_Err f) (NamespacedName pod) of
        Some err \<Rightarrow> (None, [FakeError err])
      | None \<Rightarrow>
          (case map_of (fake_Res f) (NamespacedName pod) of
             None \<Rightarrow> (None, [FakeNoPod (NamespacedName pod)])
           | Some res \<Rightarrow> (Some (Clone res), [])))"

definition SetRes :: "FakePodMetricsClient \<Rightarrow> (NamespacedName, Metrics) gomap \<Rightarrow> FakePodMetricsClient" where
  "SetRes f new = f\<lparr>fake_Res := new\<rparr>"

definition SetErr :: "FakePodMetricsClient \<Rightarrow> (NamespacedName, string) gomap \<Rightarrow> FakePodMetricsClient" where
  "SetErr f new = f\<lparr>fake_Err := new\<rparr>"

definition FetchModelData :: "(string, InferenceModel) gomap \<Rightarrow> string \<Rightarrow> InferenceModel option" where
  "FetchModelData res modelName = map_of res modelName"

interpretation fake_client: pod_metrics_client "Fake_FetchMetrics f" for f
  by unfold_locales (auto simp: Fake_FetchMetrics_def split: option.splits)

text \<open>
  A refresh with the fake client shows the injected metrics, stamped with the clock; an
  injected error hides them and keeps what the pod had.
\<close>

lemma fake_refresh:
  assumes "map_of res (pm_nn pm) = Some m" "is_map (ActiveModels m)"
  shows "pm_metrics (fst (refreshMetrics (Fake_FetchMetrics (SetRes (SetErr f []) res)) (Inr pool) now pm)) = m\<lparr>UpdateTime := now\<rparr>"
    "map_of errs (pm_nn pm) = Some e \<Longrightarrow>
       fst (refreshMetrics (Fake_FetchMetrics (SetErr (SetRes f res) errs)) (Inr pool) now pm) = pm"
  using assms by (simp_all add: refreshMetrics_def Fake_FetchMetrics_def SetRes_def SetErr_def Clone_eq)

end
