(* ===== verification/Rw_Mutex.thy ===== *)
theory Rw_Mutex
  imports Prelude
begin

text \<open>
  Goroutines that share data under one \<open>sync.RWMutex\<close>. A goroutine is the list of the
  instructions it has left, with its local data and the number of read locks it holds;
  \<open>rw_step\<close> lets any goroutine take its next instruction. The mutex is that of package sync:
  \<open>Lock\<close> first announces the writer and then waits until no read lock is held, and while a
  writer is announced no further \<open>RLock\<close> succeeds.

  A section is the code between the outermost lock and its release. \<open>sections_atomic\<close> shows
  that interleaved runs of code that touches the data in its sections only have the effect
  of their sections one after the other; \<open>never_stuck\<close> that code which does not lock
  while it holds the lock does not block for ever.
\<close>

subsection \<open>Goroutines and the mutex\<close>

datatype ('s, 'l) instr =
    RLock | RUnlock | Lock | Unlock
  | Read "'s \<Rightarrow> 'l \<Rightarrow> 'l"
  | Update "'s \<Rightarrow> 'l \<Rightarrow> 's \<times> 'l"

record ('s, 'l) goroutine =
  gr_code :: "('s, 'l) instr list"
  gr_reads :: nat
  gr_local :: 'l

record ('s, 'l) shared_system =
  sh_data :: 's
  sh_writer :: "(nat \<times> bool) option"
  sh_gos :: "('s, 'l) goroutine list"

text \<open>\<open>sh_writer = Some (i, entered)\<close>: goroutine \<open>i\<close> is announced, and has the lock if \<open>entered\<close>.\<close>

definition writing :: "('s, 'l) shared_system \<Rightarrow> nat \<Rightarrow> bool" where
  "writing s i \<longleftrightarrow> sh_writer s = Some (i, True)"

abbreviation go_next :: "('s, 'l) shared_system \<Rightarrow> nat \<Rightarrow> ('s, 'l) instr list \<Rightarrow> nat \<Rightarrow> 'l \<Rightarrow> ('s, 'l) goroutine list" where
  "go_next s i c n l \<equiv> (sh_gos s)[i := \<lparr>gr_code = c, gr_reads = n, gr_local = l\<rparr>]"

inductive rw_step :: "nat \<Rightarrow> ('s, 'l) shared_system \<Rightarrow> ('s, 'l) shared_system \<Rightarrow> bool" where
  rlock: "i < length (sh_gos s) \<Longrightarrow> sh_gos s ! i = \<lparr>gr_code = RLock # c, gr_reads = n, gr_local = l\<rparr> \<Longrightarrow> sh_writer s = None \<Longrightarrow>
    rw_step i s (s\<lparr>sh_gos := go_next s i c (Suc n) l\<rparr>)"
| runlock: "i < length (sh_gos s) \<Longrightarrow> sh_gos s ! i = \<lparr>gr_code = RUnlock # c, gr_reads = Suc n, gr_local = l\<rparr> \<Longrightarrow>
    rw_step i s (s\<lparr>sh_gos := go_next s i c n l\<rparr>)"
| announce: "i < length (sh_gos s) \<Longrightarrow> sh_gos s ! i = \<lparr>gr_code = Lock # c, gr_reads = n, gr_local = l\<rparr> \<Longrightarrow> sh_writer s = None \<Longrightarrow>
    rw_step i s (s\<lparr>sh_writer := Some (i, False)\<rparr>)"
| enter: "i < length (sh_gos s) \<Longrightarrow> sh_gos s ! i = \<lparr>gr_code = Lock # c, gr_reads = n, gr_local = l\<rparr> \<Longrightarrow>
    sh_writer s = Some (i, False) \<Longrightarrow> list_all (\<lambda>g. gr_reads g = 0) (sh_gos s) \<Longrightarrow>
    rw_step i s (s\<lparr>sh_writer := Some (i, True), sh_gos := go_next s i c n l\<rparr>)"
| unlock: "i < length (sh_gos s) \<Longrightarrow> sh_gos s ! i = \<lparr>gr_code = Unlock # c, gr_reads = n, gr_local = l\<rparr> \<Longrightarrow>
    sh_writer s = Some (i, True) \<Longrightarrow> rw_step i s (s\<lparr>sh_writer := None, sh_gos := go_next s i c n l\<rparr>)"
| read: "i < length (sh_gos s) \<Longrightarrow> sh_gos s ! i = \<lparr>gr_code = Read f # c, gr_reads = n, gr_local = l\<rparr> \<Longrightarrow>
    rw_step i s (s\<lparr>sh_gos := go_next s i c n (f (sh_data s) l)\<rparr>)"
| update: "i < length (sh_gos s) \<Longrightarrow> sh_gos s ! i = \<lparr>gr_code = Update f # c, gr_reads = n, gr_local = l\<rparr> \<Longrightarrow>
    rw_step i s (s\<lparr>sh_data := fst (f (sh_data s) l), sh_gos := go_next s i c n (snd (f (sh_data s) l))\<rparr>)"

inductive_cases rw_stepE: "rw_step i s s'"

definition finished :: "('s, 'l) shared_system \<Rightarrow> bool" where
  "finished s \<longleftrightarrow> list_all (\<lambda>g. gr_code g = []) (sh_gos s)"

definition start :: "'s \<Rightarrow> (('s, 'l) instr list \<times> 'l) list \<Rightarrow> ('s, 'l) shared_system" where
  "start d gs = \<lparr>sh_data = d, sh_writer = None, sh_gos = map (\<lambda>(c, l). \<lparr>gr_code = c, gr_reads = 0, gr_local = l\<rparr>) gs\<rparr>"

subsection \<open>Code that keeps to its locks\<close>

fun guarded :: "nat \<Rightarrow> bool \<Rightarrow> ('s, 'l) instr list \<Rightarrow> bool" where
  \<comment> \<open>with \<open>n\<close> read locks held, and the write lock if \<open>w\<close>: locks are released, data is read under
     a lock and changed under the write lock only\<close>
  "guarded n w [] \<longleftrightarrow> n = 0 \<and> \<not> w"
| "guarded n w (RLock # c) \<longleftrightarrow> \<not> w \<and> guarded (Suc n) w c"
| "guarded n w (RUnlock # c) \<longleftrightarrow> 0 < n \<and> guarded (n - 1) w c"
| "guarded n w (Lock # c) \<longleftrightarrow> n = 0 \<and> \<not> w \<and> guarded 0 True c"
| "guarded n w (Unlock # c) \<longleftrightarrow> w \<and> n = 0 \<and> guarded 0 False c"
| "guarded n w (Read f # c) \<longleftrightarrow> (0 < n \<or> w) \<and> guarded n w c"
| "guarded n w (Update f # c) \<longleftrightarrow> w \<and> guarded n w c"

definition rw_ok :: "('s, 'l) shared_system \<Rightarrow> bool" where
  "rw_ok s \<longleftrightarrow>
     (\<forall>i<length (sh_gos s). guarded (gr_reads (sh_gos s ! i)) (writing s i) (gr_code (sh_gos s ! i))) \<and>
     (\<forall>i. writing s i \<longrightarrow> i < length (sh_gos s) \<and> (\<forall>j<length (sh_gos s). gr_reads (sh_gos s ! j) = 0)) \<and>
     (\<forall>i. sh_writer s = Some (i, False) \<longrightarrow> i < length (sh_gos s) \<and> (\<exists>c. gr_code (sh_gos s ! i) = Lock # c))"

lemma rw_okD:
  assumes "rw_ok s"
  shows "i < length (sh_gos s) \<Longrightarrow> guarded (gr_reads (sh_gos s ! i)) (writing s i) (gr_code (sh_gos s ! i))"
    "writing s i \<Longrightarrow> i < length (sh_gos s)"
    "writing s i \<Longrightarrow> j < length (sh_gos s) \<Longrightarrow> gr_reads (sh_gos s ! j) = 0"
    "sh_writer s = Some (i, False) \<Longrightarrow> i < length (sh_gos s) \<and> (\<exists>c. gr_code (sh_gos s ! i) = Lock # c)"
  using assms by (auto simp: rw_ok_def)

lemma rw_step_ok:
  assumes ok: "rw_ok s" and step: "rw_step i s s'"
  shows "rw_ok s'"
  using step
proof (cases rule: rw_step.cases)
  case (runlock c n l)
  then have "\<not> writing s j" for j using rw_okD(3) [OF ok, of j i] by auto
  with runlock rw_okD(1) [OF ok, of i] ok show ?thesis by (auto simp: rw_ok_def writing_def nth_list_update)
next
  case (announce c n l)
  with rw_okD(1) [OF ok, of i] ok show ?thesis by (auto simp: rw_ok_def writing_def)
next
  case (read f c n l)
  then have "n = 0" if "writing s j" for j using rw_okD(3) [OF ok that, of i] by auto
  with read rw_okD(1) [OF ok, of i] ok show ?thesis by (auto simp: rw_ok_def writing_def nth_list_update)
next
  case (update f c n l)
  then have "n = 0" if "writing s j" for j using rw_okD(3) [OF ok that, of i] by auto
  with update rw_okD(1) [OF ok, of i] ok show ?thesis by (auto simp: rw_ok_def writing_def nth_list_update)
qed (use rw_okD(1) [OF ok, of i] ok in \<open>auto simp: rw_ok_def writing_def nth_list_update list_all_length\<close>)

interpretation rw_invariant: step_invariant rw_step rw_ok "\<lambda>_. True"
  by unfold_locales (use rw_step_ok in blast)

lemma rw_ok_start: "list_all (\<lambda>(c, l). guarded 0 False c) gs \<Longrightarrow> rw_ok (start d gs)"
  by (auto simp: rw_ok_def start_def writing_def list_all_length split_beta)

lemma no_race:
  \<comment> \<open>while a goroutine is about to change the data, no other is about to touch it\<close>
  assumes ok: "rw_ok s" and i: "i < length (sh_gos s)" "gr_code (sh_gos s ! i) = Update f # c"
    and j: "j < length (sh_gos s)" "j \<noteq> i" "gr_code (sh_gos s ! j) = a # c'"
  shows "a = RLock \<or> a = Lock"
proof -
  have "writing s i" using rw_okD(1) [OF ok i(1)] i(2) by simp
  then have "\<not> writing s j" "gr_reads (sh_gos s ! j) = 0" using rw_okD(3) [OF ok _ j(1)] j(2) by (auto simp: writing_def)
  with rw_okD(1) [OF ok j(1)] j(3) show ?thesis by (cases a) auto
qed

subsection \<open>Sections are atomic\<close>

fun finish :: "nat \<Rightarrow> bool \<Rightarrow> ('s, 'l) instr list \<Rightarrow> 's \<Rightarrow> 'l \<Rightarrow> 's \<times> 'l \<times> ('s, 'l) instr list" where
  \<comment> \<open>the rest of a section, at once\<close>
  "finish n w [] d l = (d, l, [])"
| "finish n w (a # c) d l =
     (if n = 0 \<and> \<not> w then (d, l, a # c)
      else case a of
        RLock \<Rightarrow> finish (Suc n) w c d l
      | RUnlock \<Rightarrow> finish (n - 1) w c d l
      | Lock \<Rightarrow> finish n True c d l
      | Unlock \<Rightarrow> finish n False c d l
      | Read f \<Rightarrow> finish n w c d (f d l)
      | Update f \<Rightarrow> finish n w c (fst (f d l)) (snd (f d l)))"

fun run_section :: "('s, 'l) instr list \<Rightarrow> 's \<Rightarrow> 'l \<Rightarrow> 's \<times> 'l \<times> ('s, 'l) instr list" where
  "run_section (RLock # c) d l = finish 1 False c d l"
| "run_section (Lock # c) d l = finish 0 True c d l"
| "run_section c d l = (d, l, c)"

type_synonym ('s, 'l) sequential = "'s \<times> (('s, 'l) instr list \<times> 'l) list"

definition run_next :: "nat \<Rightarrow> ('s, 'l) sequential \<Rightarrow> ('s, 'l) sequential" where
  \<comment> \<open>the next section of goroutine \<open>i\<close>, without interruption\<close>
  "run_next i S = (let (c, l) = snd S ! i; (d', l', c') = run_section c (fst S) l in (d', (snd S)[i := (c', l')]))"

definition completed :: "('s, 'l) shared_system \<Rightarrow> nat \<Rightarrow> 's \<times> 'l \<times> ('s, 'l) instr list" where
  "completed s i = finish (gr_reads (sh_gos s ! i)) (writing s i) (gr_code (sh_gos s ! i)) (sh_data s) (gr_local (sh_gos s ! i))"

definition data_after :: "('s, 'l) shared_system \<Rightarrow> 's" where
  "data_after s = (case sh_writer s of Some (i, True) \<Rightarrow> fst (completed s i) | _ \<Rightarrow> sh_data s)"

definition after_sections :: "('s, 'l) shared_system \<Rightarrow> ('s, 'l) sequential" where
  \<comment> \<open>as if every section that has been entered had been left\<close>
  "after_sections s = (data_after s, map (\<lambda>i. (snd (snd (completed s i)), fst (snd (completed s i)))) [0..<length (sh_gos s)])"

lemma finish_free [simp]: "finish 0 False c d l = (d, l, c)"
  by (cases c) auto

lemma finish_reading: "guarded n False c \<Longrightarrow> fst (finish n False c d l) = d"
  by (induction n False c d l rule: finish.induct) (auto split: instr.splits)

lemma after_sections_eqI:
  assumes "length (sh_gos s') = length (sh_gos s)" "data_after s' = data_after s"
    "\<And>j. j < length (sh_gos s) \<Longrightarrow> snd (completed s' j) = snd (completed s j)"
  shows "after_sections s' = after_sections s"
  using assms by (auto simp: after_sections_def)

lemma run_next_after:
  assumes "i < length (sh_gos s)" "length (sh_gos s') = length (sh_gos s)"
    "completed s i = (sh_data s, l, c)" "data_after s = sh_data s"
    "run_section c (sh_data s) l = (d', l', c')" "data_after s' = d'" "snd (completed s' i) = (l', c')"
    "\<And>j. j < length (sh_gos s) \<Longrightarrow> j \<noteq> i \<Longrightarrow> snd (completed s' j) = snd (completed s j)"
  shows "after_sections s' = run_next i (after_sections s)"
  using assms by (auto simp: after_sections_def run_next_def Let_def nth_list_update intro!: nth_equalityI)

lemma data_after_quiet: "(\<And>i. \<not> writing s i) \<Longrightarrow> data_after s = sh_data s"
  by (auto simp: data_after_def writing_def split: option.splits bool.splits)

lemma data_after_writing: "writing s i \<Longrightarrow> data_after s = fst (completed s i)"
  by (simp add: data_after_def writing_def)

lemma completed_free: "gr_reads (sh_gos s ! j) = 0 \<Longrightarrow> \<not> writing s j \<Longrightarrow>
    completed s j = (sh_data s, gr_local (sh_gos s ! j), gr_code (sh_gos s ! j))"
  by (simp add: completed_def)

lemma inner_step:
  \<comment> \<open>a step of goroutine \<open>i\<close> that neither enters a section nor changes what the others see\<close>
  assumes i: "i < length (sh_gos s)" and gos: "sh_gos s' = (sh_gos s)[i := g]"
    and w: "\<And>j. writing s' j \<longleftrightarrow> writing s j \<and> (j = i \<longrightarrow> w)" and rest: "completed s' i = completed s i"
    and data: "sh_data s' = sh_data s \<or> (\<forall>j<length (sh_gos s). j \<noteq> i \<longrightarrow> gr_reads (sh_gos s ! j) = 0 \<and> \<not> writing s j)"
    and left: "\<not> w \<Longrightarrow> writing s i \<Longrightarrow> fst (completed s i) = sh_data s'"
    and out: "sh_data s' = sh_data s \<or> writing s' i"
    and bound: "\<And>j. writing s j \<Longrightarrow> j < length (sh_gos s)"
  shows "after_sections s' = after_sections s"
proof (rule after_sections_eqI)
  show "length (sh_gos s') = length (sh_gos s)" by (simp add: gos)
  have other: "snd (completed s' j) = snd (completed s j)" "sh_data s' = sh_data s \<Longrightarrow> completed s' j = completed s j"
    if "j < length (sh_gos s)" "j \<noteq> i" for j
    using data w [of j] that by (auto simp: completed_def gos)
  then show "snd (completed s' j) = snd (completed s j)" if "j < length (sh_gos s)" for j
    using rest that by (cases "j = i") auto
  show "data_after s' = data_after s"
  proof (cases "\<exists>j. writing s j")
    case True
    then obtain j where j: "writing s j" by blast
    then have only: "k = j" if "writing s k" for k using that by (simp add: writing_def)
    show ?thesis
    proof (cases "writing s' j")
      case True
      have "fst (completed s' j) = fst (completed s j)"
      proof (cases "j = i")
        case False
        then have "\<not> writing s' i" using only [of i] w [of i] by blast
        with out other(2) [OF bound [OF j] False] show ?thesis by simp
      qed (simp add: rest)
      with data_after_writing [OF True] data_after_writing [OF j] show ?thesis by simp
    next
      case False
      with w [of j] j have "j = i" "\<not> w" by auto
      moreover have "\<not> writing s' k" for k using w [of k] False only [of k] by blast
      ultimately show ?thesis using left j data_after_quiet [of s'] data_after_writing [OF j] by simp
    qed
  next
    case False
    with w have "\<not> writing s' k" for k by blast
    with False out data_after_quiet [of s'] data_after_quiet [of s] show ?thesis by auto
  qed
qed

lemma rw_step_sections:
  assumes ok: "rw_ok s" and step: "rw_step i s s'"
  shows "after_sections s' = after_sections s \<or> after_sections s' = run_next i (after_sections s)"
  using step
proof (cases rule: rw_step.cases)
  case (rlock c n l)
  have w: "\<not> writing s j" "\<not> writing s' j" for j using rlock by (simp_all add: writing_def)
  show ?thesis
  proof (cases n)
    case 0
    have "guarded 1 False c" using rw_okD(1) [OF ok rlock(2)] rlock(3) 0 w by simp
    then have "fst (finish 1 False c (sh_data s) l) = sh_data s" by (rule finish_reading)
    then have "after_sections s' = run_next i (after_sections s)"
      using rlock 0 w data_after_quiet [of s] data_after_quiet [of s']
      by (intro run_next_after [where l = l and c = "RLock # c"]) (auto simp: completed_def prod_eq_iff)
    then show ?thesis ..
  next
    case (Suc m)
    then have "after_sections s' = after_sections s"
      using rlock w by (intro inner_step [where i = i and w = False]) (auto simp: completed_def)
    then show ?thesis ..
  qed
next
  case (runlock c n l)
  have w: "\<not> writing s j" for j using rw_okD(3) [OF ok, of j i] runlock by auto
  then have w': "\<not> writing s' j" for j using runlock by (simp add: writing_def)
  have "after_sections s' = after_sections s"
    using runlock w w' by (intro inner_step [where i = i and w = False]) (auto simp: completed_def)
  then show ?thesis ..
next
  case (announce c n l)
  have w: "\<not> writing s j" "\<not> writing s' j" for j using announce by (simp_all add: writing_def)
  have "after_sections s' = after_sections s"
    using announce w data_after_quiet [of s] data_after_quiet [of s'] by (intro after_sections_eqI) (auto simp: completed_def)
  then show ?thesis ..
next
  case (enter c n l)
  have w: "\<not> writing s j" "writing s' j \<longleftrightarrow> j = i" for j using enter by (auto simp: writing_def)
  have free: "gr_reads (sh_gos s ! j) = 0" if "j < length (sh_gos s)" for j using enter(5) that by (simp add: list_all_length)
  have "n = 0" using free [OF enter(2)] enter(3) by simp
  then have "after_sections s' = run_next i (after_sections s)"
    using enter w free data_after_quiet [of s] data_after_writing [of s' i]
    by (intro run_next_after [where l = l and c = "Lock # c" and d' = "fst (finish 0 True c (sh_data s) l)"])
      (auto simp: completed_def prod_eq_iff)
  then show ?thesis ..
next
  case (unlock c n l)
  have w: "writing s j \<longleftrightarrow> j = i" "\<not> writing s' j" for j using unlock by (auto simp: writing_def)
  have "n = 0" using rw_okD(3) [OF ok _ unlock(2)] w(1) unlock(3) by auto
  then have "after_sections s' = after_sections s"
    using unlock w by (intro inner_step [where i = i and w = False]) (auto simp: completed_def)
  then show ?thesis ..
next
  case (read f c n l)
  have w: "writing s' j \<longleftrightarrow> writing s j" for j using read by (simp add: writing_def)
  have "0 < n \<or> writing s i" using rw_okD(1) [OF ok read(2)] read(3) by simp
  then have "after_sections s' = after_sections s"
    using read w rw_okD(2) [OF ok] by (intro inner_step [where i = i and w = True]) (auto simp: completed_def)
  then show ?thesis ..
next
  case (update f c n l)
  have w: "writing s' j \<longleftrightarrow> writing s j" for j using update by (simp add: writing_def)
  have wi: "writing s i" using rw_okD(1) [OF ok update(2)] update(3) by simp
  then have "\<not> writing s j" if "j \<noteq> i" for j using that by (simp add: writing_def)
  then have "after_sections s' = after_sections s"
    using update w wi rw_okD(2,3) [OF ok] by (intro inner_step [where i = i and w = True]) (auto simp: completed_def)
  then show ?thesis ..
qed

lemma sections_atomic:
  assumes "run rw_step s ts s'" "rw_ok s"
  shows "\<exists>order. subseq order ts \<and> after_sections s' = fold run_next order (after_sections s)"
  using assms
proof (induction rule: run.induct)
  case (run_nil s)
  then show ?case by (intro exI [of _ "[]"]) simp
next
  case (run_cons i s s1 ts s')
  from run_cons.IH [OF rw_step_ok [OF run_cons.prems run_cons.hyps(1)]] obtain order where
    o: "subseq order ts" "after_sections s' = fold run_next order (after_sections s1)" by blast
  from rw_step_sections [OF run_cons.prems run_cons.hyps(1)] show ?case
  proof
    assume "after_sections s1 = after_sections s"
    with o show ?thesis by (intro exI [of _ order]) (auto intro: list_emb_Cons)
  next
    assume "after_sections s1 = run_next i (after_sections s)"
    with o show ?thesis by (intro exI [of _ "i # order"]) auto
  qed
qed

lemma after_sections_start: "after_sections (start d gs) = (d, gs)"
  by (auto simp: after_sections_def data_after_def completed_def writing_def start_def split_beta intro!: nth_equalityI)

lemma after_sections_finished:
  assumes ok: "rw_ok s" and "finished s"
  shows "after_sections s = (sh_data s, map (\<lambda>g. ([], gr_local g)) (sh_gos s))"
proof -
  have c: "gr_code (sh_gos s ! i) = []" if "i < length (sh_gos s)" for i
    using assms(2) that by (simp add: finished_def list_all_length)
  have free: "gr_reads (sh_gos s ! i) = 0 \<and> \<not> writing s i" if "i < length (sh_gos s)" for i
    using rw_okD(1) [OF ok that] c [OF that] by simp
  then have "\<not> writing s i" for i using rw_okD(2) [OF ok] by blast
  with free c show ?thesis
    by (auto simp: after_sections_def data_after_quiet completed_free intro!: nth_equalityI)
qed

subsection \<open>Progress\<close>

fun unnested :: "nat \<Rightarrow> ('s, 'l) instr list \<Rightarrow> bool" where
  \<comment> \<open>no read lock is taken while \<open>n > 0\<close> are held\<close>
  "unnested n (RLock # c) \<longleftrightarrow> n = 0 \<and> unnested (Suc n) c"
| "unnested n (RUnlock # c) \<longleftrightarrow> unnested (n - 1) c"
| "unnested n (a # c) \<longleftrightarrow> unnested n c"
| "unnested n [] \<longleftrightarrow> True"

definition all_unnested :: "('s, 'l) shared_system \<Rightarrow> bool" where
  "all_unnested s \<longleftrightarrow> list_all (\<lambda>g. unnested (gr_reads g) (gr_code g)) (sh_gos s)"

lemma all_unnested_step: "rw_step i s s' \<Longrightarrow> all_unnested s \<Longrightarrow> all_unnested s'"
proof (induction rule: rw_step.induct)
  case (enter i s c n l)
  then have "n = 0" by (auto simp: list_all_length)
  with enter show ?case by (auto simp: all_unnested_def list_all_length nth_list_update)
qed (auto simp: all_unnested_def list_all_length nth_list_update)

interpretation unnested_invariant: step_invariant rw_step all_unnested "\<lambda>_. True"
  by unfold_locales (use all_unnested_step in blast)

lemma reader_moves:
  assumes "i < length (sh_gos s)" "guarded (gr_reads (sh_gos s ! i)) False (gr_code (sh_gos s ! i))"
    "unnested (gr_reads (sh_gos s ! i)) (gr_code (sh_gos s ! i))" "0 < gr_reads (sh_gos s ! i)"
  shows "\<exists>s'. rw_step i s s'"
proof -
  obtain c n l where g: "sh_gos s ! i = \<lparr>gr_code = c, gr_reads = n, gr_local = l\<rparr>" by (metis goroutine.surjective old.unit.exhaust)
  with assms obtain a c' where c: "c = a # c'" by (cases c) auto
  show ?thesis
  proof (cases a)
    case RUnlock
    with g c assms(4) obtain m where "n = Suc m" by (cases n) auto
    with RUnlock g c assms(1) show ?thesis by (auto intro: rw_step.runlock)
  qed (use assms g c in \<open>auto intro: rw_step.read\<close>)
qed

lemma never_stuck:
  assumes ok: "rw_ok s" and un: "all_unnested s" and "\<not> finished s"
  shows "\<exists>i s'. rw_step i s s'"
proof -
  have gd: "guarded (gr_reads (sh_gos s ! i)) (writing s i) (gr_code (sh_gos s ! i))"
      "unnested (gr_reads (sh_gos s ! i)) (gr_code (sh_gos s ! i))" if "i < length (sh_gos s)" for i
    using rw_okD(1) [OF ok that] un that by (auto simp: all_unnested_def list_all_length)
  have g: "\<exists>c n l. sh_gos s ! i = \<lparr>gr_code = c, gr_reads = n, gr_local = l\<rparr>" for i by (metis goroutine.surjective old.unit.exhaust)
  consider (idle) "sh_writer s = None" | (waiting) i where "sh_writer s = Some (i, False)" | (busy) i where "writing s i"
    unfolding writing_def by (metis (full_types) not_None_eq surj_pair)
  then show ?thesis
  proof cases
    case idle
    from assms(3) obtain i where i: "i < length (sh_gos s)" "gr_code (sh_gos s ! i) \<noteq> []"
      by (auto simp: finished_def list_all_length)
    obtain c n l where gi: "sh_gos s ! i = \<lparr>gr_code = c, gr_reads = n, gr_local = l\<rparr>" using g by blast
    with i obtain a c' where c: "c = a # c'" by (cases c) auto
    show ?thesis
    proof (cases "0 < n")
      case True
      with reader_moves [OF i(1)] gd [OF i(1)] gi idle show ?thesis by (auto simp: writing_def)
    next
      case False
      with gd [OF i(1)] gi c idle have "a = RLock \<or> a = Lock" by (cases a) (auto simp: writing_def)
      with gi c i(1) idle show ?thesis by (auto intro: rw_step.rlock rw_step.announce)
    qed
  next
    case (waiting i)
    from rw_okD(4) [OF ok waiting] obtain c where i: "i < length (sh_gos s)" "gr_code (sh_gos s ! i) = Lock # c" by blast
    show ?thesis
    proof (cases "list_all (\<lambda>g. gr_reads g = 0) (sh_gos s)")
      case True
      from g [of i] i(2) obtain n l where "sh_gos s ! i = \<lparr>gr_code = Lock # c, gr_reads = n, gr_local = l\<rparr>" by auto
      from rw_step.enter [OF i(1) this waiting True] show ?thesis by blast
    next
      case False
      then obtain j where j: "j < length (sh_gos s)" "0 < gr_reads (sh_gos s ! j)" by (auto simp: list_all_length)
      with reader_moves [OF j(1)] gd [OF j(1)] waiting show ?thesis by (auto simp: writing_def)
    qed
  next
    case (busy i)
    have i: "i < length (sh_gos s)" by (rule rw_okD(2) [OF ok busy])
    obtain c n l where gi: "sh_gos s ! i = \<lparr>gr_code = c, gr_reads = n, gr_local = l\<rparr>" using g by blast
    have "n = 0" using rw_okD(3) [OF ok busy i] gi by simp
    with gd(1) [OF i] gi busy obtain a c' where c: "c = a # c'" by (cases c) auto
    show ?thesis
    proof (cases a)
      case Unlock
      with gi c i busy show ?thesis by (auto simp: writing_def intro: rw_step.unlock)
    qed (use gd(1) [OF i] gi c i busy \<open>n = 0\<close> in \<open>auto intro: rw_step.read rw_step.update\<close>)
  qed
qed

definition work_left :: "('s, 'l) shared_system \<Rightarrow> nat" where
  "work_left s = 2 * sum_list (map (\<lambda>g. length (gr_code g)) (sh_gos s)) +
     (case sh_writer s of Some (i, False) \<Rightarrow> 0 | _ \<Rightarrow> 1)"

lemma sum_list_update_less:
  fixes f :: "'a \<Rightarrow> nat"
  shows "i < length xs \<Longrightarrow> f x < f (xs ! i) \<Longrightarrow> sum_list (map f (xs[i := x])) < sum_list (map f xs)"
  by (induction xs arbitrary: i) (auto simp: nth_Cons' less_Suc_eq_0_disj split: nat.splits)

lemma rw_step_work: "rw_step i s s' \<Longrightarrow> work_left s' < work_left s"
proof (induction rule: rw_step.induct)
  case (enter i s c n l)
  with sum_list_update_less [of i "sh_gos s" "\<lambda>g. length (gr_code g)" "\<lparr>gr_code = c, gr_reads = n, gr_local = l\<rparr>"]
  show ?case by (simp add: work_left_def)
qed (auto simp: work_left_def sum_list_update_less split: option.splits bool.splits)

lemma run_work: "run rw_step s ts s' \<Longrightarrow> length ts + work_left s' \<le> work_left s"
  by (induction rule: run.induct) (auto dest: rw_step_work)

lemma can_finish:
  assumes "rw_ok s" "all_unnested s"
  shows "\<exists>ts s'. run rw_step s ts s' \<and> finished s'"
  using assms
proof (induction "work_left s" arbitrary: s rule: less_induct)
  case less
  show ?case
  proof (cases "finished s")
    case True
    then show ?thesis by (blast intro: run_nil)
  next
    case False
    from never_stuck [OF less(2,3) False] obtain i s1 where s1: "rw_step i s s1" by blast
    from less(1) [OF rw_step_work [OF s1] rw_step_ok [OF less(2) s1] all_unnested_step [OF s1 less(3)]] obtain ts s' where
      "run rw_step s1 ts s'" "finished s'" by blast
    with s1 show ?thesis by (blast intro: run_cons)
  qed
qed

subsection \<open>Operations that are one section each\<close>

fun do_next :: "('op \<Rightarrow> 's \<Rightarrow> 'l \<Rightarrow> 's \<times> 'l) \<Rightarrow> nat \<Rightarrow> 's \<times> ('op list \<times> 'l) list \<Rightarrow> 's \<times> ('op list \<times> 'l) list" where
  \<comment> \<open>the next operation of goroutine \<open>i\<close>, as one step\<close>
  "do_next effect i (d, gs) =
     (case gs ! i of
        ([], l) \<Rightarrow> (d, gs)
      | (op # ops, l) \<Rightarrow> (fst (effect op d l), gs[i := (ops, snd (effect op d l))]))"

lemma map_apfst_empty:
  "map (apfst f) gs = map (\<lambda>x. ([], h x)) xs \<Longrightarrow> (\<And>a. f a = [] \<longleftrightarrow> a = []) \<Longrightarrow> gs = map (\<lambda>x. ([], h x)) xs"
  by (induction gs arbitrary: xs) (auto simp: Cons_eq_map_conv)

lemma rw_step_length: "rw_step i s s' \<Longrightarrow> length (sh_gos s') = length (sh_gos s) \<and> i < length (sh_gos s)"
  by (induction rule: rw_step.induct) auto

lemma run_length: "run rw_step s ts s' \<Longrightarrow> length (sh_gos s') = length (sh_gos s) \<and> (\<forall>i\<in>set ts. i < length (sh_gos s))"
  by (induction rule: run.induct) (auto dest: rw_step_length)

locale locked_operations =
  fixes code :: "'op \<Rightarrow> ('s, 'l) instr list" and effect :: "'op \<Rightarrow> 's \<Rightarrow> 'l \<Rightarrow> 's \<times> 'l"
  assumes balanced: "guarded 0 False (code op @ c) \<longleftrightarrow> guarded 0 False c"
    and one_section: "run_section (code op @ c) d l = (fst (effect op d l), snd (effect op d l), c)"
begin

lemma code_guarded: "guarded 0 False (concat (map code ops))"
  by (induction ops) (simp_all add: balanced)

lemma next_operation:
  assumes "i < length gs"
  shows "run_next i (d, map (apfst (\<lambda>ops. concat (map code ops))) gs) =
    apsnd (map (apfst (\<lambda>ops. concat (map code ops)))) (do_next effect i (d, gs))"
proof -
  obtain ops l where "gs ! i = (ops, l)" by fastforce
  with assms show ?thesis
    by (cases ops) (simp_all add: run_next_def one_section Let_def map_update list_update_same_conv)
qed

lemma length_do_next: "length (snd (do_next effect i S)) = length (snd S)"
  by (cases S) (auto split: prod.splits list.splits)

lemma operations_in_order:
  assumes "\<forall>i\<in>set order. i < length (snd S)"
  shows "fold run_next order (apsnd (map (apfst (\<lambda>ops. concat (map code ops)))) S) =
    apsnd (map (apfst (\<lambda>ops. concat (map code ops)))) (fold (do_next effect) order S)"
  using assms
proof (induction order arbitrary: S)
  case (Cons i order)
  obtain d gs where "S = (d, gs)" by fastforce
  with Cons next_operation [of i gs d] length_do_next [of i S] show ?case by simp
qed simp

lemma code_empty: "concat (map code ops) = [] \<longleftrightarrow> ops = []"
proof -
  have "code op \<noteq> []" for op
  proof
    assume "code op = []"
    with balanced [of op "[Unlock]"] one_section [of op "RLock # [RUnlock]"] show False by simp
  qed
  then show ?thesis by (cases ops) auto
qed

theorem linearizable:
  assumes run: "run rw_step (start d (map (apfst (\<lambda>ops. concat (map code ops))) gs)) ts s" and fin: "finished s"
  shows "\<exists>order. subseq order ts \<and> fold (do_next effect) order (d, gs) = (sh_data s, map (\<lambda>g. ([], gr_local g)) (sh_gos s))"
proof -
  let ?gs = "map (apfst (\<lambda>ops. concat (map code ops))) gs"
  have ok: "rw_ok (start d ?gs)" by (rule rw_ok_start) (auto simp: list_all_iff code_guarded)
  from sections_atomic [OF run ok] obtain order where
    o: "subseq order ts" "after_sections s = fold run_next order (d, ?gs)" by (auto simp: after_sections_start)
  have "\<forall>i\<in>set order. i < length gs"
    using run_length [OF run] list_emb_set [OF o(1)] by (fastforce simp: start_def)
  from operations_in_order [of order "(d, gs)"] this o(2) rw_invariant.run_keeps [OF run ok] fin
  have e: "apsnd (map (apfst (\<lambda>ops. concat (map code ops)))) (fold (do_next effect) order (d, gs)) =
      (sh_data s, map (\<lambda>g. ([], gr_local g)) (sh_gos s))"
    by (simp add: after_sections_finished)
  obtain d' gs' where r: "fold (do_next effect) order (d, gs) = (d', gs')" by fastforce
  with e have "map (apfst (\<lambda>ops. concat (map code ops))) gs' = map (\<lambda>g. ([], gr_local g)) (sh_gos s)" by simp
  then have "gs' = map (\<lambda>g. ([], gr_local g)) (sh_gos s)"
    by (rule map_apfst_empty) (rule code_empty)
  with o(1) r e show ?thesis by (intro exI [of _ order]) simp
qed

end

end
