(* ===== verification/Datastore_Locks.thy ===== *)
theory Datastore_Locks
  imports Rw_Mutex Datastore Examples
begin

text \<open>
  The operations of the datastore that take \<open>poolAndModelsMu\<close>, instruction by instruction
  (\<open>op_code\<close>), on the goroutines of theory \<open>Rw_Mutex\<close>. Each is one section, so an interleaved
  run has the results of the atomic operations of theory \<open>Datastore\<close> in the order in which
  they take the lock. \<open>PoolGet\<close> holds the read lock while \<open>PoolHasSynced\<close> takes it again; the
  documentation of \<open>RWMutex\<close> rules that out, and the run that blocks for ever is given.
  Goroutines that do not call \<open>PoolGet\<close> always finish.

  The operations on pods use a \<open>sync.Map\<close> and no lock of the datastore.
\<close>

datatype ds_value =
    Void
  | PoolValue "error + InferencePool option"
  | BoolValue bool
  | ModelValue "InferenceModel option"
  | ModelsValue "InferenceModel list"
  | ResyncValue "error + bool"

record call_registers =
  r_synced :: bool
  r_model :: "InferenceModel option"
  r_results :: "ds_value go list"

definition fresh_registers :: call_registers where
  "fresh_registers = \<lparr>r_synced = False, r_model = None, r_results = []\<rparr>"

definition return :: "ds_value go \<Rightarrow> call_registers \<Rightarrow> call_registers" where
  \<comment> \<open>the result of a call; the temporaries of the call are gone\<close>
  "return v r = fresh_registers\<lparr>r_results := r_results r @ [v]\<rparr>"

datatype ds_op =
    CallClear
  | CallPoolSet "InferencePool option"
  | CallPoolGet
  | CallPoolHasSynced
  | CallPoolLabelsMatch labels
  | CallModelSetIfOlder InferenceModel
  | CallModelResync string
  | CallModelGet string
  | CallModelDelete NamespacedName
  | CallModelGetAll

definition older_exists :: "InferenceModel \<Rightarrow> InferenceModel option \<Rightarrow> bool" where
  \<comment> \<open>the check of \<open>ModelSetIfOlder\<close> on the entry it has read\<close>
  "older_exists infModel e =
     (case e of
        None \<Rightarrow> False
      | Some existing \<Rightarrow>
          (Name (model_meta infModel) \<noteq> Name (model_meta existing) \<or>
           Namespace (model_meta infModel) \<noteq> Namespace (model_meta existing)) \<and>
          time_Before (CreationTimestamp (model_meta existing)) (CreationTimestamp (model_meta infModel)))"

definition store_unless_older :: "InferenceModel \<Rightarrow> datastore \<Rightarrow> call_registers \<Rightarrow> datastore \<times> call_registers" where
  "store_unless_older m ds r =
     (if older_exists m (r_model r) then (ds, return (Ret (BoolValue False)) r)
      else (ds\<lparr>ds_models := AList.update (ModelName (model_Spec m)) m (ds_models ds)\<rparr>, return (Ret (BoolValue True)) r))"

definition delete_found :: "datastore \<Rightarrow> call_registers \<Rightarrow> datastore \<times> call_registers" where
  "delete_found ds r =
     (case r_model r of
        None \<Rightarrow> (ds, return (Ret (ModelValue None)) r)
      | Some m \<Rightarrow> (ds\<lparr>ds_models := AList.delete (ModelName (model_Spec m)) (ds_models ds)\<rparr>, return (Ret (ModelValue (Some m))) r))"

definition resync_model ::
  "(string \<Rightarrow> string \<Rightarrow> string + InferenceModel list) \<Rightarrow> string \<Rightarrow> datastore \<Rightarrow> call_registers \<Rightarrow> datastore \<times> call_registers" where
  "resync_model listModels n ds r =
     (case ModelResync listModels ds n of
        Ret (ds', v) \<Rightarrow> (ds', return (Ret (ResyncValue v)) r)
      | Panic e \<Rightarrow> (ds, return (Panic e) r))"

fun op_code ::
  "(labels \<Rightarrow> labels \<Rightarrow> bool) \<Rightarrow> (string \<Rightarrow> string \<Rightarrow> string + InferenceModel list) \<Rightarrow> ds_op \<Rightarrow> (datastore, call_registers) instr list" where
  "op_code matches listModels CallClear =
     [Lock,
      Update (\<lambda>ds r. (ds\<lparr>ds_pool := None\<rparr>, r)),
      Update (\<lambda>ds r. (ds\<lparr>ds_models := []\<rparr>, r)),
      Update (\<lambda>ds r. (ds\<lparr>ds_pods := []\<rparr>, return (Ret Void) r)),
      Unlock]"
| "op_code matches listModels (CallPoolSet p) = [Lock, Update (\<lambda>ds r. (ds\<lparr>ds_pool := p\<rparr>, return (Ret Void) r)), Unlock]"
| "op_code matches listModels CallPoolGet =
     [RLock,
      RLock, Read (\<lambda>ds r. r\<lparr>r_synced := ds_pool ds \<noteq> None\<rparr>), RUnlock,
      Read (\<lambda>ds r. return (Ret (PoolValue (if \<not> r_synced r then Inl errPoolNotSynced else Inr (ds_pool ds)))) r),
      RUnlock]"
| "op_code matches listModels CallPoolHasSynced =
     [RLock, Read (\<lambda>ds r. return (Ret (BoolValue (ds_pool ds \<noteq> None))) r), RUnlock]"
| "op_code matches listModels (CallPoolLabelsMatch ls) =
     [RLock, Read (\<lambda>ds r. return (go_bind (PoolLabelsMatch matches ds ls) (\<lambda>b. Ret (BoolValue b))) r), RUnlock]"
| "op_code matches listModels (CallModelSetIfOlder m) =
     [Lock, Read (\<lambda>ds r. r\<lparr>r_model := map_of (ds_models ds) (ModelName (model_Spec m))\<rparr>), Update (store_unless_older m), Unlock]"
| "op_code matches listModels (CallModelResync n) = [Lock, Update (resync_model listModels n), Unlock]"
| "op_code matches listModels (CallModelGet n) = [RLock, Read (\<lambda>ds r. return (Ret (ModelValue (map_of (ds_models ds) n))) r), RUnlock]"
| "op_code matches listModels (CallModelDelete nn) =
     [Lock,
      Read (\<lambda>ds r. r\<lparr>r_model := find (\<lambda>m. Name (model_meta m) = nn_Name nn \<and> Namespace (model_meta m) = nn_Namespace nn)
        (map snd (ds_models ds))\<rparr>),
      Update delete_found,
      Unlock]"
| "op_code matches listModels CallModelGetAll = [RLock, Read (\<lambda>ds r. return (Ret (ModelsValue (map snd (ds_models ds)))) r), RUnlock]"

subsection \<open>The operations as the other theories use them\<close>

fun op_effect ::
  "(labels \<Rightarrow> labels \<Rightarrow> bool) \<Rightarrow> (string \<Rightarrow> string \<Rightarrow> string + InferenceModel list) \<Rightarrow> ds_op \<Rightarrow> datastore \<Rightarrow> datastore \<times> ds_value go" where
  "op_effect matches listModels CallClear ds = (Clear ds, Ret Void)"
| "op_effect matches listModels (CallPoolSet p) ds = (PoolSet ds p, Ret Void)"
| "op_effect matches listModels CallPoolGet ds = (ds, Ret (PoolValue (map_sum id Some (PoolGet ds))))"
| "op_effect matches listModels CallPoolHasSynced ds = (ds, Ret (BoolValue (PoolHasSynced ds)))"
| "op_effect matches listModels (CallPoolLabelsMatch ls) ds = (ds, go_bind (PoolLabelsMatch matches ds ls) (\<lambda>b. Ret (BoolValue b)))"
| "op_effect matches listModels (CallModelSetIfOlder m) ds = apsnd (\<lambda>b. Ret (BoolValue b)) (ModelSetIfOlder ds m)"
| "op_effect matches listModels (CallModelResync n) ds =
     (case ModelResync listModels ds n of Ret (ds', v) \<Rightarrow> (ds', Ret (ResyncValue v)) | Panic e \<Rightarrow> (ds, Panic e))"
| "op_effect matches listModels (CallModelGet n) ds = (ds, Ret (ModelValue (ModelGet ds n)))"
| "op_effect matches listModels (CallModelDelete nn) ds = apsnd (\<lambda>m. Ret (ModelValue m)) (ModelDelete ds nn)"
| "op_effect matches listModels CallModelGetAll ds = (ds, Ret (ModelsValue (ModelGetAll ds)))"

definition call_effect ::
  "(labels \<Rightarrow> labels \<Rightarrow> bool) \<Rightarrow> (string \<Rightarrow> string \<Rightarrow> string + InferenceModel list) \<Rightarrow> ds_op \<Rightarrow> datastore \<Rightarrow> call_registers \<Rightarrow> datastore \<times> call_registers" where
  "call_effect matches listModels op ds r = apsnd (\<lambda>v. return v r) (op_effect matches listModels op ds)"

lemma return_registers [simp]: "return v (r\<lparr>r_synced := b\<rparr>) = return v r" "return v (r\<lparr>r_model := m\<rparr>) = return v r"
  by (simp_all add: return_def)

interpretation ds_operations: locked_operations "op_code matches listModels" "call_effect matches listModels"
  for matches listModels
proof
  fix op c
  show "guarded 0 False (op_code matches listModels op @ c) = guarded 0 False c" by (cases op) simp_all
  fix ds r
  show "run_section (op_code matches listModels op @ c) ds r =
      (fst (call_effect matches listModels op ds r), snd (call_effect matches listModels op ds r), c)"
  proof (cases op)
    case CallPoolGet
    then show ?thesis by (cases "ds_pool ds") (simp_all add: call_effect_def PoolGet_def PoolHasSynced_def)
  next
    case (CallModelSetIfOlder m)
    then show ?thesis by (simp add: call_effect_def ModelSetIfOlder_def store_unless_older_def older_exists_def Let_def)
  next
    case (CallModelResync n)
    then show ?thesis by (simp add: call_effect_def resync_model_def split: go.splits prod.splits)
  next
    case (CallModelDelete nn)
    then show ?thesis by (simp add: call_effect_def ModelDelete_def delete_found_def split: option.splits)
  qed (simp_all add: call_effect_def Clear_def PoolSet_def PoolHasSynced_def ModelGet_def ModelGetAll_def)
qed

definition ds_goroutines ::
  "(labels \<Rightarrow> labels \<Rightarrow> bool) \<Rightarrow> (string \<Rightarrow> string \<Rightarrow> string + InferenceModel list) \<Rightarrow> datastore \<Rightarrow> ds_op list list \<Rightarrow>
   (datastore, call_registers) shared_system" where
  "ds_goroutines matches listModels ds opss = start ds (map (\<lambda>ops. (concat (map (op_code matches listModels) ops), fresh_registers)) opss)"

fun atomic_step ::
  "(labels \<Rightarrow> labels \<Rightarrow> bool) \<Rightarrow> (string \<Rightarrow> string \<Rightarrow> string + InferenceModel list) \<Rightarrow> nat \<Rightarrow>
   datastore \<times> (ds_op list \<times> ds_value go list) list \<Rightarrow> datastore \<times> (ds_op list \<times> ds_value go list) list" where
  \<comment> \<open>the next call of goroutine \<open>i\<close>, as one step\<close>
  "atomic_step matches listModels i (ds, gs) =
     (case gs ! i of
        ([], vs) \<Rightarrow> (ds, gs)
      | (op # ops, vs) \<Rightarrow> (fst (op_effect matches listModels op ds), gs[i := (ops, vs @ [snd (op_effect matches listModels op ds)])]))"

lemma ds_goroutines_start:
  "ds_goroutines matches listModels ds opss =
     start ds (map (apfst (\<lambda>ops. concat (map (op_code matches listModels) ops))) (map (\<lambda>ops. (ops, fresh_registers)) opss))"
  by (simp add: ds_goroutines_def comp_def)

lemma atomic_steps:
  assumes "\<forall>i\<in>set order. i < length (snd S)"
  shows "fold (atomic_step matches listModels) order (apsnd (map (apsnd r_results)) S) =
    apsnd (map (apsnd r_results)) (fold (do_next (call_effect matches listModels)) order S)"
  using assms
proof (induction order arbitrary: S)
  case (Cons i order)
  obtain ds gs where S: "S = (ds, gs)" by fastforce
  obtain ops r where g: "gs ! i = (ops, r)" by fastforce
  have i: "i < length gs" using Cons.prems S by simp
  have "atomic_step matches listModels i (apsnd (map (apsnd r_results)) S) =
      apsnd (map (apsnd r_results)) (do_next (call_effect matches listModels) i S)"
    using g i by (cases ops) (simp_all add: S call_effect_def return_def fresh_registers_def map_update list_update_same_conv)
  moreover have "length (snd (do_next (call_effect matches listModels) i S)) = length (snd S)"
    by (rule ds_operations.length_do_next)
  ultimately show ?case using Cons by simp
qed simp

lemma ds_goroutines_ok: "rw_ok (ds_goroutines matches listModels ds opss)"
  unfolding ds_goroutines_start by (rule rw_ok_start) (auto simp: list_all_iff ds_operations.code_guarded)

text \<open>
  C19. The operations of the datastore are atomic. When goroutines that call them have all
  returned, however their instructions were interleaved, the datastore and the results of
  all calls are those of the same calls made one after the other, in the order in which
  they took the lock.
\<close>

theorem datastore_operations_atomic:
  assumes run: "run rw_step (ds_goroutines matches listModels ds opss) ts s" and fin: "finished s"
  shows "\<exists>order. subseq order ts \<and>
    fold (atomic_step matches listModels) order (ds, map (\<lambda>ops. (ops, [])) opss) =
      (sh_data s, map (\<lambda>g. ([], r_results (gr_local g))) (sh_gos s))"
proof -
  let ?gs = "map (\<lambda>ops. (ops, fresh_registers)) opss"
  from ds_operations.linearizable [OF run [unfolded ds_goroutines_start] fin] obtain order where
    o: "subseq order ts" "fold (do_next (call_effect matches listModels)) order (ds, ?gs) =
      (sh_data s, map (\<lambda>g. ([], gr_local g)) (sh_gos s))" by blast
  have "\<forall>i\<in>set order. i < length ?gs"
    using run_length [OF run] list_emb_set [OF o(1)] by (fastforce simp: ds_goroutines_def start_def)
  from atomic_steps [of order "(ds, ?gs)" matches listModels] this o show ?thesis
    by (intro exI [of _ order]) (simp add: comp_def fresh_registers_def)
qed

lemma unnested_ops:
  "\<forall>op\<in>set ops. op \<noteq> CallPoolGet \<Longrightarrow> unnested 0 (concat (map (op_code matches listModels) ops))"
proof (induction ops)
  case (Cons op ops)
  then show ?case by (cases op) simp_all
qed simp

lemma calls_return:
  assumes run: "run rw_step (ds_goroutines matches listModels ds opss) ts s"
    and "\<forall>ops\<in>set opss. \<forall>op\<in>set ops. op \<noteq> CallPoolGet"
  shows "length ts \<le> 2 * sum_list (map (\<lambda>ops. length (concat (map (op_code matches listModels) ops))) opss) + 1"
    "\<exists>ts' s'. run rw_step s ts' s' \<and> finished s'"
proof -
  have "all_unnested (ds_goroutines matches listModels ds opss)"
    using assms(2) by (auto simp: all_unnested_def ds_goroutines_def start_def list_all_iff unnested_ops)
  then have "all_unnested s" using unnested_invariant.run_keeps [OF run] by simp
  moreover have "rw_ok s" using rw_invariant.run_keeps [OF run ds_goroutines_ok] by simp
  ultimately show "\<exists>ts' s'. run rw_step s ts' s' \<and> finished s'" using can_finish by blast
  have "length ts \<le> work_left (ds_goroutines matches listModels ds opss)" using run_work [OF run] by simp
  then show "length ts \<le> 2 * sum_list (map (\<lambda>ops. length (concat (map (op_code matches listModels) ops))) opss) + 1"
    by (simp add: work_left_def ds_goroutines_def start_def comp_def)
qed

theorem datastore_operations_atomic_witness:
  "\<exists>ts s order. run rw_step (ds_goroutines (\<lambda>_ _. True) (\<lambda>_ _. Inr []) NewDatastore
       [[CallPoolSet (Some example_pool), CallModelSetIfOlder (example_model ''m1'' 1 [])], [CallModelGet ''m'']]) ts s \<and> subseq order ts \<and>
     fold (atomic_step (\<lambda>_ _. True) (\<lambda>_ _. Inr [])) order
       (NewDatastore, [([CallPoolSet (Some example_pool), CallModelSetIfOlder (example_model ''m1'' 1 [])], []), ([CallModelGet ''m''], [])]) =
       (sh_data s, map (\<lambda>g. ([], r_results (gr_local g))) (sh_gos s))"
proof -
  let ?opss = "[[CallPoolSet (Some example_pool), CallModelSetIfOlder (example_model ''m1'' 1 [])], [CallModelGet ''m'']]"
  have "\<forall>ops\<in>set ?opss. \<forall>op\<in>set ops. op \<noteq> CallPoolGet" by simp
  from calls_return(2) [OF run_nil this, of "\<lambda>_ _. True" "\<lambda>_ _. Inr []" NewDatastore] obtain ts s where
    r: "run rw_step (ds_goroutines (\<lambda>_ _. True) (\<lambda>_ _. Inr []) NewDatastore ?opss) ts s" "finished s" by blast
  with datastore_operations_atomic [OF r] show ?thesis by auto
qed

text \<open>
  C20. Goroutines that do not call \<open>PoolGet\<close> finish: from every state they can reach they can
  go on until all have returned, and no run is longer than twice the number of their
  instructions plus one, so no schedule goes on or blocks for ever.
\<close>

theorem datastore_calls_return:
  assumes "run rw_step (ds_goroutines matches listModels ds opss) ts s"
    and "\<forall>ops\<in>set opss. \<forall>op\<in>set ops. op \<noteq> CallPoolGet"
  shows "length ts \<le> 2 * sum_list (map (\<lambda>ops. length (concat (map (op_code matches listModels) ops))) opss) + 1 \<and>
    (\<exists>ts' s'. run rw_step s ts' s' \<and> finished s')"
  using calls_return [OF assms] by blast

theorem datastore_calls_return_witness:
  "\<exists>ts s. run rw_step (ds_goroutines (\<lambda>_ _. True) (\<lambda>_ _. Inr []) NewDatastore [[CallClear], [CallPoolHasSynced]]) ts s \<and> finished s"
proof -
  have "\<forall>ops\<in>set [[CallClear], [CallPoolHasSynced]]. \<forall>op\<in>set ops. op \<noteq> CallPoolGet" by simp
  from datastore_calls_return [OF run_nil this] show ?thesis by blast
qed

text \<open>
  C21. \<open>PoolGet\<close> can block for ever: it holds the read lock when a writer announces itself, and
  its second \<open>RLock\<close> waits for the writer, which waits for the first.
\<close>

theorem PoolGet_can_deadlock:
  "\<exists>ts s. run rw_step (ds_goroutines matches listModels ds [[CallPoolGet], [CallPoolSet p]]) ts s \<and>
     list_all (\<lambda>g. gr_code g \<noteq> []) (sh_gos s) \<and> (\<forall>i s'. \<not> rw_step i s s')"
proof -
  let ?s0 = "ds_goroutines matches listModels ds [[CallPoolGet], [CallPoolSet p]]"
  let ?g = "sh_gos ?s0 ! 0"
  let ?s1 = "?s0\<lparr>sh_gos := (sh_gos ?s0)[0 := \<lparr>gr_code = tl (gr_code ?g), gr_reads = Suc 0, gr_local = gr_local ?g\<rparr>]\<rparr>"
  let ?s2 = "?s1\<lparr>sh_writer := Some (1, False)\<rparr>"
  have a: "rw_step 0 ?s0 ?s1" by (intro rw_step.rlock) (simp_all add: ds_goroutines_def start_def)
  have b: "rw_step 1 ?s1 ?s2" by (rule rw_step.announce) (simp_all add: ds_goroutines_def start_def)
  have "run rw_step ?s0 [0, 1] ?s2" by (rule run_cons [where step = rw_step, OF a], rule run_cons [where step = rw_step, OF b], rule run_nil)
  moreover have "\<not> rw_step i ?s2 s'" for i s'
  proof
    assume "rw_step i ?s2 s'"
    then show False
      by (cases rule: rw_step.cases) (auto simp: ds_goroutines_def start_def less_Suc_eq_0_disj nth_Cons' split: if_splits)
  qed
  moreover have "list_all (\<lambda>g. gr_code g \<noteq> []) (sh_gos ?s2)" by (simp add: ds_goroutines_def start_def)
  ultimately show ?thesis by blast
qed

end
