(* ===== verification/Api_Patterns.thy ===== *)
theory Api_Patterns
  imports Api_Types
begin

text \<open>
  The validation patterns of api/v1alpha2/shared_types.go as regular expressions, written
  as in the markers, with a matcher by derivatives. The predicates \<open>valid_Group\<close>,
  \<open>valid_Kind\<close> and \<open>valid_LabelValue\<close> of theory \<open>Api_Types\<close>, which follow the prose of the
  comments, admit the same strings. The pattern of \<open>LabelKey\<close> does not admit what its
  comment lists.
\<close>

subsection \<open>Regular expressions\<close>

datatype regex =
    Nothing
  | Empty
  | Class "string option" \<comment> \<open>one of these characters; \<open>None\<close> for the dot\<close>
  | Seq regex regex
  | Alt regex regex
  | Star regex

fun in_class :: "string option \<Rightarrow> char \<Rightarrow> bool" where
  "in_class (Some cs) c \<longleftrightarrow> c \<in> set cs"
| "in_class None c \<longleftrightarrow> c \<noteq> CHR 0x0A"

inductive_set star :: "string set \<Rightarrow> string set" for L where
  star_nil: "[] \<in> star L"
| star_step: "u \<in> L \<Longrightarrow> v \<in> star L \<Longrightarrow> u @ v \<in> star L"

fun language :: "regex \<Rightarrow> string set" where
  "language Nothing = {}"
| "language Empty = {[]}"
| "language (Class C) = {[c] |c. in_class C c}"
| "language (Seq r q) = {u @ v |u v. u \<in> language r \<and> v \<in> language q}"
| "language (Alt r q) = language r \<union> language q"
| "language (Star r) = star (language r)"

fun accepts_empty :: "regex \<Rightarrow> bool" where
  "accepts_empty Nothing \<longleftrightarrow> False"
| "accepts_empty Empty \<longleftrightarrow> True"
| "accepts_empty (Class C) \<longleftrightarrow> False"
| "accepts_empty (Seq r q) \<longleftrightarrow> accepts_empty r \<and> accepts_empty q"
| "accepts_empty (Alt r q) \<longleftrightarrow> accepts_empty r \<or> accepts_empty q"
| "accepts_empty (Star r) \<longleftrightarrow> True"

fun seq_of :: "regex \<Rightarrow> regex \<Rightarrow> regex" where
  "seq_of Nothing q = Nothing"
| "seq_of Empty q = q"
| "seq_of r q = Seq r q"

fun alt_of :: "regex \<Rightarrow> regex \<Rightarrow> regex" where
  "alt_of Nothing q = q"
| "alt_of r Nothing = r"
| "alt_of r q = Alt r q"

fun after_char :: "char \<Rightarrow> regex \<Rightarrow> regex" where
  \<comment> \<open>what may follow once the character has been read\<close>
  "after_char c Nothing = Nothing"
| "after_char c Empty = Nothing"
| "after_char c (Class C) = (if in_class C c then Empty else Nothing)"
| "after_char c (Seq r q) =
     (if accepts_empty r then alt_of (seq_of (after_char c r) q) (after_char c q) else seq_of (after_char c r) q)"
| "after_char c (Alt r q) = alt_of (after_char c r) (after_char c q)"
| "after_char c (Star r) = seq_of (after_char c r) (Star r)"

definition MatchString :: "regex \<Rightarrow> string \<Rightarrow> bool" where
  \<comment> \<open>the whole string, as between \<open>^\<close> and \<open>$\<close>\<close>
  "MatchString r s \<longleftrightarrow> accepts_empty (fold after_char s r)"

lemma language_of [simp]: "language (seq_of r q) = language (Seq r q)" "language (alt_of r q) = language (Alt r q)"
  by (induction r q rule: seq_of.induct; simp) (induction r q rule: alt_of.induct; simp)

lemma accepts_empty_iff: "accepts_empty r \<longleftrightarrow> [] \<in> language r"
  by (induction r) (auto intro: star_nil)

lemma star_Cons_iff: "c # s \<in> star L \<longleftrightarrow> (\<exists>u v. s = u @ v \<and> c # u \<in> L \<and> v \<in> star L)"
proof
  have "w = c # s \<Longrightarrow> \<exists>u v. s = u @ v \<and> c # u \<in> L \<and> v \<in> star L" if "w \<in> star L" for w
    using that
  proof (induction arbitrary: s rule: star.induct)
    case (star_step u v)
    then show ?case by (cases u) auto
  qed simp
  then show "c # s \<in> star L \<Longrightarrow> \<exists>u v. s = u @ v \<and> c # u \<in> L \<and> v \<in> star L" by blast
  show "\<exists>u v. s = u @ v \<and> c # u \<in> L \<and> v \<in> star L \<Longrightarrow> c # s \<in> star L"
    by (metis append_Cons star.star_step)
qed

lemma language_after_char: "s \<in> language (after_char c r) \<longleftrightarrow> c # s \<in> language r"
proof (induction r arbitrary: s)
  case (Seq r q)
  have "c # s \<in> language (Seq r q) \<longleftrightarrow>
      (\<exists>u v. s = u @ v \<and> c # u \<in> language r \<and> v \<in> language q) \<or> [] \<in> language r \<and> c # s \<in> language q"
    by (auto simp: Cons_eq_append_conv)
  with Seq show ?case by (auto simp: accepts_empty_iff)
qed (auto simp: star_Cons_iff)

lemma MatchString_iff: "MatchString r s \<longleftrightarrow> s \<in> language r"
  by (induction s arbitrary: r) (simp_all add: MatchString_def accepts_empty_iff language_after_char)

subsection \<open>The patterns\<close>

definition Optional :: "regex \<Rightarrow> regex" where "Optional r = Alt Empty r"

fun UpTo :: "nat \<Rightarrow> regex \<Rightarrow> regex" where
  "UpTo 0 r = Empty"
| "UpTo (Suc n) r = Optional (Seq r (UpTo n r))"

definition az09 :: string where "az09 = ''abcdefghijklmnopqrstuvwxyz0123456789''"
definition azAZ :: string where "azAZ = ''abcdefghijklmnopqrstuvwxyzABCDEFGHIJKLMNOPQRSTUVWXYZ''"
definition azAZ09 :: string where "azAZ09 = azAZ @ ''0123456789''"

definition label_pattern :: regex where
  \<comment> \<open>\<open>[a-z0-9]([-a-z0-9]*[a-z0-9])?\<close>\<close>
  "label_pattern = Seq (Class (Some az09)) (Optional (Seq (Star (Class (Some (CHR ''-'' # az09)))) (Class (Some az09))))"

definition Group_pattern :: regex where
  "Group_pattern = Alt Empty (Seq label_pattern (Star (Seq (Class (Some ''.'')) label_pattern)))"

definition Kind_pattern :: regex where
  "Kind_pattern = Seq (Class (Some azAZ)) (Optional (Seq (Star (Class (Some (CHR ''-'' # azAZ09)))) (Class (Some azAZ09))))"

definition LabelValue_pattern :: regex where
  "LabelValue_pattern =
     Optional (Seq (Optional (Seq (Class (Some azAZ09)) (Star (Class (Some (azAZ09 @ ''-_.''))))))
       (Class (Some azAZ09)))"

definition LabelKey_pattern :: regex where
  \<comment> \<open>the marker has two backslashes before the dot\<close>
  "LabelKey_pattern =
     Seq (Optional (Seq (Seq label_pattern (Star (Seq (Class (Some [CHR 0x5C])) (Seq (Class None) label_pattern)))) (Class (Some ''/''))))
       (Seq (Optional (Seq (Class (Some azAZ09)) (UpTo 61 (Class (Some (azAZ09 @ ''-_.''))))))
         (Class (Some azAZ09)))"

definition valid_LabelKey :: "string \<Rightarrow> bool" where
  "valid_LabelKey s \<longleftrightarrow> 1 \<le> length s \<and> length s \<le> 253 \<and> MatchString LabelKey_pattern s"

lemma star_Class [simp]: "s \<in> star {[c] |c. c \<in> set cs} \<longleftrightarrow> set s \<subseteq> set cs" (is "_ \<in> star ?L \<longleftrightarrow> _")
proof
  show "s \<in> star ?L \<Longrightarrow> set s \<subseteq> set cs" by (induction rule: star.induct) auto
  show "set s \<subseteq> set cs \<Longrightarrow> s \<in> star ?L"
  proof (induction s)
    case (Cons c s)
    then show ?case using star_step [of "[c]" ?L s] by simp
  qed (simp add: star_nil)
qed

lemma optional_language: "s \<in> language (Optional r) \<longleftrightarrow> s = [] \<or> s \<in> language r"
  by (simp add: Optional_def)

lemma seq_first: "c # t \<in> language (Seq (Class (Some fs)) r) \<longleftrightarrow> c \<in> set fs \<and> t \<in> language r"
proof
  show "c \<in> set fs \<and> t \<in> language r \<Longrightarrow> c # t \<in> language (Seq (Class (Some fs)) r)"
    by simp (intro exI [of _ "[c]"] exI [of _ t]; simp)
qed auto

lemma seq_last: "u @ [c] \<in> language (Seq r (Class (Some ls))) \<longleftrightarrow> u \<in> language r \<and> c \<in> set ls"
proof
  show "u \<in> language r \<and> c \<in> set ls \<Longrightarrow> u @ [c] \<in> language (Seq r (Class (Some ls)))"
    by simp (intro exI [of _ u] exI [of _ "[c]"]; simp)
qed auto

lemma edges:
  \<comment> \<open>first character, anything between, last character\<close>
  assumes "set ls \<subseteq> set ms"
  shows "s \<in> language (Seq (Class (Some fs)) (Optional (Seq (Star (Class (Some ms))) (Class (Some ls))))) \<longleftrightarrow>
     s \<noteq> [] \<and> hd s \<in> set fs \<and> (length s = 1 \<or> last s \<in> set ls) \<and> set (tl s) \<subseteq> set ms"
proof (cases s)
  case (Cons c t)
  have "t \<in> language (Seq (Star (Class (Some ms))) (Class (Some ls))) \<longleftrightarrow> t \<noteq> [] \<and> last t \<in> set ls \<and> set t \<subseteq> set ms"
    using assms by (cases t rule: rev_cases) (auto simp: seq_last simp del: language.simps(4) split: if_splits, simp)
  then have "t \<in> language (Optional (Seq (Star (Class (Some ms))) (Class (Some ls)))) \<longleftrightarrow> t = [] \<or> last t \<in> set ls \<and> set t \<subseteq> set ms"
    unfolding optional_language by blast
  then show ?thesis unfolding Cons seq_first by auto
qed auto

lemma dns_label_iff: "s \<in> language label_pattern \<longleftrightarrow> dns_label s"
proof -
  have "set az09 \<subseteq> set (CHR ''-'' # az09)" by auto
  note e = edges [OF this, of s az09, folded label_pattern_def]
  have c: "c \<in> set az09 \<longleftrightarrow> alnum_lower c" for c by (simp add: az09_def alnum_lower_def)
  show ?thesis
    unfolding e dns_label_def by (cases s) (auto simp: c list_all_iff)
qed

lemma separated_language:
  "s \<in> language (Seq r (Star (Seq (Class (Some [c])) r))) \<longleftrightarrow> (\<exists>ps. ps \<noteq> [] \<and> s = Join ps c \<and> set ps \<subseteq> language r)"
    (is "_ \<longleftrightarrow> ?joined s")
proof
  let ?L = "language (Seq (Class (Some [c])) r)"
  have "?joined (u @ v)" if "v \<in> star ?L" "u \<in> language r" for u v
    using that
  proof (induction arbitrary: u rule: star.induct)
    case star_nil
    then show ?case by (intro exI [of _ "[u]"]) simp
  next
    case (star_step w v)
    then obtain p where p: "w = c # p" "p \<in> language r" by auto
    from star_step.IH [OF p(2)] obtain ps where "ps \<noteq> []" "p @ v = Join ps c" "set ps \<subseteq> language r" by blast
    with p star_step.prems show ?case by (intro exI [of _ "u # ps"]) (cases ps; simp)
  qed
  then show "s \<in> language (Seq r (Star (Seq (Class (Some [c])) r))) \<Longrightarrow> ?joined s" by auto
  have "\<exists>u v. Join ps c = u @ v \<and> u \<in> language r \<and> v \<in> star ?L" if "ps \<noteq> []" "set ps \<subseteq> language r" for ps
    using that
  proof (induction ps rule: list_nonempty_induct)
    case (single p)
    then show ?case by (intro exI [of _ p] exI [of _ "[]"]) (simp add: star.star_nil)
  next
    case (cons p ps)
    then obtain u v where u: "Join ps c = u @ v" "u \<in> language r" "v \<in> star ?L" by auto
    have "c # u \<in> ?L" using u(2) by auto
    from star.star_step [OF this u(3)] u(1) cons show ?case
      by (intro exI [of _ p] exI [of _ "c # u @ v"]) (cases ps; simp)
  qed
  then show "?joined s \<Longrightarrow> s \<in> language (Seq r (Star (Seq (Class (Some [c])) r)))" by auto
qed

lemma Group_pattern_iff: "MatchString Group_pattern s \<longleftrightarrow> s = [] \<or> list_all dns_label (Split s CHR ''.'')"
proof -
  have "\<not> alnum_lower CHR ''.''" by (simp add: alnum_lower_def)
  then have dot: "CHR ''.'' \<notin> set p" if "dns_label p" for p using that by (auto simp: dns_label_def list_all_iff)
  have "(\<exists>ps. ps \<noteq> [] \<and> s = Join ps CHR ''.'' \<and> (\<forall>p\<in>set ps. dns_label p)) \<longleftrightarrow> list_all dns_label (Split s CHR ''.'')"
  proof
    assume "\<exists>ps. ps \<noteq> [] \<and> s = Join ps CHR ''.'' \<and> (\<forall>p\<in>set ps. dns_label p)"
    then show "list_all dns_label (Split s CHR ''.'')" using dot Split_Join by (fastforce simp: list_all_iff)
  next
    assume "list_all dns_label (Split s CHR ''.'')"
    then show "\<exists>ps. ps \<noteq> [] \<and> s = Join ps CHR ''.'' \<and> (\<forall>p\<in>set ps. dns_label p)"
      by (intro exI [of _ "Split s CHR ''.''"]) (simp add: Join_Split list_all_iff Split_not_Nil)
  qed
  moreover have "s \<in> language Group_pattern \<longleftrightarrow> s = [] \<or> s \<in> language (Seq label_pattern (Star (Seq (Class (Some ''.'')) label_pattern)))"
    by (simp add: Group_pattern_def)
  ultimately show ?thesis
    unfolding MatchString_iff separated_language by (simp add: subset_eq dns_label_iff)
qed

lemma class_letters: "c \<in> set azAZ \<longleftrightarrow> letter c" "c \<in> set azAZ09 \<longleftrightarrow> alnum c"
  by (simp_all only: azAZ_def azAZ09_def letter_def alnum_def set_append Un_iff)

lemma letter_alnum: "letter c \<Longrightarrow> alnum c"
  by (simp add: alnum_def)

lemma Kind_pattern_iff:
  "MatchString Kind_pattern s \<longleftrightarrow> s \<noteq> [] \<and> letter (hd s) \<and> alnum (last s) \<and> list_all (\<lambda>c. alnum c \<or> c = CHR ''-'') s"
proof -
  have "set azAZ09 \<subseteq> set (CHR ''-'' # azAZ09)" by auto
  note e = edges [OF this, of s azAZ, folded Kind_pattern_def]
  show ?thesis
    unfolding MatchString_iff e by (cases s) (auto simp: class_letters list_all_iff letter_alnum)
qed

lemma LabelValue_pattern_iff:
  "MatchString LabelValue_pattern s \<longleftrightarrow>
     s = [] \<or> alnum (hd s) \<and> alnum (last s) \<and> list_all (\<lambda>c. alnum c \<or> c \<in> set ''-_.'') s"
proof -
  let ?first = "Seq (Class (Some azAZ09)) (Star (Class (Some (azAZ09 @ ''-_.''))))"
  have first: "u \<in> language ?first \<longleftrightarrow> u \<noteq> [] \<and> alnum (hd u) \<and> set (tl u) \<subseteq> set (azAZ09 @ ''-_.'')" for u
  proof (cases u)
    case (Cons c t)
    have "t \<in> language (Star (Class (Some (azAZ09 @ ''-_.'')))) \<longleftrightarrow> set t \<subseteq> set (azAZ09 @ ''-_.'')"
      by (simp only: language.simps in_class.simps star_Class)
    then show ?thesis unfolding Cons seq_first class_letters by simp
  qed auto
  have "s \<in> language (Seq (Optional ?first) (Class (Some azAZ09))) \<longleftrightarrow>
      s \<noteq> [] \<and> alnum (hd s) \<and> alnum (last s) \<and> list_all (\<lambda>c. alnum c \<or> c \<in> set ''-_.'') s"
  proof (cases s rule: rev_cases)
    case (snoc u c)
    show ?thesis unfolding snoc seq_last optional_language first
      by (cases u) (auto simp: class_letters list_all_iff subset_iff)
  qed auto
  then show ?thesis unfolding MatchString_iff LabelValue_pattern_def optional_language by blast
qed

text \<open>
  C33. The validation of the API types is what their comments say: a group is empty or made of
  DNS labels, a kind starts with a letter and ends with a letter or digit, the value of a
  label starts and ends with a letter or digit; the regular expressions of the markers
  match exactly these strings. (The comment of \<open>Kind\<close> only gives examples: the rule for kinds
  is that of the pattern, in words.)
\<close>

theorem patterns_as_documented:
  "(valid_Group s \<longleftrightarrow> length s \<le> 253 \<and> MatchString Group_pattern s) \<and>
   (valid_Kind s \<longleftrightarrow> 1 \<le> length s \<and> length s \<le> 63 \<and> MatchString Kind_pattern s) \<and>
   (valid_LabelValue s \<longleftrightarrow> length s \<le> 63 \<and> MatchString LabelValue_pattern s)"
  by (auto simp: valid_Group_def valid_Kind_def valid_LabelValue_def Group_pattern_iff Kind_pattern_iff LabelValue_pattern_iff)

text \<open>
  The comment of \<open>LabelKey\<close> lists \<open>example.com/path\<close> as valid. The pattern refuses it, as it does
  every prefix with a dot in it, and admits a backslash.
\<close>

lemma LabelKey_documented_refused:
  "\<not> valid_LabelKey ''example.com/path''" "valid_LabelKey ''example.com''" "valid_LabelKey ([CHR ''a'', CHR 0x5C, CHR ''.''] @ ''b/path'')"
  unfolding valid_LabelKey_def by code_simp+

end
