(* ===== verification/Deep_Copy.thy ===== *)
theory Deep_Copy
  imports Api_Types
begin

text \<open>
  api/v1alpha2/zz_generated.deepcopy.go. What matters of a deep copy is what it does not
  share, so this theory models the objects as they lie in memory: a pointer, slice or map
  is an address in a store of cells (\<open>nil\<close> is \<open>None\<close>), a struct is a record that holds
  such addresses. \<open>DeepCopyInto\<close> returns the copy and the store it has extended.

  The locale \<open>deep_copy\<close> is the contract: the copy has the value of the original, all its
  cells are new, and the old ones are as they were. It is closed under pointers, slices
  and structs, and every type of the API meets it. \<open>ObjectMeta\<close>, \<open>ListMeta\<close> and \<open>Condition\<close>
  are types of apimachinery; their copies are the parameter \<open>lib\<close>.
\<close>

subsection \<open>Objects in memory\<close>

type_synonym ptr = "nat option"

record TargetModel_mem =
  tmm_Name :: string
  tmm_Weight :: ptr

record InferenceModelSpec_mem =
  mm_ModelName :: string
  mm_Criticality :: ptr
  mm_TargetModels :: ptr
  mm_PoolRef :: PoolObjectReference

record InferenceModelStatus_mem =
  mm_Conditions :: ptr

record InferenceModel_mem =
  mm_meta :: ptr
  mm_Spec :: InferenceModelSpec_mem
  mm_Status :: InferenceModelStatus_mem

record ExtensionReference_mem =
  erm_Group :: ptr
  erm_Kind :: ptr
  erm_Name :: string
  erm_PortNumber :: ptr

record ExtensionConnection_mem =
  ecm_FailureMode :: ptr

record Extension_mem =
  em_Reference :: ExtensionReference_mem
  em_Connection :: ExtensionConnection_mem

record EndpointPickerConfig_mem =
  epm_ExtensionRef :: ptr

record InferencePoolSpec_mem =
  pm_Selector :: ptr
  pm_TargetPortNumber :: "32 word"
  pm_PickerConfig :: EndpointPickerConfig_mem

record PoolStatus_mem =
  psm_GatewayRef :: ObjectReference
  psm_Conditions :: ptr

record InferencePoolStatus_mem =
  pm_Parents :: ptr

record InferencePool_mem =
  pm_meta :: ptr
  pm_Spec :: InferencePoolSpec_mem
  pm_Status :: InferencePoolStatus_mem

record List_mem =
  lm_meta :: ptr
  lm_Items :: ptr

text \<open>One cell holds what a pointer, a slice or a map refers to.\<close>

datatype cell =
    StringCell (the_string: string)
  | IntCell (the_int: "32 word")
  | MapCell (the_map: "(string, string) gomap")
  | MetaCell (the_meta: ObjectMeta)
  | ListMetaCell string
  | ConditionsCell (the_conditions: "metaCondition list")
  | TargetsCell (the_targets: "TargetModel_mem list")
  | ParentsCell (the_parents: "PoolStatus_mem list")
  | ModelsCell (the_models: "InferenceModel_mem list")
  | PoolsCell (the_pools: "InferencePool_mem list")
  | TargetModelCell (the_TargetModel: TargetModel_mem)
  | PoolRefCell (the_PoolRef: PoolObjectReference)
  | ModelSpecCell (the_ModelSpec: InferenceModelSpec_mem)
  | ModelStatusCell (the_ModelStatus: InferenceModelStatus_mem)
  | ModelCell (the_Model: InferenceModel_mem)
  | ModelListCell (the_ModelList: List_mem)
  | ExtensionReferenceCell (the_ExtensionReference: ExtensionReference_mem)
  | ExtensionConnectionCell (the_ExtensionConnection: ExtensionConnection_mem)
  | ExtensionCell (the_Extension: Extension_mem)
  | PickerConfigCell (the_PickerConfig: EndpointPickerConfig_mem)
  | PoolSpecCell (the_PoolSpec: InferencePoolSpec_mem)
  | PoolStatusCell (the_PoolStatus: PoolStatus_mem)
  | InferencePoolStatusCell (the_InferencePoolStatus: InferencePoolStatus_mem)
  | PoolCell (the_Pool: InferencePool_mem)
  | PoolListCell (the_PoolList: List_mem)

type_synonym store = "cell list"
type_synonym 'x copier = "store \<Rightarrow> 'x \<Rightarrow> store \<times> 'x"

subsection \<open>The statements of the generated code\<close>

definition copy_ptr :: "ptr copier" where
  \<comment> \<open>\<open>*out = new(T); **out = **in\<close>\<close>
  "copy_ptr h p = (case p of None \<Rightarrow> (h, None) | Some a \<Rightarrow> (h @ [h ! a], Some (length h)))"

fun copy_all :: "'x copier \<Rightarrow> store \<Rightarrow> 'x list \<Rightarrow> store \<times> 'x list" where
  \<comment> \<open>\<open>for i := range *in { (*in)[i].DeepCopyInto(&(*out)[i]) }\<close>\<close>
  "copy_all into h [] = (h, [])"
| "copy_all into h (x # xs) = (let (h1, x') = into h x; (h2, xs') = copy_all into h1 xs in (h2, x' # xs'))"

definition copy_slice :: "(cell \<Rightarrow> 'x list) \<Rightarrow> ('x list \<Rightarrow> cell) \<Rightarrow> 'x copier \<Rightarrow> ptr copier" where
  \<comment> \<open>\<open>*out = make([]T, len(*in))\<close>, then the loop\<close>
  "copy_slice un mk into h p =
     (case p of
        None \<Rightarrow> (h, None)
      | Some a \<Rightarrow> (let (h1, xs) = copy_all into (h @ [mk []]) (un (h ! a)) in (h1[length h := mk xs], Some (length h))))"

definition copy_ref :: "(cell \<Rightarrow> 'x) \<Rightarrow> ('x \<Rightarrow> cell) \<Rightarrow> 'x copier \<Rightarrow> ptr copier" where
  \<comment> \<open>\<open>DeepCopy\<close>: \<open>nil\<close>, or \<open>out := new(T); in.DeepCopyInto(out)\<close>, which starts with \<open>*out = *in\<close>\<close>
  "copy_ref un mk into h p =
     (case p of
        None \<Rightarrow> (h, None)
      | Some a \<Rightarrow> (let (h1, x) = into (h @ [h ! a]) (un (h ! a)) in (h1[length h := mk x], Some (length h))))"

subsection \<open>The contract\<close>

lemma prefix_nth: "prefix h h' \<Longrightarrow> a < length h \<Longrightarrow> h' ! a = h ! a"
  by (auto simp: prefix_def nth_append)

locale deep_copy =
  fixes into :: "'x copier" and val :: "store \<Rightarrow> 'x \<Rightarrow> 'v" and cells :: "store \<Rightarrow> 'x \<Rightarrow> nat set"
  assumes copied: "cells h x \<subseteq> {..<length h} \<Longrightarrow> into h x = (h', x') \<Longrightarrow>
      prefix h h' \<and> cells h' x' \<subseteq> {length h..<length h'} \<and> val h' x' = val h x"
    and local: "\<forall>a\<in>cells h x. h2 ! a = h ! a \<Longrightarrow> cells h2 x = cells h x \<and> val h2 x = val h x"
begin

lemma frame:
  assumes "cells h x \<subseteq> {..<length h}" "prefix h h'"
  shows "cells h' x = cells h x" "val h' x = val h x"
proof -
  have "\<forall>a\<in>cells h x. h' ! a = h ! a" using assms by (auto simp: prefix_nth)
  from local [OF this] show "cells h' x = cells h x" "val h' x = val h x" by simp_all
qed

lemma independent:
  \<comment> \<open>writing the cells of the copy leaves the original as it was, and the other way round\<close>
  assumes bound: "cells h x \<subseteq> {..<length h}" and into: "into h x = (h', x')"
  shows "val h' x' = val h x" "val h' x = val h x" "cells h' x \<inter> cells h' x' = {}"
    "\<forall>a. a \<notin> cells h' x' \<longrightarrow> h2 ! a = h' ! a \<Longrightarrow> val h2 x = val h x"
    "\<forall>a. a \<notin> cells h' x \<longrightarrow> h2 ! a = h' ! a \<Longrightarrow> val h2 x' = val h x"
proof -
  note c = copied [OF bound into]
  show same: "val h' x' = val h x" using c by simp
  have old: "cells h' x = cells h x" "val h' x = val h x" using frame [OF bound conjunct1 [OF c]] by simp_all
  show "val h' x = val h x" by (rule old(2))
  show disj: "cells h' x \<inter> cells h' x' = {}"
  proof (rule equals0I)
    fix a assume "a \<in> cells h' x \<inter> cells h' x'"
    then have "a \<in> {..<length h}" "a \<in> {length h..<length h'}" using c bound old(1) by blast+
    then show False by simp
  qed
  show "val h2 x = val h x" if "\<forall>a. a \<notin> cells h' x' \<longrightarrow> h2 ! a = h' ! a"
  proof -
    have "\<forall>a\<in>cells h' x. h2 ! a = h' ! a" using that disj by blast
    from local [OF this] old(2) show ?thesis by simp
  qed
  show "val h2 x' = val h x" if "\<forall>a. a \<notin> cells h' x \<longrightarrow> h2 ! a = h' ! a"
  proof -
    have "\<forall>a\<in>cells h' x'. h2 ! a = h' ! a" using that disj by blast
    from local [OF this] same show ?thesis by simp
  qed
qed

end

subsection \<open>Pointers, slices and structs keep the contract\<close>

definition ptr_val :: "store \<Rightarrow> ptr \<Rightarrow> cell option" where
  "ptr_val h p = map_option (\<lambda>a. h ! a) p"

definition ptr_cells :: "store \<Rightarrow> ptr \<Rightarrow> nat set" where
  "ptr_cells h p = set_option p"

definition slice_val :: "(cell \<Rightarrow> 'x list) \<Rightarrow> (store \<Rightarrow> 'x \<Rightarrow> 'v) \<Rightarrow> store \<Rightarrow> ptr \<Rightarrow> 'v list option" where
  "slice_val un val h p = map_option (\<lambda>a. map (val h) (un (h ! a))) p"

definition slice_cells :: "(cell \<Rightarrow> 'x list) \<Rightarrow> (store \<Rightarrow> 'x \<Rightarrow> nat set) \<Rightarrow> store \<Rightarrow> ptr \<Rightarrow> nat set" where
  "slice_cells un cells h p = (case p of None \<Rightarrow> {} | Some a \<Rightarrow> insert a (\<Union>x\<in>set (un (h ! a)). cells h x))"

definition ref_val :: "(cell \<Rightarrow> 'x) \<Rightarrow> (store \<Rightarrow> 'x \<Rightarrow> 'v) \<Rightarrow> store \<Rightarrow> ptr \<Rightarrow> 'v option" where
  "ref_val un val h p = map_option (\<lambda>a. val h (un (h ! a))) p"

definition ref_cells :: "(cell \<Rightarrow> 'x) \<Rightarrow> (store \<Rightarrow> 'x \<Rightarrow> nat set) \<Rightarrow> store \<Rightarrow> ptr \<Rightarrow> nat set" where
  "ref_cells un cells h p = (case p of None \<Rightarrow> {} | Some a \<Rightarrow> insert a (cells h (un (h ! a))))"

lemma deep_ptr: "deep_copy copy_ptr ptr_val ptr_cells"
  by unfold_locales (auto simp: copy_ptr_def ptr_val_def ptr_cells_def split: option.splits intro: option.map_cong0)

lemma deep_scalar: "(\<And>x. f x = x) \<Longrightarrow> deep_copy (\<lambda>h x. (h, f x)) (\<lambda>h x. x) (\<lambda>h x. {})"
  by unfold_locales auto

lemma deep_copy_all:
  assumes d: "deep_copy into val cells"
  shows "deep_copy (copy_all into) (\<lambda>h xs. map (val h) xs) (\<lambda>h xs. \<Union>x\<in>set xs. cells h x)"
proof
  fix h xs h' xs'
  assume "(\<Union>x\<in>set xs. cells h x) \<subseteq> {..<length h}" "copy_all into h xs = (h', xs')"
  then show "prefix h h' \<and> (\<Union>x\<in>set xs'. cells h' x) \<subseteq> {length h..<length h'} \<and> map (val h') xs' = map (val h) xs"
  proof (induction xs arbitrary: h xs')
    case (Cons x xs)
    obtain h1 y where y: "into h x = (h1, y)" by fastforce
    obtain ys where ys: "copy_all into h1 xs = (h', ys)" "xs' = y # ys"
      using Cons.prems(2) y by (auto simp: Let_def split: prod.splits)
    have c: "cells h x \<subseteq> {..<length h}" "\<And>z. z \<in> set xs \<Longrightarrow> cells h z \<subseteq> {..<length h}" using Cons.prems(1) by auto
    note 1 = deep_copy.copied [OF d c(1) y]
    then have p1: "prefix h h1" and l1: "length h \<le> length h1" by (auto dest: prefix_length_le)
    have f: "cells h1 z = cells h z" "val h1 z = val h z" if "z \<in> set xs" for z
      using deep_copy.frame [OF d c(2) [OF that] p1] by simp_all
    have "(\<Union>x\<in>set xs. cells h1 x) \<subseteq> {..<length h1}"
    proof (rule UN_least)
      fix z assume z: "z \<in> set xs"
      then show "cells h1 z \<subseteq> {..<length h1}" using f(1) [OF z] c(2) [OF z] l1 by (auto dest: subsetD)
    qed
    note 2 = Cons.IH [OF this ys(1)]
    then have p2: "prefix h1 h'" and l2: "length h1 \<le> length h'" by (auto dest: prefix_length_le)
    have "cells h1 y \<subseteq> {..<length h1}" using 1 by (auto dest: subsetD)
    note g = deep_copy.frame [OF d this p2]
    have "(\<Union>x\<in>set xs'. cells h' x) \<subseteq> {length h..<length h'}"
      using 1 2 ys(2) g(1) l1 l2 by (auto dest: subsetD)
    moreover have "map (val h1) xs = map (val h) xs" using f(2) by simp
    ultimately show ?case using prefix_order.trans [OF p1 p2] 1 2 ys(2) g(2) by simp
  qed simp
next
  fix h xs and h2 :: store
  assume "\<forall>a\<in>\<Union>x\<in>set xs. cells h x. h2 ! a = h ! a"
  then have "cells h2 x = cells h x \<and> val h2 x = val h x" if "x \<in> set xs" for x
    using deep_copy.local [OF d, of h x h2] that by blast
  then show "(\<Union>x\<in>set xs. cells h2 x) = (\<Union>x\<in>set xs. cells h x) \<and> map (val h2) xs = map (val h) xs" by simp
qed

lemma deep_new:
  \<comment> \<open>a new cell, filled with the copy of what the old one holds\<close>
  assumes d: "deep_copy into val cells" and un: "\<And>x. un (mk x) = x"
    and bound: "cells h (un (h ! a)) \<subseteq> {..<length h}" and into: "into (h @ [c]) (un (h ! a)) = (h1, x)"
    and h2: "h2 = h1[length h := mk x]"
  shows "prefix h h2 \<and> length h < length h2 \<and> cells h2 (un (h2 ! length h)) \<subseteq> {length h..<length h2} \<and>
    val h2 (un (h2 ! length h)) = val h (un (h ! a))"
proof -
  let ?x0 = "un (h ! a)"
  have f: "cells (h @ [c]) ?x0 = cells h ?x0" "val (h @ [c]) ?x0 = val h ?x0"
    using deep_copy.frame [OF d bound, of "h @ [c]"] by simp_all
  have "cells (h @ [c]) ?x0 \<subseteq> {..<length (h @ [c])}" using f(1) bound by (auto dest: subsetD)
  note 1 = deep_copy.copied [OF d this into]
  then obtain g where g: "h1 = (h @ [c]) @ g" by (auto simp: prefix_def)
  then have "h2 = h @ mk x # g" by (simp add: h2)
  moreover have "\<forall>b\<in>cells h1 x. h2 ! b = h1 ! b" using 1 by (auto simp: h2 dest: subsetD)
  from deep_copy.local [OF d this] have "cells h2 x = cells h1 x" "val h2 x = val h1 x" by simp_all
  ultimately show ?thesis using 1 f(2) un g by (auto dest: subsetD)
qed

lemma deep_slice:
  assumes d: "deep_copy into val cells" and un: "\<And>xs. un (mk xs) = xs"
  shows "deep_copy (copy_slice un mk into) (slice_val un val) (slice_cells un cells)"
proof
  fix h p h' p'
  assume b: "slice_cells un cells h p \<subseteq> {..<length h}" and c: "copy_slice un mk into h p = (h', p')"
  show "prefix h h' \<and> slice_cells un cells h' p' \<subseteq> {length h..<length h'} \<and> slice_val un val h' p' = slice_val un val h p"
  proof (cases p)
    case (Some a)
    obtain h1 xs where "copy_all into (h @ [mk []]) (un (h ! a)) = (h1, xs)" by fastforce
    note all = this
    have n: "h' = h1[length h := mk xs]" "p' = Some (length h)" using c Some all by (simp_all add: copy_slice_def)
    have "(\<Union>x\<in>set (un (h ! a)). cells h x) \<subseteq> {..<length h}" using b Some by (simp add: slice_cells_def)
    from deep_new [OF deep_copy_all [OF d] un this all n(1)] Some n(2) show ?thesis
      by (simp add: slice_cells_def slice_val_def)
  qed (use c in \<open>auto simp: copy_slice_def slice_cells_def slice_val_def\<close>)
next
  fix h p and h2 :: store
  assume l: "\<forall>a\<in>slice_cells un cells h p. h2 ! a = h ! a"
  show "slice_cells un cells h2 p = slice_cells un cells h p \<and> slice_val un val h2 p = slice_val un val h p"
  proof (cases p)
    case (Some a)
    with l deep_copy.local [OF deep_copy_all [OF d], of h "un (h ! a)" h2] show ?thesis
      by (auto simp: slice_cells_def slice_val_def)
  qed (simp add: slice_cells_def slice_val_def)
qed

lemma deep_ref:
  assumes d: "deep_copy into val cells" and un: "\<And>x. un (mk x) = x"
  shows "deep_copy (copy_ref un mk into) (ref_val un val) (ref_cells un cells)"
proof
  fix h p h' p'
  assume b: "ref_cells un cells h p \<subseteq> {..<length h}" and c: "copy_ref un mk into h p = (h', p')"
  show "prefix h h' \<and> ref_cells un cells h' p' \<subseteq> {length h..<length h'} \<and> ref_val un val h' p' = ref_val un val h p"
  proof (cases p)
    case (Some a)
    obtain h1 x where "into (h @ [h ! a]) (un (h ! a)) = (h1, x)" by fastforce
    note all = this
    have n: "h' = h1[length h := mk x]" "p' = Some (length h)" using c Some all by (simp_all add: copy_ref_def)
    have "cells h (un (h ! a)) \<subseteq> {..<length h}" using b Some by (simp add: ref_cells_def)
    from deep_new [OF d un this all n(1)] Some n(2) show ?thesis
      by (simp add: ref_cells_def ref_val_def)
  qed (use c in \<open>auto simp: copy_ref_def ref_cells_def ref_val_def\<close>)
next
  fix h p and h2 :: store
  assume l: "\<forall>a\<in>ref_cells un cells h p. h2 ! a = h ! a"
  show "ref_cells un cells h2 p = ref_cells un cells h p \<and> ref_val un val h2 p = ref_val un val h p"
  proof (cases p)
    case (Some a)
    with l deep_copy.local [OF d, of h "un (h ! a)" h2] show ?thesis by (auto simp: ref_cells_def ref_val_def)
  qed (simp add: ref_cells_def ref_val_def)
qed

lemma deep_both:
  assumes d1: "deep_copy into1 val1 cells1" and d2: "deep_copy into2 val2 cells2"
  shows "deep_copy (\<lambda>h (x, y). let (h1, x') = into1 h x; (h2, y') = into2 h1 y in (h2, x', y'))
    (\<lambda>h (x, y). (val1 h x, val2 h y)) (\<lambda>h (x, y). cells1 h x \<union> cells2 h y)"
proof
  fix h p h' p'
  assume b: "(case p of (x, y) \<Rightarrow> cells1 h x \<union> cells2 h y) \<subseteq> {..<length h}"
    and c: "(case p of (x, y) \<Rightarrow> let (h1, x') = into1 h x; (h2, y') = into2 h1 y in (h2, x', y')) = (h', p')"
  obtain x y where p: "p = (x, y)" by fastforce
  obtain h1 x' where 1: "into1 h x = (h1, x')" by fastforce
  obtain y' where 2: "into2 h1 y = (h', y')" "p' = (x', y')" using c p 1 by (auto split: prod.splits)
  have bx: "cells1 h x \<subseteq> {..<length h}" and "cells2 h y \<subseteq> {..<length h}" using b p by auto
  note c1 = deep_copy.copied [OF d1 bx 1]
  then have p1: "prefix h h1" and l1: "length h \<le> length h1" by (auto dest: prefix_length_le)
  note f = deep_copy.frame [OF d2 \<open>cells2 h y \<subseteq> {..<length h}\<close> p1]
  have "cells2 h1 y \<subseteq> {..<length h1}" using f(1) \<open>cells2 h y \<subseteq> {..<length h}\<close> l1 by (auto dest: subsetD)
  note c2 = deep_copy.copied [OF d2 this 2(1)]
  then have p2: "prefix h1 h'" and l2: "length h1 \<le> length h'" by (auto dest: prefix_length_le)
  have "cells1 h1 x' \<subseteq> {..<length h1}" using c1 by (auto dest: subsetD)
  note g = deep_copy.frame [OF d1 this p2]
  show "prefix h h' \<and> (case p' of (x, y) \<Rightarrow> cells1 h' x \<union> cells2 h' y) \<subseteq> {length h..<length h'} \<and>
      (case p' of (x, y) \<Rightarrow> (val1 h' x, val2 h' y)) = (case p of (x, y) \<Rightarrow> (val1 h x, val2 h y))"
    using prefix_order.trans [OF p1 p2] c1 c2 g f(2) l1 l2 by (auto simp: p 2(2) dest: subsetD)
next
  fix h p and h2 :: store
  assume "\<forall>a\<in>case p of (x, y) \<Rightarrow> cells1 h x \<union> cells2 h y. h2 ! a = h ! a"
  then show "(case p of (x, y) \<Rightarrow> cells1 h2 x \<union> cells2 h2 y) = (case p of (x, y) \<Rightarrow> cells1 h x \<union> cells2 h y) \<and>
      (case p of (x, y) \<Rightarrow> (val1 h2 x, val2 h2 y)) = (case p of (x, y) \<Rightarrow> (val1 h x, val2 h y))"
    using deep_copy.local [OF d1, of h "fst p" h2] deep_copy.local [OF d2, of h "snd p" h2] by (cases p) simp
qed

lemma deep_struct:
  \<comment> \<open>a struct, by its parts that refer to cells\<close>
  assumes d: "deep_copy into val cells" and get: "\<And>x y. get (put y x) = y"
    and "\<And>h x. into' h x = (let (h', y) = into h (get x) in (h', put y x))"
    and "\<And>h x. val' h x = f (val h (get x)) x" and "\<And>v x y. f v (put y x) = f v x" and "\<And>h x. cells' h x = cells h (get x)"
  shows "deep_copy into' val' cells'"
proof
  fix h x h' x'
  assume "cells' h x \<subseteq> {..<length h}" "into' h x = (h', x')"
  with deep_copy.copied [OF d, of h "get x"] assms(2-) show
    "prefix h h' \<and> cells' h' x' \<subseteq> {length h..<length h'} \<and> val' h' x' = val' h x"
    by (cases "into h (get x)") auto
next
  fix h x and h2 :: store
  assume "\<forall>a\<in>cells' h x. h2 ! a = h ! a"
  with deep_copy.local [OF d, of h "get x" h2] assms(2-) show "cells' h2 x = cells' h x \<and> val' h2 x = val' h x" by simp
qed

subsection \<open>InferenceModel\<close>

record meta_lib =
  lib_meta :: "ptr copier"
  lib_Condition :: "metaCondition \<Rightarrow> metaCondition"

definition documented :: "meta_lib \<Rightarrow> bool" where
  \<comment> \<open>\<open>DeepCopyInto\<close> of \<open>ObjectMeta\<close>, \<open>ListMeta\<close> and \<open>Condition\<close> copy the receiver\<close>
  "documented lib \<longleftrightarrow> deep_copy (lib_meta lib) ptr_val ptr_cells \<and> (\<forall>c. lib_Condition lib c = c)"

definition TargetModel_DeepCopyInto :: "TargetModel_mem copier" where
  "TargetModel_DeepCopyInto h t = (let (h1, w) = copy_ptr h (tmm_Weight t) in (h1, t\<lparr>tmm_Weight := w\<rparr>))"

definition TargetModel_DeepCopy :: "ptr copier" where
  "TargetModel_DeepCopy = copy_ref the_TargetModel TargetModelCell TargetModel_DeepCopyInto"

definition PoolObjectReference_DeepCopyInto :: "PoolObjectReference copier" where
  "PoolObjectReference_DeepCopyInto h r = (h, r)"

definition PoolObjectReference_DeepCopy :: "ptr copier" where
  "PoolObjectReference_DeepCopy = copy_ref the_PoolRef PoolRefCell PoolObjectReference_DeepCopyInto"

definition InferenceModelSpec_DeepCopyInto :: "InferenceModelSpec_mem copier" where
  "InferenceModelSpec_DeepCopyInto h s =
     (let (h1, c) = copy_ptr h (mm_Criticality s);
          (h2, ts) = copy_slice the_targets TargetsCell TargetModel_DeepCopyInto h1 (mm_TargetModels s)
      in (h2, s\<lparr>mm_Criticality := c, mm_TargetModels := ts\<rparr>))"

definition InferenceModelSpec_DeepCopy :: "ptr copier" where
  "InferenceModelSpec_DeepCopy = copy_ref the_ModelSpec ModelSpecCell InferenceModelSpec_DeepCopyInto"

definition InferenceModelStatus_DeepCopyInto :: "meta_lib \<Rightarrow> InferenceModelStatus_mem copier" where
  "InferenceModelStatus_DeepCopyInto lib h s =
     (let (h1, cs) = copy_slice the_conditions ConditionsCell (\<lambda>h c. (h, lib_Condition lib c)) h (mm_Conditions s)
      in (h1, s\<lparr>mm_Conditions := cs\<rparr>))"

definition InferenceModelStatus_DeepCopy :: "meta_lib \<Rightarrow> ptr copier" where
  "InferenceModelStatus_DeepCopy lib = copy_ref the_ModelStatus ModelStatusCell (InferenceModelStatus_DeepCopyInto lib)"

definition InferenceModel_DeepCopyInto :: "meta_lib \<Rightarrow> InferenceModel_mem copier" where
  "InferenceModel_DeepCopyInto lib h m =
     (let (h1, meta) = lib_meta lib h (mm_meta m);
          (h2, spec) = InferenceModelSpec_DeepCopyInto h1 (mm_Spec m);
          (h3, status) = InferenceModelStatus_DeepCopyInto lib h2 (mm_Status m)
      in (h3, m\<lparr>mm_meta := meta, mm_Spec := spec, mm_Status := status\<rparr>))"

definition InferenceModel_DeepCopy :: "meta_lib \<Rightarrow> ptr copier" where
  "InferenceModel_DeepCopy lib = copy_ref the_Model ModelCell (InferenceModel_DeepCopyInto lib)"

definition InferenceModel_DeepCopyObject :: "meta_lib \<Rightarrow> ptr copier" where
  "InferenceModel_DeepCopyObject lib h p = (case InferenceModel_DeepCopy lib h p of (h1, Some c) \<Rightarrow> (h1, Some c) | (h1, None) \<Rightarrow> (h1, None))"

definition InferenceModelList_DeepCopyInto :: "meta_lib \<Rightarrow> List_mem copier" where
  "InferenceModelList_DeepCopyInto lib h l =
     (let (h1, meta) = lib_meta lib h (lm_meta l);
          (h2, ms) = copy_slice the_models ModelsCell (InferenceModel_DeepCopyInto lib) h1 (lm_Items l)
      in (h2, l\<lparr>lm_meta := meta, lm_Items := ms\<rparr>))"

definition InferenceModelList_DeepCopy :: "meta_lib \<Rightarrow> ptr copier" where
  "InferenceModelList_DeepCopy lib = copy_ref the_ModelList ModelListCell (InferenceModelList_DeepCopyInto lib)"

definition InferenceModelList_DeepCopyObject :: "meta_lib \<Rightarrow> ptr copier" where
  "InferenceModelList_DeepCopyObject lib h p =
     (case InferenceModelList_DeepCopy lib h p of (h1, Some c) \<Rightarrow> (h1, Some c) | (h1, None) \<Rightarrow> (h1, None))"

text \<open>The value of an object, with \<open>nil\<close> told from empty, and the cells it is made of.\<close>

definition TargetModel_val :: "store \<Rightarrow> TargetModel_mem \<Rightarrow> string \<times> cell option" where
  "TargetModel_val h t = (tmm_Name t, ptr_val h (tmm_Weight t))"

definition TargetModel_cells :: "store \<Rightarrow> TargetModel_mem \<Rightarrow> nat set" where
  "TargetModel_cells h t = ptr_cells h (tmm_Weight t)"

definition ModelSpec_val :: "store \<Rightarrow> InferenceModelSpec_mem \<Rightarrow> string \<times> cell option \<times> (string \<times> cell option) list option \<times> PoolObjectReference" where
  "ModelSpec_val h s =
     (mm_ModelName s, ptr_val h (mm_Criticality s), slice_val the_targets TargetModel_val h (mm_TargetModels s), mm_PoolRef s)"

definition ModelSpec_cells :: "store \<Rightarrow> InferenceModelSpec_mem \<Rightarrow> nat set" where
  "ModelSpec_cells h s = ptr_cells h (mm_Criticality s) \<union> slice_cells the_targets TargetModel_cells h (mm_TargetModels s)"

definition ModelStatus_val :: "store \<Rightarrow> InferenceModelStatus_mem \<Rightarrow> metaCondition list option" where
  "ModelStatus_val h s = slice_val the_conditions (\<lambda>h c. c) h (mm_Conditions s)"

definition ModelStatus_cells :: "store \<Rightarrow> InferenceModelStatus_mem \<Rightarrow> nat set" where
  "ModelStatus_cells h s = slice_cells the_conditions (\<lambda>h c. {}) h (mm_Conditions s)"

definition Model_val :: "store \<Rightarrow> InferenceModel_mem \<Rightarrow> _" where
  "Model_val h m = (ptr_val h (mm_meta m), ModelSpec_val h (mm_Spec m), ModelStatus_val h (mm_Status m))"

definition Model_cells :: "store \<Rightarrow> InferenceModel_mem \<Rightarrow> nat set" where
  "Model_cells h m = ptr_cells h (mm_meta m) \<union> (ModelSpec_cells h (mm_Spec m) \<union> ModelStatus_cells h (mm_Status m))"

interpretation TargetModel_deep: deep_copy TargetModel_DeepCopyInto TargetModel_val TargetModel_cells
  by (rule deep_struct [OF deep_ptr, where get = tmm_Weight and put = "\<lambda>w t. t\<lparr>tmm_Weight := w\<rparr>" and f = "\<lambda>v t. (tmm_Name t, v)"])
    (simp_all add: TargetModel_DeepCopyInto_def TargetModel_val_def TargetModel_cells_def)

lemma deep_targets: "deep_copy (copy_slice the_targets TargetsCell TargetModel_DeepCopyInto)
    (slice_val the_targets TargetModel_val) (slice_cells the_targets TargetModel_cells)"
  by (rule deep_slice [OF TargetModel_deep.deep_copy_axioms]) simp

interpretation ModelSpec_deep: deep_copy InferenceModelSpec_DeepCopyInto ModelSpec_val ModelSpec_cells
  by (rule deep_struct [OF deep_both [OF deep_ptr deep_targets], where get = "\<lambda>s. (mm_Criticality s, mm_TargetModels s)"
        and put = "\<lambda>(c, ts) s. s\<lparr>mm_Criticality := c, mm_TargetModels := ts\<rparr>" and f = "\<lambda>(c, ts) s. (mm_ModelName s, c, ts, mm_PoolRef s)"])
    (auto simp: InferenceModelSpec_DeepCopyInto_def ModelSpec_val_def ModelSpec_cells_def Let_def split: prod.splits)

lemma deep_ModelStatus: "documented lib \<Longrightarrow> deep_copy (InferenceModelStatus_DeepCopyInto lib) ModelStatus_val ModelStatus_cells"
  by (rule deep_struct [OF deep_slice [OF deep_scalar, where un = the_conditions and mk = ConditionsCell and f1 = "lib_Condition lib"],
        where get = mm_Conditions and put = "\<lambda>c s. s\<lparr>mm_Conditions := c\<rparr>" and f = "\<lambda>v s. v"])
    (simp_all add: documented_def InferenceModelStatus_DeepCopyInto_def ModelStatus_val_def ModelStatus_cells_def)

lemma deep_Model: "documented lib \<Longrightarrow> deep_copy (InferenceModel_DeepCopyInto lib) Model_val Model_cells"
proof -
  assume lib: "documented lib"
  then have meta: "deep_copy (lib_meta lib) ptr_val ptr_cells" by (simp add: documented_def)
  show ?thesis
    by (rule deep_struct [OF deep_both [OF meta deep_both [OF ModelSpec_deep.deep_copy_axioms deep_ModelStatus [OF lib]]],
          where get = "\<lambda>m. (mm_meta m, mm_Spec m, mm_Status m)"
          and put = "\<lambda>(a, b, c) m. m\<lparr>mm_meta := a, mm_Spec := b, mm_Status := c\<rparr>" and f = "\<lambda>v m. v"])
      (auto simp: InferenceModel_DeepCopyInto_def Model_val_def Model_cells_def Let_def split: prod.splits)
qed

definition ModelList_val :: "store \<Rightarrow> List_mem \<Rightarrow> _" where
  "ModelList_val h l = (ptr_val h (lm_meta l), slice_val the_models Model_val h (lm_Items l))"

definition ModelList_cells :: "store \<Rightarrow> List_mem \<Rightarrow> nat set" where
  "ModelList_cells h l = ptr_cells h (lm_meta l) \<union> slice_cells the_models Model_cells h (lm_Items l)"

lemma deep_ModelList:
  assumes lib: "documented lib"
  shows "deep_copy (InferenceModelList_DeepCopyInto lib) ModelList_val ModelList_cells"
proof -
  have meta: "deep_copy (lib_meta lib) ptr_val ptr_cells" using lib by (simp add: documented_def)
  have items: "deep_copy (copy_slice the_models ModelsCell (InferenceModel_DeepCopyInto lib))
      (slice_val the_models Model_val) (slice_cells the_models Model_cells)"
    by (rule deep_slice [OF deep_Model [OF lib]]) simp
  show ?thesis
    by (rule deep_struct [OF deep_both [OF meta items], where get = "\<lambda>l. (lm_meta l, lm_Items l)"
          and put = "\<lambda>(a, b) l. l\<lparr>lm_meta := a, lm_Items := b\<rparr>" and f = "\<lambda>v l. v"])
      (auto simp: InferenceModelList_DeepCopyInto_def ModelList_val_def ModelList_cells_def Let_def split: prod.splits)
qed

definition list_value :: "'a list option \<Rightarrow> 'a list" where
  \<comment> \<open>a \<open>nil\<close> slice has no elements\<close>
  "list_value xs = (case xs of None \<Rightarrow> [] | Some ys \<Rightarrow> ys)"

definition model_object :: "store \<Rightarrow> InferenceModel_mem \<Rightarrow> InferenceModel" where
  \<comment> \<open>the object the other theories work with\<close>
  "model_object h m =
     (case Model_val h m of (meta, (name, crit, ts, ref), conds) \<Rightarrow>
        \<lparr>model_meta = the_meta (the meta),
         model_Spec = \<lparr>ModelName = name, Criticality = map_option the_string crit,
           TargetModels = map (\<lambda>(n, w). \<lparr>tm_Name = n, Weight = map_option the_int w\<rparr>) (list_value ts), PoolRef = ref\<rparr>,
         model_Status = \<lparr>ms_Conditions = list_value conds\<rparr>\<rparr>)"

definition model_at :: "store \<Rightarrow> ptr \<Rightarrow> InferenceModel option" where
  "model_at h p = map_option (\<lambda>a. model_object h (the_Model (h ! a))) p"

definition model_cells :: "store \<Rightarrow> ptr \<Rightarrow> nat set" where
  \<comment> \<open>all cells that can be reached from a pointer to a model\<close>
  "model_cells = ref_cells the_Model Model_cells"

lemma model_at_val: "ref_val the_Model Model_val h p = ref_val the_Model Model_val h' p' \<Longrightarrow> model_at h p = model_at h' p'"
  by (cases p; cases p') (auto simp: ref_val_def model_at_def model_object_def)

text \<open>
  C34. A deep copy shares nothing. The copy of an InferenceModel has the value of the original;
  whatever is written to the cells of the copy afterwards, the original keeps its value, and
  whatever is written to the cells of the original, the copy keeps its value.
\<close>

theorem model_copy_independent:
  assumes lib: "documented lib" and bound: "model_cells h p \<subseteq> {..<length h}" and copy: "InferenceModel_DeepCopy lib h p = (h', q)"
  shows "model_at h' q = model_at h p \<and> model_at h' p = model_at h p \<and>
    (\<forall>h2. (\<forall>a. a \<notin> model_cells h' q \<longrightarrow> h2 ! a = h' ! a) \<longrightarrow> model_at h2 p = model_at h p) \<and>
    (\<forall>h2. (\<forall>a. a \<notin> model_cells h' p \<longrightarrow> h2 ! a = h' ! a) \<longrightarrow> model_at h2 q = model_at h p)"
proof -
  have d: "deep_copy (copy_ref the_Model ModelCell (InferenceModel_DeepCopyInto lib)) (ref_val the_Model Model_val) model_cells"
    unfolding model_cells_def by (rule deep_ref [OF deep_Model [OF lib]]) simp
  note i = deep_copy.independent [OF d bound copy [unfolded InferenceModel_DeepCopy_def]]
  from i(1,2) [THEN model_at_val] i(4,5) [THEN model_at_val] show ?thesis by blast
qed

definition example_store :: store where
  "example_store =
     [MetaCell \<lparr>Name = ''m1'', Namespace = ''ns'', Labels = [], CreationTimestamp = 1, DeletionTimestamp = None\<rparr>,
      StringCell Critical, IntCell 1, TargetsCell [\<lparr>tmm_Name = ''m-a'', tmm_Weight = Some 2\<rparr>],
      ModelCell \<lparr>mm_meta = Some 0,
        mm_Spec = \<lparr>mm_ModelName = ''m'', mm_Criticality = Some 1, mm_TargetModels = Some 3,
          mm_PoolRef = \<lparr>ref_Group = [], ref_Kind = ''InferencePool'', ref_Name = ''pool''\<rparr>\<rparr>,
        mm_Status = \<lparr>mm_Conditions = None\<rparr>\<rparr>]"

definition example_lib :: meta_lib where
  "example_lib = \<lparr>lib_meta = copy_ptr, lib_Condition = id\<rparr>"

theorem model_copy_independent_witness:
  "\<exists>h q b. InferenceModel_DeepCopy example_lib example_store (Some 4) = (h, q) \<and> b \<in> model_cells h q \<and> h ! b = StringCell Critical \<and>
     model_at (h[b := StringCell Sheddable]) (Some 4) = model_at example_store (Some 4)"
proof -
  obtain h q where c: "InferenceModel_DeepCopy example_lib example_store (Some 4) = (h, q)" by fastforce
  have lib: "documented example_lib" using deep_ptr by (simp add: documented_def example_lib_def)
  have bound: "model_cells example_store (Some 4) \<subseteq> {..<length example_store}"
    by (simp add: example_store_def model_cells_def ref_cells_def Model_cells_def ModelSpec_cells_def ModelStatus_cells_def
        ptr_cells_def slice_cells_def TargetModel_cells_def)
  have b: "7 \<in> model_cells h q" "h ! 7 = StringCell Critical"
    using c by (auto simp: InferenceModel_DeepCopy_def copy_ref_def InferenceModel_DeepCopyInto_def example_lib_def example_store_def
        copy_ptr_def InferenceModelSpec_DeepCopyInto_def copy_slice_def TargetModel_DeepCopyInto_def InferenceModelStatus_DeepCopyInto_def
        model_cells_def ref_cells_def Model_cells_def ModelSpec_cells_def ptr_cells_def)
  have "\<forall>a. a \<notin> model_cells h q \<longrightarrow> h[7 := StringCell Sheddable] ! a = h ! a" using b(1) by (metis nth_list_update_neq)
  with model_copy_independent [OF lib bound c] have "model_at (h[7 := StringCell Sheddable]) (Some 4) = model_at example_store (Some 4)" by blast
  with c b show ?thesis by blast
qed

subsection \<open>InferencePool\<close>

definition ExtensionReference_DeepCopyInto :: "ExtensionReference_mem copier" where
  "ExtensionReference_DeepCopyInto h r =
     (let (h1, g) = copy_ptr h (erm_Group r); (h2, k) = copy_ptr h1 (erm_Kind r); (h3, n) = copy_ptr h2 (erm_PortNumber r)
      in (h3, r\<lparr>erm_Group := g, erm_Kind := k, erm_PortNumber := n\<rparr>))"

definition ExtensionReference_DeepCopy :: "ptr copier" where
  "ExtensionReference_DeepCopy = copy_ref the_ExtensionReference ExtensionReferenceCell ExtensionReference_DeepCopyInto"

definition ExtensionConnection_DeepCopyInto :: "ExtensionConnection_mem copier" where
  "ExtensionConnection_DeepCopyInto h c = (let (h1, m) = copy_ptr h (ecm_FailureMode c) in (h1, c\<lparr>ecm_FailureMode := m\<rparr>))"

definition ExtensionConnection_DeepCopy :: "ptr copier" where
  "ExtensionConnection_DeepCopy = copy_ref the_ExtensionConnection ExtensionConnectionCell ExtensionConnection_DeepCopyInto"

definition Extension_DeepCopyInto :: "Extension_mem copier" where
  "Extension_DeepCopyInto h e =
     (let (h1, r) = ExtensionReference_DeepCopyInto h (em_Reference e); (h2, c) = ExtensionConnection_DeepCopyInto h1 (em_Connection e)
      in (h2, e\<lparr>em_Reference := r, em_Connection := c\<rparr>))"

definition Extension_DeepCopy :: "ptr copier" where
  "Extension_DeepCopy = copy_ref the_Extension ExtensionCell Extension_DeepCopyInto"

definition EndpointPickerConfig_DeepCopyInto :: "EndpointPickerConfig_mem copier" where
  "EndpointPickerConfig_DeepCopyInto h c =
     (let (h1, e) = copy_ref the_Extension ExtensionCell Extension_DeepCopyInto h (epm_ExtensionRef c)
      in (h1, c\<lparr>epm_ExtensionRef := e\<rparr>))"

definition EndpointPickerConfig_DeepCopy :: "ptr copier" where
  "EndpointPickerConfig_DeepCopy = copy_ref the_PickerConfig PickerConfigCell EndpointPickerConfig_DeepCopyInto"

fun copy_entries_loop :: "(string, string) gomap \<Rightarrow> (string, string) gomap \<Rightarrow> (string, string) gomap" where
  \<comment> \<open>\<open>for key, val := range *in { (*out)[key] = val }\<close>\<close>
  "copy_entries_loop out [] = out"
| "copy_entries_loop out ((k, v) # es) = copy_entries_loop (AList.update k v out) es"

definition copy_map :: "ptr copier" where
  \<comment> \<open>\<open>*out = make(map[LabelKey]LabelValue, len(*in))\<close>, then the loop\<close>
  "copy_map h p =
     (case p of
        None \<Rightarrow> (h, None)
      | Some a \<Rightarrow> (h @ [MapCell (copy_entries_loop [] (the_map (h ! a)))], Some (length h)))"

definition InferencePoolSpec_DeepCopyInto :: "InferencePoolSpec_mem copier" where
  "InferencePoolSpec_DeepCopyInto h s =
     (let (h1, sel) = copy_map h (pm_Selector s); (h2, c) = EndpointPickerConfig_DeepCopyInto h1 (pm_PickerConfig s)
      in (h2, s\<lparr>pm_Selector := sel, pm_PickerConfig := c\<rparr>))"

definition InferencePoolSpec_DeepCopy :: "ptr copier" where
  "InferencePoolSpec_DeepCopy = copy_ref the_PoolSpec PoolSpecCell InferencePoolSpec_DeepCopyInto"

definition PoolStatus_DeepCopyInto :: "meta_lib \<Rightarrow> PoolStatus_mem copier" where
  "PoolStatus_DeepCopyInto lib h s =
     (let (h1, cs) = copy_slice the_conditions ConditionsCell (\<lambda>h c. (h, lib_Condition lib c)) h (psm_Conditions s)
      in (h1, s\<lparr>psm_Conditions := cs\<rparr>))"

definition PoolStatus_DeepCopy :: "meta_lib \<Rightarrow> ptr copier" where
  "PoolStatus_DeepCopy lib = copy_ref the_PoolStatus PoolStatusCell (PoolStatus_DeepCopyInto lib)"

definition InferencePoolStatus_DeepCopyInto :: "meta_lib \<Rightarrow> InferencePoolStatus_mem copier" where
  "InferencePoolStatus_DeepCopyInto lib h s =
     (let (h1, ps) = copy_slice the_parents ParentsCell (PoolStatus_DeepCopyInto lib) h (pm_Parents s)
      in (h1, s\<lparr>pm_Parents := ps\<rparr>))"

definition InferencePoolStatus_DeepCopy :: "meta_lib \<Rightarrow> ptr copier" where
  "InferencePoolStatus_DeepCopy lib = copy_ref the_InferencePoolStatus InferencePoolStatusCell (InferencePoolStatus_DeepCopyInto lib)"

definition InferencePool_DeepCopyInto :: "meta_lib \<Rightarrow> InferencePool_mem copier" where
  "InferencePool_DeepCopyInto lib h p =
     (let (h1, meta) = lib_meta lib h (pm_meta p);
          (h2, spec) = InferencePoolSpec_DeepCopyInto h1 (pm_Spec p);
          (h3, status) = InferencePoolStatus_DeepCopyInto lib h2 (pm_Status p)
      in (h3, p\<lparr>pm_meta := meta, pm_Spec := spec, pm_Status := status\<rparr>))"

definition InferencePool_DeepCopy :: "meta_lib \<Rightarrow> ptr copier" where
  "InferencePool_DeepCopy lib = copy_ref the_Pool PoolCell (InferencePool_DeepCopyInto lib)"

definition InferencePool_DeepCopyObject :: "meta_lib \<Rightarrow> ptr copier" where
  "InferencePool_DeepCopyObject lib h p = (case InferencePool_DeepCopy lib h p of (h1, Some c) \<Rightarrow> (h1, Some c) | (h1, None) \<Rightarrow> (h1, None))"

definition InferencePoolList_DeepCopyInto :: "meta_lib \<Rightarrow> List_mem copier" where
  "InferencePoolList_DeepCopyInto lib h l =
     (let (h1, meta) = lib_meta lib h (lm_meta l);
          (h2, ps) = copy_slice the_pools PoolsCell (InferencePool_DeepCopyInto lib) h1 (lm_Items l)
      in (h2, l\<lparr>lm_meta := meta, lm_Items := ps\<rparr>))"

definition InferencePoolList_DeepCopy :: "meta_lib \<Rightarrow> ptr copier" where
  "InferencePoolList_DeepCopy lib = copy_ref the_PoolList PoolListCell (InferencePoolList_DeepCopyInto lib)"

definition InferencePoolList_DeepCopyObject :: "meta_lib \<Rightarrow> ptr copier" where
  "InferencePoolList_DeepCopyObject lib h p =
     (case InferencePoolList_DeepCopy lib h p of (h1, Some c) \<Rightarrow> (h1, Some c) | (h1, None) \<Rightarrow> (h1, None))"

definition ExtensionReference_val :: "store \<Rightarrow> ExtensionReference_mem \<Rightarrow> string \<times> cell option \<times> cell option \<times> cell option" where
  "ExtensionReference_val h r = (erm_Name r, ptr_val h (erm_Group r), ptr_val h (erm_Kind r), ptr_val h (erm_PortNumber r))"

definition ExtensionReference_cells :: "store \<Rightarrow> ExtensionReference_mem \<Rightarrow> nat set" where
  "ExtensionReference_cells h r = ptr_cells h (erm_Group r) \<union> (ptr_cells h (erm_Kind r) \<union> ptr_cells h (erm_PortNumber r))"

definition ExtensionConnection_val :: "store \<Rightarrow> ExtensionConnection_mem \<Rightarrow> cell option" where
  "ExtensionConnection_val h c = ptr_val h (ecm_FailureMode c)"

definition ExtensionConnection_cells :: "store \<Rightarrow> ExtensionConnection_mem \<Rightarrow> nat set" where
  "ExtensionConnection_cells h c = ptr_cells h (ecm_FailureMode c)"

definition Extension_val :: "store \<Rightarrow> Extension_mem \<Rightarrow> _" where
  "Extension_val h e = (ExtensionReference_val h (em_Reference e), ExtensionConnection_val h (em_Connection e))"

definition Extension_cells :: "store \<Rightarrow> Extension_mem \<Rightarrow> nat set" where
  "Extension_cells h e = ExtensionReference_cells h (em_Reference e) \<union> ExtensionConnection_cells h (em_Connection e)"

definition PickerConfig_val :: "store \<Rightarrow> EndpointPickerConfig_mem \<Rightarrow> _" where
  "PickerConfig_val h c = ref_val the_Extension Extension_val h (epm_ExtensionRef c)"

definition PickerConfig_cells :: "store \<Rightarrow> EndpointPickerConfig_mem \<Rightarrow> nat set" where
  "PickerConfig_cells h c = ref_cells the_Extension Extension_cells h (epm_ExtensionRef c)"

definition map_val :: "store \<Rightarrow> ptr \<Rightarrow> (string, string) gomap option" where
  \<comment> \<open>the entries as they are put into a map one by one\<close>
  "map_val h p = map_option (\<lambda>a. copy_entries_loop [] (the_map (h ! a))) p"

definition PoolSpec_val :: "store \<Rightarrow> InferencePoolSpec_mem \<Rightarrow> _" where
  "PoolSpec_val h s = (pm_TargetPortNumber s, map_val h (pm_Selector s), PickerConfig_val h (pm_PickerConfig s))"

definition PoolSpec_cells :: "store \<Rightarrow> InferencePoolSpec_mem \<Rightarrow> nat set" where
  "PoolSpec_cells h s = ptr_cells h (pm_Selector s) \<union> PickerConfig_cells h (pm_PickerConfig s)"

definition PoolStatus_val :: "store \<Rightarrow> PoolStatus_mem \<Rightarrow> ObjectReference \<times> metaCondition list option" where
  "PoolStatus_val h s = (psm_GatewayRef s, slice_val the_conditions (\<lambda>h c. c) h (psm_Conditions s))"

definition PoolStatus_cells :: "store \<Rightarrow> PoolStatus_mem \<Rightarrow> nat set" where
  "PoolStatus_cells h s = slice_cells the_conditions (\<lambda>h c. {}) h (psm_Conditions s)"

definition InferencePoolStatus_val :: "store \<Rightarrow> InferencePoolStatus_mem \<Rightarrow> _" where
  "InferencePoolStatus_val h s = slice_val the_parents PoolStatus_val h (pm_Parents s)"

definition InferencePoolStatus_cells :: "store \<Rightarrow> InferencePoolStatus_mem \<Rightarrow> nat set" where
  "InferencePoolStatus_cells h s = slice_cells the_parents PoolStatus_cells h (pm_Parents s)"

definition Pool_val :: "store \<Rightarrow> InferencePool_mem \<Rightarrow> _" where
  "Pool_val h p = (ptr_val h (pm_meta p), PoolSpec_val h (pm_Spec p), InferencePoolStatus_val h (pm_Status p))"

definition Pool_cells :: "store \<Rightarrow> InferencePool_mem \<Rightarrow> nat set" where
  "Pool_cells h p = ptr_cells h (pm_meta p) \<union> (PoolSpec_cells h (pm_Spec p) \<union> InferencePoolStatus_cells h (pm_Status p))"

definition PoolList_val :: "store \<Rightarrow> List_mem \<Rightarrow> _" where
  "PoolList_val h l = (ptr_val h (lm_meta l), slice_val the_pools Pool_val h (lm_Items l))"

definition PoolList_cells :: "store \<Rightarrow> List_mem \<Rightarrow> nat set" where
  "PoolList_cells h l = ptr_cells h (lm_meta l) \<union> slice_cells the_pools Pool_cells h (lm_Items l)"

interpretation ExtensionReference_deep: deep_copy ExtensionReference_DeepCopyInto ExtensionReference_val ExtensionReference_cells
  by (rule deep_struct [OF deep_both [OF deep_ptr deep_both [OF deep_ptr deep_ptr]],
        where get = "\<lambda>r. (erm_Group r, erm_Kind r, erm_PortNumber r)"
        and put = "\<lambda>(g, k, n) r. r\<lparr>erm_Group := g, erm_Kind := k, erm_PortNumber := n\<rparr>" and f = "\<lambda>v r. (erm_Name r, v)"])
    (auto simp: ExtensionReference_DeepCopyInto_def ExtensionReference_val_def ExtensionReference_cells_def Let_def split: prod.splits)

interpretation ExtensionConnection_deep: deep_copy ExtensionConnection_DeepCopyInto ExtensionConnection_val ExtensionConnection_cells
  by (rule deep_struct [OF deep_ptr, where get = ecm_FailureMode and put = "\<lambda>m c. c\<lparr>ecm_FailureMode := m\<rparr>" and f = "\<lambda>v c. v"])
    (simp_all add: ExtensionConnection_DeepCopyInto_def ExtensionConnection_val_def ExtensionConnection_cells_def)

interpretation Extension_deep: deep_copy Extension_DeepCopyInto Extension_val Extension_cells
  by (rule deep_struct [OF deep_both [OF ExtensionReference_deep.deep_copy_axioms ExtensionConnection_deep.deep_copy_axioms],
        where get = "\<lambda>e. (em_Reference e, em_Connection e)"
        and put = "\<lambda>(r, c) e. e\<lparr>em_Reference := r, em_Connection := c\<rparr>" and f = "\<lambda>v e. v"])
    (auto simp: Extension_DeepCopyInto_def Extension_val_def Extension_cells_def Let_def split: prod.splits)

interpretation PickerConfig_deep: deep_copy EndpointPickerConfig_DeepCopyInto PickerConfig_val PickerConfig_cells
  by (rule deep_struct [OF deep_ref [OF Extension_deep.deep_copy_axioms, where un = the_Extension and mk = ExtensionCell],
        where get = epm_ExtensionRef and put = "\<lambda>e c. c\<lparr>epm_ExtensionRef := e\<rparr>" and f = "\<lambda>v c. v"])
    (simp_all add: EndpointPickerConfig_DeepCopyInto_def PickerConfig_val_def PickerConfig_cells_def)

lemma copy_entries_loop_new: "is_map (out @ es) \<Longrightarrow> copy_entries_loop out es = out @ es"
proof (induction es arbitrary: out)
  case (Cons e es)
  obtain k v where e: "e = (k, v)" by fastforce
  have "k \<notin> fst ` set out" using Cons.prems by (auto simp: is_map_def e)
  then show ?case using Cons by (simp add: e update_new)
qed simp

lemma is_map_copy_entries: "is_map out \<Longrightarrow> is_map (copy_entries_loop out es)"
  by (induction out es rule: copy_entries_loop.induct) simp_all

interpretation map_deep: deep_copy copy_map map_val ptr_cells
proof
  have idem: "copy_entries_loop [] (copy_entries_loop [] es) = copy_entries_loop [] es" for es
    using copy_entries_loop_new [of "[]"] is_map_copy_entries [of "[]" es] by simp
  show "prefix h h' \<and> ptr_cells h' p' \<subseteq> {length h..<length h'} \<and> map_val h' p' = map_val h p"
    if "copy_map h p = (h', p')" for h p h' p'
    using that by (auto simp: copy_map_def ptr_cells_def map_val_def idem split: option.splits)
qed (auto simp: ptr_cells_def map_val_def intro: option.map_cong0)

interpretation PoolSpec_deep: deep_copy InferencePoolSpec_DeepCopyInto PoolSpec_val PoolSpec_cells
  by (rule deep_struct [OF deep_both [OF map_deep.deep_copy_axioms PickerConfig_deep.deep_copy_axioms],
        where get = "\<lambda>s. (pm_Selector s, pm_PickerConfig s)"
        and put = "\<lambda>(a, b) s. s\<lparr>pm_Selector := a, pm_PickerConfig := b\<rparr>" and f = "\<lambda>v s. (pm_TargetPortNumber s, v)"])
    (auto simp: InferencePoolSpec_DeepCopyInto_def PoolSpec_val_def PoolSpec_cells_def Let_def split: prod.splits)

lemma deep_PoolStatus: "documented lib \<Longrightarrow> deep_copy (PoolStatus_DeepCopyInto lib) PoolStatus_val PoolStatus_cells"
  by (rule deep_struct [OF deep_slice [OF deep_scalar, where un = the_conditions and mk = ConditionsCell and f1 = "lib_Condition lib"],
        where get = psm_Conditions and put = "\<lambda>c s. s\<lparr>psm_Conditions := c\<rparr>" and f = "\<lambda>v s. (psm_GatewayRef s, v)"])
    (simp_all add: documented_def PoolStatus_DeepCopyInto_def PoolStatus_val_def PoolStatus_cells_def)

lemma deep_InferencePoolStatus:
  assumes "documented lib"
  shows "deep_copy (InferencePoolStatus_DeepCopyInto lib) InferencePoolStatus_val InferencePoolStatus_cells"
  by (rule deep_struct [OF deep_slice [OF deep_PoolStatus [OF assms], where un = the_parents and mk = ParentsCell],
        where get = pm_Parents and put = "\<lambda>c s. s\<lparr>pm_Parents := c\<rparr>" and f = "\<lambda>v s. v"])
    (simp_all add: InferencePoolStatus_DeepCopyInto_def InferencePoolStatus_val_def InferencePoolStatus_cells_def)

lemma deep_Pool:
  assumes lib: "documented lib"
  shows "deep_copy (InferencePool_DeepCopyInto lib) Pool_val Pool_cells"
proof -
  have meta: "deep_copy (lib_meta lib) ptr_val ptr_cells" using lib by (simp add: documented_def)
  show ?thesis
    by (rule deep_struct [OF deep_both [OF meta deep_both [OF PoolSpec_deep.deep_copy_axioms deep_InferencePoolStatus [OF lib]]],
          where get = "\<lambda>p. (pm_meta p, pm_Spec p, pm_Status p)"
          and put = "\<lambda>(a, b, c) p. p\<lparr>pm_meta := a, pm_Spec := b, pm_Status := c\<rparr>" and f = "\<lambda>v p. v"])
      (auto simp: InferencePool_DeepCopyInto_def Pool_val_def Pool_cells_def Let_def split: prod.splits)
qed

lemma deep_PoolList:
  assumes lib: "documented lib"
  shows "deep_copy (InferencePoolList_DeepCopyInto lib) PoolList_val PoolList_cells"
proof -
  have meta: "deep_copy (lib_meta lib) ptr_val ptr_cells" using lib by (simp add: documented_def)
  have items: "deep_copy (copy_slice the_pools PoolsCell (InferencePool_DeepCopyInto lib))
      (slice_val the_pools Pool_val) (slice_cells the_pools Pool_cells)"
    by (rule deep_slice [OF deep_Pool [OF lib]]) simp
  show ?thesis
    by (rule deep_struct [OF deep_both [OF meta items], where get = "\<lambda>l. (lm_meta l, lm_Items l)"
          and put = "\<lambda>(a, b) l. l\<lparr>lm_meta := a, lm_Items := b\<rparr>" and f = "\<lambda>v l. v"])
      (auto simp: InferencePoolList_DeepCopyInto_def PoolList_val_def PoolList_cells_def Let_def split: prod.splits)
qed

text \<open>
  The same for pools: the map of the selector, the reference to the extension with all it
  points to and the status are new cells.
\<close>

theorem pool_copy_independent:
  assumes lib: "documented lib" and bound: "ref_cells the_Pool Pool_cells h p \<subseteq> {..<length h}"
    and copy: "InferencePool_DeepCopy lib h p = (h', q)"
  shows "ref_val the_Pool Pool_val h' q = ref_val the_Pool Pool_val h p \<and>
    (\<forall>h2. (\<forall>a. a \<notin> ref_cells the_Pool Pool_cells h' q \<longrightarrow> h2 ! a = h' ! a) \<longrightarrow> ref_val the_Pool Pool_val h2 p = ref_val the_Pool Pool_val h p) \<and>
    (\<forall>h2. (\<forall>a. a \<notin> ref_cells the_Pool Pool_cells h' p \<longrightarrow> h2 ! a = h' ! a) \<longrightarrow> ref_val the_Pool Pool_val h2 q = ref_val the_Pool Pool_val h p)"
proof -
  have d: "deep_copy (copy_ref the_Pool PoolCell (InferencePool_DeepCopyInto lib)) (ref_val the_Pool Pool_val) (ref_cells the_Pool Pool_cells)"
    by (rule deep_ref [OF deep_Pool [OF lib]]) simp
  from deep_copy.independent [OF d bound copy [unfolded InferencePool_DeepCopy_def]] show ?thesis by blast
qed

subsection \<open>DeepCopy and DeepCopyObject\<close>

lemma deep_DeepCopy:
  "deep_copy TargetModel_DeepCopy (ref_val the_TargetModel TargetModel_val) (ref_cells the_TargetModel TargetModel_cells)"
  "deep_copy PoolObjectReference_DeepCopy (ref_val the_PoolRef (\<lambda>h r. r)) (ref_cells the_PoolRef (\<lambda>h r. {}))"
  "deep_copy InferenceModelSpec_DeepCopy (ref_val the_ModelSpec ModelSpec_val) (ref_cells the_ModelSpec ModelSpec_cells)"
  "deep_copy ExtensionReference_DeepCopy (ref_val the_ExtensionReference ExtensionReference_val)
     (ref_cells the_ExtensionReference ExtensionReference_cells)"
  "deep_copy ExtensionConnection_DeepCopy (ref_val the_ExtensionConnection ExtensionConnection_val)
     (ref_cells the_ExtensionConnection ExtensionConnection_cells)"
  "deep_copy Extension_DeepCopy (ref_val the_Extension Extension_val) (ref_cells the_Extension Extension_cells)"
  "deep_copy EndpointPickerConfig_DeepCopy (ref_val the_PickerConfig PickerConfig_val) (ref_cells the_PickerConfig PickerConfig_cells)"
  "deep_copy InferencePoolSpec_DeepCopy (ref_val the_PoolSpec PoolSpec_val) (ref_cells the_PoolSpec PoolSpec_cells)"
  unfolding TargetModel_DeepCopy_def PoolObjectReference_DeepCopy_def InferenceModelSpec_DeepCopy_def ExtensionReference_DeepCopy_def
    ExtensionConnection_DeepCopy_def Extension_DeepCopy_def EndpointPickerConfig_DeepCopy_def InferencePoolSpec_DeepCopy_def
    PoolObjectReference_DeepCopyInto_def
  by (rule deep_ref, rule TargetModel_deep.deep_copy_axioms deep_scalar ModelSpec_deep.deep_copy_axioms
      ExtensionReference_deep.deep_copy_axioms ExtensionConnection_deep.deep_copy_axioms Extension_deep.deep_copy_axioms
      PickerConfig_deep.deep_copy_axioms PoolSpec_deep.deep_copy_axioms; simp)+

lemma deep_DeepCopy_lib:
  assumes "documented lib"
  shows "deep_copy (InferenceModelStatus_DeepCopy lib) (ref_val the_ModelStatus ModelStatus_val) (ref_cells the_ModelStatus ModelStatus_cells)"
    "deep_copy (InferenceModelList_DeepCopy lib) (ref_val the_ModelList ModelList_val) (ref_cells the_ModelList ModelList_cells)"
    "deep_copy (PoolStatus_DeepCopy lib) (ref_val the_PoolStatus PoolStatus_val) (ref_cells the_PoolStatus PoolStatus_cells)"
    "deep_copy (InferencePoolStatus_DeepCopy lib) (ref_val the_InferencePoolStatus InferencePoolStatus_val)
       (ref_cells the_InferencePoolStatus InferencePoolStatus_cells)"
    "deep_copy (InferencePoolList_DeepCopy lib) (ref_val the_PoolList PoolList_val) (ref_cells the_PoolList PoolList_cells)"
  unfolding InferenceModelStatus_DeepCopy_def InferenceModelList_DeepCopy_def PoolStatus_DeepCopy_def InferencePoolStatus_DeepCopy_def
    InferencePoolList_DeepCopy_def
  using assms by (auto intro!: deep_ref deep_ModelStatus deep_ModelList deep_PoolStatus deep_InferencePoolStatus deep_PoolList)

lemma DeepCopyObject_DeepCopy:
  "InferenceModel_DeepCopyObject lib = InferenceModel_DeepCopy lib" "InferenceModelList_DeepCopyObject lib = InferenceModelList_DeepCopy lib"
  "InferencePool_DeepCopyObject lib = InferencePool_DeepCopy lib" "InferencePoolList_DeepCopyObject lib = InferencePoolList_DeepCopy lib"
  by (auto simp: fun_eq_iff InferenceModel_DeepCopyObject_def InferenceModelList_DeepCopyObject_def
      InferencePool_DeepCopyObject_def InferencePoolList_DeepCopyObject_def split: prod.splits option.splits)

end
