(* ===== verification/Apply_Config.thy ===== *)
theory Apply_Config
  imports Api_Types
begin

text \<open>
  client-go/applyconfiguration: the declarative configurations of the resources and their
  builders. A method on a configuration is a function of what its receiver points to; a
  pointer to another configuration (\<open>WithSpec\<close>, \<open>WithPoolRef\<close>) is kept as an address in
  \<open>apply_store\<close>, and what is passed by value or copied (\<open>*values[i]\<close>) is stored itself.

  The comments promise three kinds of methods: the last call sets the field, entries are
  merged into a map, values are appended and \<open>nil\<close> panics. These are the locales \<open>set_field\<close>,
  \<open>merge_field\<close> and \<open>append_field\<close>, interpreted on every method. A configuration built from an
  object is read back as that object.

  The conditions and owner references of client-go are type parameters: they are only copied.
\<close>

named_theorems apply_simps \<open>the methods of the configurations\<close>

type_synonym addr = "nat option"

subsection \<open>What the methods promise\<close>

locale set_field =
  fixes get_field :: "'c \<Rightarrow> 'v option" and set_field_to :: "'v \<Rightarrow> 'c \<Rightarrow> 'c"
  assumes get_set: "get_field (set_field_to v c) = Some v"
    and set_set: "set_field_to v (set_field_to w c) = set_field_to v c"
    and set_get: "get_field c = Some v \<Longrightarrow> set_field_to v c = c"
begin

lemma last_call: "vs \<noteq> [] \<Longrightarrow> fold set_field_to vs c = set_field_to (last vs) c"
  by (induction vs arbitrary: c) (auto simp: set_set)

lemma last_value: "get_field (fold set_field_to vs c) = (if vs = [] then get_field c else Some (last vs))"
  by (simp add: last_call get_set)

end

definition entries_of :: "(string, string) gomap option \<Rightarrow> (string, string) gomap" where
  \<comment> \<open>reading a map that may be \<open>nil\<close>\<close>
  "entries_of m = (case m of None \<Rightarrow> [] | Some es \<Rightarrow> es)"

locale merge_field =
  fixes get_map :: "'c \<Rightarrow> (string, string) gomap option" and put_entries :: "(string, string) gomap \<Rightarrow> 'c \<Rightarrow> 'c"
  assumes merged: "is_map es \<Longrightarrow> map_of (entries_of (get_map (put_entries es c))) = map_of (entries_of (get_map c)) ++ map_of es"
    and stays_nil: "get_map (put_entries es c) = None \<longleftrightarrow> get_map c = None \<and> es = []"
begin

lemma later_call_wins:
  "is_map es \<Longrightarrow> is_map fs \<Longrightarrow>
   map_of (entries_of (get_map (put_entries fs (put_entries es c)))) k =
     (case map_of fs k of Some v \<Rightarrow> Some v | None \<Rightarrow> (case map_of es k of Some v \<Rightarrow> Some v | None \<Rightarrow> map_of (entries_of (get_map c)) k))"
  by (simp add: merged map_add_def split: option.splits)

end

locale append_field =
  fixes get_list :: "'c \<Rightarrow> 'v list" and add_values :: "'v option list \<Rightarrow> 'c \<Rightarrow> 'c go"
  assumes appended: "None \<notin> set vs \<Longrightarrow> \<exists>c'. add_values vs c = Ret c' \<and> get_list c' = get_list c @ map the vs"
    and nil_panics: "None \<in> set vs \<Longrightarrow> \<exists>m. add_values vs c = Panic m"
begin

lemma calls_append:
  assumes "None \<notin> set vs" "None \<notin> set ws"
  shows "\<exists>c'. go_bind (add_values vs c) (add_values ws) = Ret c' \<and> get_list c' = get_list c @ map the vs @ map the ws"
proof -
  from appended [OF assms(1), of c] obtain c1 where "add_values vs c = Ret c1" "get_list c1 = get_list c @ map the vs" by blast
  with appended [OF assms(2), of c1] show ?thesis by auto
qed

lemma returns_iff_no_nil: "returns (add_values vs c) \<longleftrightarrow> None \<notin> set vs"
proof (cases "None \<in> set vs")
  case True
  with nil_panics [of vs c] show ?thesis by auto
next
  case False
  with appended [of vs c] show ?thesis by auto
qed

end

text \<open>The loops of the methods that merge entries and append values.\<close>

fun put_loop :: "(string, string) gomap \<Rightarrow> (string, string) gomap \<Rightarrow> (string, string) gomap" where
  "put_loop [] m = m"
| "put_loop ((k, v) # es) m = put_loop es (AList.update k v m)"

definition put_map :: "(string, string) gomap \<Rightarrow> (string, string) gomap option \<Rightarrow> (string, string) gomap option" where
  \<comment> \<open>a \<open>nil\<close> map is made first, unless there are no entries\<close>
  "put_map es m = (if m = None \<and> es = [] then None else Some (put_loop es (entries_of m)))"

fun append_loop :: "string \<Rightarrow> 'v option list \<Rightarrow> 'v list \<Rightarrow> 'v list go" where
  "append_loop fn [] xs = Ret xs"
| "append_loop fn (None # vs) xs = Panic (''nil value passed to '' @ fn)"
| "append_loop fn (Some v # vs) xs = append_loop fn vs (xs @ [v])"

lemma put_loop_map: "is_map es \<Longrightarrow> map_of (put_loop es m) = map_of m ++ map_of es"
proof (induction es m rule: put_loop.induct)
  case (2 k v es m)
  then show ?case by (auto simp: is_map_def update_conv' map_add_def map_of_eq_None_iff fun_eq_iff dest: weak_map_of_SomeI split: option.splits)
qed simp

lemma put_loop_new: "is_map (m @ es) \<Longrightarrow> put_loop es m = m @ es"
proof (induction es m rule: put_loop.induct)
  case (2 k v es m)
  then have "AList.update k v m = m @ [(k, v)]" by (auto simp: is_map_def intro: update_new)
  with 2 show ?case by simp
qed simp

lemma append_loop_Ret: "None \<notin> set vs \<Longrightarrow> append_loop fn vs xs = Ret (xs @ map the vs)"
  by (induction fn vs xs rule: append_loop.induct) auto

lemma append_loop_Panic: "None \<in> set vs \<Longrightarrow> append_loop fn vs xs = Panic (''nil value passed to '' @ fn)"
  by (induction fn vs xs rule: append_loop.induct) auto

lemma merge_fieldI:
  assumes "\<And>es c. get_map (put es c) = put_map es (get_map c)"
  shows "merge_field get_map put"
  by unfold_locales (simp_all add: assms put_map_def put_loop_map entries_of_def split: option.splits)

lemma append_fieldI:
  assumes "\<And>vs c. add vs c = go_bind (append_loop fn vs (get_list c)) (\<lambda>xs. Ret (upd xs c))"
    and "\<And>xs c. get_list (upd xs c) = xs"
  shows "append_field get_list add"
  by unfold_locales (simp_all add: assms append_loop_Ret append_loop_Panic)

subsection \<open>Parts of the specifications\<close>

record TargetModelApplyConfiguration =
  tma_Name :: "string option"
  tma_Weight :: "32 word option"

definition apply_TargetModel :: TargetModelApplyConfiguration where
  [apply_simps]: "apply_TargetModel = \<lparr>tma_Name = None, tma_Weight = None\<rparr>"

definition TargetModel_WithName :: "string \<Rightarrow> TargetModelApplyConfiguration \<Rightarrow> TargetModelApplyConfiguration" where
  [apply_simps]: "TargetModel_WithName value b = b\<lparr>tma_Name := Some value\<rparr>"

definition TargetModel_WithWeight :: "32 word \<Rightarrow> TargetModelApplyConfiguration \<Rightarrow> TargetModelApplyConfiguration" where
  [apply_simps]: "TargetModel_WithWeight value b = b\<lparr>tma_Weight := Some value\<rparr>"

record PoolObjectReferenceApplyConfiguration =
  pra_Group :: "string option"
  pra_Kind :: "string option"
  pra_Name :: "string option"

definition apply_PoolObjectReference :: PoolObjectReferenceApplyConfiguration where
  [apply_simps]: "apply_PoolObjectReference = \<lparr>pra_Group = None, pra_Kind = None, pra_Name = None\<rparr>"

definition PoolObjectReference_WithGroup :: "string \<Rightarrow> PoolObjectReferenceApplyConfiguration \<Rightarrow> PoolObjectReferenceApplyConfiguration" where
  [apply_simps]: "PoolObjectReference_WithGroup value b = b\<lparr>pra_Group := Some value\<rparr>"

definition PoolObjectReference_WithKind :: "string \<Rightarrow> PoolObjectReferenceApplyConfiguration \<Rightarrow> PoolObjectReferenceApplyConfiguration" where
  [apply_simps]: "PoolObjectReference_WithKind value b = b\<lparr>pra_Kind := Some value\<rparr>"

definition PoolObjectReference_WithName :: "string \<Rightarrow> PoolObjectReferenceApplyConfiguration \<Rightarrow> PoolObjectReferenceApplyConfiguration" where
  [apply_simps]: "PoolObjectReference_WithName value b = b\<lparr>pra_Name := Some value\<rparr>"

record ExtensionReferenceApplyConfiguration =
  era_Group :: "string option"
  era_Kind :: "string option"
  era_Name :: "string option"
  era_PortNumber :: "32 word option"

definition apply_ExtensionReference :: ExtensionReferenceApplyConfiguration where
  [apply_simps]: "apply_ExtensionReference = \<lparr>era_Group = None, era_Kind = None, era_Name = None, era_PortNumber = None\<rparr>"

definition ExtensionReference_WithGroup :: "string \<Rightarrow> ExtensionReferenceApplyConfiguration \<Rightarrow> ExtensionReferenceApplyConfiguration" where
  [apply_simps]: "ExtensionReference_WithGroup value b = b\<lparr>era_Group := Some value\<rparr>"

definition ExtensionReference_WithKind :: "string \<Rightarrow> ExtensionReferenceApplyConfiguration \<Rightarrow> ExtensionReferenceApplyConfiguration" where
  [apply_simps]: "ExtensionReference_WithKind value b = b\<lparr>era_Kind := Some value\<rparr>"

definition ExtensionReference_WithName :: "string \<Rightarrow> ExtensionReferenceApplyConfiguration \<Rightarrow> ExtensionReferenceApplyConfiguration" where
  [apply_simps]: "ExtensionReference_WithName value b = b\<lparr>era_Name := Some value\<rparr>"

definition ExtensionReference_WithPortNumber :: "32 word \<Rightarrow> ExtensionReferenceApplyConfiguration \<Rightarrow> ExtensionReferenceApplyConfiguration" where
  [apply_simps]: "ExtensionReference_WithPortNumber value b = b\<lparr>era_PortNumber := Some value\<rparr>"

record ExtensionConnectionApplyConfiguration =
  eca_FailureMode :: "string option"

definition apply_ExtensionConnection :: ExtensionConnectionApplyConfiguration where
  [apply_simps]: "apply_ExtensionConnection = \<lparr>eca_FailureMode = None\<rparr>"

definition ExtensionConnection_WithFailureMode :: "string \<Rightarrow> ExtensionConnectionApplyConfiguration \<Rightarrow> ExtensionConnectionApplyConfiguration" where
  [apply_simps]: "ExtensionConnection_WithFailureMode value b = b\<lparr>eca_FailureMode := Some value\<rparr>"

record ExtensionApplyConfiguration =
  ea_Reference :: "ExtensionReferenceApplyConfiguration"
  ea_Connection :: "ExtensionConnectionApplyConfiguration"

definition apply_Extension :: ExtensionApplyConfiguration where
  [apply_simps]: "apply_Extension =
     \<lparr>ea_Reference = \<lparr>era_Group = None, era_Kind = None, era_Name = None, era_PortNumber = None\<rparr>,
      ea_Connection = \<lparr>eca_FailureMode = None\<rparr>\<rparr>"

definition Extension_WithGroup :: "string \<Rightarrow> ExtensionApplyConfiguration \<Rightarrow> ExtensionApplyConfiguration" where
  [apply_simps]: "Extension_WithGroup value b = b\<lparr>ea_Reference := (ea_Reference b)\<lparr>era_Group := Some value\<rparr>\<rparr>"

definition Extension_WithKind :: "string \<Rightarrow> ExtensionApplyConfiguration \<Rightarrow> ExtensionApplyConfiguration" where
  [apply_simps]: "Extension_WithKind value b = b\<lparr>ea_Reference := (ea_Reference b)\<lparr>era_Kind := Some value\<rparr>\<rparr>"

definition Extension_WithName :: "string \<Rightarrow> ExtensionApplyConfiguration \<Rightarrow> ExtensionApplyConfiguration" where
  [apply_simps]: "Extension_WithName value b = b\<lparr>ea_Reference := (ea_Reference b)\<lparr>era_Name := Some value\<rparr>\<rparr>"

definition Extension_WithPortNumber :: "32 word \<Rightarrow> ExtensionApplyConfiguration \<Rightarrow> ExtensionApplyConfiguration" where
  [apply_simps]: "Extension_WithPortNumber value b = b\<lparr>ea_Reference := (ea_Reference b)\<lparr>era_PortNumber := Some value\<rparr>\<rparr>"

definition Extension_WithFailureMode :: "string \<Rightarrow> ExtensionApplyConfiguration \<Rightarrow> ExtensionApplyConfiguration" where
  [apply_simps]: "Extension_WithFailureMode value b = b\<lparr>ea_Connection := (ea_Connection b)\<lparr>eca_FailureMode := Some value\<rparr>\<rparr>"

record EndpointPickerConfigApplyConfiguration =
  pca_ExtensionRef :: "addr"

definition apply_EndpointPickerConfig :: EndpointPickerConfigApplyConfiguration where
  [apply_simps]: "apply_EndpointPickerConfig = \<lparr>pca_ExtensionRef = None\<rparr>"

definition EndpointPickerConfig_WithExtensionRef :: "addr \<Rightarrow> EndpointPickerConfigApplyConfiguration \<Rightarrow> EndpointPickerConfigApplyConfiguration" where
  [apply_simps]: "EndpointPickerConfig_WithExtensionRef value b = b\<lparr>pca_ExtensionRef := value\<rparr>"

subsection \<open>Specifications and states\<close>

record InferenceModelSpecApplyConfiguration =
  msa_ModelName :: "string option"
  msa_Criticality :: "string option"
  msa_TargetModels :: "TargetModelApplyConfiguration list"
  msa_PoolRef :: "addr"

definition apply_InferenceModelSpec :: InferenceModelSpecApplyConfiguration where
  [apply_simps]: "apply_InferenceModelSpec = \<lparr>msa_ModelName = None, msa_Criticality = None, msa_TargetModels = [], msa_PoolRef = None\<rparr>"

definition InferenceModelSpec_WithModelName :: "string \<Rightarrow> InferenceModelSpecApplyConfiguration \<Rightarrow> InferenceModelSpecApplyConfiguration" where
  [apply_simps]: "InferenceModelSpec_WithModelName value b = b\<lparr>msa_ModelName := Some value\<rparr>"

definition InferenceModelSpec_WithCriticality :: "string \<Rightarrow> InferenceModelSpecApplyConfiguration \<Rightarrow> InferenceModelSpecApplyConfiguration" where
  [apply_simps]: "InferenceModelSpec_WithCriticality value b = b\<lparr>msa_Criticality := Some value\<rparr>"

definition InferenceModelSpec_WithTargetModels :: "TargetModelApplyConfiguration option list \<Rightarrow> InferenceModelSpecApplyConfiguration \<Rightarrow> InferenceModelSpecApplyConfiguration go" where
  [apply_simps]: "InferenceModelSpec_WithTargetModels values b = go_bind (append_loop ''WithTargetModels'' values (msa_TargetModels b)) (\<lambda>xs. Ret (b\<lparr>msa_TargetModels := xs\<rparr>))"

definition InferenceModelSpec_WithPoolRef :: "addr \<Rightarrow> InferenceModelSpecApplyConfiguration \<Rightarrow> InferenceModelSpecApplyConfiguration" where
  [apply_simps]: "InferenceModelSpec_WithPoolRef value b = b\<lparr>msa_PoolRef := value\<rparr>"

record 'cond InferenceModelStatusApplyConfiguration =
  mta_Conditions :: "'cond list"

definition apply_InferenceModelStatus :: "'cond InferenceModelStatusApplyConfiguration" where
  [apply_simps]: "apply_InferenceModelStatus = \<lparr>mta_Conditions = []\<rparr>"

definition InferenceModelStatus_WithConditions :: "'cond option list \<Rightarrow> 'cond InferenceModelStatusApplyConfiguration \<Rightarrow> 'cond InferenceModelStatusApplyConfiguration go" where
  [apply_simps]: "InferenceModelStatus_WithConditions values b = go_bind (append_loop ''WithConditions'' values (mta_Conditions b)) (\<lambda>xs. Ret (b\<lparr>mta_Conditions := xs\<rparr>))"

record InferencePoolSpecApplyConfiguration =
  psa_Selector :: "(string, string) gomap option"
  psa_TargetPortNumber :: "32 word option"
  psa_PickerConfig :: "EndpointPickerConfigApplyConfiguration"

definition apply_InferencePoolSpec :: InferencePoolSpecApplyConfiguration where
  [apply_simps]: "apply_InferencePoolSpec =
     \<lparr>psa_Selector = None, psa_TargetPortNumber = None, psa_PickerConfig = \<lparr>pca_ExtensionRef = None\<rparr>\<rparr>"

definition InferencePoolSpec_WithSelector :: "(string, string) gomap \<Rightarrow> InferencePoolSpecApplyConfiguration \<Rightarrow> InferencePoolSpecApplyConfiguration" where
  [apply_simps]: "InferencePoolSpec_WithSelector entries b = b\<lparr>psa_Selector := put_map entries (psa_Selector b)\<rparr>"

definition InferencePoolSpec_WithTargetPortNumber :: "32 word \<Rightarrow> InferencePoolSpecApplyConfiguration \<Rightarrow> InferencePoolSpecApplyConfiguration" where
  [apply_simps]: "InferencePoolSpec_WithTargetPortNumber value b = b\<lparr>psa_TargetPortNumber := Some value\<rparr>"

definition InferencePoolSpec_WithExtensionRef :: "addr \<Rightarrow> InferencePoolSpecApplyConfiguration \<Rightarrow> InferencePoolSpecApplyConfiguration" where
  [apply_simps]: "InferencePoolSpec_WithExtensionRef value b = b\<lparr>psa_PickerConfig := (psa_PickerConfig b)\<lparr>pca_ExtensionRef := value\<rparr>\<rparr>"

record 'cond PoolStatusApplyConfiguration =
  pta_GatewayRef :: "ObjectReference option"
  pta_Conditions :: "'cond list"

definition apply_PoolStatus :: "'cond PoolStatusApplyConfiguration" where
  [apply_simps]: "apply_PoolStatus = \<lparr>pta_GatewayRef = None, pta_Conditions = []\<rparr>"

definition PoolStatus_WithGatewayRef :: "ObjectReference \<Rightarrow> 'cond PoolStatusApplyConfiguration \<Rightarrow> 'cond PoolStatusApplyConfiguration" where
  [apply_simps]: "PoolStatus_WithGatewayRef value b = b\<lparr>pta_GatewayRef := Some value\<rparr>"

definition PoolStatus_WithConditions :: "'cond option list \<Rightarrow> 'cond PoolStatusApplyConfiguration \<Rightarrow> 'cond PoolStatusApplyConfiguration go" where
  [apply_simps]: "PoolStatus_WithConditions values b = go_bind (append_loop ''WithConditions'' values (pta_Conditions b)) (\<lambda>xs. Ret (b\<lparr>pta_Conditions := xs\<rparr>))"

record 'cond InferencePoolStatusApplyConfiguration =
  ita_Parents :: "'cond PoolStatusApplyConfiguration list"

definition apply_InferencePoolStatus :: "'cond InferencePoolStatusApplyConfiguration" where
  [apply_simps]: "apply_InferencePoolStatus = \<lparr>ita_Parents = []\<rparr>"

definition InferencePoolStatus_WithParents :: "'cond PoolStatusApplyConfiguration option list \<Rightarrow> 'cond InferencePoolStatusApplyConfiguration \<Rightarrow> 'cond InferencePoolStatusApplyConfiguration go" where
  [apply_simps]: "InferencePoolStatus_WithParents values b = go_bind (append_loop ''WithParents'' values (ita_Parents b)) (\<lambda>xs. Ret (b\<lparr>ita_Parents := xs\<rparr>))"

subsection \<open>The resources\<close>

text \<open>
  The fields of the type and object metadata of client-go that the methods set. The
  metadata of a configuration is a pointer that only its own methods create.
\<close>

record 'own ObjectMetaApplyConfiguration =
  oma_Name :: "string option"
  oma_GenerateName :: "string option"
  oma_Namespace :: "string option"
  oma_UID :: "string option"
  oma_ResourceVersion :: "string option"
  oma_Generation :: "int option"
  oma_CreationTimestamp :: "int option"
  oma_DeletionTimestamp :: "int option"
  oma_DeletionGracePeriodSeconds :: "int option"
  oma_Labels :: "(string, string) gomap option"
  oma_Annotations :: "(string, string) gomap option"
  oma_OwnerReferences :: "'own list"
  oma_Finalizers :: "string list"

definition empty_meta :: "'own ObjectMetaApplyConfiguration" where
  [apply_simps]: "empty_meta = \<lparr>oma_Name = None, oma_GenerateName = None, oma_Namespace = None, oma_UID = None, oma_ResourceVersion = None,
     oma_Generation = None, oma_CreationTimestamp = None, oma_DeletionTimestamp = None, oma_DeletionGracePeriodSeconds = None,
     oma_Labels = None, oma_Annotations = None, oma_OwnerReferences = [], oma_Finalizers = []\<rparr>"

record 'own InferenceModelApplyConfiguration =
  ma_Kind :: "string option"
  ma_APIVersion :: "string option"
  ma_ObjectMeta :: "'own ObjectMetaApplyConfiguration option"
  ma_Spec :: "addr"
  ma_Status :: "addr"

definition InferenceModel_ensureObjectMetaApplyConfigurationExists :: "'own InferenceModelApplyConfiguration \<Rightarrow> 'own InferenceModelApplyConfiguration" where
  [apply_simps]: "InferenceModel_ensureObjectMetaApplyConfigurationExists b = (if ma_ObjectMeta b = None then b\<lparr>ma_ObjectMeta := Some empty_meta\<rparr> else b)"

definition InferenceModel_on_meta :: "('own ObjectMetaApplyConfiguration \<Rightarrow> 'own ObjectMetaApplyConfiguration) \<Rightarrow> 'own InferenceModelApplyConfiguration \<Rightarrow> 'own InferenceModelApplyConfiguration" where
  \<comment> \<open>make sure there is metadata and change it\<close>
  [apply_simps]: "InferenceModel_on_meta f b =
     (let b' = InferenceModel_ensureObjectMetaApplyConfigurationExists b
      in b'\<lparr>ma_ObjectMeta := map_option f (ma_ObjectMeta b')\<rparr>)"

definition InferenceModel_WithKind :: "string \<Rightarrow> 'own InferenceModelApplyConfiguration \<Rightarrow> 'own InferenceModelApplyConfiguration" where
  [apply_simps]: "InferenceModel_WithKind value b = b\<lparr>ma_Kind := Some value\<rparr>"

definition InferenceModel_WithAPIVersion :: "string \<Rightarrow> 'own InferenceModelApplyConfiguration \<Rightarrow> 'own InferenceModelApplyConfiguration" where
  [apply_simps]: "InferenceModel_WithAPIVersion value b = b\<lparr>ma_APIVersion := Some value\<rparr>"

definition InferenceModel_WithName :: "string \<Rightarrow> 'own InferenceModelApplyConfiguration \<Rightarrow> 'own InferenceModelApplyConfiguration" where
  [apply_simps]: "InferenceModel_WithName value = InferenceModel_on_meta (\<lambda>om. om\<lparr>oma_Name := Some value\<rparr>)"

definition InferenceModel_WithGenerateName :: "string \<Rightarrow> 'own InferenceModelApplyConfiguration \<Rightarrow> 'own InferenceModelApplyConfiguration" where
  [apply_simps]: "InferenceModel_WithGenerateName value = InferenceModel_on_meta (\<lambda>om. om\<lparr>oma_GenerateName := Some value\<rparr>)"

definition InferenceModel_WithNamespace :: "string \<Rightarrow> 'own InferenceModelApplyConfiguration \<Rightarrow> 'own InferenceModelApplyConfiguration" where
  [apply_simps]: "InferenceModel_WithNamespace value = InferenceModel_on_meta (\<lambda>om. om\<lparr>oma_Namespace := Some value\<rparr>)"

definition InferenceModel_WithUID :: "string \<Rightarrow> 'own InferenceModelApplyConfiguration \<Rightarrow> 'own InferenceModelApplyConfiguration" where
  [apply_simps]: "InferenceModel_WithUID value = InferenceModel_on_meta (\<lambda>om. om\<lparr>oma_UID := Some value\<rparr>)"

definition InferenceModel_WithResourceVersion :: "string \<Rightarrow> 'own InferenceModelApplyConfiguration \<Rightarrow> 'own InferenceModelApplyConfiguration" where
  [apply_simps]: "InferenceModel_WithResourceVersion value = InferenceModel_on_meta (\<lambda>om. om\<lparr>oma_ResourceVersion := Some value\<rparr>)"

definition InferenceModel_WithGeneration :: "int \<Rightarrow> 'own InferenceModelApplyConfiguration \<Rightarrow> 'own InferenceModelApplyConfiguration" where
  [apply_simps]: "InferenceModel_WithGeneration value = InferenceModel_on_meta (\<lambda>om. om\<lparr>oma_Generation := Some value\<rparr>)"

definition InferenceModel_WithCreationTimestamp :: "int \<Rightarrow> 'own InferenceModelApplyConfiguration \<Rightarrow> 'own InferenceModelApplyConfiguration" where
  [apply_simps]: "InferenceModel_WithCreationTimestamp value = InferenceModel_on_meta (\<lambda>om. om\<lparr>oma_CreationTimestamp := Some value\<rparr>)"

definition InferenceModel_WithDeletionTimestamp :: "int \<Rightarrow> 'own InferenceModelApplyConfiguration \<Rightarrow> 'own InferenceModelApplyConfiguration" where
  [apply_simps]: "InferenceModel_WithDeletionTimestamp value = InferenceModel_on_meta (\<lambda>om. om\<lparr>oma_DeletionTimestamp := Some value\<rparr>)"

definition InferenceModel_WithDeletionGracePeriodSeconds :: "int \<Rightarrow> 'own InferenceModelApplyConfiguration \<Rightarrow> 'own InferenceModelApplyConfiguration" where
  [apply_simps]: "InferenceModel_WithDeletionGracePeriodSeconds value = InferenceModel_on_meta (\<lambda>om. om\<lparr>oma_DeletionGracePeriodSeconds := Some value\<rparr>)"

definition InferenceModel_WithLabels :: "(string, string) gomap \<Rightarrow> 'own InferenceModelApplyConfiguration \<Rightarrow> 'own InferenceModelApplyConfiguration" where
  [apply_simps]: "InferenceModel_WithLabels entries = InferenceModel_on_meta (\<lambda>om. om\<lparr>oma_Labels := put_map entries (oma_Labels om)\<rparr>)"

definition InferenceModel_WithAnnotations :: "(string, string) gomap \<Rightarrow> 'own InferenceModelApplyConfiguration \<Rightarrow> 'own InferenceModelApplyConfiguration" where
  [apply_simps]: "InferenceModel_WithAnnotations entries = InferenceModel_on_meta (\<lambda>om. om\<lparr>oma_Annotations := put_map entries (oma_Annotations om)\<rparr>)"

definition InferenceModel_WithOwnerReferences :: "'own option list \<Rightarrow> 'own InferenceModelApplyConfiguration \<Rightarrow> 'own InferenceModelApplyConfiguration go" where
  [apply_simps]: "InferenceModel_WithOwnerReferences values b =
     go_bind (append_loop ''WithOwnerReferences'' values (case ma_ObjectMeta b of None \<Rightarrow> [] | Some om \<Rightarrow> oma_OwnerReferences om)) (\<lambda>xs.
       Ret (InferenceModel_on_meta (\<lambda>om. om\<lparr>oma_OwnerReferences := xs\<rparr>) b))"

definition InferenceModel_WithFinalizers :: "string list \<Rightarrow> 'own InferenceModelApplyConfiguration \<Rightarrow> 'own InferenceModelApplyConfiguration" where
  [apply_simps]: "InferenceModel_WithFinalizers values = InferenceModel_on_meta (\<lambda>om. om\<lparr>oma_Finalizers := oma_Finalizers om @ values\<rparr>)"

definition InferenceModel_WithSpec :: "addr \<Rightarrow> 'own InferenceModelApplyConfiguration \<Rightarrow> 'own InferenceModelApplyConfiguration" where
  [apply_simps]: "InferenceModel_WithSpec value b = b\<lparr>ma_Spec := value\<rparr>"

definition InferenceModel_WithStatus :: "addr \<Rightarrow> 'own InferenceModelApplyConfiguration \<Rightarrow> 'own InferenceModelApplyConfiguration" where
  [apply_simps]: "InferenceModel_WithStatus value b = b\<lparr>ma_Status := value\<rparr>"

definition InferenceModel_GetName :: "'own InferenceModelApplyConfiguration \<Rightarrow> 'own InferenceModelApplyConfiguration \<times> string option" where
  \<comment> \<open>it leaves metadata behind even when there was none\<close>
  [apply_simps]: "InferenceModel_GetName b = (let b' = InferenceModel_ensureObjectMetaApplyConfigurationExists b in (b', Option.bind (ma_ObjectMeta b') oma_Name))"

definition apply_InferenceModel :: "string \<Rightarrow> string \<Rightarrow> 'own InferenceModelApplyConfiguration" where
  [apply_simps]: "apply_InferenceModel name namespace =
     InferenceModel_WithAPIVersion ''inference.networking.x-k8s.io/v1alpha2'' (InferenceModel_WithKind ''InferenceModel''
       (InferenceModel_WithNamespace namespace (InferenceModel_WithName name
         \<lparr>ma_Kind = None, ma_APIVersion = None, ma_ObjectMeta = None, ma_Spec = None, ma_Status = None\<rparr>)))"

record 'own InferencePoolApplyConfiguration =
  pa_Kind :: "string option"
  pa_APIVersion :: "string option"
  pa_ObjectMeta :: "'own ObjectMetaApplyConfiguration option"
  pa_Spec :: "addr"
  pa_Status :: "addr"

definition InferencePool_ensureObjectMetaApplyConfigurationExists :: "'own InferencePoolApplyConfiguration \<Rightarrow> 'own InferencePoolApplyConfiguration" where
  [apply_simps]: "InferencePool_ensureObjectMetaApplyConfigurationExists b = (if pa_ObjectMeta b = None then b\<lparr>pa_ObjectMeta := Some empty_meta\<rparr> else b)"

definition InferencePool_on_meta :: "('own ObjectMetaApplyConfiguration \<Rightarrow> 'own ObjectMetaApplyConfiguration) \<Rightarrow> 'own InferencePoolApplyConfiguration \<Rightarrow> 'own InferencePoolApplyConfiguration" where
  \<comment> \<open>make sure there is metadata and change it\<close>
  [apply_simps]: "InferencePool_on_meta f b =
     (let b' = InferencePool_ensureObjectMetaApplyConfigurationExists b
      in b'\<lparr>pa_ObjectMeta := map_option f (pa_ObjectMeta b')\<rparr>)"

definition InferencePool_WithKind :: "string \<Rightarrow> 'own InferencePoolApplyConfiguration \<Rightarrow> 'own InferencePoolApplyConfiguration" where
  [apply_simps]: "InferencePool_WithKind value b = b\<lparr>pa_Kind := Some value\<rparr>"

definition InferencePool_WithAPIVersion :: "string \<Rightarrow> 'own InferencePoolApplyConfiguration \<Rightarrow> 'own InferencePoolApplyConfiguration" where
  [apply_simps]: "InferencePool_WithAPIVersion value b = b\<lparr>pa_APIVersion := Some value\<rparr>"

definition InferencePool_WithName :: "string \<Rightarrow> 'own InferencePoolApplyConfiguration \<Rightarrow> 'own InferencePoolApplyConfiguration" where
  [apply_simps]: "InferencePool_WithName value = InferencePool_on_meta (\<lambda>om. om\<lparr>oma_Name := Some value\<rparr>)"

definition InferencePool_WithGenerateName :: "string \<Rightarrow> 'own InferencePoolApplyConfiguration \<Rightarrow> 'own InferencePoolApplyConfiguration" where
  [apply_simps]: "InferencePool_WithGenerateName value = InferencePool_on_meta (\<lambda>om. om\<lparr>oma_GenerateName := Some value\<rparr>)"

definition InferencePool_WithNamespace :: "string \<Rightarrow> 'own InferencePoolApplyConfiguration \<Rightarrow> 'own InferencePoolApplyConfiguration" where
  [apply_simps]: "InferencePool_WithNamespace value = InferencePool_on_meta (\<lambda>om. om\<lparr>oma_Namespace := Some value\<rparr>)"

definition InferencePool_WithUID :: "string \<Rightarrow> 'own InferencePoolApplyConfiguration \<Rightarrow> 'own InferencePoolApplyConfiguration" where
  [apply_simps]: "InferencePool_WithUID value = InferencePool_on_meta (\<lambda>om. om\<lparr>oma_UID := Some value\<rparr>)"

definition InferencePool_WithResourceVersion :: "string \<Rightarrow> 'own InferencePoolApplyConfiguration \<Rightarrow> 'own InferencePoolApplyConfiguration" where
  [apply_simps]: "InferencePool_WithResourceVersion value = InferencePool_on_meta (\<lambda>om. om\<lparr>oma_ResourceVersion := Some value\<rparr>)"

definition InferencePool_WithGeneration :: "int \<Rightarrow> 'own InferencePoolApplyConfiguration \<Rightarrow> 'own InferencePoolApplyConfiguration" where
  [apply_simps]: "InferencePool_WithGeneration value = InferencePool_on_meta (\<lambda>om. om\<lparr>oma_Generation := Some value\<rparr>)"

definition InferencePool_WithCreationTimestamp :: "int \<Rightarrow> 'own InferencePoolApplyConfiguration \<Rightarrow> 'own InferencePoolApplyConfiguration" where
  [apply_simps]: "InferencePool_WithCreationTimestamp value = InferencePool_on_meta (\<lambda>om. om\<lparr>oma_CreationTimestamp := Some value\<rparr>)"

definition InferencePool_WithDeletionTimestamp :: "int \<Rightarrow> 'own InferencePoolApplyConfiguration \<Rightarrow> 'own InferencePoolApplyConfiguration" where
  [apply_simps]: "InferencePool_WithDeletionTimestamp value = InferencePool_on_meta (\<lambda>om. om\<lparr>oma_DeletionTimestamp := Some value\<rparr>)"

definition InferencePool_WithDeletionGracePeriodSeconds :: "int \<Rightarrow> 'own InferencePoolApplyConfiguration \<Rightarrow> 'own InferencePoolApplyConfiguration" where
  [apply_simps]: "InferencePool_WithDeletionGracePeriodSeconds value = InferencePool_on_meta (\<lambda>om. om\<lparr>oma_DeletionGracePeriodSeconds := Some value\<rparr>)"

definition InferencePool_WithLabels :: "(string, string) gomap \<Rightarrow> 'own InferencePoolApplyConfiguration \<Rightarrow> 'own InferencePoolApplyConfiguration" where
  [apply_simps]: "InferencePool_WithLabels entries = InferencePool_on_meta (\<lambda>om. om\<lparr>oma_Labels := put_map entries (oma_Labels om)\<rparr>)"

definition InferencePool_WithAnnotations :: "(string, string) gomap \<Rightarrow> 'own InferencePoolApplyConfiguration \<Rightarrow> 'own InferencePoolApplyConfiguration" where
  [apply_simps]: "InferencePool_WithAnnotations entries = InferencePool_on_meta (\<lambda>om. om\<lparr>oma_Annotations := put_map entries (oma_Annotations om)\<rparr>)"

definition InferencePool_WithOwnerReferences :: "'own option list \<Rightarrow> 'own InferencePoolApplyConfiguration \<Rightarrow> 'own InferencePoolApplyConfiguration go" where
  [apply_simps]: "InferencePool_WithOwnerReferences values b =
     go_bind (append_loop ''WithOwnerReferences'' values (case pa_ObjectMeta b of None \<Rightarrow> [] | Some om \<Rightarrow> oma_OwnerReferences om)) (\<lambda>xs.
       Ret (InferencePool_on_meta (\<lambda>om. om\<lparr>oma_OwnerReferences := xs\<rparr>) b))"

definition InferencePool_WithFinalizers :: "string list \<Rightarrow> 'own InferencePoolApplyConfiguration \<Rightarrow> 'own InferencePoolApplyConfiguration" where
  [apply_simps]: "InferencePool_WithFinalizers values = InferencePool_on_meta (\<lambda>om. om\<lparr>oma_Finalizers := oma_Finalizers om @ values\<rparr>)"

definition InferencePool_WithSpec :: "addr \<Rightarrow> 'own InferencePoolApplyConfiguration \<Rightarrow> 'own InferencePoolApplyConfiguration" where
  [apply_simps]: "InferencePool_WithSpec value b = b\<lparr>pa_Spec := value\<rparr>"

definition InferencePool_WithStatus :: "addr \<Rightarrow> 'own InferencePoolApplyConfiguration \<Rightarrow> 'own InferencePoolApplyConfiguration" where
  [apply_simps]: "InferencePool_WithStatus value b = b\<lparr>pa_Status := value\<rparr>"

definition InferencePool_GetName :: "'own InferencePoolApplyConfiguration \<Rightarrow> 'own InferencePoolApplyConfiguration \<times> string option" where
  \<comment> \<open>it leaves metadata behind even when there was none\<close>
  [apply_simps]: "InferencePool_GetName b = (let b' = InferencePool_ensureObjectMetaApplyConfigurationExists b in (b', Option.bind (pa_ObjectMeta b') oma_Name))"

definition apply_InferencePool :: "string \<Rightarrow> string \<Rightarrow> 'own InferencePoolApplyConfiguration" where
  [apply_simps]: "apply_InferencePool name namespace =
     InferencePool_WithAPIVersion ''inference.networking.x-k8s.io/v1alpha2'' (InferencePool_WithKind ''InferencePool''
       (InferencePool_WithNamespace namespace (InferencePool_WithName name
         \<lparr>pa_Kind = None, pa_APIVersion = None, pa_ObjectMeta = None, pa_Spec = None, pa_Status = None\<rparr>)))"

subsection \<open>The methods keep their promises\<close>

text \<open>
  A pointer to a configuration is set by the last call too; \<open>nil\<close> is a value like any other.
\<close>

interpretation TargetModel_WithName_field: set_field "tma_Name" TargetModel_WithName
  by unfold_locales (auto simp: apply_simps)

interpretation TargetModel_WithWeight_field: set_field "tma_Weight" TargetModel_WithWeight
  by unfold_locales (auto simp: apply_simps)

interpretation PoolObjectReference_WithGroup_field: set_field "pra_Group" PoolObjectReference_WithGroup
  by unfold_locales (auto simp: apply_simps)

interpretation PoolObjectReference_WithKind_field: set_field "pra_Kind" PoolObjectReference_WithKind
  by unfold_locales (auto simp: apply_simps)

interpretation PoolObjectReference_WithName_field: set_field "pra_Name" PoolObjectReference_WithName
  by unfold_locales (auto simp: apply_simps)

interpretation ExtensionReference_WithGroup_field: set_field "era_Group" ExtensionReference_WithGroup
  by unfold_locales (auto simp: apply_simps)

interpretation ExtensionReference_WithKind_field: set_field "era_Kind" ExtensionReference_WithKind
  by unfold_locales (auto simp: apply_simps)

interpretation ExtensionReference_WithName_field: set_field "era_Name" ExtensionReference_WithName
  by unfold_locales (auto simp: apply_simps)

interpretation ExtensionReference_WithPortNumber_field: set_field "era_PortNumber" ExtensionReference_WithPortNumber
  by unfold_locales (auto simp: apply_simps)

interpretation ExtensionConnection_WithFailureMode_field: set_field "eca_FailureMode" ExtensionConnection_WithFailureMode
  by unfold_locales (auto simp: apply_simps)

interpretation Extension_WithGroup_field: set_field "\<lambda>b. era_Group (ea_Reference b)" Extension_WithGroup
  by unfold_locales (auto simp: apply_simps)

interpretation Extension_WithKind_field: set_field "\<lambda>b. era_Kind (ea_Reference b)" Extension_WithKind
  by unfold_locales (auto simp: apply_simps)

interpretation Extension_WithName_field: set_field "\<lambda>b. era_Name (ea_Reference b)" Extension_WithName
  by unfold_locales (auto simp: apply_simps)

interpretation Extension_WithPortNumber_field: set_field "\<lambda>b. era_PortNumber (ea_Reference b)" Extension_WithPortNumber
  by unfold_locales (auto simp: apply_simps)

interpretation Extension_WithFailureMode_field: set_field "\<lambda>b. eca_FailureMode (ea_Connection b)" Extension_WithFailureMode
  by unfold_locales (auto simp: apply_simps)

interpretation InferenceModelSpec_WithModelName_field: set_field "msa_ModelName" InferenceModelSpec_WithModelName
  by unfold_locales (auto simp: apply_simps)

interpretation InferenceModelSpec_WithCriticality_field: set_field "msa_Criticality" InferenceModelSpec_WithCriticality
  by unfold_locales (auto simp: apply_simps)

interpretation InferencePoolSpec_WithTargetPortNumber_field: set_field "psa_TargetPortNumber" InferencePoolSpec_WithTargetPortNumber
  by unfold_locales (auto simp: apply_simps)

interpretation PoolStatus_WithGatewayRef_field: set_field "pta_GatewayRef" PoolStatus_WithGatewayRef
  by unfold_locales (auto simp: apply_simps)

interpretation InferenceModel_WithKind_field: set_field "ma_Kind" InferenceModel_WithKind
  by unfold_locales (auto simp: apply_simps)

interpretation InferenceModel_WithAPIVersion_field: set_field "ma_APIVersion" InferenceModel_WithAPIVersion
  by unfold_locales (auto simp: apply_simps)

interpretation InferencePool_WithKind_field: set_field "pa_Kind" InferencePool_WithKind
  by unfold_locales (auto simp: apply_simps)

interpretation InferencePool_WithAPIVersion_field: set_field "pa_APIVersion" InferencePool_WithAPIVersion
  by unfold_locales (auto simp: apply_simps)

interpretation InferenceModel_WithName_field: set_field "\<lambda>b. Option.bind (ma_ObjectMeta b) oma_Name" InferenceModel_WithName
  by unfold_locales (auto simp: apply_simps)

interpretation InferenceModel_WithGenerateName_field: set_field "\<lambda>b. Option.bind (ma_ObjectMeta b) oma_GenerateName" InferenceModel_WithGenerateName
  by unfold_locales (auto simp: apply_simps)

interpretation InferenceModel_WithNamespace_field: set_field "\<lambda>b. Option.bind (ma_ObjectMeta b) oma_Namespace" InferenceModel_WithNamespace
  by unfold_locales (auto simp: apply_simps)

interpretation InferenceModel_WithUID_field: set_field "\<lambda>b. Option.bind (ma_ObjectMeta b) oma_UID" InferenceModel_WithUID
  by unfold_locales (auto simp: apply_simps)

interpretation InferenceModel_WithResourceVersion_field: set_field "\<lambda>b. Option.bind (ma_ObjectMeta b) oma_ResourceVersion" InferenceModel_WithResourceVersion
  by unfold_locales (auto simp: apply_simps)

interpretation InferenceModel_WithGeneration_field: set_field "\<lambda>b. Option.bind (ma_ObjectMeta b) oma_Generation" InferenceModel_WithGeneration
  by unfold_locales (auto simp: apply_simps)

interpretation InferenceModel_WithCreationTimestamp_field: set_field "\<lambda>b. Option.bind (ma_ObjectMeta b) oma_CreationTimestamp" InferenceModel_WithCreationTimestamp
  by unfold_locales (auto simp: apply_simps)

interpretation InferenceModel_WithDeletionTimestamp_field: set_field "\<lambda>b. Option.bind (ma_ObjectMeta b) oma_DeletionTimestamp" InferenceModel_WithDeletionTimestamp
  by unfold_locales (auto simp: apply_simps)

interpretation InferenceModel_WithDeletionGracePeriodSeconds_field: set_field "\<lambda>b. Option.bind (ma_ObjectMeta b) oma_DeletionGracePeriodSeconds" InferenceModel_WithDeletionGracePeriodSeconds
  by unfold_locales (auto simp: apply_simps)

interpretation InferencePool_WithName_field: set_field "\<lambda>b. Option.bind (pa_ObjectMeta b) oma_Name" InferencePool_WithName
  by unfold_locales (auto simp: apply_simps)

interpretation InferencePool_WithGenerateName_field: set_field "\<lambda>b. Option.bind (pa_ObjectMeta b) oma_GenerateName" InferencePool_WithGenerateName
  by unfold_locales (auto simp: apply_simps)

interpretation InferencePool_WithNamespace_field: set_field "\<lambda>b. Option.bind (pa_ObjectMeta b) oma_Namespace" InferencePool_WithNamespace
  by unfold_locales (auto simp: apply_simps)

interpretation InferencePool_WithUID_field: set_field "\<lambda>b. Option.bind (pa_ObjectMeta b) oma_UID" InferencePool_WithUID
  by unfold_locales (auto simp: apply_simps)

interpretation InferencePool_WithResourceVersion_field: set_field "\<lambda>b. Option.bind (pa_ObjectMeta b) oma_ResourceVersion" InferencePool_WithResourceVersion
  by unfold_locales (auto simp: apply_simps)

interpretation InferencePool_WithGeneration_field: set_field "\<lambda>b. Option.bind (pa_ObjectMeta b) oma_Generation" InferencePool_WithGeneration
  by unfold_locales (auto simp: apply_simps)

interpretation InferencePool_WithCreationTimestamp_field: set_field "\<lambda>b. Option.bind (pa_ObjectMeta b) oma_CreationTimestamp" InferencePool_WithCreationTimestamp
  by unfold_locales (auto simp: apply_simps)

interpretation InferencePool_WithDeletionTimestamp_field: set_field "\<lambda>b. Option.bind (pa_ObjectMeta b) oma_DeletionTimestamp" InferencePool_WithDeletionTimestamp
  by unfold_locales (auto simp: apply_simps)

interpretation InferencePool_WithDeletionGracePeriodSeconds_field: set_field "\<lambda>b. Option.bind (pa_ObjectMeta b) oma_DeletionGracePeriodSeconds" InferencePool_WithDeletionGracePeriodSeconds
  by unfold_locales (auto simp: apply_simps)

interpretation EndpointPickerConfig_WithExtensionRef_field: set_field "\<lambda>b. Some (pca_ExtensionRef b)" EndpointPickerConfig_WithExtensionRef
  by unfold_locales (auto simp: apply_simps)

interpretation InferenceModelSpec_WithPoolRef_field: set_field "\<lambda>b. Some (msa_PoolRef b)" InferenceModelSpec_WithPoolRef
  by unfold_locales (auto simp: apply_simps)

interpretation InferencePoolSpec_WithExtensionRef_field: set_field "\<lambda>b. Some (pca_ExtensionRef (psa_PickerConfig b))" InferencePoolSpec_WithExtensionRef
  by unfold_locales (auto simp: apply_simps)

interpretation InferenceModel_WithSpec_field: set_field "\<lambda>b. Some (ma_Spec b)" InferenceModel_WithSpec
  by unfold_locales (auto simp: apply_simps)

interpretation InferenceModel_WithStatus_field: set_field "\<lambda>b. Some (ma_Status b)" InferenceModel_WithStatus
  by unfold_locales (auto simp: apply_simps)

interpretation InferencePool_WithSpec_field: set_field "\<lambda>b. Some (pa_Spec b)" InferencePool_WithSpec
  by unfold_locales (auto simp: apply_simps)

interpretation InferencePool_WithStatus_field: set_field "\<lambda>b. Some (pa_Status b)" InferencePool_WithStatus
  by unfold_locales (auto simp: apply_simps)

interpretation InferencePoolSpec_WithSelector_field: merge_field "psa_Selector" InferencePoolSpec_WithSelector
  by (rule merge_fieldI) (auto simp: apply_simps)

interpretation InferenceModel_WithLabels_field: merge_field "\<lambda>b. Option.bind (ma_ObjectMeta b) oma_Labels" InferenceModel_WithLabels
  by (rule merge_fieldI) (auto simp: apply_simps)

interpretation InferenceModel_WithAnnotations_field: merge_field "\<lambda>b. Option.bind (ma_ObjectMeta b) oma_Annotations" InferenceModel_WithAnnotations
  by (rule merge_fieldI) (auto simp: apply_simps)

interpretation InferencePool_WithLabels_field: merge_field "\<lambda>b. Option.bind (pa_ObjectMeta b) oma_Labels" InferencePool_WithLabels
  by (rule merge_fieldI) (auto simp: apply_simps)

interpretation InferencePool_WithAnnotations_field: merge_field "\<lambda>b. Option.bind (pa_ObjectMeta b) oma_Annotations" InferencePool_WithAnnotations
  by (rule merge_fieldI) (auto simp: apply_simps)

interpretation InferenceModelSpec_WithTargetModels_field: append_field msa_TargetModels InferenceModelSpec_WithTargetModels
  by (rule append_fieldI [OF InferenceModelSpec_WithTargetModels_def]) simp

interpretation InferenceModelStatus_WithConditions_field: append_field mta_Conditions InferenceModelStatus_WithConditions
  by (rule append_fieldI [OF InferenceModelStatus_WithConditions_def]) simp

interpretation PoolStatus_WithConditions_field: append_field pta_Conditions PoolStatus_WithConditions
  by (rule append_fieldI [OF PoolStatus_WithConditions_def]) simp

interpretation InferencePoolStatus_WithParents_field: append_field ita_Parents InferencePoolStatus_WithParents
  by (rule append_fieldI [OF InferencePoolStatus_WithParents_def]) simp

interpretation InferenceModel_WithOwnerReferences_field: append_field "\<lambda>b. case ma_ObjectMeta b of None \<Rightarrow> [] | Some om \<Rightarrow> oma_OwnerReferences om" InferenceModel_WithOwnerReferences
  by (rule append_fieldI [OF InferenceModel_WithOwnerReferences_def]) (simp add: apply_simps split: option.splits)

interpretation InferencePool_WithOwnerReferences_field: append_field "\<lambda>b. case pa_ObjectMeta b of None \<Rightarrow> [] | Some om \<Rightarrow> oma_OwnerReferences om" InferencePool_WithOwnerReferences
  by (rule append_fieldI [OF InferencePool_WithOwnerReferences_def]) (simp add: apply_simps split: option.splits)

lemma WithFinalizers_append:
  "InferenceModel_WithFinalizers ws (InferenceModel_WithFinalizers vs b) = InferenceModel_WithFinalizers (vs @ ws) b"
  "InferencePool_WithFinalizers ws (InferencePool_WithFinalizers vs c) = InferencePool_WithFinalizers (vs @ ws) c"
  by (auto simp: apply_simps option.map_comp comp_def)

lemma constructors_name:
  "snd (InferenceModel_GetName (apply_InferenceModel name namespace)) = Some name"
  "snd (InferencePool_GetName (apply_InferencePool name namespace)) = Some name"
  by (simp_all add: apply_simps)

subsection \<open>From a kind to its configuration\<close>

record GroupVersionKind =
  gvk_Group :: string
  gvk_Version :: string
  gvk_Kind :: string

definition SchemeGroupVersion_WithKind :: "string \<Rightarrow> GroupVersionKind" where
  "SchemeGroupVersion_WithKind kind = \<lparr>gvk_Group = ''inference.networking.x-k8s.io'', gvk_Version = ''v1alpha2'', gvk_Kind = kind\<rparr>"

datatype ('own, 'cond) any_config =
    AnyEndpointPickerConfig EndpointPickerConfigApplyConfiguration
  | AnyExtension ExtensionApplyConfiguration
  | AnyExtensionConnection ExtensionConnectionApplyConfiguration
  | AnyExtensionReference ExtensionReferenceApplyConfiguration
  | AnyInferenceModel "'own InferenceModelApplyConfiguration"
  | AnyInferenceModelSpec InferenceModelSpecApplyConfiguration
  | AnyInferenceModelStatus "'cond InferenceModelStatusApplyConfiguration"
  | AnyInferencePool "'own InferencePoolApplyConfiguration"
  | AnyInferencePoolSpec InferencePoolSpecApplyConfiguration
  | AnyInferencePoolStatus "'cond InferencePoolStatusApplyConfiguration"
  | AnyPoolObjectReference PoolObjectReferenceApplyConfiguration
  | AnyPoolStatus "'cond PoolStatusApplyConfiguration"
  | AnyTargetModel TargetModelApplyConfiguration

definition kind_configs :: "(string \<times> ('own, 'cond) any_config) list" where
  "kind_configs =
    [(''EndpointPickerConfig'', AnyEndpointPickerConfig apply_EndpointPickerConfig),
     (''Extension'', AnyExtension apply_Extension),
     (''ExtensionConnection'', AnyExtensionConnection apply_ExtensionConnection),
     (''ExtensionReference'', AnyExtensionReference apply_ExtensionReference),
     (''InferenceModel'', AnyInferenceModel \<lparr>ma_Kind = None, ma_APIVersion = None, ma_ObjectMeta = None, ma_Spec = None, ma_Status = None\<rparr>),
     (''InferenceModelSpec'', AnyInferenceModelSpec apply_InferenceModelSpec),
     (''InferenceModelStatus'', AnyInferenceModelStatus apply_InferenceModelStatus),
     (''InferencePool'', AnyInferencePool \<lparr>pa_Kind = None, pa_APIVersion = None, pa_ObjectMeta = None, pa_Spec = None, pa_Status = None\<rparr>),
     (''InferencePoolSpec'', AnyInferencePoolSpec apply_InferencePoolSpec),
     (''InferencePoolStatus'', AnyInferencePoolStatus apply_InferencePoolStatus),
     (''PoolObjectReference'', AnyPoolObjectReference apply_PoolObjectReference),
     (''PoolStatus'', AnyPoolStatus apply_PoolStatus),
     (''TargetModel'', AnyTargetModel apply_TargetModel)]"

definition ForKind :: "GroupVersionKind \<Rightarrow> ('own, 'cond) any_config option" where
  "ForKind kind = map_of (map (\<lambda>(k, c). (SchemeGroupVersion_WithKind k, c)) kind_configs) kind"

lemma ForKind_own_version: "ForKind kind = Some c \<Longrightarrow> kind = SchemeGroupVersion_WithKind (gvk_Kind kind) \<and> (gvk_Kind kind, c) \<in> set kind_configs"
  by (auto simp: ForKind_def SchemeGroupVersion_WithKind_def dest!: map_of_SomeD)

lemma ForKind_each: "(k, c) \<in> set kind_configs \<Longrightarrow> ForKind (SchemeGroupVersion_WithKind k) = Some c"
  unfolding ForKind_def
  by (rule map_of_is_SomeI) (auto simp: kind_configs_def SchemeGroupVersion_WithKind_def)

subsection \<open>A configuration is read back as its object\<close>

text \<open>
  The configurations that others point to. \<open>read_model\<close> and \<open>read_pool\<close> are the objects a
  configuration denotes, fields that are not set with their zero value; \<open>model_config\<close> and
  \<open>pool_config\<close> are the calls with which a client describes an object.
\<close>

record apply_store =
  st_refs :: "PoolObjectReferenceApplyConfiguration list"
  st_model_specs :: "InferenceModelSpecApplyConfiguration list"
  st_extensions :: "ExtensionApplyConfiguration list"
  st_pool_specs :: "InferencePoolSpecApplyConfiguration list"

definition str :: "string option \<Rightarrow> string" where
  "str s = (case s of None \<Rightarrow> [] | Some s \<Rightarrow> s)"

definition read_meta :: "'own ObjectMetaApplyConfiguration option \<Rightarrow> ObjectMeta" where
  "read_meta m =
     (case m of
        None \<Rightarrow> \<lparr>Name = [], Namespace = [], Labels = [], CreationTimestamp = 0, DeletionTimestamp = None\<rparr>
      | Some om \<Rightarrow> \<lparr>Name = str (oma_Name om), Namespace = str (oma_Namespace om), Labels = entries_of (oma_Labels om),
          CreationTimestamp = (case oma_CreationTimestamp om of None \<Rightarrow> 0 | Some t \<Rightarrow> t), DeletionTimestamp = oma_DeletionTimestamp om\<rparr>)"

definition read_target :: "TargetModelApplyConfiguration \<Rightarrow> TargetModel" where
  "read_target t = \<lparr>tm_Name = str (tma_Name t), Weight = tma_Weight t\<rparr>"

definition read_ref :: "PoolObjectReferenceApplyConfiguration \<Rightarrow> PoolObjectReference" where
  "read_ref r = \<lparr>ref_Group = str (pra_Group r), ref_Kind = str (pra_Kind r), ref_Name = str (pra_Name r)\<rparr>"

definition read_model_spec :: "apply_store \<Rightarrow> InferenceModelSpecApplyConfiguration \<Rightarrow> InferenceModelSpec" where
  "read_model_spec st s =
     \<lparr>ModelName = str (msa_ModelName s), Criticality = msa_Criticality s, TargetModels = map read_target (msa_TargetModels s),
      PoolRef = (case msa_PoolRef s of None \<Rightarrow> read_ref apply_PoolObjectReference | Some a \<Rightarrow> read_ref (st_refs st ! a))\<rparr>"

definition read_model :: "apply_store \<Rightarrow> 'own InferenceModelApplyConfiguration \<Rightarrow> ObjectMeta \<times> InferenceModelSpec option" where
  "read_model st b = (read_meta (ma_ObjectMeta b), map_option (\<lambda>a. read_model_spec st (st_model_specs st ! a)) (ma_Spec b))"

definition read_extension :: "ExtensionApplyConfiguration \<Rightarrow> Extension" where
  "read_extension e = (let r = ea_Reference e in
     \<lparr>Extension_Reference = \<lparr>ext_Group = era_Group r, ext_Kind = era_Kind r, ext_Name = str (era_Name r), ext_PortNumber = era_PortNumber r\<rparr>,
      Extension_Connection = \<lparr>FailureMode = eca_FailureMode (ea_Connection e)\<rparr>\<rparr>)"

definition read_pool_spec :: "apply_store \<Rightarrow> InferencePoolSpecApplyConfiguration \<Rightarrow> InferencePoolSpec" where
  "read_pool_spec st s =
     \<lparr>Selector = entries_of (psa_Selector s), TargetPortNumber = (case psa_TargetPortNumber s of None \<Rightarrow> 0 | Some p \<Rightarrow> p),
      PickerConfig = \<lparr>ExtensionRef = map_option (\<lambda>a. read_extension (st_extensions st ! a)) (pca_ExtensionRef (psa_PickerConfig s))\<rparr>\<rparr>"

definition read_pool :: "apply_store \<Rightarrow> 'own InferencePoolApplyConfiguration \<Rightarrow> ObjectMeta \<times> InferencePoolSpec option" where
  "read_pool st b = (read_meta (pa_ObjectMeta b), map_option (\<lambda>a. read_pool_spec st (st_pool_specs st ! a)) (pa_Spec b))"

definition when_set :: "('v \<Rightarrow> 'c \<Rightarrow> 'c) \<Rightarrow> 'v option \<Rightarrow> 'c \<Rightarrow> 'c" where
  "when_set f v c = (case v of None \<Rightarrow> c | Some x \<Rightarrow> f x c)"

definition target_config :: "TargetModel \<Rightarrow> TargetModelApplyConfiguration" where
  "target_config t = when_set TargetModel_WithWeight (Weight t) (TargetModel_WithName (tm_Name t) apply_TargetModel)"

definition ref_config :: "PoolObjectReference \<Rightarrow> PoolObjectReferenceApplyConfiguration" where
  "ref_config r = PoolObjectReference_WithName (ref_Name r) (PoolObjectReference_WithKind (ref_Kind r)
     (PoolObjectReference_WithGroup (ref_Group r) apply_PoolObjectReference))"

definition model_spec_config :: "addr \<Rightarrow> InferenceModelSpec \<Rightarrow> InferenceModelSpecApplyConfiguration go" where
  "model_spec_config ref s =
     InferenceModelSpec_WithTargetModels (map (\<lambda>t. Some (target_config t)) (TargetModels s))
       (InferenceModelSpec_WithPoolRef ref (when_set InferenceModelSpec_WithCriticality (Criticality s)
         (InferenceModelSpec_WithModelName (ModelName s) apply_InferenceModelSpec)))"

definition model_meta_config :: "ObjectMeta \<Rightarrow> 'own InferenceModelApplyConfiguration" where
  "model_meta_config m = when_set InferenceModel_WithDeletionTimestamp (DeletionTimestamp m)
     (InferenceModel_WithCreationTimestamp (CreationTimestamp m) (InferenceModel_WithLabels (Labels m)
       (apply_InferenceModel (Name m) (Namespace m))))"

definition model_config :: "apply_store \<Rightarrow> InferenceModel \<Rightarrow> (apply_store \<times> 'own InferenceModelApplyConfiguration) go" where
  "model_config st obj =
     go_bind (model_spec_config (Some (length (st_refs st))) (model_Spec obj)) (\<lambda>s.
       Ret (st\<lparr>st_refs := st_refs st @ [ref_config (PoolRef (model_Spec obj))], st_model_specs := st_model_specs st @ [s]\<rparr>,
            InferenceModel_WithSpec (Some (length (st_model_specs st))) (model_meta_config (model_meta obj))))"

definition extension_config :: "Extension \<Rightarrow> ExtensionApplyConfiguration" where
  "extension_config e = (let r = Extension_Reference e in
     when_set Extension_WithFailureMode (FailureMode (Extension_Connection e)) (when_set Extension_WithPortNumber (ext_PortNumber r)
       (Extension_WithName (ext_Name r) (when_set Extension_WithKind (ext_Kind r) (when_set Extension_WithGroup (ext_Group r) apply_Extension)))))"

definition pool_meta_config :: "ObjectMeta \<Rightarrow> 'own InferencePoolApplyConfiguration" where
  "pool_meta_config m = when_set InferencePool_WithDeletionTimestamp (DeletionTimestamp m)
     (InferencePool_WithCreationTimestamp (CreationTimestamp m) (InferencePool_WithLabels (Labels m)
       (apply_InferencePool (Name m) (Namespace m))))"

definition pool_config :: "apply_store \<Rightarrow> InferencePool \<Rightarrow> apply_store \<times> 'own InferencePoolApplyConfiguration" where
  "pool_config st obj =
     (let s = pool_Spec obj;
          ext = ExtensionRef (PickerConfig s);
          c = InferencePoolSpec_WithTargetPortNumber (TargetPortNumber s) (InferencePoolSpec_WithSelector (Selector s) apply_InferencePoolSpec)
      in (st\<lparr>st_extensions := st_extensions st @ map extension_config (case ext of None \<Rightarrow> [] | Some e \<Rightarrow> [e]),
             st_pool_specs := st_pool_specs st @ [InferencePoolSpec_WithExtensionRef (map_option (\<lambda>_. length (st_extensions st)) ext) c]\<rparr>,
          InferencePool_WithSpec (Some (length (st_pool_specs st))) (pool_meta_config (pool_meta obj))))"

lemma put_map_fresh: "is_map es \<Longrightarrow> entries_of (put_map es None) = es"
  using put_loop_new [of "[]" es] by (simp add: put_map_def entries_of_def)

lemma read_meta_config:
  assumes "is_map (Labels m)"
  shows "read_meta (ma_ObjectMeta (model_meta_config m)) = m" "read_meta (pa_ObjectMeta (pool_meta_config m)) = m"
  using put_map_fresh [OF assms]
  by (simp_all add: model_meta_config_def pool_meta_config_def when_set_def read_meta_def str_def apply_simps split: option.splits)

lemma read_target_config: "read_target (target_config t) = t"
  by (simp add: read_target_def target_config_def when_set_def str_def apply_simps split: option.splits)

lemma read_ref_config: "read_ref (ref_config r) = r"
  by (simp add: read_ref_def ref_config_def str_def apply_simps)

lemma read_extension_config: "read_extension (extension_config e) = e"
  by (simp add: read_extension_def extension_config_def when_set_def str_def Let_def apply_simps split: option.splits)

text \<open>
  The builders can describe every object: the calls return, and the configuration denotes
  the metadata and the specification of the object.
\<close>

theorem model_config_read_back:
  assumes "is_map (Labels (model_meta obj))"
  shows "\<exists>st' b. model_config st obj = Ret (st', b) \<and> read_model st' b = (model_meta obj, Some (model_Spec obj))"
proof -
  let ?ts = "map (\<lambda>t. Some (target_config t)) (TargetModels (model_Spec obj))"
  have "append_loop m ?ts [] = Ret (map target_config (TargetModels (model_Spec obj)))" for m
    by (subst append_loop_Ret) (auto simp: comp_def)
  then show ?thesis using assms
    by (simp add: model_config_def model_spec_config_def when_set_def read_model_def read_model_spec_def read_meta_config
        read_target_config read_ref_config comp_def str_def InferenceModel_WithSpec_def InferenceModelSpec_WithTargetModels_def
        InferenceModelSpec_WithPoolRef_def InferenceModelSpec_WithCriticality_def InferenceModelSpec_WithModelName_def
        apply_InferenceModelSpec_def split: option.splits)
qed

theorem pool_config_read_back:
  assumes "is_map (Labels (pool_meta obj))" "is_map (Selector (pool_Spec obj))" "pool_config st obj = (st', b)"
  shows "read_pool st' b = (pool_meta obj, Some (pool_Spec obj))"
  using assms put_map_fresh [OF assms(2)]
  by (auto simp: pool_config_def Let_def read_pool_def read_pool_spec_def read_meta_config read_extension_config
      InferencePool_WithSpec_def InferencePoolSpec_WithTargetPortNumber_def InferencePoolSpec_WithSelector_def
      InferencePoolSpec_WithExtensionRef_def apply_InferencePoolSpec_def nth_append split: option.splits)

text \<open>
  A specification is shared with the object it was given to: the object sees later calls on
  it. (A target model is copied when it is passed on.)
\<close>

lemma specification_shared:
  assumes "a < length (st_model_specs st)"
  shows "snd (read_model (st\<lparr>st_model_specs := (st_model_specs st)[a := InferenceModelSpec_WithModelName n (st_model_specs st ! a)]\<rparr>)
       (InferenceModel_WithSpec (Some a) b)) =
     Some ((read_model_spec st (st_model_specs st ! a))\<lparr>ModelName := n\<rparr>)"
  using assms by (simp add: read_model_def read_model_spec_def str_def InferenceModel_WithSpec_def InferenceModelSpec_WithModelName_def
      split: option.splits)

end
