(* ===== verification/Informers.thy ===== *)
theory Informers
  imports Api_Types
begin

text \<open>
  client-go/informers: the factory that shares one informer per type of object. Its state is
  the record \<open>sharedInformerFactory\<close>; \<open>factory_step\<close> is the relation of the calls that change
  it and of the goroutines it starts. An informer is what the factory hands to
  \<open>NewSharedIndexInformer\<close>; what it does when it runs belongs to client-go. A stop channel
  is a number; a goroutine that runs an informer may end once its channel is closed.
\<close>

datatype object_type = InferenceModelType | InferencePoolType | OtherType string

record ('o, 't) informer =
  inf_object :: object_type
  inf_namespace :: string
  inf_resync :: int
  inf_tweak :: "('o \<Rightarrow> 'o) option"
  inf_transform :: "'t option"

definition ListFunc_options :: "('o, 't) informer \<Rightarrow> 'o \<Rightarrow> 'o" where
  \<comment> \<open>the options with which \<open>ListFunc\<close> and \<open>WatchFunc\<close> call the client\<close>
  "ListFunc_options i options = (case inf_tweak i of None \<Rightarrow> options | Some tweak \<Rightarrow> tweak options)"

record ('o, 't) sharedInformerFactory =
  fac_namespace :: string
  fac_tweakListOptions :: "('o \<Rightarrow> 'o) option"
  fac_defaultResync :: int
  fac_customResync :: "(object_type, int) gomap"
  fac_transform :: "'t option"
  fac_informers :: "(object_type, ('o, 't) informer) gomap"
  fac_startedInformers :: "(object_type, bool) gomap"
  fac_wg :: int
  fac_shuttingDown :: bool

type_synonym ('o, 't) factory_option = "('o, 't) sharedInformerFactory \<Rightarrow> ('o, 't) sharedInformerFactory"

subsection \<open>Options and constructors\<close>

fun WithCustomResyncConfig :: "(object_type, int) gomap \<Rightarrow> ('o, 't) factory_option" where
  "WithCustomResyncConfig [] f = f"
| "WithCustomResyncConfig ((k, v) # cs) f = WithCustomResyncConfig cs (f\<lparr>fac_customResync := AList.update k v (fac_customResync f)\<rparr>)"

definition WithTweakListOptions :: "('o \<Rightarrow> 'o) option \<Rightarrow> ('o, 't) factory_option" where
  "WithTweakListOptions tweak f = f\<lparr>fac_tweakListOptions := tweak\<rparr>"

definition WithNamespace :: "string \<Rightarrow> ('o, 't) factory_option" where
  "WithNamespace namespace f = f\<lparr>fac_namespace := namespace\<rparr>"

definition WithTransform :: "'t option \<Rightarrow> ('o, 't) factory_option" where
  "WithTransform transform f = f\<lparr>fac_transform := transform\<rparr>"

definition NewSharedInformerFactoryWithOptions :: "int \<Rightarrow> ('o, 't) factory_option list \<Rightarrow> ('o, 't) sharedInformerFactory" where
  "NewSharedInformerFactoryWithOptions defaultResync options =
     fold (\<lambda>opt f. opt f) options
       \<lparr>fac_namespace = [], fac_tweakListOptions = None, fac_defaultResync = defaultResync, fac_customResync = [],
        fac_transform = None, fac_informers = [], fac_startedInformers = [], fac_wg = 0, fac_shuttingDown = False\<rparr>"

definition NewSharedInformerFactory :: "int \<Rightarrow> ('o, 't) sharedInformerFactory" where
  "NewSharedInformerFactory defaultResync = NewSharedInformerFactoryWithOptions defaultResync []"

definition NewFilteredSharedInformerFactory :: "int \<Rightarrow> string \<Rightarrow> ('o \<Rightarrow> 'o) option \<Rightarrow> ('o, 't) sharedInformerFactory" where
  "NewFilteredSharedInformerFactory defaultResync namespace tweak =
     NewSharedInformerFactoryWithOptions defaultResync [WithNamespace namespace, WithTweakListOptions tweak]"

subsection \<open>Informers of a type\<close>

definition InformerFor ::
  "object_type \<Rightarrow> (int \<Rightarrow> ('o, 't) informer) \<Rightarrow> ('o, 't) sharedInformerFactory \<Rightarrow> ('o, 't) sharedInformerFactory \<times> ('o, 't) informer" where
  "InformerFor informerType newFunc f =
     (case map_of (fac_informers f) informerType of
        Some informer \<Rightarrow> (f, informer)
      | None \<Rightarrow>
          (let resyncPeriod = (case map_of (fac_customResync f) informerType of Some p \<Rightarrow> p | None \<Rightarrow> fac_defaultResync f);
               informer = (newFunc resyncPeriod)\<lparr>inf_transform := fac_transform f\<rparr>
           in (f\<lparr>fac_informers := AList.update informerType informer (fac_informers f)\<rparr>, informer)))"

definition NewFilteredInferenceModelInformer :: "string \<Rightarrow> int \<Rightarrow> ('o \<Rightarrow> 'o) option \<Rightarrow> ('o, 't) informer" where
  "NewFilteredInferenceModelInformer namespace resyncPeriod tweak =
     \<lparr>inf_object = InferenceModelType, inf_namespace = namespace, inf_resync = resyncPeriod, inf_tweak = tweak, inf_transform = None\<rparr>"

definition NewInferenceModelInformer :: "string \<Rightarrow> int \<Rightarrow> ('o, 't) informer" where
  "NewInferenceModelInformer namespace resyncPeriod = NewFilteredInferenceModelInformer namespace resyncPeriod None"

definition NewFilteredInferencePoolInformer :: "string \<Rightarrow> int \<Rightarrow> ('o \<Rightarrow> 'o) option \<Rightarrow> ('o, 't) informer" where
  "NewFilteredInferencePoolInformer namespace resyncPeriod tweak =
     \<lparr>inf_object = InferencePoolType, inf_namespace = namespace, inf_resync = resyncPeriod, inf_tweak = tweak, inf_transform = None\<rparr>"

definition NewInferencePoolInformer :: "string \<Rightarrow> int \<Rightarrow> ('o, 't) informer" where
  "NewInferencePoolInformer namespace resyncPeriod = NewFilteredInferencePoolInformer namespace resyncPeriod None"

definition InferenceModels_Informer :: "('o, 't) sharedInformerFactory \<Rightarrow> ('o, 't) sharedInformerFactory \<times> ('o, 't) informer" where
  \<comment> \<open>\<open>f.Inference().V1alpha2().InferenceModels().Informer()\<close>\<close>
  "InferenceModels_Informer f =
     InformerFor InferenceModelType (\<lambda>resync. NewFilteredInferenceModelInformer (fac_namespace f) resync (fac_tweakListOptions f)) f"

definition InferencePools_Informer :: "('o, 't) sharedInformerFactory \<Rightarrow> ('o, 't) sharedInformerFactory \<times> ('o, 't) informer" where
  "InferencePools_Informer f =
     InformerFor InferencePoolType (\<lambda>resync. NewFilteredInferencePoolInformer (fac_namespace f) resync (fac_tweakListOptions f)) f"

record GroupVersionResource =
  gvr_Group :: string
  gvr_Version :: string
  gvr_Resource :: string

definition WithResource :: "string \<Rightarrow> GroupVersionResource" where
  \<comment> \<open>\<open>v1alpha2.SchemeGroupVersion.WithResource\<close>\<close>
  "WithResource r = \<lparr>gvr_Group = ''inference.networking.x-k8s.io'', gvr_Version = ''v1alpha2'', gvr_Resource = r\<rparr>"

definition ForResource ::
  "(GroupVersionResource \<Rightarrow> string) \<Rightarrow> GroupVersionResource \<Rightarrow> ('o, 't) sharedInformerFactory \<Rightarrow>
   ('o, 't) sharedInformerFactory \<times> (error + string \<times> ('o, 't) informer)" where
  \<comment> \<open>\<open>show\<close> formats the resource for the message\<close>
  "ForResource show resource f =
     (if resource = WithResource ''inferencemodels'' then apsnd (\<lambda>i. Inr (gvr_Resource resource, i)) (InferenceModels_Informer f)
      else if resource = WithResource ''inferencepools'' then apsnd (\<lambda>i. Inr (gvr_Resource resource, i)) (InferencePools_Informer f)
      else (f, Inl (PlainError (''no informer found for '' @ show resource))))"

subsection \<open>Starting and stopping\<close>

fun start_loop ::
  "(object_type, ('o, 't) informer) gomap \<Rightarrow> nat \<Rightarrow> ('o, 't) sharedInformerFactory \<Rightarrow> ('o, 't) sharedInformerFactory \<times> (object_type \<times> nat) list" where
  "start_loop [] stopCh f = (f, [])"
| "start_loop ((informerType, informer) # is) stopCh f =
     (if map_of (fac_startedInformers f) informerType = Some True then start_loop is stopCh f
      else let f' = f\<lparr>fac_wg := fac_wg f + 1, fac_startedInformers := AList.update informerType True (fac_startedInformers f)\<rparr>
           in apsnd ((#) (informerType, stopCh)) (start_loop is stopCh f'))"

definition Start :: "nat \<Rightarrow> ('o, 't) sharedInformerFactory \<Rightarrow> ('o, 't) sharedInformerFactory \<times> (object_type \<times> nat) list" where
  \<comment> \<open>with the goroutines it starts: the type of the informer and the stop channel\<close>
  "Start stopCh f = (if fac_shuttingDown f then (f, []) else start_loop (fac_informers f) stopCh f)"

definition Shutdown_mark :: "('o, 't) sharedInformerFactory \<Rightarrow> ('o, 't) sharedInformerFactory" where
  "Shutdown_mark f = f\<lparr>fac_shuttingDown := True\<rparr>"

definition Shutdown_returns :: "('o, 't) sharedInformerFactory \<Rightarrow> bool" where
  \<comment> \<open>\<open>f.wg.Wait()\<close>\<close>
  "Shutdown_returns f \<longleftrightarrow> fac_shuttingDown f \<and> fac_wg f = 0"

definition WaitForCacheSync :: "(('o, 't) informer \<Rightarrow> bool) \<Rightarrow> ('o, 't) sharedInformerFactory \<Rightarrow> (object_type, bool) gomap" where
  \<comment> \<open>\<open>synced\<close>: what \<open>cache.WaitForCacheSync\<close> answers for an informer\<close>
  "WaitForCacheSync synced f =
     map (\<lambda>(t, i). (t, synced i)) (filter (\<lambda>(t, i). map_of (fac_startedInformers f) t = Some True) (fac_informers f))"

record ('o, 't) factory_system =
  fs_factory :: "('o, 't) sharedInformerFactory"
  fs_running :: "(object_type \<times> nat) list"
  fs_closed :: "nat set"
  fs_history :: "object_type list"

datatype ('o, 't) factory_event =
    Request object_type "int \<Rightarrow> ('o, 't) informer"
  | StartCall nat
  | CloseChannel nat
  | RunEnds "object_type \<times> nat"
  | ShutdownCall

inductive factory_step :: "('o, 't) factory_event \<Rightarrow> ('o, 't) factory_system \<Rightarrow> ('o, 't) factory_system \<Rightarrow> bool" where
  request: "factory_step (Request t newFunc) s (s\<lparr>fs_factory := fst (InformerFor t newFunc (fs_factory s))\<rparr>)"
| start: "Start ch (fs_factory s) = (f, gs) \<Longrightarrow>
    factory_step (StartCall ch) s (s\<lparr>fs_factory := f, fs_running := fs_running s @ gs, fs_history := fs_history s @ map fst gs\<rparr>)"
| close_channel: "factory_step (CloseChannel ch) s (s\<lparr>fs_closed := insert ch (fs_closed s)\<rparr>)"
| run_ends: "g \<in> set (fs_running s) \<Longrightarrow> snd g \<in> fs_closed s \<Longrightarrow>
    factory_step (RunEnds g) s (s\<lparr>fs_factory := (fs_factory s)\<lparr>fac_wg := fac_wg (fs_factory s) - 1\<rparr>, fs_running := removeAll g (fs_running s)\<rparr>)"
| shutdown: "factory_step ShutdownCall s (s\<lparr>fs_factory := Shutdown_mark (fs_factory s)\<rparr>)"

inductive_cases factory_stepE: "factory_step e s s'"

definition factory_start :: "('o, 't) sharedInformerFactory \<Rightarrow> ('o, 't) factory_system" where
  "factory_start f = \<lparr>fs_factory = f, fs_running = [], fs_closed = {}, fs_history = []\<rparr>"

definition factory_ok :: "('o, 't) factory_system \<Rightarrow> bool" where
  \<comment> \<open>the wait group counts the goroutines; what is started is what has been run, each once\<close>
  "factory_ok s \<longleftrightarrow> fac_wg (fs_factory s) = int (length (fs_running s)) \<and> distinct (map fst (fs_running s)) \<and>
     is_map (fac_informers (fs_factory s)) \<and> distinct (fs_history s) \<and> fst ` set (fs_running s) \<subseteq> set (fs_history s) \<and>
     (\<forall>t. map_of (fac_startedInformers (fs_factory s)) t = Some True \<longleftrightarrow> t \<in> set (fs_history s)) \<and>
     set (fs_history s) \<subseteq> set (keys (fac_informers (fs_factory s)))"

lemma start_loop_spec:
  assumes "start_loop is ch f = (f', gs)" "distinct (map fst is)"
  shows "fac_wg f' = fac_wg f + int (length gs) \<and> fac_informers f' = fac_informers f \<and> fac_shuttingDown f' = fac_shuttingDown f \<and>
    (\<forall>t. map_of (fac_startedInformers f') t = Some True \<longleftrightarrow> map_of (fac_startedInformers f) t = Some True \<or> t \<in> fst ` set is) \<and>
    map fst gs = filter (\<lambda>t. map_of (fac_startedInformers f) t \<noteq> Some True) (map fst is) \<and> snd ` set gs \<subseteq> {ch}"
  using assms
proof (induction "is" ch f arbitrary: f' gs rule: start_loop.induct)
  case (2 t i "is" ch f)
  show ?case
  proof (cases "map_of (fac_startedInformers f) t = Some True")
    case True
    with 2 show ?thesis by auto
  next
    case False
    let ?f = "f\<lparr>fac_wg := fac_wg f + 1, fac_startedInformers := AList.update t True (fac_startedInformers f)\<rparr>"
    from False 2(3) obtain hs where hs: "start_loop is ch ?f = (f', hs)" "gs = (t, ch) # hs"
      by (cases "start_loop is ch ?f") (auto simp: Let_def)
    have "filter (\<lambda>u. map_of (fac_startedInformers ?f) u \<noteq> Some True) (map fst is) =
        filter (\<lambda>u. map_of (fac_startedInformers f) u \<noteq> Some True) (map fst is)"
      using 2(4) by (auto simp: update_conv' intro!: filter_cong)
    with 2(2) [OF False refl hs(1)] 2(4) False hs(2) show ?thesis by (auto simp: update_conv')
  qed
qed simp

lemma InformerFor_spec:
  assumes "InformerFor t newFunc f = (f', i)"
  shows "map_of (fac_informers f') t = Some i"
    "\<And>u. u \<noteq> t \<or> map_of (fac_informers f) t \<noteq> None \<Longrightarrow> map_of (fac_informers f') u = map_of (fac_informers f) u"
    "fac_wg f' = fac_wg f" "fac_shuttingDown f' = fac_shuttingDown f" "fac_startedInformers f' = fac_startedInformers f"
    "is_map (fac_informers f) \<Longrightarrow> is_map (fac_informers f')" "set (keys (fac_informers f)) \<subseteq> set (keys (fac_informers f'))"
proof -
  show "set (keys (fac_informers f)) \<subseteq> set (keys (fac_informers f'))"
    using assms by (auto simp: InformerFor_def Let_def dom_update image_iff split: option.splits) force+
qed (use assms in \<open>auto simp: InformerFor_def Let_def update_conv' split: option.splits\<close>)

lemma factory_step_ok:
  assumes ok: "factory_ok s" and step: "factory_step e s s'"
  shows "factory_ok s'"
  using step
proof (cases rule: factory_step.cases)
  case (request t newFunc)
  obtain f i where f: "InformerFor t newFunc (fs_factory s) = (f, i)" by fastforce
  from InformerFor_spec [OF f] ok show ?thesis unfolding request(2) by (auto simp: factory_ok_def f)
next
  case (start ch f gs)
  show ?thesis
  proof (cases "fac_shuttingDown (fs_factory s)")
    case True
    with start ok show ?thesis by (simp add: Start_def factory_ok_def)
  next
    case False
    with start have l: "start_loop (fac_informers (fs_factory s)) ch (fs_factory s) = (f, gs)" by (simp add: Start_def)
    have "distinct (map fst (fac_informers (fs_factory s)))" using ok by (simp add: factory_ok_def is_map_def)
    note sp = start_loop_spec [OF l this]
    note o = ok [unfolded factory_ok_def]
    have g: "fst ` set gs = fst ` set (fac_informers (fs_factory s)) - set (fs_history s)"
    proof -
      have m: "map fst gs = filter (\<lambda>t. map_of (fac_startedInformers (fs_factory s)) t \<noteq> Some True) (map fst (fac_informers (fs_factory s)))"
        using sp by blast
      have "(\<lambda>t. map_of (fac_startedInformers (fs_factory s)) t \<noteq> Some True) = (\<lambda>t. t \<notin> set (fs_history s))" using o by blast
      with m have "set (map fst gs) = set (filter (\<lambda>t. t \<notin> set (fs_history s)) (map fst (fac_informers (fs_factory s))))" by simp
      then show ?thesis by auto
    qed
    have f: "fac_wg f = fac_wg (fs_factory s) + int (length gs)" "fac_informers f = fac_informers (fs_factory s)" "distinct (map fst gs)"
      using sp \<open>distinct (map fst (fac_informers (fs_factory s)))\<close> by simp_all
    have "map_of (fac_startedInformers f) t = Some True \<longleftrightarrow> t \<in> set (fs_history s) \<union> fst ` set gs" for t
      unfolding g using sp o by blast
    moreover have "set (fs_history s) \<union> fst ` set gs \<subseteq> fst ` set (fac_informers f)" unfolding g f(2) using o by auto
    moreover have "fst ` set (fs_running s) \<inter> fst ` set gs = {}" "set (fs_history s) \<inter> fst ` set gs = {}" unfolding g using o by auto
    moreover have "fst ` set (fs_running s) \<subseteq> set (fs_history s)" using o by blast
    ultimately have "distinct (map fst (fs_running s) @ map fst gs)" "distinct (fs_history s @ map fst gs)"
      "fst ` set (fs_running s) \<union> fst ` set gs \<subseteq> set (fs_history s) \<union> fst ` set gs"
      "\<forall>t. map_of (fac_startedInformers f) t = Some True \<longleftrightarrow> t \<in> set (fs_history s) \<union> fst ` set gs"
      "set (fs_history s) \<union> fst ` set gs \<subseteq> fst ` set (fac_informers f)"
      using o f(3) by (simp_all del: map_append) blast
    with f(1,2) o show ?thesis unfolding start(2) factory_ok_def by (simp add: image_Un)
  qed
next
  case (run_ends g)
  have d: "distinct (fs_running s)" using ok by (auto simp: factory_ok_def distinct_map)
  have "0 < length (fs_running s)" using run_ends(3) by auto
  moreover have "length (removeAll g (fs_running s)) = length (fs_running s) - 1"
    using run_ends(3) d by (simp add: distinct_remove1_removeAll [symmetric] length_remove1)
  ultimately have "int (length (removeAll g (fs_running s))) = int (length (fs_running s)) - 1" by linarith
  moreover have "distinct (map fst (removeAll g (fs_running s)))"
    using ok by (auto simp: factory_ok_def removeAll_filter_not_eq intro: distinct_map_filter)
  ultimately show ?thesis using ok unfolding run_ends(2) by (auto simp: factory_ok_def)
qed (use ok in \<open>auto simp: factory_ok_def Shutdown_mark_def\<close>)

interpretation factory_invariant: step_invariant factory_step factory_ok "\<lambda>_. True"
  by unfold_locales (use factory_step_ok in blast)

lemma factory_start_ok: "factory_ok (factory_start (NewFilteredSharedInformerFactory d ns tweak))"
  by (simp add: factory_ok_def factory_start_def NewFilteredSharedInformerFactory_def NewSharedInformerFactoryWithOptions_def
      WithNamespace_def WithTweakListOptions_def)

text \<open>
  C35. One informer per type, and it runs once. In every run of the factory: no informer is run
  twice, however often \<open>Start\<close> is called; the caches \<open>WaitForCacheSync\<close> waits for are those of
  the informers that were started; and when \<open>Shutdown\<close> returns no goroutine is left.
\<close>

theorem informers_run_once:
  assumes "run factory_step (factory_start (NewFilteredSharedInformerFactory d ns tweak)) evs s"
  shows "distinct (fs_history s) \<and> set (keys (WaitForCacheSync synced (fs_factory s))) = set (fs_history s) \<and>
    (Shutdown_returns (fs_factory s) \<longrightarrow> fs_running s = [])"
proof -
  have ok: "factory_ok s" using factory_invariant.run_keeps [OF assms factory_start_ok] by simp
  then have "set (keys (WaitForCacheSync synced (fs_factory s))) = set (fs_history s)"
    by (fastforce simp: factory_ok_def WaitForCacheSync_def image_iff)
  with ok show ?thesis by (simp add: factory_ok_def Shutdown_returns_def)
qed

lemma single_key: "length xs \<le> 1 \<Longrightarrow> set xs = {x} \<Longrightarrow> xs = [x]"
  by (cases xs) auto

theorem informers_run_once_witness:
  "\<exists>s :: (nat, nat) factory_system.
     run factory_step (factory_start (NewFilteredSharedInformerFactory 30 ''ns'' None))
       [Request InferencePoolType (\<lambda>r. NewInferencePoolInformer ''ns'' r), StartCall 0, StartCall 1] s \<and>
     fs_history s = [InferencePoolType] \<and> keys (WaitForCacheSync (\<lambda>_. True) (fs_factory s)) = [InferencePoolType]"
proof -
  let ?f0 = "NewFilteredSharedInformerFactory 30 ''ns'' None :: (nat, nat) sharedInformerFactory"
  let ?new = "\<lambda>r. NewInferencePoolInformer ''ns'' r :: (nat, nat) informer"
  let ?s0 = "factory_start ?f0"
  let ?s1 = "?s0\<lparr>fs_factory := fst (InformerFor InferencePoolType ?new ?f0)\<rparr>"
  obtain f2 gs2 where 2: "Start 0 (fs_factory ?s1) = (f2, gs2)" by fastforce
  let ?s2 = "?s1\<lparr>fs_factory := f2, fs_running := fs_running ?s1 @ gs2, fs_history := fs_history ?s1 @ map fst gs2\<rparr>"
  obtain f3 gs3 where 3: "Start 1 (fs_factory ?s2) = (f3, gs3)" by fastforce
  let ?s3 = "?s2\<lparr>fs_factory := f3, fs_running := fs_running ?s2 @ gs3, fs_history := fs_history ?s2 @ map fst gs3\<rparr>"
  have r: "run factory_step ?s0 [Request InferencePoolType ?new, StartCall 0, StartCall 1] ?s3"
  proof -
    have a: "factory_step (Request InferencePoolType ?new) ?s0 ?s1"
      using factory_step.request [of InferencePoolType ?new ?s0] by (simp add: factory_start_def)
    show ?thesis
      by (rule run_cons [where step = factory_step, OF a], rule run_cons [where step = factory_step, OF factory_step.start [OF 2]],
          rule run_cons [where step = factory_step, OF factory_step.start [OF 3]], rule run_nil)
  qed
  have h: "fs_history ?s3 = [InferencePoolType]"
    using 2 3 by (auto simp: factory_start_def InformerFor_def NewFilteredSharedInformerFactory_def NewSharedInformerFactoryWithOptions_def
        WithNamespace_def WithTweakListOptions_def Start_def Let_def)
  have "length (keys (WaitForCacheSync (\<lambda>_. True) (fs_factory ?s3))) \<le> 1"
    using 2 3 by (auto simp: factory_start_def InformerFor_def NewFilteredSharedInformerFactory_def NewSharedInformerFactoryWithOptions_def
        WithNamespace_def WithTweakListOptions_def Start_def Let_def WaitForCacheSync_def)
  moreover have "set (keys (WaitForCacheSync (\<lambda>_. True) (fs_factory ?s3))) = {InferencePoolType}"
  proof -
    have "set (keys (WaitForCacheSync (\<lambda>_. True) (fs_factory ?s3))) = set (fs_history ?s3)"
      using informers_run_once [OF r, of "\<lambda>_. True"] by blast
    then show ?thesis unfolding h by simp
  qed
  ultimately have "keys (WaitForCacheSync (\<lambda>_. True) (fs_factory ?s3)) = [InferencePoolType]"
    by (rule single_key)
  with r h show ?thesis by (intro exI [of _ ?s3] conjI)
qed

text \<open>
  An informer is shared: once a type has an informer, every later request gets the same one.
\<close>

lemma Start_informers: "fac_informers (fst (Start ch f)) = fac_informers f"
proof -
  have "fac_informers (fst (start_loop is ch f)) = fac_informers f" for "is"
    by (induction "is" ch f rule: start_loop.induct) (simp_all add: Let_def)
  then show ?thesis by (simp add: Start_def)
qed

lemma informer_shared:
  assumes "run factory_step s evs s'" "map_of (fac_informers (fs_factory s)) t = Some i"
  shows "map_of (fac_informers (fs_factory s')) t = Some i \<and> snd (InformerFor t newFunc (fs_factory s')) = i"
proof -
  have "map_of (fac_informers (fs_factory s')) t = Some i"
    using assms
  proof (induction rule: run.induct)
    case (run_cons e s s1 es s')
    have "fac_informers f = fac_informers (fs_factory s)" if "Start ch (fs_factory s) = (f, gs)" for ch f gs
      using Start_informers [of ch "fs_factory s"] that by simp
    note started = this
    have requested: "map_of (fac_informers (fst (InformerFor u newFunc (fs_factory s)))) t = Some i" for u newFunc
      using run_cons.prems by (auto simp: InformerFor_def Let_def update_conv' split: option.splits)
    from run_cons.hyps(1) have "map_of (fac_informers (fs_factory s1)) t = Some i"
    proof (cases rule: factory_step.cases)
      case (request u newFunc)
      then show ?thesis using requested by simp
    next
      case (start ch f gs)
      then show ?thesis using started [OF start(3)] run_cons.prems by simp
    qed (use run_cons.prems in \<open>simp_all add: Shutdown_mark_def\<close>)
    then show ?case by (rule run_cons.IH)
  qed
  then show ?thesis by (simp add: InformerFor_def)
qed

text \<open>
  After \<open>Shutdown\<close> has been called nothing is started, and when the stop channels are closed it
  returns as soon as the goroutines have ended, each once.
\<close>

lemma nothing_starts_after_shutdown:
  assumes "run factory_step s evs s'" "fac_shuttingDown (fs_factory s)"
  shows "fac_shuttingDown (fs_factory s') \<and> fs_history s' = fs_history s"
  using assms
proof (induction rule: run.induct)
  case (run_cons e s s1 es s')
  have "fac_shuttingDown (fs_factory s1) \<and> fs_history s1 = fs_history s"
    using run_cons.hyps(1) run_cons.prems
    by (cases rule: factory_step.cases)
      (auto simp: Start_def Shutdown_mark_def InformerFor_def Let_def split: option.splits)
  with run_cons.IH show ?case by simp
qed simp

definition stopping :: "('o, 't) factory_system \<Rightarrow> bool" where
  "stopping s \<longleftrightarrow> factory_ok s \<and> fac_shuttingDown (fs_factory s) \<and> snd ` set (fs_running s) \<subseteq> fs_closed s"

interpretation running_goroutines: work_queue factory_step stopping fs_running RunEnds fs_closed
proof
  fix s and g :: "object_type \<times> nat"
  assume s: "stopping s" and g: "g \<in> set (fs_running s)"
  let ?s = "s\<lparr>fs_factory := (fs_factory s)\<lparr>fac_wg := fac_wg (fs_factory s) - 1\<rparr>, fs_running := removeAll g (fs_running s)\<rparr>"
  have step: "factory_step (RunEnds g) s ?s" using s g by (intro factory_step.run_ends) (auto simp: stopping_def)
  moreover have "stopping ?s" using factory_step_ok [OF _ step] s by (auto simp: stopping_def)
  ultimately show "\<exists>s'. factory_step (RunEnds g) s s' \<and> stopping s' \<and> fs_running s' = removeAll g (fs_running s) \<and> fs_closed s' = fs_closed s"
    by (intro exI [of _ ?s]) simp
qed

theorem shutdown_returns:
  assumes "run factory_step (factory_start (NewFilteredSharedInformerFactory d ns tweak)) evs s"
    and "fac_shuttingDown (fs_factory s)" "snd ` set (fs_running s) \<subseteq> fs_closed s"
  shows "\<exists>gs s'. run factory_step s (map RunEnds gs) s' \<and> length gs \<le> length (fs_running s) \<and> Shutdown_returns (fs_factory s')"
proof -
  have "stopping s" using factory_invariant.run_keeps [OF assms(1) factory_start_ok] assms(2,3) by (simp add: stopping_def)
  from running_goroutines.drained [OF this] obtain gs s' where
    r: "run factory_step s (map RunEnds gs) s'" "length gs \<le> length (fs_running s)" "fs_running s' = []" "stopping s'" by blast
  then show ?thesis by (intro exI [of _ gs] exI [of _ s']) (simp add: stopping_def factory_ok_def Shutdown_returns_def)
qed

end
