(* ===== verification/Clients.thy ===== *)
theory Clients
  imports Informers Float64
begin

text \<open>
  client-go/clientset and client-go/listers: how the typed clients are put together. The
  configuration of a client is \<open>rest_Config\<close>; \<open>rest_lib\<close> is what the code calls in k8s.io/client-go
  (the HTTP client, the rate limiter, the REST and discovery clients). A value that stands
  for an object of client-go is a type parameter. The constructors copy their configuration,
  so the caller's is never changed; the theorems say when they fail and that the clients of
  one set share the HTTP client and the rate limiter.
\<close>

record ('lim, 'ser) rest_Config =
  cfg_UserAgent :: string
  cfg_QPS :: f64
  cfg_Burst :: int
  cfg_RateLimiter :: "'lim option"
  cfg_GroupVersion :: "(string \<times> string) option"
  cfg_APIPath :: string
  cfg_NegotiatedSerializer :: "'ser option"

record ('lim, 'ser, 'http, 'rest, 'disc) rest_lib =
  DefaultKubernetesUserAgent :: string
  HTTPClientFor :: "('lim, 'ser) rest_Config \<Rightarrow> error + 'http"
  NewTokenBucketRateLimiter :: "f64 \<Rightarrow> int \<Rightarrow> 'lim"
  CodecFactoryForGeneratedClient :: 'ser
  RESTClientForConfigAndClient :: "('lim, 'ser) rest_Config \<Rightarrow> 'http \<Rightarrow> error + 'rest"
  NewDiscoveryClientForConfigAndClient :: "('lim, 'ser) rest_Config \<Rightarrow> 'http \<Rightarrow> error + 'disc"
  NewDiscoveryClient :: "'rest \<Rightarrow> 'disc"

primrec sum_bind :: "error + 'a \<Rightarrow> ('a \<Rightarrow> error + 'b) \<Rightarrow> error + 'b" where
  \<comment> \<open>\<open>if err != nil { return nil, err }\<close>\<close>
  "sum_bind (Inl e) f = Inl e"
| "sum_bind (Inr a) f = f a"

lemma sum_bind_Inr [simp]: "sum_bind m f = Inr b \<longleftrightarrow> (\<exists>a. m = Inr a \<and> f a = Inr b)"
  by (cases m) auto

lemma sum_bind_Inl [simp]: "sum_bind m f = Inl e \<longleftrightarrow> m = Inl e \<or> (\<exists>a. m = Inr a \<and> f a = Inl e)"
  by (cases m) auto

subsection \<open>The client of the group\<close>

definition setConfigDefaults ::
  "('lim, 'ser, 'http, 'rest, 'disc) rest_lib \<Rightarrow> ('lim, 'ser) rest_Config \<Rightarrow> error + ('lim, 'ser) rest_Config" where
  "setConfigDefaults lib config =
     (let config = config\<lparr>cfg_GroupVersion := Some (''inference.networking.x-k8s.io'', ''v1alpha2''), cfg_APIPath := ''/apis'',
        cfg_NegotiatedSerializer := Some (CodecFactoryForGeneratedClient lib)\<rparr>
      in Inr (if cfg_UserAgent config = [] then config\<lparr>cfg_UserAgent := DefaultKubernetesUserAgent lib\<rparr> else config))"

definition typed_NewForConfigAndClient ::
  "('lim, 'ser, 'http, 'rest, 'disc) rest_lib \<Rightarrow> ('lim, 'ser) rest_Config \<Rightarrow> 'http \<Rightarrow> error + 'rest" where
  "typed_NewForConfigAndClient lib c h =
     sum_bind (setConfigDefaults lib c) (\<lambda>config. RESTClientForConfigAndClient lib config h)"

definition typed_NewForConfig :: "('lim, 'ser, 'http, 'rest, 'disc) rest_lib \<Rightarrow> ('lim, 'ser) rest_Config \<Rightarrow> error + 'rest" where
  "typed_NewForConfig lib c =
     sum_bind (setConfigDefaults lib c) (\<lambda>config.
     sum_bind (HTTPClientFor lib config) (\<lambda>httpClient. typed_NewForConfigAndClient lib config httpClient))"

definition typed_NewForConfigOrDie :: "('lim, 'ser, 'http, 'rest, 'disc) rest_lib \<Rightarrow> ('lim, 'ser) rest_Config \<Rightarrow> 'rest go" where
  "typed_NewForConfigOrDie lib c = (case typed_NewForConfig lib c of Inl e \<Rightarrow> Panic (error_Error e) | Inr client \<Rightarrow> Ret client)"

definition RESTClient :: "'rest option option \<Rightarrow> 'rest option" where
  \<comment> \<open>the client may be \<open>nil\<close>, and its REST client too\<close>
  "RESTClient c = (case c of None \<Rightarrow> None | Some restClient \<Rightarrow> restClient)"

record 'rest typed_client =
  tc_resource :: string
  tc_rest :: "'rest option"
  tc_namespace :: string

definition newInferenceModels :: "'rest option option \<Rightarrow> string \<Rightarrow> 'rest typed_client" where
  "newInferenceModels c namespace = \<lparr>tc_resource = ''inferencemodels'', tc_rest = RESTClient c, tc_namespace = namespace\<rparr>"

definition newInferencePools :: "'rest option option \<Rightarrow> string \<Rightarrow> 'rest typed_client" where
  "newInferencePools c namespace = \<lparr>tc_resource = ''inferencepools'', tc_rest = RESTClient c, tc_namespace = namespace\<rparr>"

subsection \<open>The set of clients\<close>

record ('rest, 'disc) Clientset =
  cs_inferenceV1alpha2 :: "'rest option"
  cs_DiscoveryClient :: "'disc option"

definition Discovery :: "('rest, 'disc) Clientset option \<Rightarrow> 'disc option" where
  "Discovery c = (case c of None \<Rightarrow> None | Some cs \<Rightarrow> cs_DiscoveryClient cs)"

definition burst_error :: error where
  "burst_error = PlainError ''burst is required to be greater than 0 when RateLimiter is not set and QPS is set to greater than 0''"

definition with_RateLimiter ::
  "('lim, 'ser, 'http, 'rest, 'disc) rest_lib \<Rightarrow> ('lim, 'ser) rest_Config \<Rightarrow> error + ('lim, 'ser) rest_Config" where
  "with_RateLimiter lib c =
     (if cfg_RateLimiter c = None \<and> f64_lt (Fin 0) (cfg_QPS c) then
        if cfg_Burst c \<le> 0 then Inl burst_error
        else Inr (c\<lparr>cfg_RateLimiter := Some (NewTokenBucketRateLimiter lib (cfg_QPS c) (cfg_Burst c))\<rparr>)
      else Inr c)"

definition NewForConfigAndClient ::
  "('lim, 'ser, 'http, 'rest, 'disc) rest_lib \<Rightarrow> ('lim, 'ser) rest_Config \<Rightarrow> 'http \<Rightarrow> error + ('rest, 'disc) Clientset" where
  "NewForConfigAndClient lib c httpClient =
     sum_bind (with_RateLimiter lib c) (\<lambda>configShallowCopy.
     sum_bind (typed_NewForConfigAndClient lib configShallowCopy httpClient) (\<lambda>typed.
     sum_bind (NewDiscoveryClientForConfigAndClient lib configShallowCopy httpClient) (\<lambda>disc.
     Inr \<lparr>cs_inferenceV1alpha2 = Some typed, cs_DiscoveryClient = Some disc\<rparr>)))"

definition default_UserAgent :: "('lim, 'ser, 'http, 'rest, 'disc) rest_lib \<Rightarrow> ('lim, 'ser) rest_Config \<Rightarrow> ('lim, 'ser) rest_Config" where
  "default_UserAgent lib c = (if cfg_UserAgent c = [] then c\<lparr>cfg_UserAgent := DefaultKubernetesUserAgent lib\<rparr> else c)"

definition NewForConfig ::
  "('lim, 'ser, 'http, 'rest, 'disc) rest_lib \<Rightarrow> ('lim, 'ser) rest_Config \<Rightarrow> error + ('rest, 'disc) Clientset" where
  "NewForConfig lib c =
     (let configShallowCopy = default_UserAgent lib c
      in sum_bind (HTTPClientFor lib configShallowCopy) (\<lambda>httpClient. NewForConfigAndClient lib configShallowCopy httpClient))"

definition NewForConfigOrDie ::
  "('lim, 'ser, 'http, 'rest, 'disc) rest_lib \<Rightarrow> ('lim, 'ser) rest_Config \<Rightarrow> ('rest, 'disc) Clientset go" where
  "NewForConfigOrDie lib c = (case NewForConfig lib c of Inl e \<Rightarrow> Panic (error_Error e) | Inr cs \<Rightarrow> Ret cs)"

definition New :: "('lim, 'ser, 'http, 'rest, 'disc) rest_lib \<Rightarrow> 'rest \<Rightarrow> ('rest, 'disc) Clientset" where
  "New lib c = \<lparr>cs_inferenceV1alpha2 = Some c, cs_DiscoveryClient = Some (NewDiscoveryClient lib c)\<rparr>"

definition needs_burst :: "('lim, 'ser) rest_Config \<Rightarrow> bool" where
  "needs_burst c \<longleftrightarrow> cfg_RateLimiter c = None \<and> f64_lt (Fin 0) (cfg_QPS c) \<and> cfg_Burst c \<le> 0"

lemma with_RateLimiter_cases:
  "with_RateLimiter lib c = Inl e \<longleftrightarrow> needs_burst c \<and> e = burst_error"
  "\<not> needs_burst c \<Longrightarrow> \<exists>lim. with_RateLimiter lib c = Inr (c\<lparr>cfg_RateLimiter := lim\<rparr>) \<and> (f64_lt (Fin 0) (cfg_QPS c) \<longrightarrow> lim \<noteq> None)"
proof -
  show "with_RateLimiter lib c = Inl e \<longleftrightarrow> needs_burst c \<and> e = burst_error"
    by (auto simp: with_RateLimiter_def needs_burst_def)
  assume "\<not> needs_burst c"
  then show "\<exists>lim. with_RateLimiter lib c = Inr (c\<lparr>cfg_RateLimiter := lim\<rparr>) \<and> (f64_lt (Fin 0) (cfg_QPS c) \<longrightarrow> lim \<noteq> None)"
    by (cases "cfg_RateLimiter c = None \<and> f64_lt (Fin 0) (cfg_QPS c)")
      (auto simp: with_RateLimiter_def needs_burst_def intro: exI [of _ "cfg_RateLimiter c"])
qed

text \<open>
  A set of clients comes with both its clients, built over one HTTP client and one rate
  limiter; a rate without a burst is refused before any client is made; with a rate the
  clients are never without a limiter.
\<close>

theorem clients_share_transport:
  assumes "NewForConfig lib c = Inr cs"
  shows "\<not> needs_burst c \<and> (\<exists>http typed disc config config'.
    HTTPClientFor lib (default_UserAgent lib c) = Inr http \<and> cs = \<lparr>cs_inferenceV1alpha2 = Some typed, cs_DiscoveryClient = Some disc\<rparr> \<and>
    RESTClientForConfigAndClient lib config' http = Inr typed \<and> NewDiscoveryClientForConfigAndClient lib config http = Inr disc \<and>
    cfg_RateLimiter config' = cfg_RateLimiter config \<and> cfg_UserAgent config' = cfg_UserAgent config \<and> cfg_APIPath config' = ''/apis'' \<and>
    (f64_lt (Fin 0) (cfg_QPS c) \<longrightarrow> cfg_RateLimiter config \<noteq> None))"
proof -
  let ?c = "default_UserAgent lib c"
  have n: "needs_burst ?c = needs_burst c" "cfg_QPS ?c = cfg_QPS c" by (simp_all add: needs_burst_def default_UserAgent_def)
  from assms obtain http config typed disc where
    r: "HTTPClientFor lib ?c = Inr http" "with_RateLimiter lib ?c = Inr config" "typed_NewForConfigAndClient lib config http = Inr typed"
      "NewDiscoveryClientForConfigAndClient lib config http = Inr disc" "cs = \<lparr>cs_inferenceV1alpha2 = Some typed, cs_DiscoveryClient = Some disc\<rparr>"
    by (auto simp: NewForConfig_def NewForConfigAndClient_def Let_def)
  have nb: "\<not> needs_burst c" using r(2) n(1) with_RateLimiter_cases(1) [of lib ?c burst_error] by auto
  from with_RateLimiter_cases(2) [of ?c lib] nb n r(2) obtain lim where
    l: "config = ?c\<lparr>cfg_RateLimiter := lim\<rparr>" "f64_lt (Fin 0) (cfg_QPS c) \<Longrightarrow> lim \<noteq> None" by auto
  define config' where "config' = config\<lparr>cfg_GroupVersion := Some (''inference.networking.x-k8s.io'', ''v1alpha2''), cfg_APIPath := ''/apis'',
      cfg_NegotiatedSerializer := Some (CodecFactoryForGeneratedClient lib), cfg_UserAgent := cfg_UserAgent config\<rparr>"
  have "setConfigDefaults lib config = Inr config'"
    by (cases "DefaultKubernetesUserAgent lib = []") (auto simp: setConfigDefaults_def config'_def l(1) default_UserAgent_def Let_def)
  then have "RESTClientForConfigAndClient lib config' http = Inr typed" using r(3) by (simp add: typed_NewForConfigAndClient_def)
  moreover have "cfg_RateLimiter config' = cfg_RateLimiter config" "cfg_UserAgent config' = cfg_UserAgent config" "cfg_APIPath config' = ''/apis''"
    by (simp_all add: config'_def)
  moreover have "f64_lt (Fin 0) (cfg_QPS c) \<longrightarrow> cfg_RateLimiter config \<noteq> None" using l by simp
  ultimately show ?thesis using nb r by blast
qed

lemma rate_without_burst_refused:
  "needs_burst c \<Longrightarrow> HTTPClientFor lib (default_UserAgent lib c) = Inr http \<Longrightarrow> NewForConfig lib c = Inl burst_error"
  by (auto simp: NewForConfig_def NewForConfigAndClient_def with_RateLimiter_def needs_burst_def default_UserAgent_def)

lemma NewForConfigOrDie_panics: "returns (NewForConfigOrDie lib c) \<longleftrightarrow> (\<exists>cs. NewForConfig lib c = Inr cs)"
  by (auto simp: NewForConfigOrDie_def split: sum.splits)

subsection \<open>The fake set of clients\<close>

text \<open>
  \<open>tracker\<close> is the object tracker of client-go/testing: \<open>add\<close> stores an object or fails. The
  reactors are what is registered with the fake, in order.
\<close>

datatype reactor = ObjectReaction string string | WatchReactor string

record 'tr fake_Clientset =
  fcs_tracker :: 'tr
  fcs_reactors :: "reactor list"

fun add_objects :: "('o \<Rightarrow> 'tr \<Rightarrow> error + 'tr) \<Rightarrow> 'o list \<Rightarrow> 'tr \<Rightarrow> 'tr go" where
  "add_objects add [] o1 = Ret o1"
| "add_objects add (obj # objs) o1 = (case add obj o1 of Inl e \<Rightarrow> Panic (error_Error e) | Inr o2 \<Rightarrow> add_objects add objs o2)"

definition NewSimpleClientset :: "'tr \<Rightarrow> ('o \<Rightarrow> 'tr \<Rightarrow> error + 'tr) \<Rightarrow> 'o list \<Rightarrow> 'tr fake_Clientset go" where
  "NewSimpleClientset NewObjectTracker add objects =
     go_bind (add_objects add objects NewObjectTracker) (\<lambda>o1.
       Ret \<lparr>fcs_tracker = o1, fcs_reactors = [ObjectReaction ''*'' ''*'', WatchReactor ''*'']\<rparr>)"

definition NewClientset :: "'tr \<Rightarrow> ('o \<Rightarrow> 'tr \<Rightarrow> error + 'tr) \<Rightarrow> 'o list \<Rightarrow> 'tr fake_Clientset go" where
  "NewClientset NewFieldManagedObjectTracker add objects =
     go_bind (add_objects add objects NewFieldManagedObjectTracker) (\<lambda>o1.
       Ret \<lparr>fcs_tracker = o1, fcs_reactors = [ObjectReaction ''*'' ''*'', WatchReactor ''*'']\<rparr>)"

definition watch_reaction ::
  "(GroupVersionResource \<Rightarrow> string \<Rightarrow> 'tr \<Rightarrow> error + 'w) \<Rightarrow> 'tr \<Rightarrow> GroupVersionResource \<Rightarrow> string \<Rightarrow> bool \<times> 'w option \<times> error option" where
  \<comment> \<open>the function of the watch reactor: handled, the watch, the error\<close>
  "watch_reaction Watch o1 gvr ns = (case Watch gvr ns o1 of Inl err \<Rightarrow> (False, None, Some err) | Inr w \<Rightarrow> (True, Some w, None))"

lemma add_objects_keeps_all:
  assumes "add_objects add objs o1 = Ret o2" "\<And>obj o1 o2. add obj o1 = Inr o2 \<Longrightarrow> holds o2 = insert obj (holds o1)"
  shows "holds o2 = holds o1 \<union> set objs"
  using assms(1)
proof (induction objs arbitrary: o1)
  case (Cons obj objs)
  then obtain o3 where "add obj o1 = Inr o3" "add_objects add objs o3 = Ret o2" by (auto split: sum.splits)
  with Cons.IH [of o3] assms(2) show ?case by auto
qed simp

lemma NewClientset_holds:
  "NewClientset tracker add objs = Ret cs \<Longrightarrow> (\<And>obj o1 o2. add obj o1 = Inr o2 \<Longrightarrow> holds o2 = insert obj (holds o1)) \<Longrightarrow>
   holds (fcs_tracker cs) = holds tracker \<union> set objs"
  by (auto simp: NewClientset_def go_simps dest!: add_objects_keeps_all [where holds = holds])

subsection \<open>Listers\<close>

record 'idx lister =
  lst_indexer :: 'idx
  lst_resource :: "string \<times> string"
  lst_namespace :: "string option"

definition Resource :: "string \<Rightarrow> string \<times> string" where
  \<comment> \<open>group and resource\<close>
  "Resource resource = (gvr_Group (WithResource resource), gvr_Resource (WithResource resource))"

definition NewInferenceModelLister :: "'idx \<Rightarrow> 'idx lister" where
  "NewInferenceModelLister indexer = \<lparr>lst_indexer = indexer, lst_resource = Resource ''inferencemodel'', lst_namespace = None\<rparr>"

definition NewInferencePoolLister :: "'idx \<Rightarrow> 'idx lister" where
  "NewInferencePoolLister indexer = \<lparr>lst_indexer = indexer, lst_resource = Resource ''inferencepool'', lst_namespace = None\<rparr>"

definition lister_InferenceModels :: "'idx lister \<Rightarrow> string \<Rightarrow> 'idx lister" where
  "lister_InferenceModels s namespace = s\<lparr>lst_namespace := Some namespace\<rparr>"

definition lister_InferencePools :: "'idx lister \<Rightarrow> string \<Rightarrow> 'idx lister" where
  "lister_InferencePools s namespace = s\<lparr>lst_namespace := Some namespace\<rparr>"

end
