(* ===== verification/Test_Utils.thy ===== *)
theory Test_Utils
  imports Documents
begin

text \<open>
  pkg/epp/util/testing: the builders with which the tests make pods, models, pools and
  requests. A wrapper is the object it wraps; the containers, finalizers and other fields
  that only the API server looks at are left out. What is shown is that these objects are
  what the tests take them for: a pod built from a selector is selected and ready, a
  generated request is decoded to its model and prompt.
\<close>

definition no_meta :: "string \<Rightarrow> ObjectMeta" where
  "no_meta name = \<lparr>Name = name, Namespace = [], Labels = [], CreationTimestamp = 0, DeletionTimestamp = None\<rparr>"

subsection \<open>Pods\<close>

definition MakePod :: "string \<Rightarrow> corePod" where
  "MakePod podName = \<lparr>pod_meta = no_meta podName, PodIP = [], Conditions = []\<rparr>"

definition PodWrapper_Namespace :: "string \<Rightarrow> corePod \<Rightarrow> corePod" where
  "PodWrapper_Namespace ns p = p\<lparr>pod_meta := (pod_meta p)\<lparr>Namespace := ns\<rparr>\<rparr>"

definition PodWrapper_Complete :: "corePod \<Rightarrow> corePod" where
  "PodWrapper_Complete p = (if Namespace (pod_meta p) = [] then PodWrapper_Namespace ''default'' p else p)"

definition PodWrapper_Labels :: "(string, string) gomap \<Rightarrow> corePod \<Rightarrow> corePod" where
  "PodWrapper_Labels ls p = p\<lparr>pod_meta := (pod_meta p)\<lparr>Labels := ls\<rparr>\<rparr>"

fun label_loop :: "(string, string) gomap \<Rightarrow> (string, string) gomap \<Rightarrow> (string, string) gomap" where
  "label_loop [] ls = ls"
| "label_loop ((k, v) # selector) ls = label_loop selector (AList.update k v ls)"

definition LabelsFromPoolSelector :: "(string, string) gomap \<Rightarrow> corePod \<Rightarrow> corePod" where
  "LabelsFromPoolSelector selector p = p\<lparr>pod_meta := (pod_meta p)\<lparr>Labels := label_loop selector (Labels (pod_meta p))\<rparr>\<rparr>"

definition ReadyCondition :: "corePod \<Rightarrow> corePod" where
  "ReadyCondition p = p\<lparr>Conditions := [\<lparr>cond_Type = ''Ready'', cond_Status = ''True''\<rparr>]\<rparr>"

definition PodWrapper_IP :: "string \<Rightarrow> corePod \<Rightarrow> corePod" where
  "PodWrapper_IP ip p = p\<lparr>PodIP := ip\<rparr>"

definition PodWrapper_DeletionTimestamp :: "int \<Rightarrow> corePod \<Rightarrow> corePod" where
  \<comment> \<open>\<open>now\<close> is \<open>metav1.Now()\<close>\<close>
  "PodWrapper_DeletionTimestamp now p = p\<lparr>pod_meta := (pod_meta p)\<lparr>DeletionTimestamp := Some now\<rparr>\<rparr>"

subsection \<open>Models and pools\<close>

definition MakeInferenceModel :: "string \<Rightarrow> InferenceModel" where
  "MakeInferenceModel name =
     \<lparr>model_meta = no_meta name,
      model_Spec = \<lparr>ModelName = [], Criticality = None, TargetModels = [], PoolRef = \<lparr>ref_Group = [], ref_Kind = [], ref_Name = []\<rparr>\<rparr>,
      model_Status = \<lparr>ms_Conditions = []\<rparr>\<rparr>"

definition ModelWrapper_Namespace :: "string \<Rightarrow> InferenceModel \<Rightarrow> InferenceModel" where
  "ModelWrapper_Namespace ns m = m\<lparr>model_meta := (model_meta m)\<lparr>Namespace := ns\<rparr>\<rparr>"

definition ModelWrapper_ModelName :: "string \<Rightarrow> InferenceModel \<Rightarrow> InferenceModel" where
  "ModelWrapper_ModelName modelName m = m\<lparr>model_Spec := (model_Spec m)\<lparr>ModelName := modelName\<rparr>\<rparr>"

definition ModelWrapper_TargetModel :: "string \<Rightarrow> InferenceModel \<Rightarrow> InferenceModel" where
  "ModelWrapper_TargetModel modelName m =
     m\<lparr>model_Spec := (model_Spec m)\<lparr>TargetModels := TargetModels (model_Spec m) @ [\<lparr>tm_Name = modelName, Weight = None\<rparr>]\<rparr>\<rparr>"

definition ModelWrapper_PoolName :: "string \<Rightarrow> InferenceModel \<Rightarrow> InferenceModel" where
  "ModelWrapper_PoolName poolName m =
     m\<lparr>model_Spec := (model_Spec m)\<lparr>PoolRef := \<lparr>ref_Group = [], ref_Kind = [], ref_Name = poolName\<rparr>\<rparr>\<rparr>"

definition ModelWrapper_Criticality :: "string \<Rightarrow> InferenceModel \<Rightarrow> InferenceModel" where
  "ModelWrapper_Criticality criticality m = m\<lparr>model_Spec := (model_Spec m)\<lparr>Criticality := Some criticality\<rparr>\<rparr>"

definition ModelWrapper_DeletionTimestamp :: "int \<Rightarrow> InferenceModel \<Rightarrow> InferenceModel" where
  "ModelWrapper_DeletionTimestamp now m = m\<lparr>model_meta := (model_meta m)\<lparr>DeletionTimestamp := Some now\<rparr>\<rparr>"

definition ModelWrapper_CreationTimestamp :: "int \<Rightarrow> InferenceModel \<Rightarrow> InferenceModel" where
  "ModelWrapper_CreationTimestamp t m = m\<lparr>model_meta := (model_meta m)\<lparr>CreationTimestamp := t\<rparr>\<rparr>"

definition MakeInferencePool :: "string \<Rightarrow> InferencePool" where
  "MakeInferencePool name =
     \<lparr>pool_meta = no_meta name, pool_Spec = \<lparr>Selector = [], TargetPortNumber = 0, PickerConfig = \<lparr>ExtensionRef = None\<rparr>\<rparr>,
      pool_Status = \<lparr>Parents = []\<rparr>\<rparr>"

definition PoolWrapper_Namespace :: "string \<Rightarrow> InferencePool \<Rightarrow> InferencePool" where
  "PoolWrapper_Namespace ns m = m\<lparr>pool_meta := (pool_meta m)\<lparr>Namespace := ns\<rparr>\<rparr>"

definition PoolWrapper_Selector :: "(string, string) gomap \<Rightarrow> InferencePool \<Rightarrow> InferencePool" where
  "PoolWrapper_Selector selector m = m\<lparr>pool_Spec := (pool_Spec m)\<lparr>Selector := label_loop selector []\<rparr>\<rparr>"

definition PoolWrapper_TargetPortNumber :: "32 word \<Rightarrow> InferencePool \<Rightarrow> InferencePool" where
  "PoolWrapper_TargetPortNumber p m = m\<lparr>pool_Spec := (pool_Spec m)\<lparr>TargetPortNumber := p\<rparr>\<rparr>"

definition PoolWrapper_ExtensionRef :: "string \<Rightarrow> InferencePool \<Rightarrow> InferencePool" where
  "PoolWrapper_ExtensionRef name m = m\<lparr>pool_Spec := (pool_Spec m)\<lparr>PickerConfig := \<lparr>ExtensionRef = Some
     \<lparr>Extension_Reference = \<lparr>ext_Group = None, ext_Kind = None, ext_Name = name, ext_PortNumber = None\<rparr>,
      Extension_Connection = \<lparr>FailureMode = None\<rparr>\<rparr>\<rparr>\<rparr>\<rparr>"

lemma label_loop_map: "is_map selector \<Longrightarrow> map_of selector k = Some v \<Longrightarrow> map_of (label_loop selector ls) k = Some v"
proof (induction selector ls rule: label_loop.induct)
  case (2 k' v' selector ls)
  have "k' \<notin> fst ` set sel \<Longrightarrow> map_of (label_loop sel ls') k' = map_of ls' k'" for sel ls'
    by (induction sel ls' rule: label_loop.induct) (auto simp: update_conv')
  with 2 show ?case by (auto simp: is_map_def update_conv' split: if_splits)
qed simp

lemma label_loop_new: "is_map (ls @ selector) \<Longrightarrow> label_loop selector ls = ls @ selector"
proof (induction selector ls rule: label_loop.induct)
  case (2 k v selector ls)
  then have "AList.update k v ls = ls @ [(k, v)]" by (auto simp: is_map_def intro: update_new)
  with 2 show ?case by simp
qed simp

text \<open>
  A pod the tests build for a pool is ready, lives in a namespace and carries every label the
  pool selects by.
\<close>

theorem built_pod_selected:
  assumes "is_map selector" "map_of (Selector (pool_Spec (PoolWrapper_Selector selector pool))) k = Some v"
  shows "podIsReady (PodWrapper_Complete (ReadyCondition (LabelsFromPoolSelector selector pod)))"
    "Namespace (pod_meta (PodWrapper_Complete (ReadyCondition (LabelsFromPoolSelector selector pod)))) \<noteq> []"
    "map_of (Labels (pod_meta (PodWrapper_Complete (ReadyCondition (LabelsFromPoolSelector selector pod))))) k = Some v"
proof -
  have "map_of selector k = Some v"
    using assms label_loop_new [of "[]" selector] by (simp add: PoolWrapper_Selector_def)
  then show "map_of (Labels (pod_meta (PodWrapper_Complete (ReadyCondition (LabelsFromPoolSelector selector pod))))) k = Some v"
    using label_loop_map [OF assms(1)]
    by (simp add: PodWrapper_Complete_def ReadyCondition_def LabelsFromPoolSelector_def PodWrapper_Namespace_def)
qed (simp_all add: PodWrapper_Complete_def ReadyCondition_def LabelsFromPoolSelector_def PodWrapper_Namespace_def podIsReady_def)

subsection \<open>Requests\<close>

definition request_doc :: "string \<Rightarrow> string \<Rightarrow> json_map" where
  "request_doc prompt model =
     [(''model'', JString model), (''prompt'', JString prompt), (''max_tokens'', JNum (Fin 100)), (''temperature'', JNum (Fin 0))]"

definition GenerateRequest :: "json_codec \<Rightarrow> string \<Rightarrow> string \<Rightarrow> ProcessingRequest go" where
  \<comment> \<open>\<open>logutil.Fatal\<close> ends the process\<close>
  "GenerateRequest codec prompt model =
     (case MarshalMap codec (Some (request_doc prompt model)) of
        Inl err \<Rightarrow> Panic ''Failed to unmarshal LLM request''
      | Inr llmReq \<Rightarrow> Ret (RequestBody \<lparr>body_Body = llmReq, body_EndOfStream = True\<rparr>))"

definition GenerateStreamedRequestSet :: "json_codec \<Rightarrow> string \<Rightarrow> string \<Rightarrow> ProcessingRequest list go" where
  \<comment> \<open>the header has its value in the field \<open>Value\<close>, which the servers do not read\<close>
  "GenerateStreamedRequestSet codec prompt model =
     go_bind (GenerateRequest codec prompt model) (\<lambda>req.
       Ret [RequestHeaders \<lparr>Headers = [\<lparr>hdr_Key = ''hi'', hdr_RawValue = []\<rparr>], headers_EndOfStream = False\<rparr>, req])"

text \<open>
  The generated requests are whole requests for the given model: the headers are not the
  end of the stream, the body is, and it is decoded to the model and the prompt.
\<close>

theorem generated_request_decoded:
  assumes "valid_utf8 prompt" "valid_utf8 model"
  shows "\<exists>h b es. GenerateStreamedRequestSet (go_json errtext) prompt model = Ret [RequestHeaders h, RequestBody b] \<and>
    \<not> headers_EndOfStream h \<and> body_EndOfStream b \<and> unmarshal_map errtext None (body_Body b) = (Some es, None) \<and>
    map_of es ''model'' = Some (JString model) \<and> map_of es ''prompt'' = Some (JString prompt)"
proof -
  have f: "is_f64 (Fin 100)" by (rule is_f64_exact [of _ 100 0]) (simp_all add: MaxFloat_def)
  have k: "valid_utf8 ''model''" "valid_utf8 ''prompt''" "valid_utf8 ''max_tokens''" "valid_utf8 ''temperature''" by code_simp+
  have wf: "wf_doc (request_doc prompt model)"
    using assms f k by (simp add: wf_doc_iff request_doc_def is_map_def)
  from go.read_back [OF this, of errtext] obtain bytes where
    b: "MarshalMap (go_json errtext) (Some (request_doc prompt model)) = Inr bytes"
      "UnmarshalMap (go_json errtext) None bytes = (Some (canon_map (request_doc prompt model)), None)" by blast
  have "map_of (canon_map (request_doc prompt model)) ''model'' = Some (JString model)"
    "map_of (canon_map (request_doc prompt model)) ''prompt'' = Some (JString prompt)"
    using go.norm_get [OF wf] by (simp_all add: request_doc_def)
  with b show ?thesis by (simp add: GenerateStreamedRequestSet_def GenerateRequest_def del: go_json_simps) simp
qed

end
