(* ===== verification/Spec2Isabelle.thy ===== *)
theory Spec2Isabelle
  imports Cluster_Models Pod_Races Fake_Metrics Datastore_Locks Api_Patterns Deep_Copy Apply_Config Clients Test_Utils
begin

text \<open>
  A verification development of the Gateway API inference extension: the endpoint picker
  (EPP, pkg/epp) and body-based routing (BBR, pkg/body-based-routing).

  \<^bold>\<open>The program.\<close> Envoy sends every HTTP request of an inference gateway to an external
  processor over a gRPC stream. The EPP decodes the body, resolves the model with the
  InferenceModel objects of the cluster, asks a front end for a worker, lets its scheduler
  choose a pod by the metrics it scrapes from the model servers, and answers with the
  endpoint. Three reconcilers keep its datastore in step with the cluster; one goroutine
  per pod refreshes that pod's metrics. BBR copies the model of the body into a header.

  \<^bold>\<open>Theories and sources.\<close>
  \<^item> \<open>Prelude\<close>, \<open>Float64\<close>, \<open>Go_Strings\<close>: outcomes of Go calls (\<open>'a go\<close>, a value or a
    panic), the 64-bit \<open>int\<close>, maps as association lists, runs of a step relation; IEEE
    doubles with round-to-even; the functions of strings and strconv the code uses.
  \<^item> \<open>Api_Types\<close> (api/v1alpha2, util/error): InferenceModel and InferencePool, what their
    validation markers admit, error values and codes. \<open>Api_Patterns\<close>: the patterns of the
    markers as regular expressions with a matcher.
  \<^item> \<open>Env\<close> (util/env), \<open>Metric_Spec\<close> (backend/metrics/metrics_spec.go): configuration from the
    environment; the parser of metric specifications.
  \<^item> \<open>Json\<close>, \<open>Json_Number\<close>, \<open>Json_String\<close>, \<open>Json_Codec\<close>, \<open>Json_Roundtrip\<close>: the part of
    encoding/json the program uses, on bytes: the scanner, numbers with their conversion to
    and from doubles, strings with UTF-8 and escapes, decoding into a map, encoding.
    \<open>go_json\<close> is the codec all end-to-end properties are about; only the texts of its error
    messages are left open (\<open>errtext\<close>).
  \<^item> \<open>Backend_Metrics\<close> (backend/metrics/metrics.go, types.go), \<open>Pod_Metrics\<close>
    (pod_metrics.go), \<open>Fake_Metrics\<close> (fake.go): reading scraped families into the metrics of
    a pod; the object of a pod with its refresh loop; the client with injected metrics.
  \<^item> \<open>Datastore\<close> (datastore/datastore.go): the pool, the models by model name and the pods by
    name. The pod objects, which the loops share with the store, live in a heap of the
    record \<open>datastore\<close>; the map holds their addresses. \<open>Rw_Mutex\<close>, \<open>Datastore_Locks\<close>: goroutines
    that share data under a \<open>sync.RWMutex\<close>, and the operations of the datastore on them,
    instruction by instruction. \<open>Pod_Races\<close>: the same for the operations on the pods, which no
    lock protects.
  \<^item> \<open>Filters\<close>, \<open>Scheduler\<close> (scheduling): the filters, the decision tree as a datatype and
    \<open>Schedule\<close>.
  \<^item> \<open>Epp_Metrics\<close> (metrics/metrics.go), \<open>Metrics_Logger\<close> (backend/metrics/logger.go): the
    Prometheus vectors as functions of their labels; the exported averages.
  \<^item> \<open>Controllers\<close> (controller): the reconcilers, and \<open>ctrl_step\<close>, the relation of all steps
    that change the store.
  \<^item> \<open>Ext_Proc\<close> (handlers: the shared parts), \<open>Frontend\<close> (\<open>callFrontEndForWorker\<close>),
    \<open>Streaming_Server\<close>, \<open>Streaming_Process\<close>, \<open>Streaming_Properties\<close>
    (handlers/streamingserver.go), \<open>Server\<close> (handlers/server.go, request.go, response.go):
    the two external processing servers. One stream is a list of what \<open>Recv\<close> returns.
  \<^item> \<open>Documents\<close>: the JSON documents that pass through the streaming server.
  \<^item> \<open>BBR\<close> (pkg/body-based-routing): the same for body-based routing.
  \<^item> \<open>Wiring\<close> (cmd, pkg/epp/server, pkg/body-based-routing/server, internal): flags, the
    steps of \<open>run\<close>, what is handed to the manager, health checks, certificates.
  \<^item> \<open>Cluster\<close>: the endpoint picker and the API server together. \<open>sys_step\<close> interleaves
    changes of the cluster, the work queues of the controllers and the refresh loops.
    \<open>Cluster_Models\<close>: the models in the same system.
  \<^item> \<open>Deep_Copy\<close> (api/v1alpha2/zz_generated.deepcopy.go): the generated copies on a store of
    cells. \<open>Informers\<close> (client-go/informers): the factory of shared informers as a state
    machine. \<open>Clients\<close> (client-go/clientset, listers): how typed clients are put together.
    \<open>Apply_Config\<close> (client-go/applyconfiguration): the builders of declarative configurations.
  \<^item> \<open>Test_Utils\<close> (util/testing): the builders of the tests.
  \<^item> \<open>Examples\<close>: the small objects on which the properties are instantiated.

  \<^bold>\<open>Interfaces.\<close> \<open>narrowing_filter\<close>, \<open>total_filter\<close> and \<open>filter_in_front\<close> (Scheduler) are the
  contracts of the filters, interpreted on every filter of the tree; \<open>model_store\<close> and
  \<open>pod_store\<close> (Datastore) are what the reconcilers rely on, interpreted on the datastore;
  \<open>pod_metrics_client\<close> (Backend_Metrics) is what the refresh loop relies on, interpreted on
  the fake client and, extended to \<open>scraping_client\<close>, on the Prometheus client;
  \<open>document_codec\<close> (Json_Roundtrip) is what the servers rely on in a JSON codec (what it
  decodes is well formed, what is well formed is encoded and read back), interpreted on
  \<open>go_json\<close>; \<open>step_invariant\<close> (Prelude) carries an invariant along runs and is interpreted
  on \<open>ctrl_step\<close>, \<open>sys_step\<close>, \<open>rw_step\<close>, \<open>pod_go\<close> and \<open>factory_step\<close>; \<open>work_queue\<close> (Prelude) empties a queue
  entry by entry and is interpreted on the pod and pool keys (Cluster), on the model keys
  (Cluster_Models) and on the goroutines of the informers; \<open>locked_operations\<close> (Rw_Mutex) makes
  runs of operations that are one section of the lock each linearizable, interpreted on the
  code of the datastore; \<open>deep_copy\<close> (Deep_Copy) is what a copy promises, interpreted on the
  copies of every type; \<open>set_field\<close>, \<open>merge_field\<close> and \<open>append_field\<close> (Apply_Config) are what the
  comments of the builders promise, interpreted on every method.

  \<^bold>\<open>What is shown.\<close> This theory composes the components: critical requests are served, by a
  ready pod of the cluster once the controllers have caught up; load is shed with 429, and so
  is every request when there are no pods; a body that is decoded with an error to a map (a number out of range) splits the two
  servers. Cluster and Cluster_Models: the datastore differs from the cluster only where a
  key is queued, and catches up; the oldest object of each model name is the one in use as
  long as the pool stays and objects keep their model name and creation time, and why that is
  needed. Wiring:
  a process starts with all its parts or not at all. JSON: decoding inverts encoding up to
  the order of keys (\<open>canon\<close>). Scheduler: admission, affinity, the exact ranges the filters
  keep.
  Datastore_Locks: the operations of the datastore have the effect of atomic steps however
  their instructions interleave, goroutines that do not call \<open>PoolGet\<close> always return, and a
  run in which \<open>PoolGet\<close> blocks for ever. Pod_Races: no refresh loop is lost as long as no two
  goroutines add the same pod, and the run in which two do and one is. Api_Patterns: the patterns admit what the comments
  say. Deep_Copy: a copy reads as the original and shares nothing with it. Informers: one
  informer and one goroutine per type, and shutdown returns. Apply_Config: every object can
  be described and is read back.
  Controllers and Datastore: the invariant of the store over all runs, that reconciling a
  pod is a point update of the abstract map from names to pods, that the oldest object of a
  model wins, and where the code panics or leaks for ever. Streaming server: the order of the
  responses as an invariant of the state machine (response headers once), the balance of the gauge, the answers to
  routed and to rejected requests, pass-through of streamed responses. Buffering server: it
  takes the decisions of the streaming server and answers every message once until the one
  that ends the stream. Documents:
  bodies stay well-formed documents, buffered responses keep theirs, and which usage makes the
  server panic. Front end:
  the body it is sent and that the documented event yields the worker.

  \<^bold>\<open>Termination.\<close> Every function of the model is total: loops over a finite list recurse on it,
  a stream is the list of what was received so far (\<open>Running\<close> when the code would go on
  waiting), a refresh loop is a list of rounds. No fuel is used.

  \<^bold>\<open>Parameters.\<close> Random draws, the clock, the API client, label selectors, the HTTP
  transport, the Prometheus text parser, \<open>ParseFloat\<close> of environment variables, the error
  texts of encoding/json, the conversion of out-of-range doubles to integers (which Go
  leaves to the platform) and what controller-runtime, gRPC and the crypto library answer
  are arguments. Properties hold for all of them; where a property needs more it says so.

  \<^bold>\<open>Not modelled.\<close> Log output, the end-to-end tests (test), the schema text of the apply
  configurations, and what client-go does behind the generated code (a running informer, the
  object tracker, REST calls). The client of the manager reads the cluster as it is: the
  delay of a watch is the time a key waits on its queue, stale reads are not modelled. In
  \<open>ctrl_step\<close> and \<open>sys_step\<close> a whole reconciliation is one step: the list that \<open>PodResyncAll\<close> or
  \<open>ModelResync\<close> reads is that of the cluster at this step, and it is read from the cache, so
  that in \<open>sys_step\<close> it does not fail (the reconcilers themselves take a list that may fail;
  \<open>failed_list_is_lost\<close> and \<open>failed_model_list_is_lost\<close> show what happens then). For the operations
  that take the lock of the datastore Datastore_Locks shows that they may be taken for steps;
  for those on the pods, which are in a \<open>sync.Map\<close> with atomic operations and no lock, Pod_Races
  shows what is left when they overlap. A handler of a request reads the datastore at one
  moment per message. Two label maps are compared as sets of entries: \<open>reflect.DeepEqual\<close> also
  tells a nil map from an empty one.
\<close>

subsection \<open>From the message to the pod\<close>

definition servable :: "datastore \<Rightarrow> string \<Rightarrow> InferenceModel \<Rightarrow> bool" where
  \<comment> \<open>the model is defined by an object the API server admits, with named targets (in UTF-8)\<close>
  "servable ds name obj \<longleftrightarrow> ModelGet ds name = Some obj \<and> valid_TargetModels (TargetModels (model_Spec obj)) \<and>
     list_all (\<lambda>t. tm_Name t \<noteq> [] \<and> valid_utf8 (tm_Name t)) (TargetModels (model_Spec obj))"

definition targets :: "InferenceModel \<Rightarrow> string \<Rightarrow> string set" where
  \<comment> \<open>the names a request for the model may be resolved to\<close>
  "targets obj name = (if TargetModels (model_Spec obj) = [] then {name} else tm_Name ` set (TargetModels (model_Spec obj)))"

lemma servable_resolves:
  assumes s: "servable ds name obj" and doc: "map_of es ''model'' = Some (JString name)"
  shows "\<exists>target\<in>targets obj name. assembleRequest ds r (Some es) =
    Ret (Inr \<lparr>req_Model = name, req_TargetModels = [], ResolvedTargetModel = target, req_Critical = IsCritical obj\<rparr>)"
proof (cases "TargetModels (model_Spec obj) = []")
  case True
  with s doc show ?thesis by (simp add: assembleRequest_def json_get_def servable_def targets_def)
next
  case False
  with s RandomWeightedDraw_returns [of obj r] obtain t where
    t: "t \<in> set (TargetModels (model_Spec obj))" "RandomWeightedDraw obj r = Ret (tm_Name t)" by (auto simp: servable_def)
  with s have "tm_Name t \<noteq> []" by (auto simp: servable_def list_all_iff)
  with s doc t False show ?thesis
    by (intro bexI [of _ "tm_Name t"]) (simp_all add: assembleRequest_def json_get_def servable_def targets_def)
qed

lemma lowLatency_Schedule:
  assumes sane: "sane_pods (PodGetAll ds)" and crit: "req_Critical req"
  shows "\<exists>pm. Schedule config ds u r req = Ret (Inr pm)"
proof -
  have "\<exists>res. Filter (defaultFilter config) u req (PodGetAll ds) = (res, None) \<and> res \<noteq> []"
    using lowLatency_total [OF sane, of config u req] sane crit by (auto simp: defaultFilter_split)
  then show ?thesis using Schedule_picks by blast
qed

definition resolved_doc :: "string \<Rightarrow> string \<Rightarrow> json_map \<Rightarrow> json_map" where
  \<comment> \<open>the client's document with the model replaced by the target\<close>
  "resolved_doc name target es = (if target = name then es else AList.update ''model'' (JString target) es)"

lemma resolved_doc_wf:
  assumes "servable ds name obj" "target \<in> targets obj name" "fst (unmarshal_map errtext None body) = Some es"
  shows "wf_doc (resolved_doc name target es)"
proof -
  have "wf_doc es" using go.decoded [of errtext body es] assms(3) by simp
  moreover have "target = name \<or> valid_utf8 target"
    using assms(1,2) by (auto simp: servable_def targets_def list_all_iff split: if_splits)
  ultimately show ?thesis by (auto simp: resolved_doc_def go.good_model)
qed

lemma served:
  assumes h: "\<not> headers_EndOfStream h" and b: "body_EndOfStream b" and send: "send 0 = None" "send 1 = None"
    and doc: "fst (unmarshal_map errtext None (body_Body b)) = Some es" "map_of es ''model'' = Some (JString name)"
    and model: "servable (env_ds env) name obj" "IsCritical obj"
    and pool: "ds_pool (env_ds env) = Some pool" and pods: "sane_pods (PodGetAll (env_ds env))"
  shows "\<exists>pm\<in>set (PodGetAll (env_ds env)). \<exists>target\<in>targets obj name. \<exists>wid bytes st'.
    unmarshal_map errtext None bytes = (Some (canon_map (resolved_doc name target es)), None) \<and>
    Process s (go_json errtext) conv send [Recv (RequestHeaders h) env0, Recv (RequestBody b) env] (initial_stream mets) = Ret (Running st') \<and>
    st_sent st' = [header_response s wid (endpoint_of (pm_pod pm) pool) (int (length bytes)), body_response bytes]"
proof -
  let ?codec = "go_json errtext"
  obtain target where t: "target \<in> targets obj name" "assembleRequest (env_ds env) (env_model_draw env) (Some es) =
      Ret (Inr \<lparr>req_Model = name, req_TargetModels = [], ResolvedTargetModel = target, req_Critical = IsCritical obj\<rparr>)"
    using servable_resolves [OF model(1) doc(2)] by blast
  let ?req = "\<lparr>req_Model = name, req_TargetModels = [], ResolvedTargetModel = target, req_Critical = IsCritical obj\<rparr>"
  have es': "replace_model ?req (Some es) = Some (resolved_doc name target es)"
    by (simp add: replace_model_def resolved_doc_def)
  obtain bytes where bytes: "MarshalMap ?codec (replace_model ?req (Some es)) = Inr bytes"
    and readback: "unmarshal_map errtext None bytes = (Some (canon_map (resolved_doc name target es)), None)"
    using go.read_back [OF resolved_doc_wf [OF model(1) t(1) doc(1)], of errtext] unfolding es' by auto
  obtain pm where pm: "Schedule (env_config env) (env_ds env) (env_u env) (env_pod_draw env) ?req = Ret (Inr pm)"
    using lowLatency_Schedule [OF pods, of ?req "env_config env" "env_u env" "env_pod_draw env"] model(2) by auto
  let ?c = "newRequestContext\<lparr>RequestReceivedTimestamp := env_now env0\<rparr>"
  obtain c1 m1 where f: "ask_frontend ?codec env ?c (replace_model ?req (Some es)) = (c1, m1)" by fastforce
  have "PoolGet (env_ds env) = Inr pool" using pool by (simp add: PoolGet_Some)
  with t(2) bytes pm f obtain c' m' where hb: "HandleRequestBody s ?codec env ?c (Some es) = Ret ((c', m'), None)"
    by (simp add: HandleRequestBody_def Let_def del: go_json_simps)
  have d: "Some es = fst (UnmarshalMap ?codec None (body_Body b))" using doc(1) by simp
  from hb show ?thesis
  proof (rule handled_context)
    fix llmReq bytes' pm' pool' wid
    assume w: "assembleRequest (env_ds env) (env_model_draw env) (Some es) = Ret (Inr llmReq)"
      "MarshalMap ?codec (replace_model llmReq (Some es)) = Inr bytes'"
      "pm' \<in> set (PodGetAll (env_ds env))" "ds_pool (env_ds env) = Some pool'"
      "reqHeaderResp c' = Some (header_response s wid (endpoint_of (pm_pod pm') pool') (int (length bytes')))"
      "reqBodyResp c' = Some (body_response bytes')" "RequestState c' = RequestReceived" "reqTrailerResp c' = None"
    have eqs: "llmReq = ?req" "bytes' = bytes" "pool' = pool" using w t(2) bytes pool by auto
    from process_routed [where send = send, OF h b send d hb w(5-8), of conv "[]" mets] obtain st' where
      "Process s ?codec conv send [Recv (RequestHeaders h) env0, Recv (RequestBody b) env] (initial_stream mets) = Ret (Running st')"
      "st_sent st' = [header_response s wid (endpoint_of (pm_pod pm') pool) (int (length bytes)), body_response bytes]"
      by (auto simp del: Process.simps go_json_simps simp: eqs Process.simps(1))
    with w(3) t(1) readback show ?thesis by (intro bexI [of _ pm'] bexI [of _ target] exI conjI)
  qed
qed

text \<open>
  C1. A critical request is served: when its model is defined by an object the API server
  admits, the pool is known and has pods with sane metrics, a stream with the request is
  answered, whatever the draws, the configuration and the front end do, with the endpoint
  of a pod of the datastore and with bytes that are decoded to the client's document, only
  the model replaced by one of the model's targets.
\<close>

theorem critical_request_served:
  assumes "\<not> headers_EndOfStream h" "body_EndOfStream b" "send 0 = None" "send 1 = None"
    and "fst (unmarshal_map errtext None (body_Body b)) = Some es" "map_of es ''model'' = Some (JString name)"
    and "servable (env_ds env) name obj" "IsCritical obj"
    and "ds_pool (env_ds env) = Some pool" "sane_pods (PodGetAll (env_ds env))"
  shows "\<exists>pm\<in>set (PodGetAll (env_ds env)). \<exists>target\<in>targets obj name. \<exists>wid bytes st'.
    unmarshal_map errtext None bytes = (Some (canon_map (resolved_doc name target es)), None) \<and>
    Process s (go_json errtext) conv send [Recv (RequestHeaders h) env0, Recv (RequestBody b) env] (initial_stream mets) = Ret (Running st') \<and>
    st_sent st' = [header_response s wid (endpoint_of (pm_pod pm) pool) (int (length bytes)), body_response bytes]"
  using assms by (rule served [where send = send])

lemma example_servable:
  "servable example_pool_ds ''m'' (example_model ''m1'' 1 [])" "IsCritical (example_model ''m1'' 1 [])"
  by (simp_all add: servable_def ModelGet_def example_pool_ds_simps valid_TargetModels_def IsCritical_def) (simp_all add: example_model_def valid_TargetModels_def)

lemma example_env_facts:
  "env_ds example_env = example_pool_ds" "ds_pool (env_ds example_env) = Some example_pool" "sane_pods (PodGetAll (env_ds example_env))"
  using example_sane by (simp_all add: example_env_def example_pool_ds_simps example_pool_pods)

theorem critical_request_served_witness:
  "\<exists>pm\<in>set (PodGetAll example_pool_ds). \<exists>wid bytes st'.
    unmarshal_map (\<lambda>_ _. []) None bytes = (Some (canon_map example_doc), None) \<and>
    Process example_server (go_json (\<lambda>_ _. [])) (\<lambda>_. 0) (\<lambda>_. None) example_messages (initial_stream no_metrics) = Ret (Running st') \<and>
    st_sent st' = [header_response example_server wid (endpoint_of (pm_pod pm) example_pool) (int (length bytes)), body_response bytes]"
proof -
  have 1: "fst (unmarshal_map (\<lambda>_ _. []) None (body_Body example_body)) = Some example_doc" by (simp add: example_unmarshal)
  have 2: "targets (example_model ''m1'' 1 []) ''m'' = {''m''}" by (simp add: targets_def example_model_def)
  from critical_request_served [where send = "\<lambda>_. None" and h = example_headers and b = example_body and s = example_server and
      conv = "\<lambda>_. 0" and ?env0.0 = example_env and mets = no_metrics, OF _ _ _ _ 1 _ _ _ example_env_facts(2,3), of "''m''" "example_model ''m1'' 1 []"]
    example_servable
  show ?thesis by (auto simp del: Process.simps simp: example_env_facts(1) example_messages_def 2 resolved_doc_def)
qed

lemma dropped:
  assumes h: "\<not> headers_EndOfStream h" and b: "body_EndOfStream b" and send: "send 0 = None"
    and doc: "fst (unmarshal_map errtext None (body_Body b)) = Some es" "map_of es ''model'' = Some (JString name)"
    and model: "servable (env_ds env) name obj"
    and drops: "\<And>req. req_Critical req = IsCritical obj \<Longrightarrow>
      \<exists>e. Schedule (env_config env) (env_ds env) (env_u env) (env_pod_draw env) req = Ret (Inl e)"
  shows "\<exists>st'. Process s (go_json errtext) conv send (Recv (RequestHeaders h) env0 # Recv (RequestBody b) env # rs) (initial_stream mets) =
      Ret (Returned st' None) \<and> st_sent st' = [mk_response (ImmediateResponse 429)] \<and>
    st_metrics st' = RecordRequestErrCounter [] [] InferencePoolResourceExhausted mets"
proof -
  let ?codec = "go_json errtext"
  obtain target where t: "target \<in> targets obj name" "assembleRequest (env_ds env) (env_model_draw env) (Some es) =
      Ret (Inr \<lparr>req_Model = name, req_TargetModels = [], ResolvedTargetModel = target, req_Critical = IsCritical obj\<rparr>)"
    using servable_resolves [OF model doc(2)] by blast
  let ?req = "\<lparr>req_Model = name, req_TargetModels = [], ResolvedTargetModel = target, req_Critical = IsCritical obj\<rparr>"
  have "replace_model ?req (Some es) = Some (resolved_doc name target es)" by (simp add: replace_model_def resolved_doc_def)
  then obtain bytes where bytes: "MarshalMap ?codec (replace_model ?req (Some es)) = Inr bytes"
    using go.encodes [OF resolved_doc_wf [OF model t(1) doc(1)], of errtext] by auto
  obtain e where "Schedule (env_config env) (env_ds env) (env_u env) (env_pod_draw env) ?req = Ret (Inl e)"
    using drops [of ?req] by auto
  from reject_causeI(2) [where codec = ?codec, OF t(2) bytes this]
  have "reject_cause ?codec env (fst (UnmarshalMap ?codec None (body_Body b))) InferencePoolResourceExhausted 429"
    using doc(1) by simp
  from process_reject_cause [where send = send, OF h b send this] show ?thesis by blast
qed

text \<open>
  C3. Load is shed at the edge: a request for a model that is not critical, when there are pods
  and none of them has capacity, is refused with status 429 as the only response, and
  counted once.
\<close>

theorem sheddable_request_refused:
  assumes "\<not> headers_EndOfStream h" "body_EndOfStream b" "send 0 = None"
    and "fst (unmarshal_map errtext None (body_Body b)) = Some es" "map_of es ''model'' = Some (JString name)"
    and "servable (env_ds env) name obj" and noncrit: "\<not> IsCritical obj"
    and "PodGetAll (env_ds env) \<noteq> []" and full: "\<forall>p\<in>set (PodGetAll (env_ds env)). \<not> has_capacity (env_config env) p"
  shows "\<exists>st'. Process s (go_json errtext) conv send (Recv (RequestHeaders h) env0 # Recv (RequestBody b) env # rs) (initial_stream mets) =
      Ret (Returned st' None) \<and> st_sent st' = [mk_response (ImmediateResponse 429)] \<and>
    st_metrics st' = RecordRequestErrCounter [] [] InferencePoolResourceExhausted mets"
proof (rule dropped [where send = send, OF assms(1-6)])
  fix req :: LLMRequest
  assume "req_Critical req = IsCritical obj"
  with noncrit full have "Filter (defaultFilter (env_config env)) (env_u env) req (PodGetAll (env_ds env)) =
      drop_request (env_u env) req (PodGetAll (env_ds env))"
    by (simp add: defaultFilter_split sheddable_drops)
  from Schedule_drops [OF this] show "\<exists>e. Schedule (env_config env) (env_ds env) (env_u env) (env_pod_draw env) req = Ret (Inl e)"
    by blast
qed

definition example_busy_ds :: datastore where
  \<comment> \<open>the pool, two pods with 200 requests waiting each, and the model without criticality\<close>
  "example_busy_ds = fst (ModelSetIfOlder (PoolSet (example_queuing 200) (Some example_pool))
     ((example_model ''m1'' 1 [])\<lparr>model_Spec := (model_Spec (example_model ''m1'' 1 []))\<lparr>Criticality := None\<rparr>\<rparr>))"

lemma example_busy_facts:
  "PodGetAll example_busy_ds = PodGetAll (example_queuing 200)"
  "servable example_busy_ds ''m''
     ((example_model ''m1'' 1 [])\<lparr>model_Spec := (model_Spec (example_model ''m1'' 1 []))\<lparr>Criticality := None\<rparr>\<rparr>)"
  by (simp_all add: example_busy_ds_def PodGetAll_def PodList_def servable_def ModelGet_def ModelSetIfOlder_def PoolSet_def
      example_queuing_def example_pool_ds_simps example_model_def valid_TargetModels_def)

theorem sheddable_request_refused_witness:
  "\<exists>st'. Process example_server (go_json (\<lambda>_ _. [])) (\<lambda>_. 0) (\<lambda>_. None)
      [Recv (RequestHeaders example_headers) example_env, Recv (RequestBody example_body) (example_env\<lparr>env_ds := example_busy_ds\<rparr>)]
      (initial_stream no_metrics) = Ret (Returned st' None) \<and> st_sent st' = [mk_response (ImmediateResponse 429)]"
proof -
  let ?env = "example_env\<lparr>env_ds := example_busy_ds\<rparr>"
  let ?m = "(example_model ''m1'' 1 [])\<lparr>model_Spec := (model_Spec (example_model ''m1'' 1 []))\<lparr>Criticality := None\<rparr>\<rparr>"
  have 1: "fst (unmarshal_map (\<lambda>_ _. []) None (body_Body example_body)) = Some example_doc" by (simp add: example_unmarshal)
  have 2: "servable (env_ds ?env) ''m'' ?m" "\<not> IsCritical ?m" using example_busy_facts(2) by (simp_all add: IsCritical_def)
  have 3: "PodGetAll (env_ds ?env) \<noteq> []" "\<forall>p\<in>set (PodGetAll (env_ds ?env)). \<not> has_capacity (env_config ?env) p"
    by (simp_all add: example_busy_facts(1) example_queuing_pods has_capacity_def example_env_def example_config_def LoadConfig_def
        GetEnvInt_def defaultQueueThresholdCritical_def)
  from sheddable_request_refused [where send = "\<lambda>_. None" and h = example_headers and b = example_body and s = example_server and
      conv = "\<lambda>_. 0" and ?env0.0 = example_env and mets = no_metrics and rs = "[]" and env = ?env and name = "''m''",
      OF _ _ _ 1 _ 2 3]
  show ?thesis by (auto simp del: Process.simps)
qed

text \<open>
  Without pods every request, critical or not, gets the same 429 as under load: the filter of
  critical requests finds no pod, so the request falls through to the last filter. The
  protocol (docs/proposals/004-endpoint-picker-protocol) asks for 503 when there are no
  ready endpoints.
\<close>

theorem request_without_pods:
  assumes "\<not> headers_EndOfStream h" "body_EndOfStream b" "send 0 = None"
    and "fst (unmarshal_map errtext None (body_Body b)) = Some es" "map_of es ''model'' = Some (JString name)"
    and "servable (env_ds env) name obj" and none: "PodGetAll (env_ds env) = []"
  shows "\<exists>st'. Process s (go_json errtext) conv send (Recv (RequestHeaders h) env0 # Recv (RequestBody b) env # rs) (initial_stream mets) =
      Ret (Returned st' None) \<and> st_sent st' = [mk_response (ImmediateResponse 429)] \<and>
    st_metrics st' = RecordRequestErrCounter [] [] InferencePoolResourceExhausted mets"
  by (rule dropped [where send = send, OF assms(1-6)]) (use no_pods_drop [OF none] in blast)

subsection \<open>From the cluster to the endpoint\<close>










subsection \<open>A number out of range\<close>

text \<open>
  C37. The two servers do not agree on every body. A body with a number beyond the range of
  \<open>float64\<close> is decoded with an error to a map in which that number is null. The buffering
  server answers it with status 400; the streaming server looks at the map only and routes
  the request, with the number silently replaced by null.
\<close>

theorem out_of_range_number_splits_servers:
  assumes h: "\<not> headers_EndOfStream h" and b: "body_EndOfStream b" and send: "send 0 = None" "send 1 = None"
    and doc: "unmarshal_map errtext None (body_Body b) = (Some es, Some e)" "map_of es ''model'' = Some (JString name)"
    and model: "servable (env_ds env) name obj" "IsCritical obj"
    and pool: "ds_pool (env_ds env) = Some pool" and pods: "sane_pods (PodGetAll (env_ds env))"
  shows "(\<exists>target\<in>targets obj name. \<exists>bytes st' resp.
      unmarshal_map errtext None bytes = (Some (canon_map (resolved_doc name target es)), None) \<and>
      Process s (go_json errtext) conv send [Recv (RequestHeaders h) env0, Recv (RequestBody b) env] (initial_stream mets) =
        Ret (Running st') \<and> st_sent st' = [resp, body_response bytes]) \<and>
    (\<exists>st. Server_Process s (go_json errtext) send [Recv (RequestHeaders h) env0, Recv (RequestBody b) env] (initial_server mets) =
        Ret (ServerRunning st) \<and> sv_sent st = [Server_HandleRequestHeaders, mk_response (ImmediateResponse 400)])"
proof
  have d: "fst (unmarshal_map errtext None (body_Body b)) = Some es" using doc(1) by simp
  from served [where send = send, OF h b send d doc(2) model pool pods, of s conv env0 mets]
  show "\<exists>target\<in>targets obj name. \<exists>bytes st' resp.
      unmarshal_map errtext None bytes = (Some (canon_map (resolved_doc name target es)), None) \<and>
      Process s (go_json errtext) conv send [Recv (RequestHeaders h) env0, Recv (RequestBody b) env] (initial_stream mets) =
        Ret (Running st') \<and> st_sent st' = [resp, body_response bytes]"
    by (blast intro: exI)
next
  let ?c = "newRequestContext\<lparr>RequestReceivedTimestamp := env_now env0\<rparr>"
  let ?err = "EppError BadRequest (''error unmarshaling request body: '' @ e)"
  have r: "Server_HandleRequestBody s (go_json errtext) env ?c (body_Body b) = Ret (?c, Inl ?err)"
    by (simp add: Server_HandleRequestBody_def doc(1))
  have "BuildErrResponse ?err = Inr (mk_response (ImmediateResponse 400))"
    by (simp add: BuildErrResponse_def Let_def error_codes StatusCode_BadRequest_def)
  with r send show "\<exists>st. Server_Process s (go_json errtext) send [Recv (RequestHeaders h) env0, Recv (RequestBody b) env]
      (initial_server mets) = Ret (ServerRunning st) \<and> sv_sent st = [Server_HandleRequestHeaders, mk_response (ImmediateResponse 400)]"
    by (simp add: Server_handle_def Server_answer_def initial_server_def newRequestContext_def)
qed

theorem out_of_range_number_splits_servers_witness:
  "\<exists>st'. Process example_server (go_json (\<lambda>_ _. [])) (\<lambda>_. 0) (\<lambda>_. None)
      [Recv (RequestHeaders example_headers) example_env,
       Recv (RequestBody \<lparr>body_Body = example_overflow, body_EndOfStream = True\<rparr>) example_env] (initial_stream no_metrics) =
      Ret (Running st') \<and> length (st_sent st') = 2"
proof -
  let ?b = "\<lparr>body_Body = example_overflow, body_EndOfStream = True\<rparr>"
  have 1: "unmarshal_map (\<lambda>_ _. []) None (body_Body ?b) = (Some [(''model'', JString ''m''), (''n'', JNull)], Some [])"
    by (simp add: overflow_unmarshal)
  from out_of_range_number_splits_servers [where send = "\<lambda>_. None" and h = example_headers and b = ?b and s = example_server and
      conv = "\<lambda>_. 0" and ?env0.0 = example_env and mets = no_metrics, OF _ _ _ _ 1 _ _ _ example_env_facts(2,3), of "''m''" "example_model ''m1'' 1 []"]
    example_servable
  show ?thesis by (auto simp del: Process.simps Server_Process.simps simp: example_env_facts(1))
qed

end
